(* ===== verification/Prelude.thy ===== *)
theory Prelude
  imports Main "HOL-Library.Word"
begin

text \<open>
  Shared vocabulary of the development: the machine types of knxd as words, the assembly and
  disassembly of big-endian fields that every codec uses, a bit-by-bit view of bytes for the mask
  and shift expressions of the C++ code, and the generic interfaces (locales) that several
  components implement: codecs with a round trip, FIFO queues and event-driven state machines
  with an invariant.
\<close>

unbundle bit_operations_syntax

section \<open>Types\<close>

text \<open>\<open>uchar\<close>, \<open>eibaddr_t\<close>, \<open>eibkey_type\<close> and \<open>CArray\<close> of \<^verbatim>\<open>src/src/common/types.h\<close>.\<close>

type_synonym byte = "8 word"
type_synonym u16 = "16 word"
type_synonym u32 = "32 word"
type_synonym eibaddr = "16 word"
type_synonym carray = "8 word list"

section \<open>Collections\<close>

named_theorems byte_bits \<open>equality of bytes and words, bit by bit\<close>
named_theorems byte_fields \<open>assembly and disassembly of big-endian fields\<close>

section \<open>Bit-wise equality\<close>

lemma all_less_8:
  "(\<forall>n<8. P n) \<longleftrightarrow> P 0 \<and> P 1 \<and> P 2 \<and> P 3 \<and> P 4 \<and> P 5 \<and> P 6 \<and> P (7::nat)"
proof -
  have "{..<8::nat} = {0, 1, 2, 3, 4, 5, 6, 7}"
    by (simp add: lessThan_nat_numeral lessThan_Suc insert_commute)
  then have "(\<forall>n<8. P n) \<longleftrightarrow> (\<forall>n\<in>{0, 1, 2, 3, 4, 5, 6, 7}. P n)"
    by (metis lessThan_iff)
  then show ?thesis
    by simp
qed

lemma all_less_split8:
  fixes P :: "nat \<Rightarrow> bool"
  assumes "k = m + 8"
  shows "(\<forall>n<k. P n) \<longleftrightarrow> (\<forall>n<8. P n) \<and> (\<forall>n<m. P (n + 8))"
proof safe
  fix n
  assume low: "\<forall>n<8. P n" and high: "\<forall>n<m. P (n + 8)" and "n < k"
  show "P n"
  proof (cases "n < 8")
    case True
    with low show ?thesis by blast
  next
    case False
    with \<open>n < k\<close> assms have "n - 8 < m" and "n - 8 + 8 = n" by auto
    with high show ?thesis by metis
  qed
qed (use assms in simp_all)

lemma bit_byte_ge [simp]: "8 \<le> n \<Longrightarrow> \<not> bit (x :: 8 word) n"
  using bit_imp_le_length [of x n] by auto

lemma bit_u16_ge [simp]: "16 \<le> n \<Longrightarrow> \<not> bit (x :: 16 word) n"
  using bit_imp_le_length [of x n] by auto

lemma word_eq_bits: "(x :: 'a::len word) = y \<longleftrightarrow> (\<forall>n<LENGTH('a). bit x n = bit y n)"
  by (metis bit_word_eqI)

lemma byte_eq_bits [byte_bits]:
  "(x :: 8 word) = y \<longleftrightarrow>
     bit x 0 = bit y 0 \<and> bit x 1 = bit y 1 \<and> bit x 2 = bit y 2 \<and> bit x 3 = bit y 3 \<and>
     bit x 4 = bit y 4 \<and> bit x 5 = bit y 5 \<and> bit x 6 = bit y 6 \<and> bit x 7 = bit y 7"
proof -
  have "x = y \<longleftrightarrow> (\<forall>n<8. bit x n = bit y n)"
    by (simp add: word_eq_bits)
  then show ?thesis
    by (simp only: all_less_8)
qed

lemma u16_eq_bits:
  "(x :: 16 word) = y \<longleftrightarrow>
     (\<forall>n<8. bit x n = bit y n) \<and> (\<forall>n<8. bit x (n + 8) = bit y (n + 8))"
proof -
  have "x = y \<longleftrightarrow> (\<forall>n<16. bit x n = bit y n)"
    by (simp add: word_eq_bits)
  then show ?thesis
    by (simp add: all_less_split8 [of 16 8])
qed

lemma u32_eq_bits:
  "(x :: 32 word) = y \<longleftrightarrow>
     (\<forall>n<8. bit x n = bit y n) \<and> (\<forall>n<8. bit x (n + 8) = bit y (n + 8)) \<and>
     (\<forall>n<8. bit x (n + 16) = bit y (n + 16)) \<and> (\<forall>n<8. bit x (n + 24) = bit y (n + 24))"
proof -
  have "x = y \<longleftrightarrow> (\<forall>n<32. bit x n = bit y n)"
    by (simp add: word_eq_bits)
  then show ?thesis
    by (simp only: all_less_split8 [of 32 24] all_less_split8 [of 24 16] all_less_split8 [of 16 8])
      (simp add: add.assoc)
qed

declare bit_simps [byte_bits]
lemmas word_bits = u16_eq_bits u32_eq_bits all_less_8 byte_bits

section \<open>Big-endian fields\<close>

text \<open>
  \<open>(h << 8) | l\<close> stored into a \<open>uint16_t\<close>; \<open>(w >> 8) & 0xff\<close> and \<open>w & 0xff\<close> stored into a byte;
  and the same for 32-bit keys, addresses and counters.
\<close>

definition be16 :: "byte \<Rightarrow> byte \<Rightarrow> u16" where
  "be16 h l = push_bit 8 (ucast h) OR ucast l"

definition hi8 :: "u16 \<Rightarrow> byte" where
  "hi8 w = ucast (drop_bit 8 w AND 0xff)"

definition lo8 :: "u16 \<Rightarrow> byte" where
  "lo8 w = ucast (w AND 0xff)"

definition be32 :: "byte \<Rightarrow> byte \<Rightarrow> byte \<Rightarrow> byte \<Rightarrow> u32" where
  "be32 a b c d =
     push_bit 24 (ucast a) OR push_bit 16 (ucast b) OR push_bit 8 (ucast c) OR ucast d"

definition byte_at :: "nat \<Rightarrow> u32 \<Rightarrow> byte" where
  "byte_at k w = ucast (drop_bit k w AND 0xff)"

lemma be16_hi8_lo8 [simp, byte_fields]: "be16 (hi8 w) (lo8 w) = w"
  unfolding be16_def hi8_def lo8_def by (simp add: word_bits)

lemma hi8_be16 [simp, byte_fields]: "hi8 (be16 h l) = h"
  unfolding be16_def hi8_def by (simp add: byte_bits)

lemma lo8_be16 [simp, byte_fields]: "lo8 (be16 h l) = l"
  unfolding be16_def lo8_def by (simp add: byte_bits)

lemma be16_inject [simp]: "be16 a b = be16 c d \<longleftrightarrow> a = c \<and> b = d"
  by (metis hi8_be16 lo8_be16)

lemma be32_bytes [simp, byte_fields]:
  "be32 (byte_at 24 w) (byte_at 16 w) (byte_at 8 w) (byte_at 0 w) = w"
  unfolding be32_def byte_at_def by (simp add: word_bits)

lemma byte_at_be32 [simp, byte_fields]:
  "byte_at 24 (be32 a b c d) = a"
  "byte_at 16 (be32 a b c d) = b"
  "byte_at 8 (be32 a b c d) = c"
  "byte_at 0 (be32 a b c d) = d"
  unfolding be32_def byte_at_def by (simp_all add: byte_bits)

section \<open>Lengths stored in a byte\<close>

text \<open>\<open>size() - 1\<close> truncated to a byte (\<open>size_t\<close> wraps at zero, and so does the byte).\<close>

definition len_m1 :: "'a list \<Rightarrow> byte" where
  "len_m1 xs = of_nat (length xs) - 1"

lemma unat_len_m1:
  "xs \<noteq> [] \<Longrightarrow> length xs \<le> 256 \<Longrightarrow> unat (len_m1 xs) = length xs - 1"
proof -
  assume "xs \<noteq> []" and le: "length xs \<le> 256"
  then obtain n where n: "length xs = Suc n" and "n < 256"
    by (cases xs) auto
  then have "len_m1 xs = of_nat n"
    by (simp add: len_m1_def)
  with \<open>n < 256\<close> n show ?thesis
    by (simp add: unat_of_nat)
qed

lemma unat_byte_less [simp]: "unat (b :: byte) < 256"
  using unsigned_less [of b, where ?'a = nat] by simp

lemma unat_and_mask4_less: "unat (b AND 0x0f :: byte) < 16"
proof -
  have "b AND 0x0f \<le> (0x0f :: byte)"
    by (rule word_and_le1)
  then show ?thesis
    by (simp add: word_le_nat_alt)
qed

lemma unat_low_nibble: "unat (b AND 0x0f :: byte) = unat b mod 16"
proof -
  have "b AND 0x0f = take_bit 4 b" by (simp add: byte_bits)
  then have "unat (b AND 0x0f) = take_bit 4 (unat b)" by (simp only: unsigned_take_bit_eq)
  then show ?thesis by (simp add: take_bit_eq_mod)
qed

lemma low_nibble_add: "((w AND 0x0f) + v) AND 0x0f = (w + v) AND (0x0f :: byte)"
proof -
  have "unat (((w AND 0x0f) + v) AND 0x0f) = unat ((w + v) AND 0x0f)"
    unfolding unat_low_nibble unat_word_ariths(1) by (simp add: mod_mod_cancel mod_add_left_eq)
  then show ?thesis by (rule unsigned_word_eqI)
qed

section \<open>Slices\<close>

text \<open>\<open>CArray::set (p.data() + start, cnt)\<close>: \<open>cnt\<close> bytes from \<open>start\<close> (inside the array at every use).\<close>

definition slice :: "nat \<Rightarrow> nat \<Rightarrow> 'a list \<Rightarrow> 'a list" where
  "slice start cnt xs = take cnt (drop start xs)"

lemma length_slice [simp]: "length (slice s n xs) = min n (length xs - s)"
  by (simp add: slice_def)

lemma slice_eq_Nil [simp]: "slice s n xs = [] \<longleftrightarrow> n = 0 \<or> length xs \<le> s"
  by (auto simp: slice_def)

lemma slice_0 [simp]: "slice 0 n xs = take n xs"
  by (simp add: slice_def)

lemma slice_Suc_Cons [simp]: "slice (Suc s) n (x # xs) = slice s n xs"
  by (simp add: slice_def)

lemma slice_numeral_Cons [simp]: "slice (numeral v) n (x # xs) = slice (numeral v - 1) n xs"
  by (simp add: slice_def drop_Cons')

lemma slice_numeral_add_Cons [simp]:
  "slice (numeral v + k) n (x # xs) = slice (pred_numeral v + k) n xs"
  by (simp add: slice_def numeral_eq_Suc)

lemma slice_append_at [simp]: "length xs = s \<Longrightarrow> slice s n (xs @ ys) = take n ys"
  by (simp add: slice_def)

lemma slice_append_exact [simp]:
  "length xs = s \<Longrightarrow> length ys = n \<Longrightarrow> slice s n (xs @ ys @ zs) = ys"
  by (simp add: slice_def)

section \<open>Interfaces\<close>

text \<open>
  A codec: every well-formed value is encoded (no assertion fires), and decoding the encoding
  gives the value back.
\<close>

locale codec =
  fixes wf :: "'a \<Rightarrow> bool"
    and enc :: "'a \<Rightarrow> carray option"
    and dec :: "carray \<Rightarrow> 'a"
  assumes enc_total: "wf x \<Longrightarrow> enc x \<noteq> None"
    and dec_enc: "wf x \<Longrightarrow> enc x = Some p \<Longrightarrow> dec p = x"
begin

lemma enc_exists: "wf x \<Longrightarrow> \<exists>p. enc x = Some p \<and> dec p = x"
  by (metis enc_total dec_enc option.exhaust)

lemma enc_inject: "wf x \<Longrightarrow> wf y \<Longrightarrow> enc x = enc y \<Longrightarrow> x = y"
  by (metis enc_exists option.inject)

lemma dec_the_enc: "wf x \<Longrightarrow> dec (the (enc x)) = x"
  by (metis enc_exists option.sel)

end

text \<open>
  A codec whose decoder only produces well-formed values: decoding is then stable under one more
  encode and decode.
\<close>

locale closed_codec = codec +
  assumes dec_wf: "wf (dec p)"
begin

lemma dec_never_aborts: "\<exists>q. enc (dec p) = Some q"
  using enc_exists [OF dec_wf] by blast

lemma dec_stable: "enc (dec p) = Some q \<Longrightarrow> dec q = dec p"
  using dec_enc [OF dec_wf] .

end

text \<open>
  An event-driven component: a step function over events that also reports what it sends, and an
  invariant every step on an admissible event keeps.  The invariant then holds after every sequence of
  admissible events, and every output of the run is a good one.
\<close>

fun run_events :: "('s \<Rightarrow> 'e \<Rightarrow> 's \<times> 'o list) \<Rightarrow> 's \<Rightarrow> 'e list \<Rightarrow> 's \<times> 'o list" where
  "run_events step s [] = (s, [])"
| "run_events step s (e # es) =
     (let (s', out) = step s e; (t, outs) = run_events step s' es in (t, out @ outs))"

lemma run_events_Cons:
  "fst (run_events step s (e # es)) = fst (run_events step (fst (step s e)) es)"
  "snd (run_events step s (e # es)) = snd (step s e) @ snd (run_events step (fst (step s e)) es)"
  by (simp_all add: Let_def split_beta)

lemma run_events_append:
  "run_events step s (xs @ ys) =
     (let (s', o1) = run_events step s xs; (t, o2) = run_events step s' ys in (t, o1 @ o2))"
  by (induction xs arbitrary: s) (simp_all add: Let_def split: prod.splits)

locale event_machine =
  fixes step :: "'s \<Rightarrow> 'e \<Rightarrow> 's \<times> 'o list"
    and ok :: "'e \<Rightarrow> bool"
    and inv :: "'s \<Rightarrow> bool"
    and good :: "'o \<Rightarrow> bool"
  assumes step_inv: "inv s \<Longrightarrow> ok e \<Longrightarrow> inv (fst (step s e))"
    and step_out: "inv s \<Longrightarrow> ok e \<Longrightarrow> x \<in> set (snd (step s e)) \<Longrightarrow> good x"
begin

lemma run_inv: "inv s \<Longrightarrow> list_all ok es \<Longrightarrow> inv (fst (run_events step s es))"
proof (induction es arbitrary: s)
  case (Cons e es)
  then show ?case
    using step_inv [OF Cons.prems(1), of e] by (simp add: Let_def split_beta)
qed simp

lemma run_out: "inv s \<Longrightarrow> list_all ok es \<Longrightarrow> x \<in> set (snd (run_events step s es)) \<Longrightarrow> good x"
proof (induction es arbitrary: s)
  case (Cons e es)
  then show ?case
    using step_inv [OF Cons.prems(1), of e] step_out [OF Cons.prems(1), of e]
    by (auto simp: Let_def split_beta)
qed simp

end

text \<open>What an observer that maps each output to a list of items sees of a list of outputs.\<close>

definition collect :: "('a \<Rightarrow> 'b list) \<Rightarrow> 'a list \<Rightarrow> 'b list" where
  "collect f xs = concat (map f xs)"

lemma collect_simps [simp]:
  "collect f [] = []"
  "collect f (x # xs) = f x @ collect f xs"
  "collect f (xs @ ys) = collect f xs @ collect f ys"
  by (simp_all add: collect_def)

text \<open>
  A component that queues items: at every step, what was queued and what the event submits is what
  the step lets go, in order, followed by what is queued afterwards.  Over a whole run nothing is
  lost, duplicated or reordered.
\<close>

locale fifo_machine = event_machine +
  fixes queued :: "'a \<Rightarrow> 'q list"
    and submits :: "'b \<Rightarrow> 'q list"
    and releases :: "'c \<Rightarrow> 'q list"
  assumes step_fifo: "inv s \<Longrightarrow> ok e \<Longrightarrow>
    queued s @ submits e = collect releases (snd (step s e)) @ queued (fst (step s e))"
begin

lemma run_fifo:
  "inv s \<Longrightarrow> list_all ok es \<Longrightarrow> queued s @ collect submits es =
     collect releases (snd (run_events step s es)) @ queued (fst (run_events step s es))"
proof (induction es arbitrary: s)
  case (Cons e es)
  have "queued (fst (step s e)) @ collect submits es =
      collect releases (snd (run_events step (fst (step s e)) es)) @
      queued (fst (run_events step (fst (step s e)) es))"
    using Cons.prems by (intro Cons.IH step_inv) auto
  then show ?case
    using step_fifo [OF Cons.prems(1), of e] Cons.prems(2) by (simp add: case_prod_beta) (metis append_assoc)
qed simp

end

end
