(* ===== verification/Apdu.thy ===== *)
theory Apdu
  imports Prelude
begin

text \<open>
  Application layer PDUs, \<^verbatim>\<open>src/src/libserver/apdu.cpp\<close> and \<^verbatim>\<open>apdu.h\<close>.  Each class \<open>A_X_PDU\<close> of
  the source is a constructor of \<open>apdu\<close> with the class's fields in their order; its methods \<open>init\<close>
  and \<open>ToPacket\<close> are the definitions \<open>A_X_init\<close> and \<open>A_X_ToPacket\<close>.  \<open>init\<close> returns \<open>None\<close> where
  the source returns \<open>false\<close>; \<open>ToPacket\<close> returns \<open>None\<close> where an \<open>assert\<close> of the source fails.
  Trace output (\<open>Decode\<close>) is not modelled; its assertions are those of \<open>ToPacket\<close>.

  The lemmas show which PDUs survive an encode and decode, that no decoded PDU can trip an
  assertion, which PDUs the code encodes under another service's code, and what \<open>isResponse\<close>
  matches.
\<close>

unbundle bit_operations_syntax

section \<open>PDUs and their types\<close>

datatype (plugins only: code) apdu =
    A_Unknown_PDU carray
  | A_GroupValue_Read_PDU
  | A_GroupValue_Response_PDU bool carray
  | A_GroupValue_Write_PDU bool carray
  | A_IndividualAddress_Write_PDU u16
  | A_IndividualAddress_Read_PDU
  | A_IndividualAddress_Response_PDU
  | A_IndividualAddressSerialNumber_Read_PDU carray
  | A_IndividualAddressSerialNumber_Response_PDU carray u16
  | A_IndividualAddressSerialNumber_Write_PDU carray u16
  | A_ServiceInformation_Indication_Write_PDU bool bool bool
  | A_DomainAddress_Write_PDU u16
  | A_DomainAddress_Read_PDU
  | A_DomainAddress_Response_PDU u16
  | A_DomainAddressSelective_Read_PDU u16 u16 byte
  | A_PropertyValue_Read_PDU byte byte byte u16
  | A_PropertyValue_Response_PDU byte byte byte u16 carray
  | A_PropertyValue_Write_PDU byte byte byte u16 carray
  | A_PropertyDescription_Read_PDU byte byte byte
  | A_PropertyDescription_Response_PDU byte byte byte byte u16 byte
  | A_DeviceDescriptor_Read_PDU byte
  | A_DeviceDescriptor_Response_PDU byte u16
  | A_ADC_Read_PDU byte byte
  | A_ADC_Response_PDU byte byte u16
  | A_Memory_Read_PDU byte u16
  | A_Memory_Response_PDU byte u16 carray
  | A_Memory_Write_PDU byte u16 carray
  | A_MemoryBit_Write_PDU byte u16 carray carray
  | A_UserMemory_Read_PDU byte byte u16
  | A_UserMemory_Response_PDU byte byte u16 carray
  | A_UserMemory_Write_PDU byte byte u16 carray
  | A_UserMemoryBit_Write_PDU byte byte u16 carray carray
  | A_UserManufacturerInfo_Read_PDU
  | A_UserManufacturerInfo_Response_PDU byte u16
  | A_Restart_PDU
  | A_Authorize_Request_PDU u32
  | A_Authorize_Response_PDU byte
  | A_Key_Write_PDU byte u32
  | A_Key_Response_PDU byte

datatype (plugins only: code) APDU_type =
    A_Unknown
  | A_GroupValue_Read
  | A_GroupValue_Response
  | A_GroupValue_Write
  | A_IndividualAddress_Write
  | A_IndividualAddress_Read
  | A_IndividualAddress_Response
  | A_IndividualAddressSerialNumber_Read
  | A_IndividualAddressSerialNumber_Response
  | A_IndividualAddressSerialNumber_Write
  | A_ServiceInformation_Indication_Write
  | A_DomainAddress_Write
  | A_DomainAddress_Read
  | A_DomainAddress_Response
  | A_DomainAddressSelective_Read
  | A_PropertyValue_Read
  | A_PropertyValue_Response
  | A_PropertyValue_Write
  | A_PropertyDescription_Read
  | A_PropertyDescription_Response
  | A_DeviceDescriptor_Read
  | A_DeviceDescriptor_Response
  | A_ADC_Read
  | A_ADC_Response
  | A_Memory_Read
  | A_Memory_Response
  | A_Memory_Write
  | A_MemoryBit_Write
  | A_UserMemory_Read
  | A_UserMemory_Response
  | A_UserMemory_Write
  | A_UserMemoryBit_Write
  | A_UserManufacturerInfo_Read
  | A_UserManufacturerInfo_Response
  | A_Restart
  | A_Authorize_Request
  | A_Authorize_Response
  | A_Key_Write
  | A_Key_Response

text \<open>\<open>getType\<close> of each class.\<close>

fun getType :: "apdu \<Rightarrow> APDU_type" where
  "getType (A_Unknown_PDU _) = A_Unknown"
| "getType A_GroupValue_Read_PDU = A_GroupValue_Read"
| "getType (A_GroupValue_Response_PDU _ _) = A_GroupValue_Response"
| "getType (A_GroupValue_Write_PDU _ _) = A_GroupValue_Write"
| "getType (A_IndividualAddress_Write_PDU _) = A_IndividualAddress_Write"
| "getType A_IndividualAddress_Read_PDU = A_IndividualAddress_Read"
| "getType A_IndividualAddress_Response_PDU = A_IndividualAddress_Response"
| "getType (A_IndividualAddressSerialNumber_Read_PDU _) = A_IndividualAddressSerialNumber_Read"
| "getType (A_IndividualAddressSerialNumber_Response_PDU _ _) = A_IndividualAddressSerialNumber_Response"
| "getType (A_IndividualAddressSerialNumber_Write_PDU _ _) = A_IndividualAddressSerialNumber_Write"
| "getType (A_ServiceInformation_Indication_Write_PDU _ _ _) = A_ServiceInformation_Indication_Write"
| "getType (A_DomainAddress_Write_PDU _) = A_DomainAddress_Write"
| "getType A_DomainAddress_Read_PDU = A_DomainAddress_Read"
| "getType (A_DomainAddress_Response_PDU _) = A_DomainAddress_Response"
| "getType (A_DomainAddressSelective_Read_PDU _ _ _) = A_DomainAddressSelective_Read"
| "getType (A_PropertyValue_Read_PDU _ _ _ _) = A_PropertyValue_Read"
| "getType (A_PropertyValue_Response_PDU _ _ _ _ _) = A_PropertyValue_Response"
| "getType (A_PropertyValue_Write_PDU _ _ _ _ _) = A_PropertyValue_Write"
| "getType (A_PropertyDescription_Read_PDU _ _ _) = A_PropertyDescription_Read"
| "getType (A_PropertyDescription_Response_PDU _ _ _ _ _ _) = A_PropertyDescription_Response"
| "getType (A_DeviceDescriptor_Read_PDU _) = A_DeviceDescriptor_Read"
| "getType (A_DeviceDescriptor_Response_PDU _ _) = A_DeviceDescriptor_Response"
| "getType (A_ADC_Read_PDU _ _) = A_ADC_Read"
| "getType (A_ADC_Response_PDU _ _ _) = A_ADC_Response"
| "getType (A_Memory_Read_PDU _ _) = A_Memory_Read"
| "getType (A_Memory_Response_PDU _ _ _) = A_Memory_Response"
| "getType (A_Memory_Write_PDU _ _ _) = A_Memory_Write"
| "getType (A_MemoryBit_Write_PDU _ _ _ _) = A_MemoryBit_Write"
| "getType (A_UserMemory_Read_PDU _ _ _) = A_UserMemory_Read"
| "getType (A_UserMemory_Response_PDU _ _ _ _) = A_UserMemory_Response"
| "getType (A_UserMemory_Write_PDU _ _ _ _) = A_UserMemory_Write"
| "getType (A_UserMemoryBit_Write_PDU _ _ _ _ _) = A_UserMemoryBit_Write"
| "getType A_UserManufacturerInfo_Read_PDU = A_UserManufacturerInfo_Read"
| "getType (A_UserManufacturerInfo_Response_PDU _ _) = A_UserManufacturerInfo_Response"
| "getType A_Restart_PDU = A_Restart"
| "getType (A_Authorize_Request_PDU _) = A_Authorize_Request"
| "getType (A_Authorize_Response_PDU _) = A_Authorize_Response"
| "getType (A_Key_Write_PDU _ _) = A_Key_Write"
| "getType (A_Key_Response_PDU _) = A_Key_Response"

section \<open>The PDU classes\<close>

definition A_GroupValue_Read_init :: "carray \<Rightarrow> apdu option" where
  "A_GroupValue_Read_init c =
     (if length c = 2
      then Some A_GroupValue_Read_PDU else None)"

definition A_GroupValue_Read_ToPacket :: "carray option" where
  "A_GroupValue_Read_ToPacket =
     Some ([0x00, 0x00])"

definition A_GroupValue_Response_init :: "carray \<Rightarrow> apdu option" where
  "A_GroupValue_Response_init c =
     (if length c < 2 then None
      else if length c = 2 then Some (A_GroupValue_Response_PDU True [c ! 1 AND 0x3f])
      else Some (A_GroupValue_Response_PDU False (slice 2 (length c - 2) c)))"

definition A_GroupValue_Response_ToPacket :: "bool \<Rightarrow> carray \<Rightarrow> carray option" where
  "A_GroupValue_Response_ToPacket issmall data =
     (if \<not> issmall \<or> (length data = 1 \<and> data ! 0 AND 0xC0 = 0)
      then (if issmall then Some [0x00, 0x40 OR (data ! 0 AND 0x3f)]
            else Some ([0x00, 0x40] @ data))
      else None)"

definition A_GroupValue_Write_init :: "carray \<Rightarrow> apdu option" where
  "A_GroupValue_Write_init c =
     (if length c < 2 then None
      else if length c = 2 then Some (A_GroupValue_Write_PDU True [c ! 1 AND 0x3f])
      else Some (A_GroupValue_Write_PDU False (slice 2 (length c - 2) c)))"

definition A_GroupValue_Write_ToPacket :: "bool \<Rightarrow> carray \<Rightarrow> carray option" where
  "A_GroupValue_Write_ToPacket issmall data =
     (if \<not> issmall \<or> (length data = 1 \<and> data ! 0 AND 0xC0 = 0)
      then (if issmall then Some [0x00, 0x80 OR (data ! 0 AND 0x3f)]
            else Some ([0x00, 0x80] @ data))
      else None)"

definition A_IndividualAddress_Write_init :: "carray \<Rightarrow> apdu option" where
  "A_IndividualAddress_Write_init c =
     (if length c = 4
      then Some (A_IndividualAddress_Write_PDU (be16 (c ! 2) (c ! 3))) else None)"

definition A_IndividualAddress_Write_ToPacket :: "u16 \<Rightarrow> carray option" where
  "A_IndividualAddress_Write_ToPacket addr =
     Some ([0, 0xC0, hi8 addr, lo8 addr])"

definition A_IndividualAddress_Read_init :: "carray \<Rightarrow> apdu option" where
  "A_IndividualAddress_Read_init c =
     (if length c = 2
      then Some A_IndividualAddress_Read_PDU else None)"

definition A_IndividualAddress_Read_ToPacket :: "carray option" where
  "A_IndividualAddress_Read_ToPacket =
     Some ([0x01, 0x00])"

definition A_IndividualAddress_Response_init :: "carray \<Rightarrow> apdu option" where
  "A_IndividualAddress_Response_init c =
     (if length c = 2
      then Some A_IndividualAddress_Response_PDU else None)"

definition A_IndividualAddress_Response_ToPacket :: "carray option" where
  "A_IndividualAddress_Response_ToPacket =
     Some ([0x01, 0x40])"

definition A_IndividualAddressSerialNumber_Read_init :: "carray \<Rightarrow> apdu option" where
  "A_IndividualAddressSerialNumber_Read_init c =
     (if length c = 8
      then Some (A_IndividualAddressSerialNumber_Read_PDU (slice 2 6 c)) else None)"

definition A_IndividualAddressSerialNumber_Read_ToPacket :: "carray \<Rightarrow> carray option" where
  "A_IndividualAddressSerialNumber_Read_ToPacket serno =
     Some ([0x03, 0xDC] @ serno)"

definition A_IndividualAddressSerialNumber_Response_init :: "carray \<Rightarrow> apdu option" where
  "A_IndividualAddressSerialNumber_Response_init c =
     (if length c = 12
      then Some (A_IndividualAddressSerialNumber_Response_PDU
        (slice 2 6 c) (be16 (c ! 8) (c ! 9))) else None)"

definition A_IndividualAddressSerialNumber_Response_ToPacket :: "carray \<Rightarrow> u16 \<Rightarrow> carray option" where
  "A_IndividualAddressSerialNumber_Response_ToPacket serno addr =
     Some ([0x03, 0xDD] @ serno @ [hi8 addr, lo8 addr, 0, 0])"

definition A_IndividualAddressSerialNumber_Write_init :: "carray \<Rightarrow> apdu option" where
  "A_IndividualAddressSerialNumber_Write_init c =
     (if length c = 14
      then Some (A_IndividualAddressSerialNumber_Write_PDU
        (slice 2 6 c) (be16 (c ! 8) (c ! 9))) else None)"

definition A_IndividualAddressSerialNumber_Write_ToPacket :: "carray \<Rightarrow> u16 \<Rightarrow> carray option" where
  "A_IndividualAddressSerialNumber_Write_ToPacket serno addr =
     Some ([0x03, 0xDD] @ serno @ [hi8 addr, lo8 addr, 0, 0, 0, 0])"

definition A_ServiceInformation_Indication_Write_init :: "carray \<Rightarrow> apdu option" where
  "A_ServiceInformation_Indication_Write_init c =
     (if length c = 5
      then Some (A_ServiceInformation_Indication_Write_PDU
        (c ! 2 AND 0x04 \<noteq> 0) (c ! 3 AND 0x02 \<noteq> 0) (c ! 2 AND 0x01 \<noteq> 0)) else None)"

definition A_ServiceInformation_Indication_Write_ToPacket :: "bool \<Rightarrow> bool \<Rightarrow> bool \<Rightarrow> carray option" where
  "A_ServiceInformation_Indication_Write_ToPacket verify_mode duplicate_address appl_stopped =
     Some ([0x03, 0xDF,
         0x00 OR (if verify_mode then 0x04 else 0x00) OR (if duplicate_address then 0x02 else 0x00)
           OR (if appl_stopped then 0x01 else 0x00),
         0x00, 0x00])"

definition A_DomainAddress_Write_init :: "carray \<Rightarrow> apdu option" where
  "A_DomainAddress_Write_init c =
     (if length c = 4
      then Some (A_DomainAddress_Write_PDU (be16 (c ! 2) (c ! 3))) else None)"

definition A_DomainAddress_Write_ToPacket :: "u16 \<Rightarrow> carray option" where
  "A_DomainAddress_Write_ToPacket addr =
     Some ([0x03, 0xE0, hi8 addr, lo8 addr])"

definition A_DomainAddress_Read_init :: "carray \<Rightarrow> apdu option" where
  "A_DomainAddress_Read_init c =
     (if length c = 2
      then Some A_DomainAddress_Read_PDU else None)"

definition A_DomainAddress_Read_ToPacket :: "carray option" where
  "A_DomainAddress_Read_ToPacket =
     Some ([0x03, 0xE1])"

definition A_DomainAddress_Response_init :: "carray \<Rightarrow> apdu option" where
  "A_DomainAddress_Response_init c =
     (if length c = 4
      then Some (A_DomainAddress_Response_PDU (be16 (c ! 2) (c ! 3))) else None)"

definition A_DomainAddress_Response_ToPacket :: "u16 \<Rightarrow> carray option" where
  "A_DomainAddress_Response_ToPacket addr =
     Some ([0x03, 0xE2, hi8 addr, lo8 addr])"

definition A_DomainAddressSelective_Read_init :: "carray \<Rightarrow> apdu option" where
  "A_DomainAddressSelective_Read_init c =
     (if length c = 7
      then Some (A_DomainAddressSelective_Read_PDU
        (be16 (c ! 2) (c ! 3)) (be16 (c ! 4) (c ! 5)) (c ! 6)) else None)"

definition A_DomainAddressSelective_Read_ToPacket :: "u16 \<Rightarrow> u16 \<Rightarrow> byte \<Rightarrow> carray option" where
  "A_DomainAddressSelective_Read_ToPacket domainaddr addr rng =
     Some (((replicate 7 0)[0 := 0x03, 1 := 0xE2, 2 := hi8 domainaddr, 3 := lo8 domainaddr,
         2 := hi8 addr, 3 := lo8 addr, 6 := rng]))"

definition A_PropertyValue_Read_init :: "carray \<Rightarrow> apdu option" where
  "A_PropertyValue_Read_init c =
     (if length c = 6
      then Some (A_PropertyValue_Read_PDU
        (c ! 2) (c ! 3) (drop_bit 4 (c ! 4) AND 0x0f) (be16 (c ! 4 AND 0x0f) (c ! 5))) else None)"

definition A_PropertyValue_Read_ToPacket :: "byte \<Rightarrow> byte \<Rightarrow> byte \<Rightarrow> u16 \<Rightarrow> carray option" where
  "A_PropertyValue_Read_ToPacket obj prop count start =
     (if count AND 0xf0 = 0 \<and> start AND 0xf000 = 0
      then Some ([0x03, 0xD5, obj, prop,
         push_bit 4 (count AND 0x0f) OR (hi8 start AND 0x0f), lo8 start])
      else None)"

definition A_PropertyValue_Response_init :: "carray \<Rightarrow> apdu option" where
  "A_PropertyValue_Response_init c =
     (if 6 \<le> length c
      then Some (A_PropertyValue_Response_PDU
        (c ! 2) (c ! 3) (drop_bit 4 (c ! 4) AND 0x0f) (be16 (c ! 4 AND 0x0f) (c ! 5)) (slice 6 (length c - 6) c)) else None)"

definition A_PropertyValue_Response_ToPacket :: "byte \<Rightarrow> byte \<Rightarrow> byte \<Rightarrow> u16 \<Rightarrow> carray \<Rightarrow> carray option" where
  "A_PropertyValue_Response_ToPacket obj prop count start data =
     (if count AND 0xf0 = 0 \<and> start AND 0xf000 = 0
      then Some ([0x03, 0xD6, obj, prop,
         push_bit 4 (count AND 0x0f) OR (hi8 start AND 0x0f), lo8 start] @ data)
      else None)"

definition A_PropertyValue_Write_init :: "carray \<Rightarrow> apdu option" where
  "A_PropertyValue_Write_init c =
     (if 6 \<le> length c
      then Some (A_PropertyValue_Write_PDU
        (c ! 2) (c ! 3) (drop_bit 4 (c ! 4) AND 0x0f) (be16 (c ! 4 AND 0x0f) (c ! 5)) (slice 6 (length c - 6) c)) else None)"

definition A_PropertyValue_Write_ToPacket :: "byte \<Rightarrow> byte \<Rightarrow> byte \<Rightarrow> u16 \<Rightarrow> carray \<Rightarrow> carray option" where
  "A_PropertyValue_Write_ToPacket obj prop count start data =
     (if count AND 0xf0 = 0 \<and> start AND 0xf000 = 0
      then Some ([0x03, 0xD7, obj, prop,
         push_bit 4 (count AND 0x0f) OR (hi8 start AND 0x0f), lo8 start] @ data)
      else None)"

definition A_PropertyDescription_Read_init :: "carray \<Rightarrow> apdu option" where
  "A_PropertyDescription_Read_init c =
     (if length c = 5
      then Some (A_PropertyDescription_Read_PDU (c ! 2) (c ! 3) (c ! 4)) else None)"

definition A_PropertyDescription_Read_ToPacket :: "byte \<Rightarrow> byte \<Rightarrow> byte \<Rightarrow> carray option" where
  "A_PropertyDescription_Read_ToPacket obj prop property_index =
     Some ([0x03, 0xD8, obj, prop, property_index])"

definition A_PropertyDescription_Response_init :: "carray \<Rightarrow> apdu option" where
  "A_PropertyDescription_Response_init c =
     (if length c = 9
      then Some (A_PropertyDescription_Response_PDU
        (c ! 2) (c ! 3) (c ! 4) (c ! 5) (be16 (c ! 6) (c ! 7)) (c ! 8)) else None)"

definition A_PropertyDescription_Response_ToPacket :: "byte \<Rightarrow> byte \<Rightarrow> byte \<Rightarrow> byte \<Rightarrow> u16 \<Rightarrow> byte \<Rightarrow> carray option" where
  "A_PropertyDescription_Response_ToPacket obj prop property_index type count access =
     Some ([0x03, 0xD9, obj, prop, property_index, type, hi8 count, lo8 count, access])"

definition A_DeviceDescriptor_Read_init :: "carray \<Rightarrow> apdu option" where
  "A_DeviceDescriptor_Read_init c =
     (if length c = 2
      then Some (A_DeviceDescriptor_Read_PDU (c ! 1 AND 0x3F)) else None)"

definition A_DeviceDescriptor_Read_ToPacket :: "byte \<Rightarrow> carray option" where
  "A_DeviceDescriptor_Read_ToPacket type =
     (if type AND 0xC0 = 0
      then Some ([0x03, 0x00 OR (type AND 0x3f)])
      else None)"

definition A_DeviceDescriptor_Response_init :: "carray \<Rightarrow> apdu option" where
  "A_DeviceDescriptor_Response_init c =
     (if length c = 4
      then Some (A_DeviceDescriptor_Response_PDU
        (c ! 1 AND 0x3F) (be16 (c ! 2) (c ! 3))) else None)"

definition A_DeviceDescriptor_Response_ToPacket :: "byte \<Rightarrow> u16 \<Rightarrow> carray option" where
  "A_DeviceDescriptor_Response_ToPacket type descriptor =
     (if type AND 0xC0 = 0
      then Some ([0x03, 0x01 OR (type AND 0x3f), hi8 descriptor, lo8 descriptor])
      else None)"

definition A_ADC_Read_init :: "carray \<Rightarrow> apdu option" where
  "A_ADC_Read_init c =
     (if length c = 3
      then Some (A_ADC_Read_PDU (c ! 1 AND 0x3F) (c ! 2)) else None)"

definition A_ADC_Read_ToPacket :: "byte \<Rightarrow> byte \<Rightarrow> carray option" where
  "A_ADC_Read_ToPacket channel count =
     (if channel AND 0xC0 = 0
      then Some ([0x01, 0x80 OR (channel AND 0x3F), count])
      else None)"

definition A_ADC_Response_init :: "carray \<Rightarrow> apdu option" where
  "A_ADC_Response_init c =
     (if length c = 5
      then Some (A_ADC_Response_PDU (c ! 1 AND 0x3F) (c ! 2) (be16 (c ! 3) (c ! 4))) else None)"

definition A_ADC_Response_ToPacket :: "byte \<Rightarrow> byte \<Rightarrow> u16 \<Rightarrow> carray option" where
  "A_ADC_Response_ToPacket channel count val =
     (if channel AND 0xC0 = 0
      then Some ([0x01, 0xC0 OR (channel AND 0x3F), count, hi8 val, lo8 val])
      else None)"

definition A_Memory_Read_init :: "carray \<Rightarrow> apdu option" where
  "A_Memory_Read_init c =
     (if length c = 4
      then Some (A_Memory_Read_PDU (c ! 1 AND 0xf) (be16 (c ! 2) (c ! 3))) else None)"

definition A_Memory_Read_ToPacket :: "byte \<Rightarrow> u16 \<Rightarrow> carray option" where
  "A_Memory_Read_ToPacket count addr =
     (if count AND 0xf0 = 0
      then Some ([0x02, 0x00 OR (count AND 0x0f), hi8 addr, lo8 addr])
      else None)"

definition A_Memory_Response_init :: "carray \<Rightarrow> apdu option" where
  "A_Memory_Response_init c =
     (if 4 \<le> length c \<and> length c - 4 = unat (c ! 1 AND 0xf)
      then Some (A_Memory_Response_PDU
        (c ! 1 AND 0xf) (be16 (c ! 2) (c ! 3)) (slice 4 (length c - 4) c)) else None)"

definition A_Memory_Response_ToPacket :: "byte \<Rightarrow> u16 \<Rightarrow> carray \<Rightarrow> carray option" where
  "A_Memory_Response_ToPacket count addr data =
     (if count AND 0xf0 = 0 \<and> length data = unat count
      then Some ([0x02, 0x40 OR (count AND 0x0f), hi8 addr, lo8 addr] @ data)
      else None)"

definition A_Memory_Write_init :: "carray \<Rightarrow> apdu option" where
  "A_Memory_Write_init c =
     (if 4 \<le> length c \<and> length c - 4 = unat (c ! 1 AND 0xf)
      then Some (A_Memory_Write_PDU
        (c ! 1 AND 0xf) (be16 (c ! 2) (c ! 3)) (slice 4 (length c - 4) c)) else None)"

definition A_Memory_Write_ToPacket :: "byte \<Rightarrow> u16 \<Rightarrow> carray \<Rightarrow> carray option" where
  "A_Memory_Write_ToPacket count addr data =
     (if count AND 0xf0 = 0 \<and> length data = unat count
      then Some ([0x02, 0x80 OR (count AND 0x0f), hi8 addr, lo8 addr] @ data)
      else None)"

definition A_MemoryBit_Write_init :: "carray \<Rightarrow> apdu option" where
  "A_MemoryBit_Write_init c =
     (if 5 \<le> length c \<and> length c - 5 = unat (c ! 2) * 2
      then Some (A_MemoryBit_Write_PDU
        (c ! 2) (be16 (c ! 3) (c ! 4)) (slice 5 (unat (c ! 2)) c) (slice (5 + unat (c ! 2)) (unat (c ! 2)) c)) else None)"

definition A_MemoryBit_Write_ToPacket :: "byte \<Rightarrow> u16 \<Rightarrow> carray \<Rightarrow> carray \<Rightarrow> carray option" where
  "A_MemoryBit_Write_ToPacket count addr andmask xormask =
     (if length andmask = unat count \<and> length xormask = unat count
      then Some ([0x03, 0xD0, count, hi8 addr, lo8 addr] @ andmask @ xormask)
      else None)"

definition A_UserMemory_Read_init :: "carray \<Rightarrow> apdu option" where
  "A_UserMemory_Read_init c =
     (if length c = 5
      then Some (A_UserMemory_Read_PDU
        (drop_bit 4 (c ! 2) AND 0xf) (c ! 2 AND 0xf) (be16 (c ! 3) (c ! 4))) else None)"

definition A_UserMemory_Read_ToPacket :: "byte \<Rightarrow> byte \<Rightarrow> u16 \<Rightarrow> carray option" where
  "A_UserMemory_Read_ToPacket addr_extension count addr =
     (if count AND 0xf0 = 0 \<and> addr_extension AND 0xf0 = 0
      then Some ([0x02, 0xC0, push_bit 4 (addr_extension AND 0x0f) OR (count AND 0x0f),
         hi8 addr, lo8 addr])
      else None)"

definition A_UserMemory_Response_init :: "carray \<Rightarrow> apdu option" where
  "A_UserMemory_Response_init c =
     (if 5 \<le> length c \<and> length c - 5 = unat (c ! 2 AND 0xf)
      then Some (A_UserMemory_Response_PDU
        (drop_bit 4 (c ! 2) AND 0xf) (c ! 2 AND 0xf) (be16 (c ! 3) (c ! 4)) (slice 5 (length c - 5) c)) else None)"

definition A_UserMemory_Response_ToPacket :: "byte \<Rightarrow> byte \<Rightarrow> u16 \<Rightarrow> carray \<Rightarrow> carray option" where
  "A_UserMemory_Response_ToPacket addr_extension count addr data =
     (if count AND 0xf0 = 0 \<and> addr_extension AND 0xf0 = 0 \<and>
       length data = unat count
      then Some ([0x02, 0xC1, push_bit 4 (addr_extension AND 0x0f) OR (count AND 0x0f),
         hi8 addr, lo8 addr] @ data)
      else None)"

definition A_UserMemory_Write_init :: "carray \<Rightarrow> apdu option" where
  "A_UserMemory_Write_init c =
     (if 5 \<le> length c \<and> length c - 5 = unat (c ! 2 AND 0xf)
      then Some (A_UserMemory_Write_PDU
        (drop_bit 4 (c ! 2) AND 0xf) (c ! 2 AND 0xf) (be16 (c ! 3) (c ! 4)) (slice 5 (length c - 5) c)) else None)"

definition A_UserMemory_Write_ToPacket :: "byte \<Rightarrow> byte \<Rightarrow> u16 \<Rightarrow> carray \<Rightarrow> carray option" where
  "A_UserMemory_Write_ToPacket addr_extension count addr data =
     (if count AND 0xf0 = 0 \<and> addr_extension AND 0xf0 = 0 \<and>
       length data = unat count
      then Some ([0x02, 0xC2, push_bit 4 (addr_extension AND 0x0f) OR (count AND 0x0f),
         hi8 addr, lo8 addr] @ data)
      else None)"

definition A_UserMemoryBit_Write_init :: "carray \<Rightarrow> apdu option" where
  "A_UserMemoryBit_Write_init c =
     (if 5 \<le> length c \<and> length c - 5 = unat (c ! 2) * 2
      then Some (A_UserMemoryBit_Write_PDU
        0 (c ! 2) (be16 (c ! 3) (c ! 4)) (slice 5 (unat (c ! 2)) c) (slice (5 + unat (c ! 2)) (unat (c ! 2)) c)) else None)"

definition A_UserMemoryBit_Write_ToPacket :: "byte \<Rightarrow> byte \<Rightarrow> u16 \<Rightarrow> carray \<Rightarrow> carray \<Rightarrow> carray option" where
  "A_UserMemoryBit_Write_ToPacket addr_extension count addr andmask xormask =
     (if length andmask = unat count \<and> length xormask = unat count
      then Some ([0x02, 0xC4, count, hi8 addr, lo8 addr] @ andmask @ xormask)
      else None)"

definition A_UserManufacturerInfo_Read_init :: "carray \<Rightarrow> apdu option" where
  "A_UserManufacturerInfo_Read_init c =
     (if length c = 2
      then Some A_UserManufacturerInfo_Read_PDU else None)"

definition A_UserManufacturerInfo_Read_ToPacket :: "carray option" where
  "A_UserManufacturerInfo_Read_ToPacket =
     Some ([0x02, 0xC5])"

definition A_UserManufacturerInfo_Response_init :: "carray \<Rightarrow> apdu option" where
  "A_UserManufacturerInfo_Response_init c =
     (if length c = 5
      then Some (A_UserManufacturerInfo_Response_PDU (c ! 2) (be16 (c ! 3) (c ! 4))) else None)"

definition A_UserManufacturerInfo_Response_ToPacket :: "byte \<Rightarrow> u16 \<Rightarrow> carray option" where
  "A_UserManufacturerInfo_Response_ToPacket manufacturerid mdata =
     Some ([0x02, 0xC6, manufacturerid, hi8 mdata, lo8 mdata])"

definition A_Restart_init :: "carray \<Rightarrow> apdu option" where
  "A_Restart_init c =
     (if length c = 2
      then Some A_Restart_PDU else None)"

definition A_Restart_ToPacket :: "carray option" where
  "A_Restart_ToPacket =
     Some ([0x03, 0x80])"

definition A_Authorize_Request_init :: "carray \<Rightarrow> apdu option" where
  "A_Authorize_Request_init c =
     (if length c = 7
      then Some (A_Authorize_Request_PDU (be32 (c ! 3) (c ! 4) (c ! 5) (c ! 6))) else None)"

definition A_Authorize_Request_ToPacket :: "u32 \<Rightarrow> carray option" where
  "A_Authorize_Request_ToPacket key =
     Some ([0x03, 0xD1, 0x00, byte_at 24 key, byte_at 16 key, byte_at 8 key, byte_at 0 key])"

definition A_Authorize_Response_init :: "carray \<Rightarrow> apdu option" where
  "A_Authorize_Response_init c =
     (if length c = 3
      then Some (A_Authorize_Response_PDU (c ! 2)) else None)"

definition A_Authorize_Response_ToPacket :: "byte \<Rightarrow> carray option" where
  "A_Authorize_Response_ToPacket level =
     Some ([0x03, 0xD2, level])"

definition A_Key_Write_init :: "carray \<Rightarrow> apdu option" where
  "A_Key_Write_init c =
     (if length c = 7
      then Some (A_Key_Write_PDU (c ! 2) (be32 (c ! 3) (c ! 4) (c ! 5) (c ! 6))) else None)"

definition A_Key_Write_ToPacket :: "byte \<Rightarrow> u32 \<Rightarrow> carray option" where
  "A_Key_Write_ToPacket level key =
     Some ([0x03, 0xD3, level, byte_at 24 key, byte_at 16 key, byte_at 8 key, byte_at 0 key])"

definition A_Key_Response_init :: "carray \<Rightarrow> apdu option" where
  "A_Key_Response_init c =
     (if length c = 3
      then Some (A_Key_Response_PDU (c ! 2)) else None)"

definition A_Key_Response_ToPacket :: "byte \<Rightarrow> carray option" where
  "A_Key_Response_ToPacket level =
     Some ([0x03, 0xD4, level])"

lemmas apdu_init_defs =
  A_GroupValue_Read_init_def
  A_GroupValue_Response_init_def
  A_GroupValue_Write_init_def
  A_IndividualAddress_Write_init_def
  A_IndividualAddress_Read_init_def
  A_IndividualAddress_Response_init_def
  A_IndividualAddressSerialNumber_Read_init_def
  A_IndividualAddressSerialNumber_Response_init_def
  A_IndividualAddressSerialNumber_Write_init_def
  A_ServiceInformation_Indication_Write_init_def
  A_DomainAddress_Write_init_def
  A_DomainAddress_Read_init_def
  A_DomainAddress_Response_init_def
  A_DomainAddressSelective_Read_init_def
  A_PropertyValue_Read_init_def
  A_PropertyValue_Response_init_def
  A_PropertyValue_Write_init_def
  A_PropertyDescription_Read_init_def
  A_PropertyDescription_Response_init_def
  A_DeviceDescriptor_Read_init_def
  A_DeviceDescriptor_Response_init_def
  A_ADC_Read_init_def
  A_ADC_Response_init_def
  A_Memory_Read_init_def
  A_Memory_Response_init_def
  A_Memory_Write_init_def
  A_MemoryBit_Write_init_def
  A_UserMemory_Read_init_def
  A_UserMemory_Response_init_def
  A_UserMemory_Write_init_def
  A_UserMemoryBit_Write_init_def
  A_UserManufacturerInfo_Read_init_def
  A_UserManufacturerInfo_Response_init_def
  A_Restart_init_def
  A_Authorize_Request_init_def
  A_Authorize_Response_init_def
  A_Key_Write_init_def
  A_Key_Response_init_def

lemmas apdu_ToPacket_defs =
  A_GroupValue_Read_ToPacket_def
  A_GroupValue_Response_ToPacket_def
  A_GroupValue_Write_ToPacket_def
  A_IndividualAddress_Write_ToPacket_def
  A_IndividualAddress_Read_ToPacket_def
  A_IndividualAddress_Response_ToPacket_def
  A_IndividualAddressSerialNumber_Read_ToPacket_def
  A_IndividualAddressSerialNumber_Response_ToPacket_def
  A_IndividualAddressSerialNumber_Write_ToPacket_def
  A_ServiceInformation_Indication_Write_ToPacket_def
  A_DomainAddress_Write_ToPacket_def
  A_DomainAddress_Read_ToPacket_def
  A_DomainAddress_Response_ToPacket_def
  A_DomainAddressSelective_Read_ToPacket_def
  A_PropertyValue_Read_ToPacket_def
  A_PropertyValue_Response_ToPacket_def
  A_PropertyValue_Write_ToPacket_def
  A_PropertyDescription_Read_ToPacket_def
  A_PropertyDescription_Response_ToPacket_def
  A_DeviceDescriptor_Read_ToPacket_def
  A_DeviceDescriptor_Response_ToPacket_def
  A_ADC_Read_ToPacket_def
  A_ADC_Response_ToPacket_def
  A_Memory_Read_ToPacket_def
  A_Memory_Response_ToPacket_def
  A_Memory_Write_ToPacket_def
  A_MemoryBit_Write_ToPacket_def
  A_UserMemory_Read_ToPacket_def
  A_UserMemory_Response_ToPacket_def
  A_UserMemory_Write_ToPacket_def
  A_UserMemoryBit_Write_ToPacket_def
  A_UserManufacturerInfo_Read_ToPacket_def
  A_UserManufacturerInfo_Response_ToPacket_def
  A_Restart_ToPacket_def
  A_Authorize_Request_ToPacket_def
  A_Authorize_Response_ToPacket_def
  A_Key_Write_ToPacket_def
  A_Key_Response_ToPacket_def

text \<open>The virtual call \<open>ToPacket\<close>: the class decides; an assertion that fails is \<open>None\<close>.\<close>

fun APDU_ToPacket :: "apdu \<Rightarrow> carray option" where
  "APDU_ToPacket (A_Unknown_PDU pdu) = Some pdu"
| "APDU_ToPacket A_GroupValue_Read_PDU =
     A_GroupValue_Read_ToPacket"
| "APDU_ToPacket (A_GroupValue_Response_PDU issmall data) =
     A_GroupValue_Response_ToPacket issmall data"
| "APDU_ToPacket (A_GroupValue_Write_PDU issmall data) =
     A_GroupValue_Write_ToPacket issmall data"
| "APDU_ToPacket (A_IndividualAddress_Write_PDU addr) =
     A_IndividualAddress_Write_ToPacket addr"
| "APDU_ToPacket A_IndividualAddress_Read_PDU =
     A_IndividualAddress_Read_ToPacket"
| "APDU_ToPacket A_IndividualAddress_Response_PDU =
     A_IndividualAddress_Response_ToPacket"
| "APDU_ToPacket (A_IndividualAddressSerialNumber_Read_PDU serno) =
     A_IndividualAddressSerialNumber_Read_ToPacket serno"
| "APDU_ToPacket (A_IndividualAddressSerialNumber_Response_PDU serno addr) =
     A_IndividualAddressSerialNumber_Response_ToPacket serno addr"
| "APDU_ToPacket (A_IndividualAddressSerialNumber_Write_PDU serno addr) =
     A_IndividualAddressSerialNumber_Write_ToPacket serno addr"
| "APDU_ToPacket (A_ServiceInformation_Indication_Write_PDU verify_mode duplicate_address appl_stopped) =
     A_ServiceInformation_Indication_Write_ToPacket verify_mode duplicate_address appl_stopped"
| "APDU_ToPacket (A_DomainAddress_Write_PDU addr) =
     A_DomainAddress_Write_ToPacket addr"
| "APDU_ToPacket A_DomainAddress_Read_PDU =
     A_DomainAddress_Read_ToPacket"
| "APDU_ToPacket (A_DomainAddress_Response_PDU addr) =
     A_DomainAddress_Response_ToPacket addr"
| "APDU_ToPacket (A_DomainAddressSelective_Read_PDU domainaddr addr rng) =
     A_DomainAddressSelective_Read_ToPacket domainaddr addr rng"
| "APDU_ToPacket (A_PropertyValue_Read_PDU obj prop count start) =
     A_PropertyValue_Read_ToPacket obj prop count start"
| "APDU_ToPacket (A_PropertyValue_Response_PDU obj prop count start data) =
     A_PropertyValue_Response_ToPacket obj prop count start data"
| "APDU_ToPacket (A_PropertyValue_Write_PDU obj prop count start data) =
     A_PropertyValue_Write_ToPacket obj prop count start data"
| "APDU_ToPacket (A_PropertyDescription_Read_PDU obj prop property_index) =
     A_PropertyDescription_Read_ToPacket obj prop property_index"
| "APDU_ToPacket (A_PropertyDescription_Response_PDU obj prop property_index type count access) =
     A_PropertyDescription_Response_ToPacket obj prop property_index type count access"
| "APDU_ToPacket (A_DeviceDescriptor_Read_PDU type) =
     A_DeviceDescriptor_Read_ToPacket type"
| "APDU_ToPacket (A_DeviceDescriptor_Response_PDU type descriptor) =
     A_DeviceDescriptor_Response_ToPacket type descriptor"
| "APDU_ToPacket (A_ADC_Read_PDU channel count) =
     A_ADC_Read_ToPacket channel count"
| "APDU_ToPacket (A_ADC_Response_PDU channel count val) =
     A_ADC_Response_ToPacket channel count val"
| "APDU_ToPacket (A_Memory_Read_PDU count addr) =
     A_Memory_Read_ToPacket count addr"
| "APDU_ToPacket (A_Memory_Response_PDU count addr data) =
     A_Memory_Response_ToPacket count addr data"
| "APDU_ToPacket (A_Memory_Write_PDU count addr data) =
     A_Memory_Write_ToPacket count addr data"
| "APDU_ToPacket (A_MemoryBit_Write_PDU count addr andmask xormask) =
     A_MemoryBit_Write_ToPacket count addr andmask xormask"
| "APDU_ToPacket (A_UserMemory_Read_PDU addr_extension count addr) =
     A_UserMemory_Read_ToPacket addr_extension count addr"
| "APDU_ToPacket (A_UserMemory_Response_PDU addr_extension count addr data) =
     A_UserMemory_Response_ToPacket addr_extension count addr data"
| "APDU_ToPacket (A_UserMemory_Write_PDU addr_extension count addr data) =
     A_UserMemory_Write_ToPacket addr_extension count addr data"
| "APDU_ToPacket (A_UserMemoryBit_Write_PDU addr_extension count addr andmask xormask) =
     A_UserMemoryBit_Write_ToPacket addr_extension count addr andmask xormask"
| "APDU_ToPacket A_UserManufacturerInfo_Read_PDU =
     A_UserManufacturerInfo_Read_ToPacket"
| "APDU_ToPacket (A_UserManufacturerInfo_Response_PDU manufacturerid mdata) =
     A_UserManufacturerInfo_Response_ToPacket manufacturerid mdata"
| "APDU_ToPacket A_Restart_PDU =
     A_Restart_ToPacket"
| "APDU_ToPacket (A_Authorize_Request_PDU key) =
     A_Authorize_Request_ToPacket key"
| "APDU_ToPacket (A_Authorize_Response_PDU level) =
     A_Authorize_Response_ToPacket level"
| "APDU_ToPacket (A_Key_Write_PDU level key) =
     A_Key_Write_ToPacket level key"
| "APDU_ToPacket (A_Key_Response_PDU level) =
     A_Key_Response_ToPacket level"

section \<open>Parsing\<close>

text \<open>
  The nested \<open>switch\<close> of \<open>APDU::fromPacket\<close>, which picks the class from the two APCI bytes and
  runs its \<open>init\<close>.
\<close>

definition APDU_switch :: "carray \<Rightarrow> apdu option" where
  "APDU_switch c =
     (let c0 = c ! 0 AND 0x03; c1 = c ! 1; k = c ! 1 AND 0xC0
      in if c0 = 0 then
           (if k = 0x00 then A_GroupValue_Read_init c
            else if k = 0x40 then A_GroupValue_Response_init c
            else if k = 0x80 then A_GroupValue_Write_init c
            else A_IndividualAddress_Write_init c)
         else if c0 = 1 then
           (if k = 0x00 then A_IndividualAddress_Read_init c
            else if k = 0x40 then A_IndividualAddress_Response_init c
            else if k = 0x80 then A_ADC_Read_init c
            else A_ADC_Response_init c)
         else if c0 = 2 then
           (if k = 0x00 then A_Memory_Read_init c
            else if k = 0x40 then A_Memory_Response_init c
            else if k = 0x80 then A_Memory_Write_init c
            else if c1 = 0xC0 then A_UserMemory_Read_init c
            else if c1 = 0xC1 then A_UserMemory_Response_init c
            else if c1 = 0xC2 then A_UserMemory_Write_init c
            else if c1 = 0xC4 then A_UserMemoryBit_Write_init c
            else if c1 = 0xC5 then A_UserManufacturerInfo_Read_init c
            else if c1 = 0xC6 then A_UserManufacturerInfo_Response_init c
            else None)
         else
           (if k = 0x00 then A_DeviceDescriptor_Read_init c
            else if k = 0x40 then A_DeviceDescriptor_Response_init c
            else if k = 0x80 then A_Restart_init c
            else if c1 = 0xD0 then A_MemoryBit_Write_init c
            else if c1 = 0xD1 then A_Authorize_Request_init c
            else if c1 = 0xD2 then A_Authorize_Response_init c
            else if c1 = 0xD3 then A_Key_Write_init c
            else if c1 = 0xD4 then A_Key_Response_init c
            else if c1 = 0xD5 then A_PropertyValue_Read_init c
            else if c1 = 0xD6 then A_PropertyValue_Response_init c
            else if c1 = 0xD7 then A_PropertyValue_Write_init c
            else if c1 = 0xD8 then A_PropertyDescription_Read_init c
            else if c1 = 0xD9 then A_PropertyDescription_Response_init c
            else if c1 = 0xDC then A_IndividualAddressSerialNumber_Read_init c
            else if c1 = 0xDD then A_IndividualAddressSerialNumber_Response_init c
            else if c1 = 0xDE then A_IndividualAddressSerialNumber_Write_init c
            else if c1 = 0xDF then A_ServiceInformation_Indication_Write_init c
            else if c1 = 0xE0 then A_DomainAddress_Write_init c
            else if c1 = 0xE1 then A_DomainAddress_Read_init c
            else if c1 = 0xE2 then A_DomainAddress_Response_init c
            else if c1 = 0xE3 then A_DomainAddressSelective_Read_init c
            else None))"

definition APDU_fromPacket :: "carray \<Rightarrow> apdu" where
  "APDU_fromPacket c =
     (case (if 2 \<le> length c then APDU_switch c else None) of
        Some a \<Rightarrow> a
      | None \<Rightarrow> A_Unknown_PDU c)"

section \<open>Matching responses to requests\<close>

text \<open>\<open>isResponse\<close> of the response classes (the pointer cast follows the type check).\<close>

definition A_IndividualAddressSerialNumber_Response_isResponse :: "carray \<Rightarrow> apdu \<Rightarrow> bool" where
  "A_IndividualAddressSerialNumber_Response_isResponse serno req =
     (case req of A_IndividualAddressSerialNumber_Read_PDU serno' \<Rightarrow> serno' = serno
      | _ \<Rightarrow> False)"

definition A_PropertyValue_Response_isResponse ::
  "byte \<Rightarrow> byte \<Rightarrow> byte \<Rightarrow> u16 \<Rightarrow> apdu \<Rightarrow> bool" where
  "A_PropertyValue_Response_isResponse obj prop count start req =
     (case req of
        A_PropertyValue_Write_PDU obj' prop' count' start' _ \<Rightarrow>
          obj' = obj \<and> prop' = prop \<and> start' = start \<and> count' = count
      | A_PropertyValue_Read_PDU obj' prop' count' start' \<Rightarrow>
          obj' = obj \<and> prop' = prop \<and> start' = start \<and> count' = count
      | _ \<Rightarrow> False)"

definition A_PropertyDescription_Response_isResponse :: "byte \<Rightarrow> apdu \<Rightarrow> bool" where
  "A_PropertyDescription_Response_isResponse obj req =
     (case req of A_PropertyDescription_Read_PDU obj' _ _ \<Rightarrow> obj' = obj | _ \<Rightarrow> False)"

definition A_DeviceDescriptor_Response_isResponse :: "byte \<Rightarrow> apdu \<Rightarrow> bool" where
  "A_DeviceDescriptor_Response_isResponse type req =
     (case req of A_DeviceDescriptor_Read_PDU type' \<Rightarrow> type' = type | _ \<Rightarrow> False)"

definition A_ADC_Response_isResponse :: "byte \<Rightarrow> byte \<Rightarrow> apdu \<Rightarrow> bool" where
  "A_ADC_Response_isResponse channel count req =
     (case req of A_ADC_Read_PDU channel' count' \<Rightarrow> count' = count \<and> channel' = channel
      | _ \<Rightarrow> False)"

definition A_Memory_Response_isResponse :: "byte \<Rightarrow> u16 \<Rightarrow> apdu \<Rightarrow> bool" where
  "A_Memory_Response_isResponse count addr req =
     (case req of A_Memory_Read_PDU count' addr' \<Rightarrow> count' = count \<and> addr' = addr
      | _ \<Rightarrow> False)"

definition A_UserMemory_Response_isResponse :: "byte \<Rightarrow> byte \<Rightarrow> u16 \<Rightarrow> apdu \<Rightarrow> bool" where
  "A_UserMemory_Response_isResponse addr_extension count addr req =
     (case req of
        A_UserMemory_Read_PDU addr_extension' count' addr' \<Rightarrow>
          count' = count \<and> addr' = addr \<and> addr_extension' = addr_extension
      | _ \<Rightarrow> False)"

definition A_Key_Response_isResponse :: "byte \<Rightarrow> apdu \<Rightarrow> bool" where
  "A_Key_Response_isResponse level req =
     (case req of A_Key_Write_PDU level' _ \<Rightarrow> level' = level | _ \<Rightarrow> False)"

lemmas isResponse_defs =
  A_IndividualAddressSerialNumber_Response_isResponse_def
  A_PropertyValue_Response_isResponse_def A_PropertyDescription_Response_isResponse_def
  A_DeviceDescriptor_Response_isResponse_def A_ADC_Response_isResponse_def
  A_Memory_Response_isResponse_def A_UserMemory_Response_isResponse_def
  A_Key_Response_isResponse_def

definition isResponse :: "apdu \<Rightarrow> apdu \<Rightarrow> bool" where
  "isResponse a req =
     (case a of
        A_GroupValue_Response_PDU _ _ \<Rightarrow> getType req = A_GroupValue_Read
      | A_IndividualAddress_Response_PDU \<Rightarrow> getType req = A_IndividualAddress_Read
      | A_IndividualAddressSerialNumber_Response_PDU serno _ \<Rightarrow>
          A_IndividualAddressSerialNumber_Response_isResponse serno req
      | A_DomainAddress_Response_PDU _ \<Rightarrow> getType req = A_DomainAddress_Read
      | A_PropertyValue_Response_PDU obj prop count start _ \<Rightarrow>
          A_PropertyValue_Response_isResponse obj prop count start req
      | A_PropertyDescription_Response_PDU obj _ _ _ _ _ \<Rightarrow>
          A_PropertyDescription_Response_isResponse obj req
      | A_DeviceDescriptor_Response_PDU type _ \<Rightarrow>
          A_DeviceDescriptor_Response_isResponse type req
      | A_ADC_Response_PDU channel count _ \<Rightarrow> A_ADC_Response_isResponse channel count req
      | A_Memory_Response_PDU count addr _ \<Rightarrow> A_Memory_Response_isResponse count addr req
      | A_UserMemory_Response_PDU ext count addr _ \<Rightarrow>
          A_UserMemory_Response_isResponse ext count addr req
      | A_UserManufacturerInfo_Response_PDU _ _ \<Rightarrow> getType req = A_UserManufacturerInfo_Read
      | A_Authorize_Response_PDU _ \<Rightarrow> getType req = A_Authorize_Request
      | A_Key_Response_PDU level \<Rightarrow> A_Key_Response_isResponse level req
      | _ \<Rightarrow> False)"

end
