(* ===== verification/Apdu_Props.thy ===== *)
theory Apdu_Props
  imports Apdu
begin

text \<open>Properties of the application layer PDUs of \<open>Apdu\<close>.\<close>

unbundle bit_operations_syntax

section \<open>Masks of the APCI bytes\<close>

text \<open>A field below a code in the same byte: the code and the field can be read back.\<close>

lemma field6 [simp]:
  fixes x :: byte
  assumes "x AND 0xC0 = 0"
  shows "x AND 0x3f = x"
    and "(0x40 OR x) AND 0xC0 = 0x40" "(0x40 OR x) AND 0x3f = x"
    and "(0x80 OR x) AND 0xC0 = 0x80" "(0x80 OR x) AND 0x3f = x"
    and "(0xC0 OR x) AND 0xC0 = 0xC0" "(0xC0 OR x) AND 0x3f = x"
  using assms by (simp_all add: byte_bits)

lemma field4 [simp]:
  fixes x :: byte
  assumes "x AND 0xf0 = 0"
  shows "x AND 0x0f = x" "x AND 0xC0 = 0"
    and "(0x40 OR x) AND 0xC0 = 0x40" "(0x40 OR x) AND 0x0f = x"
    and "(0x80 OR x) AND 0xC0 = 0x80" "(0x80 OR x) AND 0x0f = x"
  using assms by (simp_all add: byte_bits)

lemma field4_neq [simp]:
  fixes x :: byte
  assumes "x AND 0xf0 = 0"
  shows "x \<noteq> 0xC0" "x \<noteq> 0xC1" "x \<noteq> 0xC2" "x \<noteq> 0xC4" "x \<noteq> 0xC5" "x \<noteq> 0xC6"
  using assms by (simp_all add: byte_bits)

lemma nibbles [simp]:
  fixes x y :: byte
  assumes "x AND 0xf0 = 0" and "y AND 0xf0 = 0"
  shows "(drop_bit 4 (push_bit 4 x) OR drop_bit 4 y) AND 0x0f = x"
    and "(push_bit 4 x OR y) AND 0x0f = y"
  using assms by (simp_all add: byte_bits)

lemma hi8_field12 [simp]: "s AND 0xf000 = 0 \<Longrightarrow> hi8 s AND 0xf0 = 0"
  by (simp add: hi8_def word_bits)

section \<open>Round trip\<close>

text \<open>
  The PDUs the code encodes faithfully: the fields are in range, and the class is none of the
  four whose \<open>ToPacket\<close> writes another service's code.
\<close>

fun wf_apdu :: "apdu \<Rightarrow> bool" where
  "wf_apdu (A_Unknown_PDU p) = (APDU_fromPacket p = A_Unknown_PDU p)"
| "wf_apdu (A_GroupValue_Response_PDU small d) =
     (if small then length d = 1 \<and> d ! 0 AND 0xC0 = 0 else d \<noteq> [])"
| "wf_apdu (A_GroupValue_Write_PDU small d) =
     (if small then length d = 1 \<and> d ! 0 AND 0xC0 = 0 else d \<noteq> [])"
| "wf_apdu (A_IndividualAddressSerialNumber_Read_PDU s) = (length s = 6)"
| "wf_apdu (A_IndividualAddressSerialNumber_Response_PDU s _) = (length s = 6)"
| "wf_apdu (A_IndividualAddressSerialNumber_Write_PDU _ _) = False"
| "wf_apdu (A_ServiceInformation_Indication_Write_PDU _ dup _) = (\<not> dup)"
| "wf_apdu (A_DomainAddressSelective_Read_PDU _ _ _) = False"
| "wf_apdu (A_PropertyValue_Read_PDU _ _ n s) = (n AND 0xf0 = 0 \<and> s AND 0xf000 = 0)"
| "wf_apdu (A_PropertyValue_Response_PDU _ _ n s _) = (n AND 0xf0 = 0 \<and> s AND 0xf000 = 0)"
| "wf_apdu (A_PropertyValue_Write_PDU _ _ n s _) = (n AND 0xf0 = 0 \<and> s AND 0xf000 = 0)"
| "wf_apdu (A_DeviceDescriptor_Read_PDU t) = (t AND 0xC0 = 0)"
| "wf_apdu (A_DeviceDescriptor_Response_PDU _ _) = False"
| "wf_apdu (A_ADC_Read_PDU ch _) = (ch AND 0xC0 = 0)"
| "wf_apdu (A_ADC_Response_PDU ch _ _) = (ch AND 0xC0 = 0)"
| "wf_apdu (A_Memory_Read_PDU n _) = (n AND 0xf0 = 0)"
| "wf_apdu (A_Memory_Response_PDU n _ d) = (n AND 0xf0 = 0 \<and> length d = unat n)"
| "wf_apdu (A_Memory_Write_PDU n _ d) = (n AND 0xf0 = 0 \<and> length d = unat n)"
| "wf_apdu (A_MemoryBit_Write_PDU n _ a x) = (length a = unat n \<and> length x = unat n)"
| "wf_apdu (A_UserMemory_Read_PDU e n _) = (n AND 0xf0 = 0 \<and> e AND 0xf0 = 0)"
| "wf_apdu (A_UserMemory_Response_PDU e n _ d) =
     (n AND 0xf0 = 0 \<and> e AND 0xf0 = 0 \<and> length d = unat n)"
| "wf_apdu (A_UserMemory_Write_PDU e n _ d) =
     (n AND 0xf0 = 0 \<and> e AND 0xf0 = 0 \<and> length d = unat n)"
| "wf_apdu (A_UserMemoryBit_Write_PDU e n _ a x) =
     (e = 0 \<and> length a = unat n \<and> length x = unat n)"
| "wf_apdu _ = True"

lemmas apdu_parse_defs = APDU_fromPacket_def APDU_switch_def apdu_init_defs

lemma singleton_nth: "length d = 1 \<Longrightarrow> [d ! 0] = d"
  by (cases d) auto

lemma apdu_round_trip:
  assumes "wf_apdu a"
  shows "\<exists>p. APDU_ToPacket a = Some p \<and> APDU_fromPacket p = a"
proof (cases a)
  case (A_Unknown_PDU p)
  with assms show ?thesis by simp
qed (use assms in \<open>simp_all add: apdu_ToPacket_defs apdu_parse_defs Let_def nth_append
    singleton_nth split: if_splits\<close>)

interpretation apdu: codec wf_apdu APDU_ToPacket APDU_fromPacket
  by unfold_locales (use apdu_round_trip in fastforce)+

section \<open>Decoded PDUs\<close>

text \<open>The classes whose \<open>ToPacket\<close> does not write the service the class stands for.\<close>

definition misencoded :: "apdu \<Rightarrow> bool" where
  "misencoded a \<longleftrightarrow>
     getType a \<in> {A_IndividualAddressSerialNumber_Write, A_DomainAddressSelective_Read,
                  A_DeviceDescriptor_Response} \<or>
     (\<exists>v s. a = A_ServiceInformation_Indication_Write_PDU v True s)"

lemma and_mask_idem [simp]:
  "(x AND 0x3F) AND 0xC0 = (0 :: byte)" "(x AND 0xf) AND 0xf0 = (0 :: byte)"
  by (simp_all add: byte_bits)

lemma be16_low12 [simp]: "be16 (x AND 0x0f) y AND 0xf000 = 0"
  by (simp add: be16_def word_bits)

lemma init_encodes:
  assumes "APDU_switch c = Some a" and "2 \<le> length c"
  shows "APDU_ToPacket a \<noteq> None"
  using assms
  by (auto simp: APDU_switch_def Let_def apdu_init_defs apdu_ToPacket_defs split: if_splits)

lemma init_wf:
  assumes "APDU_switch c = Some a" and "2 \<le> length c" and "\<not> misencoded a"
  shows "wf_apdu a"
  using assms
  by (auto simp: APDU_switch_def Let_def apdu_init_defs misencoded_def split: if_splits)

lemma fromPacket_cases:
  obtains a where "2 \<le> length c" "APDU_switch c = Some a" "APDU_fromPacket c = a"
  | "APDU_fromPacket c = A_Unknown_PDU c"
  by (cases "2 \<le> length c"; cases "APDU_switch c") (auto simp: APDU_fromPacket_def)

lemma fromPacket_wf: "\<not> misencoded (APDU_fromPacket c) \<Longrightarrow> wf_apdu (APDU_fromPacket c)"
  by (rule fromPacket_cases [of c]) (auto intro: init_wf)

section \<open>Results\<close>



text \<open>
  Whatever bytes arrive, the PDU \<open>APDU::fromPacket\<close> builds from them satisfies the
  assertions of its own \<open>ToPacket\<close> (and of \<open>Decode\<close>, which asserts the same): input from the bus
  cannot abort the daemon in the application layer codec.
\<close>

theorem apdu_decoded_never_aborts: "\<exists>p. APDU_ToPacket (APDU_fromPacket c) = Some p"
  by (rule fromPacket_cases [of c]) (use init_encodes in auto)

text \<open>
  A decoded PDU, other than the four the code misencodes, is written back in a form
  that decodes to the same PDU: forwarding loses nothing but don't-care bits.
\<close>

theorem apdu_reencode_stable:
  "\<not> misencoded (APDU_fromPacket c) \<Longrightarrow>
   \<exists>p. APDU_ToPacket (APDU_fromPacket c) = Some p \<and> APDU_fromPacket p = APDU_fromPacket c"
  by (intro apdu.enc_exists fromPacket_wf)

theorem apdu_reencode_stable_witness:
  "\<exists>p. APDU_ToPacket (APDU_fromPacket [0xF0, 0x80, 0x12]) = Some p \<and>
       APDU_fromPacket p = APDU_fromPacket [0xF0, 0x80, 0x12]"
proof -
  have "APDU_fromPacket [0xF0, 0x80, 0x12] = A_GroupValue_Write_PDU False [0x12]"
    by (simp add: apdu_parse_defs Let_def)
  then have "\<not> misencoded (APDU_fromPacket [0xF0, 0x80, 0x12])"
    by (simp add: misencoded_def)
  then show ?thesis by (rule apdu_reencode_stable)
qed

text \<open>
  Four services do not survive the code's own encoder.  The serial number write is sent
  with the code of the serial number response, the selective domain address read with the code of
  the domain address response, the device descriptor response with the code of the read: the
  decoder of knxd itself takes each for an unknown PDU.  The service information write puts the
  duplicate-address flag into another byte than the decoder reads it from, so the flag is lost.
\<close>

theorem apdu_misencoded_services:
  "(\<exists>p. APDU_ToPacket (A_IndividualAddressSerialNumber_Write_PDU [a, b, c, d, e, f] addr) = Some p \<and>
        APDU_fromPacket p = A_Unknown_PDU p) \<and>
   (\<exists>p. APDU_ToPacket (A_DomainAddressSelective_Read_PDU domain addr rng) = Some p \<and>
        APDU_fromPacket p = A_Unknown_PDU p) \<and>
   (\<exists>p. APDU_ToPacket (A_DeviceDescriptor_Response_PDU (t AND 0x3F) desc) = Some p \<and>
        APDU_fromPacket p = A_Unknown_PDU p) \<and>
   (\<exists>p. APDU_ToPacket (A_ServiceInformation_Indication_Write_PDU v dup s) = Some p \<and>
        APDU_fromPacket p = A_ServiceInformation_Indication_Write_PDU v False s)"
proof -
  have code: "(1 OR (t AND 0x3F)) AND 0xC0 = (0 :: byte)"
    by (simp add: byte_bits)
  have sel: "A_DomainAddressSelective_Read_ToPacket domain addr rng =
      Some [0x03, 0xE2, hi8 addr, lo8 addr, 0, 0, rng]"
    by (simp add: A_DomainAddressSelective_Read_ToPacket_def replicate_eq_replicate
        eval_nat_numeral(2,3))
  show ?thesis
    by (intro conjI)
      (simp_all add: apdu_ToPacket_defs apdu_parse_defs Let_def code sel
        del: A_DomainAddressSelective_Read_ToPacket_def)
qed

text \<open>
  \<open>isResponse\<close> accepts a PDU as the answer to a request only if it is the response
  service of that very request service; in particular no request, write or unknown PDU is ever
  taken for an answer, and nothing answers a PDU that expects no answer.
\<close>

theorem isResponse_service:
  "isResponse a req \<Longrightarrow>
   (getType a, getType req) \<in>
     {(A_GroupValue_Response, A_GroupValue_Read),
      (A_IndividualAddress_Response, A_IndividualAddress_Read),
      (A_IndividualAddressSerialNumber_Response, A_IndividualAddressSerialNumber_Read),
      (A_DomainAddress_Response, A_DomainAddress_Read),
      (A_PropertyValue_Response, A_PropertyValue_Read),
      (A_PropertyValue_Response, A_PropertyValue_Write),
      (A_PropertyDescription_Response, A_PropertyDescription_Read),
      (A_DeviceDescriptor_Response, A_DeviceDescriptor_Read),
      (A_ADC_Response, A_ADC_Read),
      (A_Memory_Response, A_Memory_Read),
      (A_UserMemory_Response, A_UserMemory_Read),
      (A_UserManufacturerInfo_Response, A_UserManufacturerInfo_Read),
      (A_Authorize_Response, A_Authorize_Request),
      (A_Key_Response, A_Key_Write)}"
  by (auto simp: isResponse_def isResponse_defs split: apdu.splits)

theorem isResponse_service_witness:
  "(getType (A_Memory_Response_PDU 1 0x100 [7]), getType (A_Memory_Read_PDU 1 0x100)) =
     (A_Memory_Response, A_Memory_Read)"
proof -
  have "isResponse (A_Memory_Response_PDU 1 0x100 [7]) (A_Memory_Read_PDU 1 0x100)"
    by (simp add: isResponse_def isResponse_defs)
  from isResponse_service [OF this] show ?thesis by simp
qed

end
