(* ===== verification/Tpdu.thy ===== *)
theory Tpdu
  imports Prelude
begin

text \<open>
  Transport layer PDUs, \<^verbatim>\<open>src/src/libserver/tpdu.cpp\<close> and \<^verbatim>\<open>tpdu.h\<close>: one constructor per class,
  \<open>init\<close> as an option (\<open>None\<close> for \<open>false\<close>), \<open>ToPacket\<close> as an option (\<open>None\<close> for a failed
  assertion), and the dispatch of \<open>TPDU::fromPacket\<close>.  The codec is lossless: every byte string
  decodes to a PDU that is encoded to the same bytes.
\<close>

unbundle bit_operations_syntax

section \<open>PDUs\<close>

datatype tpdu =
    T_UNKNOWN_PDU carray
  | T_DATA_XXX_REQ_PDU carray
  | T_DATA_CONNECTED_REQ_PDU byte carray
  | T_CONNECT_REQ_PDU
  | T_DISCONNECT_REQ_PDU
  | T_ACK_PDU byte
  | T_NACK_PDU byte

definition T_DATA_XXX_REQ_init :: "carray \<Rightarrow> tpdu option" where
  "T_DATA_XXX_REQ_init c = (if length c < 1 then None else Some (T_DATA_XXX_REQ_PDU c))"

definition T_DATA_XXX_REQ_ToPacket :: "carray \<Rightarrow> carray option" where
  "T_DATA_XXX_REQ_ToPacket data =
     (if 0 < length data then Some (data[0 := data ! 0 AND 0x3]) else None)"

definition T_DATA_CONNECTED_REQ_init :: "carray \<Rightarrow> tpdu option" where
  "T_DATA_CONNECTED_REQ_init c =
     (if length c < 1 then None
      else Some (T_DATA_CONNECTED_REQ_PDU (drop_bit 2 (c ! 0) AND 0x0f) c))"

definition T_DATA_CONNECTED_REQ_ToPacket :: "byte \<Rightarrow> carray \<Rightarrow> carray option" where
  "T_DATA_CONNECTED_REQ_ToPacket serno data =
     (if 0 < length data \<and> serno AND 0xf0 = 0
      then Some (data[0 := (data ! 0 AND 0x3) OR 0x40 OR push_bit 2 (serno AND 0x0f)])
      else None)"

definition T_CONNECT_REQ_init :: "carray \<Rightarrow> tpdu option" where
  "T_CONNECT_REQ_init c = (if length c \<noteq> 1 then None else Some T_CONNECT_REQ_PDU)"

definition T_CONNECT_REQ_ToPacket :: "carray option" where
  "T_CONNECT_REQ_ToPacket = Some [0x80]"

definition T_DISCONNECT_REQ_init :: "carray \<Rightarrow> tpdu option" where
  "T_DISCONNECT_REQ_init c = (if length c \<noteq> 1 then None else Some T_DISCONNECT_REQ_PDU)"

definition T_DISCONNECT_REQ_ToPacket :: "carray option" where
  "T_DISCONNECT_REQ_ToPacket = Some [0x81]"

definition T_ACK_init :: "carray \<Rightarrow> tpdu option" where
  "T_ACK_init c =
     (if length c \<noteq> 1 then None else Some (T_ACK_PDU (drop_bit 2 (c ! 0) AND 0x0f)))"

definition T_ACK_ToPacket :: "byte \<Rightarrow> carray option" where
  "T_ACK_ToPacket serno =
     (if serno AND 0xf0 = 0 then Some [0xC2 OR push_bit 2 (serno AND 0x0f)] else None)"

definition T_NACK_init :: "carray \<Rightarrow> tpdu option" where
  "T_NACK_init c =
     (if length c \<noteq> 1 then None else Some (T_NACK_PDU (drop_bit 2 (c ! 0) AND 0x0f)))"

definition T_NACK_ToPacket :: "byte \<Rightarrow> carray option" where
  "T_NACK_ToPacket serno =
     (if serno AND 0xf0 = 0 then Some [0xC3 OR push_bit 2 (serno AND 0x0f)] else None)"

lemmas tpdu_init_defs =
  T_DATA_XXX_REQ_init_def T_DATA_CONNECTED_REQ_init_def T_CONNECT_REQ_init_def
  T_DISCONNECT_REQ_init_def T_ACK_init_def T_NACK_init_def

lemmas tpdu_ToPacket_defs =
  T_DATA_XXX_REQ_ToPacket_def T_DATA_CONNECTED_REQ_ToPacket_def T_CONNECT_REQ_ToPacket_def
  T_DISCONNECT_REQ_ToPacket_def T_ACK_ToPacket_def T_NACK_ToPacket_def

fun TPDU_ToPacket :: "tpdu \<Rightarrow> carray option" where
  "TPDU_ToPacket (T_UNKNOWN_PDU pdu) = Some pdu"
| "TPDU_ToPacket (T_DATA_XXX_REQ_PDU data) = T_DATA_XXX_REQ_ToPacket data"
| "TPDU_ToPacket (T_DATA_CONNECTED_REQ_PDU serno data) = T_DATA_CONNECTED_REQ_ToPacket serno data"
| "TPDU_ToPacket T_CONNECT_REQ_PDU = T_CONNECT_REQ_ToPacket"
| "TPDU_ToPacket T_DISCONNECT_REQ_PDU = T_DISCONNECT_REQ_ToPacket"
| "TPDU_ToPacket (T_ACK_PDU serno) = T_ACK_ToPacket serno"
| "TPDU_ToPacket (T_NACK_PDU serno) = T_NACK_ToPacket serno"

section \<open>Parsing\<close>

definition TPDU_fromPacket :: "carray \<Rightarrow> tpdu" where
  "TPDU_fromPacket c =
     (case (if 1 \<le> length c then
              (if c ! 0 AND 0xfc = 0 then T_DATA_XXX_REQ_init c
               else if c ! 0 = 0x80 then T_CONNECT_REQ_init c
               else if c ! 0 = 0x81 then T_DISCONNECT_REQ_init c
               else if c ! 0 AND 0xC3 = 0xC2 then T_ACK_init c
               else if c ! 0 AND 0xC3 = 0xC3 then T_NACK_init c
               else if c ! 0 AND 0xC0 = 0x40 then T_DATA_CONNECTED_REQ_init c
               else None)
            else None) of
        Some t \<Rightarrow> t
      | None \<Rightarrow> T_UNKNOWN_PDU c)"

lemmas tpdu_parse_defs = TPDU_fromPacket_def tpdu_init_defs

section \<open>The header byte\<close>

lemma and_serno [simp]: "(drop_bit 2 x AND 0x0f) AND 0xf0 = (0 :: byte)"
  by (simp add: byte_bits)

lemma tpci_rebuild:
  fixes x :: byte
  shows "x AND 0xfc = 0 \<Longrightarrow> x AND 3 = x"
    and "x AND 0xC3 = 0xC2 \<Longrightarrow> 0xC2 OR push_bit 2 (drop_bit 2 x AND 0x0f) = x"
    and "x AND 0xC3 = 0xC3 \<Longrightarrow> 0xC3 OR push_bit 2 (drop_bit 2 x AND 0x0f) = x"
    and "x AND 0xC0 = 0x40 \<Longrightarrow> (x AND 3) OR 0x40 OR push_bit 2 (drop_bit 2 x AND 0x0f) = x"
  by (simp_all add: byte_bits)

lemma list_update_nth_0 [simp]: "xs[0 := xs ! 0] = xs"
  by simp

lemma one_byte: "length c = 1 \<Longrightarrow> [c ! 0] = c"
  by (cases c) auto

lemma tpdu_lossless_aux: "TPDU_ToPacket (TPDU_fromPacket c) = Some c"
  using one_byte [of c] tpci_rebuild [of "c ! 0"]
  by (auto simp: tpdu_parse_defs tpdu_ToPacket_defs simp flip: and.assoc split: if_splits)

text \<open>The PDUs that carry their own header: exactly those the decoder builds.\<close>

definition wf_tpdu :: "tpdu \<Rightarrow> bool" where
  "wf_tpdu t \<longleftrightarrow> (\<exists>c. t = TPDU_fromPacket c)"

interpretation tpdu: closed_codec wf_tpdu TPDU_ToPacket TPDU_fromPacket
  by unfold_locales (auto simp: wf_tpdu_def tpdu_lossless_aux)

text \<open>What the peer decodes when the upper layer hands over a payload with any header bits.\<close>

lemma data_xxx_decoded:
  assumes "TPDU_ToPacket (T_DATA_XXX_REQ_PDU d) = Some p"
  shows "TPDU_fromPacket p = T_DATA_XXX_REQ_PDU (d[0 := d ! 0 AND 3])"
proof -
  have "(d ! 0 AND 3) AND 0xfc = 0"
    by (simp add: byte_bits)
  with assms show ?thesis
    by (auto simp: tpdu_parse_defs tpdu_ToPacket_defs Suc_le_eq split: if_splits)
qed

lemma connected_header:
  fixes x s :: byte
  assumes "s AND 0xf0 = 0"
  defines "h \<equiv> (x AND 3) OR 0x40 OR push_bit 2 (s AND 0x0f)"
  shows "h AND 0xfc \<noteq> 0" "h \<noteq> 0x80" "h \<noteq> 0x81" "h AND 0xC3 \<noteq> 0xC2" "h AND 0xC3 \<noteq> 0xC3"
    and "h AND 0xC0 = 0x40" "drop_bit 2 h AND 0x0f = s"
  using assms by (simp_all add: byte_bits)

lemma data_connected_decoded:
  assumes "TPDU_ToPacket (T_DATA_CONNECTED_REQ_PDU s d) = Some p"
  shows "TPDU_fromPacket p =
    T_DATA_CONNECTED_REQ_PDU s (d[0 := (d ! 0 AND 3) OR 0x40 OR push_bit 2 (s AND 0x0f)])"
proof -
  from assms have "s AND 0xf0 = 0" "0 < length d"
    and p: "p = d[0 := (d ! 0 AND 3) OR 0x40 OR push_bit 2 (s AND 0x0f)]"
    by (auto simp: tpdu_ToPacket_defs split: if_splits)
  with connected_header [of s "d ! 0"] show ?thesis
    by (simp add: tpdu_parse_defs p Suc_le_eq)
qed

lemma control_decoded [simp]:
  "TPDU_fromPacket [0x80] = T_CONNECT_REQ_PDU"
  "TPDU_fromPacket [0x81] = T_DISCONNECT_REQ_PDU"
  by (simp_all add: tpdu_parse_defs)

lemma ack_decoded:
  fixes s :: byte
  assumes "s AND 0xf0 = 0"
  shows "TPDU_fromPacket [0xC2 OR push_bit 2 (s AND 0x0f)] = T_ACK_PDU s"
    and "TPDU_fromPacket [0xC3 OR push_bit 2 (s AND 0x0f)] = T_NACK_PDU s"
proof -
  let ?a = "0xC2 OR push_bit 2 (s AND 0x0f)" and ?n = "0xC3 OR push_bit 2 (s AND 0x0f)"
  have "?a AND 0xfc \<noteq> 0" "?a \<noteq> 0x80" "?a \<noteq> 0x81" "?a AND 0xC3 = 0xC2"
    "drop_bit 2 ?a AND 0x0f = s"
    using assms by (simp_all add: byte_bits)
  then show "TPDU_fromPacket [?a] = T_ACK_PDU s"
    by (simp add: tpdu_parse_defs)
  have "?n AND 0xfc \<noteq> 0" "?n \<noteq> 0x80" "?n \<noteq> 0x81" "?n AND 0xC3 = 0xC3"
    "drop_bit 2 ?n AND 0x0f = s"
    using assms by (simp_all add: byte_bits)
  then show "TPDU_fromPacket [?n] = T_NACK_PDU s"
    by (simp add: tpdu_parse_defs)
qed

section \<open>Results\<close>

text \<open>
  The transport codec loses nothing: any byte string, valid TPDU or not, decodes to a
  PDU whose \<open>ToPacket\<close> succeeds (no assertion fails) and gives back exactly those bytes.
\<close>

theorem tpdu_lossless: "TPDU_ToPacket (TPDU_fromPacket c) = Some c"
  by (rule tpdu_lossless_aux)

text \<open>
  A numbered data PDU reaches the peer with its sequence number and payload: whatever
  transport bits the payload's first byte carried, the peer decodes the sequence number that was
  given and the payload with only these six bits replaced.
\<close>

theorem tpdu_numbered_data:
  assumes "s AND 0xf0 = 0" and "d \<noteq> []"
  shows "\<exists>p. TPDU_ToPacket (T_DATA_CONNECTED_REQ_PDU s d) = Some p \<and>
    TPDU_fromPacket p =
      T_DATA_CONNECTED_REQ_PDU s (d[0 := (d ! 0 AND 3) OR 0x40 OR push_bit 2 (s AND 0x0f)])"
proof -
  from assms obtain p where "TPDU_ToPacket (T_DATA_CONNECTED_REQ_PDU s d) = Some p"
    by (auto simp: tpdu_ToPacket_defs)
  then show ?thesis
    using data_connected_decoded by blast
qed

theorem tpdu_numbered_data_witness:
  "\<exists>p. TPDU_ToPacket (T_DATA_CONNECTED_REQ_PDU 5 [0x03, 0x00]) = Some p \<and>
    TPDU_fromPacket p = T_DATA_CONNECTED_REQ_PDU 5 [0x57, 0x00]"
  using tpdu_numbered_data [of 5 "[0x03, 0x00]"] by simp

end
