(* ===== verification/Lpdu.thy ===== *)
theory Lpdu
  imports Prelude
begin

text \<open>
  Layer 2 frames, \<^verbatim>\<open>src/src/libserver/lpdu.cpp\<close>, \<^verbatim>\<open>lpdu.h\<close> and the enumerations of
  \<^verbatim>\<open>src/src/libserver/common.h\<close>.  \<open>L_Data_PDU\<close> is the record every other component of the daemon
  passes around; \<open>init\<close> parses a TP1 frame into it (\<open>None\<close> for \<open>false\<close>), \<open>ToPacket\<close> builds the
  frame (\<open>None\<close> for a failed assertion).
\<close>

unbundle bit_operations_syntax

section \<open>Data\<close>

datatype EIB_Priority = PRIO_LOW | PRIO_NORMAL | PRIO_URGENT | PRIO_SYSTEM

datatype EIB_AddrType = GroupAddress | IndividualAddress

record l_data_pdu =
  l_prio :: EIB_Priority
  l_repeated :: bool
  l_valid_checksum :: bool
  l_valid_length :: bool
  l_AddrType :: EIB_AddrType
  l_source :: eibaddr
  l_dest :: eibaddr
  l_hopcount :: byte
  l_data :: carray

text \<open>The default constructor \<open>L_Data_PDU ()\<close>.\<close>

definition L_Data_new :: l_data_pdu where
  "L_Data_new =
     \<lparr>l_prio = PRIO_LOW, l_repeated = False, l_valid_checksum = True, l_valid_length = True,
      l_AddrType = IndividualAddress, l_source = 0, l_dest = 0, l_hopcount = 0x06, l_data = []\<rparr>"

record l_busmonitor_pdu =
  b_pdu :: carray
  b_status :: byte
  b_timestamp :: u32

text \<open>
  The constructor \<open>L_Busmonitor_PDU ()\<close> stamps the frame with the time of day, in units of 16
  microseconds per second of 65536 ticks, truncated to 32 bits.
\<close>

definition L_Busmonitor_new :: "nat \<Rightarrow> nat \<Rightarrow> l_busmonitor_pdu" where
  "L_Busmonitor_new tv_sec tv_usec =
     \<lparr>b_pdu = [], b_status = 0,
      b_timestamp = of_nat (tv_sec * 65536 + tv_usec div (1000000 div 65536 + 1))\<rparr>"

datatype lpdu =
    L_Unknown_PDU carray
  | L_Data_PDU l_data_pdu
  | L_ACK_PDU
  | L_NACK_PDU
  | L_BUSY_PDU
  | L_Busmonitor_PDU l_busmonitor_pdu

section \<open>Priority bits\<close>

text \<open>The \<open>switch ((c[0] >> 2) & 0x3)\<close> of \<open>init\<close> and the \<open>switch (prio)\<close> of \<open>ToPacket\<close>.\<close>

definition prio_from_bits :: "byte \<Rightarrow> EIB_Priority" where
  "prio_from_bits b =
     (if b = 0 then PRIO_SYSTEM else if b = 1 then PRIO_URGENT
      else if b = 2 then PRIO_NORMAL else PRIO_LOW)"

fun prio_to_bits :: "EIB_Priority \<Rightarrow> byte" where
  "prio_to_bits PRIO_LOW = 0x3"
| "prio_to_bits PRIO_NORMAL = 0x1"
| "prio_to_bits PRIO_URGENT = 0x02"
| "prio_to_bits PRIO_SYSTEM = 0x00"

section \<open>Parsing\<close>

text \<open>\<open>for (i = 0; i < n; i++) c1 ^= c[i]\<close>\<close>

definition xor_bytes :: "carray \<Rightarrow> byte" where
  "xor_bytes c = foldl (XOR) 0 c"

definition L_ACK_init :: "carray \<Rightarrow> bool" where
  "L_ACK_init c \<longleftrightarrow> length c = 1"

definition L_NACK_init :: "carray \<Rightarrow> bool" where
  "L_NACK_init c \<longleftrightarrow> length c = 1"

definition L_BUSY_init :: "carray \<Rightarrow> bool" where
  "L_BUSY_init c \<longleftrightarrow> length c = 1"

definition addr_type :: "byte \<Rightarrow> EIB_AddrType" where
  "addr_type b = (if b AND 0x80 \<noteq> 0 then GroupAddress else IndividualAddress)"

definition L_Data_init :: "carray \<Rightarrow> l_data_pdu option" where
  "L_Data_init c =
     (if length c < 6 then None
      else if c ! 0 AND 0x53 \<noteq> 0x10 then None
      else
        let rep = (c ! 0 AND 0x20 = 0);
            pr = prio_from_bits (drop_bit 2 (c ! 0) AND 0x3);
            ok = (c ! (length c - 1) = NOT (xor_bytes (take (length c - 1) c)))
        in if c ! 0 AND 0x80 \<noteq> 0 then
             let len = unat (c ! 5 AND 0x0f) + 1
             in if len + 7 \<noteq> length c then None
                else Some \<lparr>l_prio = pr, l_repeated = rep, l_valid_checksum = ok,
                       l_valid_length = True, l_AddrType = addr_type (c ! 5),
                       l_source = be16 (c ! 1) (c ! 2), l_dest = be16 (c ! 3) (c ! 4),
                       l_hopcount = drop_bit 4 (c ! 5) AND 0x07, l_data = slice 6 len c\<rparr>
           else if c ! 1 AND 0x0f \<noteq> 0 then None
           else if length c < 7 then None
           else
             let len = unat (c ! 6) + 1;
                 fr = \<lparr>l_prio = pr, l_repeated = rep, l_valid_checksum = ok,
                       l_valid_length = True, l_AddrType = addr_type (c ! 1),
                       l_source = be16 (c ! 2) (c ! 3), l_dest = be16 (c ! 4) (c ! 5),
                       l_hopcount = drop_bit 4 (c ! 1) AND 0x07, l_data = slice 7 len c\<rparr>
             in if len + 8 \<noteq> length c then
                  (if length c = 23
                   then Some (fr\<lparr>l_valid_length := False, l_data := slice 7 8 c\<rparr>)
                   else None)
                else Some fr)"

definition LPDU_fromPacket :: "carray \<Rightarrow> lpdu" where
  "LPDU_fromPacket c =
     (case (if 1 \<le> length c then
              (if c ! 0 = 0xCC then (if L_ACK_init c then Some L_ACK_PDU else None)
               else if c ! 0 = 0xC0 then (if L_BUSY_init c then Some L_BUSY_PDU else None)
               else if c ! 0 = 0x0C then (if L_NACK_init c then Some L_NACK_PDU else None)
               else if c ! 0 AND 0x53 = 0x10 then map_option L_Data_PDU (L_Data_init c)
               else None)
            else None) of
        Some l \<Rightarrow> l
      | None \<Rightarrow> L_Unknown_PDU c)"

section \<open>Building\<close>

text \<open>The checksum byte is stored last, over everything before it.\<close>

definition with_checksum :: "carray \<Rightarrow> carray" where
  "with_checksum pdu = pdu @ [NOT (xor_bytes pdu)]"

definition L_Data_ToPacket :: "l_data_pdu \<Rightarrow> carray option" where
  "L_Data_ToPacket l =
     (if \<not> (1 \<le> length (l_data l) \<and> length (l_data l) \<le> 0xff \<and> l_hopcount l AND 0xf8 = 0)
      then None
      else
        let c = prio_to_bits (l_prio l);
            rep = (if l_repeated l then 0x00 else 0x20);
            grp = (if l_AddrType l = GroupAddress then 0x80 else 0x00)
        in if length (l_data l) - 1 \<le> 0x0f
           then Some (with_checksum
             ([0x90 OR push_bit 2 c OR rep,
               hi8 (l_source l), lo8 (l_source l), hi8 (l_dest l), lo8 (l_dest l),
               push_bit 4 (l_hopcount l AND 0x07) OR (len_m1 (l_data l) AND 0x0f) OR grp]
              @ l_data l))
           else Some (with_checksum
             ([0x10 OR push_bit 2 c OR rep,
               push_bit 4 (l_hopcount l AND 0x07) OR grp,
               hi8 (l_source l), lo8 (l_source l), hi8 (l_dest l), lo8 (l_dest l),
               len_m1 (l_data l)]
              @ l_data l)))"

fun LPDU_ToPacket :: "lpdu \<Rightarrow> carray option" where
  "LPDU_ToPacket (L_Unknown_PDU pdu) = Some pdu"
| "LPDU_ToPacket (L_Data_PDU l) = L_Data_ToPacket l"
| "LPDU_ToPacket L_ACK_PDU = Some [0xCC]"
| "LPDU_ToPacket L_NACK_PDU = Some [0x0C]"
| "LPDU_ToPacket L_BUSY_PDU = Some [0xC0]"
| "LPDU_ToPacket (L_Busmonitor_PDU b) = Some (b_pdu b)"

end
