(* ===== verification/Lpdu_Props.thy ===== *)
theory Lpdu_Props
  imports Lpdu
begin

text \<open>Properties of the layer 2 frames of \<open>Lpdu\<close>: checksum, round trip, and where assertions fail.\<close>

unbundle bit_operations_syntax

section \<open>The checksum\<close>

lemma foldl_xor: "foldl (XOR) a c = a XOR xor_bytes (c :: carray)"
  unfolding xor_bytes_def
proof (induction c arbitrary: a)
  case (Cons x xs)
  have "foldl (XOR) (a XOR x) xs = (a XOR x) XOR foldl (XOR) 0 xs"
    by (rule Cons.IH)
  moreover have "foldl (XOR) x xs = x XOR foldl (XOR) 0 xs"
    by (rule Cons.IH)
  ultimately show ?case
    by (simp add: xor.assoc)
qed simp

lemma xor_bytes_simps [simp]:
  "xor_bytes [] = 0"
  "xor_bytes (x # xs) = x XOR xor_bytes xs"
  "xor_bytes (xs @ ys) = xor_bytes xs XOR xor_bytes ys"
proof -
  show "xor_bytes [] = 0" by (simp add: xor_bytes_def)
  show "xor_bytes (x # xs) = x XOR xor_bytes xs"
    using foldl_xor [of x xs] by (simp add: xor_bytes_def)
  show "xor_bytes (xs @ ys) = xor_bytes xs XOR xor_bytes ys"
    using foldl_xor [of "xor_bytes xs" ys] by (simp add: xor_bytes_def)
qed

lemma xor_bytes_update:
  "i < length xs \<Longrightarrow> xor_bytes (xs[i := b]) = xor_bytes xs XOR xs ! i XOR b"
proof (induction xs arbitrary: i)
  case (Cons x xs)
  then show ?case
    by (cases i) (simp_all add: xor.assoc xor.left_commute xor.commute)
qed simp

lemma checksum_iff:
  "c \<noteq> [] \<Longrightarrow> c ! (length c - 1) = NOT (xor_bytes (take (length c - 1) c)) \<longleftrightarrow> xor_bytes c = - 1"
proof (induction c rule: rev_induct)
  case (snoc x xs)
  have "x = NOT a \<longleftrightarrow> a XOR x = - 1" for a :: byte
    by (simp add: byte_bits) blast
  then show ?case by simp
qed simp

lemma init_checksum:
  assumes "L_Data_init c = Some l"
  shows "l_valid_checksum l \<longleftrightarrow> xor_bytes c = - 1"
proof -
  from assms have "c \<noteq> []" by (auto simp: L_Data_init_def)
  then show ?thesis
    using assms unfolding checksum_iff [OF \<open>c \<noteq> []\<close>, symmetric]
    by (auto simp: L_Data_init_def Let_def split: if_splits)
qed

lemma with_checksum_valid [simp]: "xor_bytes (with_checksum pdu) = - 1"
  by (simp add: with_checksum_def byte_bits)

lemma with_checksum_last:
  "with_checksum c ! (length (with_checksum c) - 1) =
     NOT (xor_bytes (take (length (with_checksum c) - 1) (with_checksum c)))"
  by (simp add: with_checksum_def)

section \<open>Round trip\<close>

text \<open>A frame the daemon can send: one to 255 payload bytes, a three-bit hop count.\<close>

definition wf_l_data :: "l_data_pdu \<Rightarrow> bool" where
  "wf_l_data l \<longleftrightarrow> 1 \<le> length (l_data l) \<and> length (l_data l) \<le> 0xff \<and> l_hopcount l AND 0xf8 = 0 \<and>
     l_valid_checksum l \<and> l_valid_length l"

text \<open>The parser reads the two middle priorities the other way round than the builder writes them.\<close>

fun prio_swap :: "EIB_Priority \<Rightarrow> EIB_Priority" where
  "prio_swap PRIO_NORMAL = PRIO_URGENT"
| "prio_swap PRIO_URGENT = PRIO_NORMAL"
| "prio_swap p = p"

lemma prio_swap_swap [simp]: "prio_swap (prio_swap p) = p"
  by (cases p) auto

lemma prio_bits [simp]: "prio_from_bits (prio_to_bits p) = prio_swap p"
  by (cases p) (simp_all add: prio_from_bits_def)

lemma prio_to_bits_low [simp]: "prio_to_bits p AND 0xfc = 0"
  by (cases p) simp_all

lemma ctrl_std:
  fixes c r :: byte
  assumes "c AND 0xfc = 0" and "r = 0x00 \<or> r = 0x20"
  defines "h \<equiv> 0x90 OR push_bit 2 c OR r"
  shows "h AND 0x53 = 0x10" "h AND 0x80 \<noteq> 0" "h AND 0x20 = r" "drop_bit 2 h AND 0x3 = c"
    "h \<noteq> 0xCC" "h \<noteq> 0xC0" "h \<noteq> 0x0C"
  using assms by (auto simp: byte_bits)

lemma ctrl_ext:
  fixes c r :: byte
  assumes "c AND 0xfc = 0" and "r = 0x00 \<or> r = 0x20"
  defines "h \<equiv> 0x10 OR push_bit 2 c OR r"
  shows "h AND 0x53 = 0x10" "h AND 0x80 = 0" "h AND 0x20 = r" "drop_bit 2 h AND 0x3 = c"
    "h \<noteq> 0xCC" "h \<noteq> 0xC0" "h \<noteq> 0x0C"
  using assms by (auto simp: byte_bits)

lemma npci_fields:
  fixes hop n g :: byte
  assumes "hop AND 0xf8 = 0" and "n AND 0xf0 = 0" and "g = 0x80 \<or> g = 0x00"
  defines "b \<equiv> push_bit 4 (hop AND 0x07) OR (n AND 0x0f) OR g"
  shows "b AND 0x0f = n" "drop_bit 4 b AND 0x07 = hop" "b AND 0x80 = g"
  using assms by (auto simp: byte_bits)

lemma len_nibble:
  assumes "1 \<le> length xs" and "length xs - 1 \<le> 0x0f"
  shows "len_m1 xs AND 0xf0 = 0"
proof -
  from assms have "xs \<noteq> []" by auto
  with assms have u: "unat (len_m1 xs) \<le> 15"
    using unat_len_m1 [of xs] by simp
  then have "unat (take_bit 4 (len_m1 xs)) = unat (len_m1 xs)"
    by (simp add: unsigned_take_bit_eq take_bit_nat_eq_self)
  then have "take_bit 4 (len_m1 xs) = len_m1 xs"
    by (rule unsigned_word_eqI)
  moreover have "take_bit 4 x AND 0xf0 = 0" for x :: byte
    by (simp add: byte_bits)
  ultimately show ?thesis by metis
qed

lemma addr_type_alt: "addr_type b = (if b AND 0x80 = 0 then IndividualAddress else GroupAddress)"
  by (simp add: addr_type_def)

lemma std_fields:
  assumes "length p = length d + 7" "p ! 0 AND 0x53 = 0x10" "p ! 0 AND 0x80 \<noteq> 0"
    "p ! 0 \<noteq> 0xCC" "p ! 0 \<noteq> 0xC0" "p ! 0 \<noteq> 0x0C"
    "unat (p ! 5 AND 0x0f) = length d - 1" "1 \<le> length d" "slice 6 (length d) p = d"
    "p ! (length p - 1) = NOT (xor_bytes (take (length p - 1) p))"
  shows "LPDU_fromPacket p = L_Data_PDU
     \<lparr>l_prio = prio_from_bits (drop_bit 2 (p ! 0) AND 0x3), l_repeated = (p ! 0 AND 0x20 = 0),
      l_valid_checksum = True, l_valid_length = True, l_AddrType = addr_type (p ! 5),
      l_source = be16 (p ! 1) (p ! 2), l_dest = be16 (p ! 3) (p ! 4),
      l_hopcount = drop_bit 4 (p ! 5) AND 0x07, l_data = d\<rparr>"
  using assms unfolding LPDU_fromPacket_def L_Data_init_def Let_def
  by (simp add: Suc_le_eq)

lemma ext_fields:
  assumes "length p = length d + 8" "p ! 0 AND 0x53 = 0x10" "p ! 0 AND 0x80 = 0"
    "p ! 0 \<noteq> 0xCC" "p ! 0 \<noteq> 0xC0" "p ! 0 \<noteq> 0x0C" "p ! 1 AND 0x0f = 0"
    "unat (p ! 6) = length d - 1" "1 \<le> length d" "slice 7 (length d) p = d"
    "p ! (length p - 1) = NOT (xor_bytes (take (length p - 1) p))"
  shows "LPDU_fromPacket p = L_Data_PDU
     \<lparr>l_prio = prio_from_bits (drop_bit 2 (p ! 0) AND 0x3), l_repeated = (p ! 0 AND 0x20 = 0),
      l_valid_checksum = True, l_valid_length = True, l_AddrType = addr_type (p ! 1),
      l_source = be16 (p ! 2) (p ! 3), l_dest = be16 (p ! 4) (p ! 5),
      l_hopcount = drop_bit 4 (p ! 1) AND 0x07, l_data = d\<rparr>"
  using assms unfolding LPDU_fromPacket_def L_Data_init_def Let_def
  by (simp add: Suc_le_eq)

lemma init_std:
  assumes "c AND 0xfc = 0" "r = 0x00 \<or> r = 0x20" "hop AND 0xf8 = 0" "g = 0x80 \<or> g = 0x00"
    and len: "1 \<le> length d" "length d - 1 \<le> 0x0f"
  shows "LPDU_fromPacket (with_checksum
      ([0x90 OR push_bit 2 c OR r, s1, s2, d1, d2,
        push_bit 4 (hop AND 0x07) OR (len_m1 d AND 0x0f) OR g] @ d)) =
    L_Data_PDU \<lparr>l_prio = prio_from_bits c, l_repeated = (r = 0), l_valid_checksum = True,
      l_valid_length = True, l_AddrType = (if g = 0 then IndividualAddress else GroupAddress),
      l_source = be16 s1 s2, l_dest = be16 d1 d2, l_hopcount = hop, l_data = d\<rparr>"
    (is "LPDU_fromPacket ?p = _")
proof -
  note h = ctrl_std [OF assms(1,2)]
  note n = npci_fields [OF assms(3) len_nibble [OF len] assms(4)]
  have u: "unat (len_m1 d) = length d - 1"
    using len by (intro unat_len_m1) auto
  have ck: "?p ! (length ?p - 1) = NOT (xor_bytes (take (length ?p - 1) ?p))"
    by (rule with_checksum_last)
  have sl: "slice 6 (length d) ?p = d"
    by (simp add: with_checksum_def)
  have nth: "?p ! 0 = 0x90 OR push_bit 2 c OR r" "?p ! 1 = s1" "?p ! 2 = s2" "?p ! 3 = d1" "?p ! 4 = d2"
    "?p ! 5 = push_bit 4 (hop AND 0x07) OR (len_m1 d AND 0x0f) OR g" "length ?p = length d + 7"
    by (simp_all add: with_checksum_def)
  show ?thesis
    using std_fields [of ?p d] sl u len(1) ck
    unfolding nth n addr_type_alt h(3,4) by (simp only: h n simp_thms if_False if_True HOL.refl)
qed

lemma init_ext:
  assumes "c AND 0xfc = 0" "r = 0x00 \<or> r = 0x20" "hop AND 0xf8 = 0" "g = 0x80 \<or> g = 0x00"
    and len: "1 \<le> length d" "length d \<le> 0xff"
  shows "LPDU_fromPacket (with_checksum
      ([0x10 OR push_bit 2 c OR r, push_bit 4 (hop AND 0x07) OR g, s1, s2, d1, d2, len_m1 d] @ d)) =
    L_Data_PDU \<lparr>l_prio = prio_from_bits c, l_repeated = (r = 0), l_valid_checksum = True,
      l_valid_length = True, l_AddrType = (if g = 0 then IndividualAddress else GroupAddress),
      l_source = be16 s1 s2, l_dest = be16 d1 d2, l_hopcount = hop, l_data = d\<rparr>"
    (is "LPDU_fromPacket ?p = _")
proof -
  note h = ctrl_ext [OF assms(1,2)]
  have n: "(push_bit 4 (hop AND 0x07) OR g) AND 0x0f = 0"
      "drop_bit 4 (push_bit 4 (hop AND 0x07) OR g) AND 0x07 = hop"
      "(push_bit 4 (hop AND 0x07) OR g) AND 0x80 = g"
    using npci_fields [OF assms(3) _ assms(4), of 0] by simp_all
  have u: "unat (len_m1 d) = length d - 1"
    using len by (intro unat_len_m1) auto
  have ck: "?p ! (length ?p - 1) = NOT (xor_bytes (take (length ?p - 1) ?p))"
    by (rule with_checksum_last)
  have sl: "slice 7 (length d) ?p = d"
    by (simp add: with_checksum_def)
  have nth: "?p ! 0 = 0x10 OR push_bit 2 c OR r" "?p ! 1 = push_bit 4 (hop AND 0x07) OR g"
    "?p ! 2 = s1" "?p ! 3 = s2" "?p ! 4 = d1" "?p ! 5 = d2" "?p ! 6 = len_m1 d"
    "length ?p = length d + 8"
    by (simp_all add: with_checksum_def)
  show ?thesis
    using ext_fields [of ?p d] sl u len(1) ck
    unfolding nth n addr_type_alt h(3,4) by (simp only: h n simp_thms if_False if_True HOL.refl)
qed

lemma l_data_round_trip:
  assumes "wf_l_data l"
  shows "\<exists>p. L_Data_ToPacket l = Some p \<and>
    LPDU_fromPacket p = L_Data_PDU (l\<lparr>l_prio := prio_swap (l_prio l)\<rparr>)"
proof -
  define r g where "r = (if l_repeated l then 0x00 else 0x20 :: byte)"
    and "g = (if l_AddrType l = GroupAddress then 0x80 else 0x00 :: byte)"
  have r: "r = 0x00 \<or> r = 0x20" "(r = 0) = l_repeated l" by (auto simp: r_def)
  have g: "g = 0x80 \<or> g = 0x00" "(if g = 0 then IndividualAddress else GroupAddress) = l_AddrType l"
    by (cases "l_AddrType l"; simp add: g_def)+
  from assms have len: "1 \<le> length (l_data l)" "length (l_data l) \<le> 0xff"
    and hop: "l_hopcount l AND 0xf8 = 0" and v: "l_valid_checksum l" "l_valid_length l"
    by (auto simp: wf_l_data_def)
  have eq: "l\<lparr>l_prio := q\<rparr> = \<lparr>l_prio = q, l_repeated = l_repeated l, l_valid_checksum = True,
      l_valid_length = True, l_AddrType = l_AddrType l, l_source = l_source l, l_dest = l_dest l,
      l_hopcount = l_hopcount l, l_data = l_data l\<rparr>" for q
    using v by simp
  show ?thesis
    using init_std [OF prio_to_bits_low r(1) hop g(1) len(1), of "l_prio l"
        "hi8 (l_source l)" "lo8 (l_source l)" "hi8 (l_dest l)" "lo8 (l_dest l)"]
      init_ext [OF prio_to_bits_low r(1) hop g(1) len, of "l_prio l"
        "hi8 (l_source l)" "lo8 (l_source l)" "hi8 (l_dest l)" "lo8 (l_dest l)"]
      len hop unfolding r(2) g(2) eq prio_bits
    by (simp add: L_Data_ToPacket_def Let_def r_def g_def)
qed

lemma fromPacket_L_Data:
  assumes "LPDU_fromPacket c = L_Data_PDU l"
  shows "L_Data_init c = Some l"
  using assms by (auto simp: LPDU_fromPacket_def split: if_splits option.splits)

section \<open>Relaying\<close>

text \<open>
  The interface to the frame formats that carry whole telegrams: what is built can be parsed, and the
  parser exchanges the two middle priorities.  A telegram that is relayed twice is therefore unchanged.
\<close>

locale telegram_codec =
  fixes wf :: "l_data_pdu \<Rightarrow> bool"
    and enc :: "l_data_pdu \<Rightarrow> carray option"
    and dec :: "carray \<Rightarrow> l_data_pdu option"
  assumes wf_prio: "wf l \<Longrightarrow> wf (l\<lparr>l_prio := q\<rparr>)"
    and trip: "wf l \<Longrightarrow> \<exists>p. enc l = Some p \<and> dec p = Some (l\<lparr>l_prio := prio_swap (l_prio l)\<rparr>)"
begin

definition relay :: "l_data_pdu \<Rightarrow> l_data_pdu option" where
  "relay l = Option.bind (enc l) dec"

lemma relay_swaps: "wf l \<Longrightarrow> relay l = Some (l\<lparr>l_prio := prio_swap (l_prio l)\<rparr>)"
  using trip [of l] by (auto simp: relay_def)

lemma relay_twice: "wf l \<Longrightarrow> Option.bind (relay l) relay = Some l"
  using relay_swaps [of l] relay_swaps [OF wf_prio, of l "prio_swap (l_prio l)"] by simp

lemma enc_inject_telegram: "wf l \<Longrightarrow> wf l' \<Longrightarrow> enc l = enc l' \<Longrightarrow> l = l'"
  using relay_twice [of l] relay_twice [of l'] by (simp add: relay_def)

end

interpretation tp1: telegram_codec wf_l_data L_Data_ToPacket L_Data_init
proof
  show "wf_l_data (l\<lparr>l_prio := q\<rparr>)" if "wf_l_data l" for l q
    using that by (simp add: wf_l_data_def)
  show "\<exists>p. L_Data_ToPacket l = Some p \<and> L_Data_init p = Some (l\<lparr>l_prio := prio_swap (l_prio l)\<rparr>)"
    if "wf_l_data l" for l
    using l_data_round_trip [OF that] fromPacket_L_Data by blast
qed

section \<open>What a parsed frame looks like\<close>

lemma L_Data_init_SomeE:
  assumes "L_Data_init c = Some l"
  obtains "length (l_data l) = length c - 7" "8 \<le> length c" "length c \<le> 23" "c ! 0 AND 0x80 \<noteq> 0"
      "l_valid_length l"
    | "length (l_data l) = length c - 8" "9 \<le> length c" "length c \<le> 264" "c ! 0 AND 0x80 = 0"
      "l_valid_length l"
    | "length (l_data l) = 8" "length c = 23" "c ! 0 AND 0x80 = 0" "\<not> l_valid_length l"
proof -
  have "unat (c ! 5 AND 0x0f) < 16" by (rule unat_and_mask4_less)
  moreover obtain n where "unat (c ! 6) = n" "n < 256" using unat_byte_less by blast
  ultimately show thesis
    using assms that by (auto simp: L_Data_init_def Let_def split: if_splits)
qed

lemma L_Data_init_hop: "L_Data_init c = Some l \<Longrightarrow> l_hopcount l AND 0xf8 = 0"
proof -
  have "(drop_bit 4 b AND 0x07) AND 0xf8 = 0" for b :: byte
    by (simp add: byte_bits)
  then show "L_Data_init c = Some l \<Longrightarrow> l_hopcount l AND 0xf8 = 0"
    by (auto simp: L_Data_init_def Let_def split: if_splits)
qed

section \<open>Properties\<close>

text \<open>
  \<^bold>\<open>C16\<close>: building a TP1 frame from a data telegram with 1 to 255 payload bytes and a three-bit hop
  count, and parsing the frame, gives back every field of the telegram, except that the parser reads
  the priority codes 1 and 2 the other way round than the builder writes them: a telegram of normal
  priority comes back urgent and an urgent one normal.
\<close>

theorem l_data_encode_decode:
  assumes "wf_l_data l"
  shows "\<exists>p. L_Data_ToPacket l = Some p \<and>
    LPDU_fromPacket p = L_Data_PDU (l\<lparr>l_prio := prio_swap (l_prio l)\<rparr>)"
  using assms by (rule l_data_round_trip)

theorem l_data_encode_decode_witness:
  "\<exists>p. L_Data_ToPacket (L_Data_new\<lparr>l_prio := PRIO_URGENT, l_dest := 0x0a03, l_data := [0x00, 0x81]\<rparr>) = Some p \<and>
    LPDU_fromPacket p = L_Data_PDU (L_Data_new\<lparr>l_prio := PRIO_NORMAL, l_dest := 0x0a03, l_data := [0x00, 0x81]\<rparr>)"
  using l_data_encode_decode
    [of "L_Data_new\<lparr>l_prio := PRIO_URGENT, l_dest := 0x0a03, l_data := [0x00, 0x81]\<rparr>"]
  by (simp add: wf_l_data_def L_Data_new_def)

text \<open>
  The checksum detects every single-byte corruption: when a received frame has a valid checksum
  and one of its bytes is changed, whatever telegram the changed frame still parses to is marked as
  having an invalid checksum.
\<close>

theorem checksum_detects_corruption:
  assumes "L_Data_init c = Some l" and "l_valid_checksum l"
    and "i < length c" and "b \<noteq> c ! i" and "L_Data_init (c[i := b]) = Some l'"
  shows "\<not> l_valid_checksum l'"
proof -
  have "xor_bytes (c[i := b]) = xor_bytes c XOR (c ! i XOR b)"
    using assms(3) by (simp add: xor_bytes_update xor.assoc)
  moreover have "x XOR y \<noteq> x" if "y \<noteq> 0" for x y :: byte
    using that by (metis xor.assoc xor_self_eq xor.left_neutral)
  moreover have "c ! i XOR b \<noteq> 0"
    using assms(4) by (metis xor.assoc xor_self_eq xor.left_neutral xor.right_neutral)
  ultimately show ?thesis
    using init_checksum [OF assms(1)] init_checksum [OF assms(5)] assms(2) by metis
qed

theorem checksum_detects_corruption_witness:
  "map_option l_valid_checksum (L_Data_init [0xbc, 0x11, 0x01, 0x0a, 0x03, 0xe1, 0x00, 0x81, 0x3a]) = Some True \<and>
   map_option l_valid_checksum (L_Data_init [0xbc, 0x11, 0x01, 0x0a, 0x03, 0xe1, 0x00, 0x80, 0x3a]) = Some False"
proof -
  let ?c = "[0xbc, 0x11, 0x01, 0x0a, 0x03, 0xe1, 0x00, 0x81, 0x3a] :: byte list"
  obtain l l' where "L_Data_init ?c = Some l" "l_valid_checksum l" "L_Data_init (?c[7 := 0x80]) = Some l'"
    by (simp add: L_Data_init_def xor_bytes_def)
  with checksum_detects_corruption [of ?c l 7 "0x80" l'] show ?thesis by simp
qed

text \<open>
  Rebuilding the frame of a telegram the parser accepted succeeds unless the frame was an extended
  one of 264 bytes, whose length byte 0xff announces 256 payload bytes; for exactly those the
  assertion in \<open>ToPacket\<close> fails.
\<close>

theorem l_data_reencode_aborts:
  assumes "LPDU_fromPacket c = L_Data_PDU l"
  shows "L_Data_ToPacket l = None \<longleftrightarrow> length c = 264"
proof -
  from assms have i: "L_Data_init c = Some l" by (rule fromPacket_L_Data)
  then show ?thesis
    using L_Data_init_hop [OF i]
    by (rule_tac L_Data_init_SomeE [OF i]) (auto simp: L_Data_ToPacket_def Let_def)
qed

theorem l_data_reencode_aborts_witness:
  "\<exists>l. LPDU_fromPacket (0x10 # 0 # 0 # 0 # 0 # 0 # 0xff # replicate 257 0) = L_Data_PDU l \<and>
    L_Data_ToPacket l = None"
proof -
  let ?c = "0x10 # 0 # 0 # 0 # 0 # 0 # 0xff # replicate 257 0 :: byte list"
  obtain l where l: "LPDU_fromPacket ?c = L_Data_PDU l"
    by (simp add: LPDU_fromPacket_def L_Data_init_def Let_def)
  then have "L_Data_ToPacket l = None \<longleftrightarrow> length ?c = 264"
    by (rule l_data_reencode_aborts)
  with l show ?thesis by auto
qed

end
