(* ===== verification/Emi.thy ===== *)
theory Emi
  imports Lpdu_Props
begin

text \<open>
  The conversions between telegrams and the cEMI and EMI1/2 frames of interfaces and of KNXnet/IP,
  \<^verbatim>\<open>src/src/libserver/emi.cpp\<close>.  A \<open>nullptr\<close> result and a failed assertion are \<open>None\<close>.
\<close>

unbundle bit_operations_syntax

section \<open>cEMI\<close>

definition L_Data_ToCEMI :: "byte \<Rightarrow> l_data_pdu \<Rightarrow> carray option" where
  "L_Data_ToCEMI code l1 =
     (if \<not> (1 \<le> length (l_data l1) \<and> length (l_data l1) < 0xff \<and> l_hopcount l1 AND 0xf8 = 0)
      then None
      else
        let c = prio_to_bits (l_prio l1);
            ctrl = 0x10 OR push_bit 2 c OR (if length (l_data l1) - 1 \<le> 0x0f then 0x80 else 0x00);
            ctrl' = (if code = 0x29 then ctrl OR (if l_repeated l1 then 0 else 0x20) else ctrl OR 0x20)
        in Some ([code, 0x00, ctrl',
             (if l_AddrType l1 = GroupAddress then 0x80 else 0x00) OR push_bit 4 (l_hopcount l1 AND 0x7) OR 0x0,
             hi8 (l_source l1), lo8 (l_source l1), hi8 (l_dest l1), lo8 (l_dest l1),
             len_m1 (l_data l1)] @ l_data l1))"

definition CEMI_to_L_Data :: "carray \<Rightarrow> l_data_pdu option" where
  "CEMI_to_L_Data d =
     (if length d < 2 then None
      else let start = unat (d ! 1) + 2
      in if length d < 7 + start then None
      else if length d < 7 + start + unat (d ! (6 + start)) + 1 then None
      else let c = L_Data_new\<lparr>
               l_source := be16 (d ! (start + 2)) (d ! (start + 3)),
               l_dest := be16 (d ! (start + 4)) (d ! (start + 5)),
               l_data := slice (start + 7) (unat (d ! (6 + start)) + 1) d,
               l_repeated := (if d ! 0 = 0x29 then d ! start AND 0x20 = 0 else False),
               l_prio := prio_from_bits (drop_bit 2 (d ! start) AND 0x3),
               l_hopcount := drop_bit 4 (d ! (start + 1)) AND 0x07,
               l_AddrType := addr_type (d ! (start + 1))\<rparr>
      in if d ! start AND 0x80 = 0 \<and> d ! (start + 1) AND 0x0f \<noteq> 0 then None
      else Some c)"

definition CEMI_to_Busmonitor :: "nat \<Rightarrow> nat \<Rightarrow> carray \<Rightarrow> l_busmonitor_pdu option" where
  "CEMI_to_Busmonitor tv_sec tv_usec d =
     (if length d < 2 then None
      else let start = unat (d ! 1) + 2
      in if length d < 1 + start then None
      else Some ((L_Busmonitor_new tv_sec tv_usec)\<lparr>b_pdu := slice start (length d - start) d\<rparr>))"

definition Busmonitor_to_CEMI :: "byte \<Rightarrow> l_busmonitor_pdu \<Rightarrow> int \<Rightarrow> carray" where
  "Busmonitor_to_CEMI code p no =
     [code, 7, 0x03, 1, word_of_int no AND 0x7, 0x04, 2,
      ucast (drop_bit 8 (b_timestamp p AND 0x0000ff00)), ucast (b_timestamp p AND 0x000000ff)]
     @ b_pdu p"

section \<open>EMI1 and EMI2\<close>

definition L_Data_ToEMI :: "byte \<Rightarrow> l_data_pdu \<Rightarrow> carray" where
  "L_Data_ToEMI code l1 =
     [code, push_bit 2 (prio_to_bits (l_prio l1)), 0, 0, hi8 (l_dest l1), lo8 (l_dest l1),
      push_bit 4 (l_hopcount l1 AND 0x07) OR (len_m1 (l_data l1) AND 0x0f) OR
        (if l_AddrType l1 = GroupAddress then 0x80 else 0x00)]
     @ l_data l1"

definition EMI_to_L_Data :: "carray \<Rightarrow> l_data_pdu option" where
  "EMI_to_L_Data d =
     (if length d < 8 then None
      else
        let len = unat (d ! 6 AND 0x0f) + 1;
            len' = (if len > length d - 7 then length d - 7 else len)
        in Some (L_Data_new\<lparr>
             l_source := be16 (d ! 2) (d ! 3), l_dest := be16 (d ! 4) (d ! 5),
             l_prio := prio_from_bits (drop_bit 2 (d ! 1) AND 0x3),
             l_AddrType := addr_type (d ! 6),
             l_data := slice 7 len' d,
             l_hopcount := drop_bit 4 (d ! 6) AND 0x07\<rparr>))"

section \<open>Lemmas\<close>

lemma ctrl_cemi:
  fixes c r e :: byte
  assumes "c AND 0xfc = 0" and "r = 0 \<or> r = 0x20" and "e = 0x80 \<or> e = 0x00"
  defines "h \<equiv> (0x10 OR push_bit 2 c OR e) OR r"
  shows "h AND 0x20 = r" "drop_bit 2 h AND 0x3 = c" "h AND 0x80 = e"
  using assms by (auto simp: byte_bits)

text \<open>The parser skips the additional information and sees only what follows it.\<close>

definition cemi_body :: "byte \<Rightarrow> carray \<Rightarrow> l_data_pdu option" where
  "cemi_body code d =
     (if length d < 7 \<or> length d < unat (d ! 6) + 8 \<or> (d ! 0 AND 0x80 = 0 \<and> d ! 1 AND 0x0f \<noteq> 0) then None
      else Some
        \<lparr>l_prio = prio_from_bits (drop_bit 2 (d ! 0) AND 0x3),
         l_repeated = (code = 0x29 \<and> d ! 0 AND 0x20 = 0),
         l_valid_checksum = True, l_valid_length = True, l_AddrType = addr_type (d ! 1),
         l_source = be16 (d ! 2) (d ! 3), l_dest = be16 (d ! 4) (d ! 5),
         l_hopcount = drop_bit 4 (d ! 1) AND 0x07, l_data = slice 7 (unat (d ! 6) + 1) d\<rparr>)"

lemma cemi_parse:
  assumes "unat n = length info"
  shows "CEMI_to_L_Data (code # n # info @ d) = cemi_body code d"
proof -
  let ?p = "code # n # info @ d"
  have sl: "slice (7 + length info) m (info @ d) = slice 7 m d" for m
    by (simp add: slice_def)
  have "?p ! 1 = n" "length ?p = length info + 2 + length d" "?p ! 0 = code" by simp_all
  then show ?thesis
    using assms unfolding CEMI_to_L_Data_def Let_def cemi_body_def
    by (simp add: nth_append sl numeral_2_eq_2 [symmetric] L_Data_new_def)
qed

lemma cemi_fields:
  assumes "unat lm = length d - 1" "1 \<le> length d" "b AND 0x0f = 0"
  shows "CEMI_to_L_Data ([code, 0x00, h, b, s1, s2, d1, d2, lm] @ d) = Some
     \<lparr>l_prio = prio_from_bits (drop_bit 2 h AND 0x3), l_repeated = (code = 0x29 \<and> h AND 0x20 = 0),
      l_valid_checksum = True, l_valid_length = True, l_AddrType = addr_type b,
      l_source = be16 s1 s2, l_dest = be16 d1 d2,
      l_hopcount = drop_bit 4 b AND 0x07, l_data = d\<rparr>"
  using assms cemi_parse [of 0 "[]" code "[h, b, s1, s2, d1, d2, lm] @ d"]
  by (simp add: cemi_body_def Suc_le_eq)

lemma cemi_frame:
  assumes "c AND 0xfc = 0" "r = 0 \<or> r = 0x20" "e = 0x80 \<or> e = 0x00" "g = 0x80 \<or> g = 0x00"
    and hop: "hop AND 0xf8 = 0" and len: "1 \<le> length d" "length d \<le> 0xff"
  shows "CEMI_to_L_Data ([code, 0x00, (0x10 OR push_bit 2 c OR e) OR r,
        g OR push_bit 4 (hop AND 0x7) OR 0x0, s1, s2, d1, d2, len_m1 d] @ d) = Some
     \<lparr>l_prio = prio_from_bits c, l_repeated = (code = 0x29 \<and> r = 0), l_valid_checksum = True,
      l_valid_length = True, l_AddrType = (if g = 0 then IndividualAddress else GroupAddress),
      l_source = be16 s1 s2, l_dest = be16 d1 d2, l_hopcount = hop, l_data = d\<rparr>"
proof -
  note h = ctrl_cemi [OF assms(1-3)]
  have n: "(g OR push_bit 4 (hop AND 0x7) OR 0x0) AND 0x0f = 0"
      "drop_bit 4 (g OR push_bit 4 (hop AND 0x7) OR 0x0) AND 0x07 = hop"
      "(g OR push_bit 4 (hop AND 0x7) OR 0x0) AND 0x80 = g"
    using npci_fields [OF hop _ assms(4), of 0] by (simp_all add: or.commute)
  have u: "unat (len_m1 d) = length d - 1"
    using len by (intro unat_len_m1) auto
  show ?thesis
    unfolding cemi_fields [OF u len(1) n(1)] h n addr_type_alt ..
qed

definition wf_cemi :: "byte \<Rightarrow> l_data_pdu \<Rightarrow> bool" where
  "wf_cemi code l \<longleftrightarrow> wf_l_data l \<and> length (l_data l) < 0xff \<and> (l_repeated l \<longrightarrow> code = 0x29)"

lemma cemi_round_trip:
  assumes "wf_l_data l" and "length (l_data l) < 0xff"
  shows "\<exists>p. L_Data_ToCEMI code l = Some p \<and>
    CEMI_to_L_Data p = Some (l\<lparr>l_prio := prio_swap (l_prio l), l_repeated := l_repeated l \<and> code = 0x29\<rparr>)"
proof -
  define r e g where "r = (if code = 0x29 \<and> l_repeated l then 0 else 0x20 :: byte)"
    and "e = (if length (l_data l) - 1 \<le> 0x0f then 0x80 else 0x00 :: byte)"
    and "g = (if l_AddrType l = GroupAddress then 0x80 else 0x00 :: byte)"
  have r: "r = 0 \<or> r = 0x20" "(code = 0x29 \<and> r = 0) = (l_repeated l \<and> code = 0x29)"
    by (auto simp: r_def)
  have e: "e = 0x80 \<or> e = 0x00" by (simp add: e_def)
  have g: "g = 0x80 \<or> g = 0x00" "(if g = 0 then IndividualAddress else GroupAddress) = l_AddrType l"
    by (cases "l_AddrType l"; simp add: g_def)+
  from assms have len: "1 \<le> length (l_data l)" "length (l_data l) \<le> 0xff" "length (l_data l) < 0xff"
    and hop: "l_hopcount l AND 0xf8 = 0" and v: "l_valid_checksum l" "l_valid_length l"
    by (auto simp: wf_l_data_def)
  let ?p = "[code, 0x00, (0x10 OR push_bit 2 (prio_to_bits (l_prio l)) OR e) OR r,
      g OR push_bit 4 (l_hopcount l AND 0x7) OR 0x0, hi8 (l_source l), lo8 (l_source l),
      hi8 (l_dest l), lo8 (l_dest l), len_m1 (l_data l)] @ l_data l"
  have "L_Data_ToCEMI code l = Some ?p"
    using len hop unfolding L_Data_ToCEMI_def Let_def r_def e_def g_def by simp
  moreover have "CEMI_to_L_Data ?p =
      Some (l\<lparr>l_prio := prio_swap (l_prio l), l_repeated := l_repeated l \<and> code = 0x29\<rparr>)"
    unfolding cemi_frame [OF prio_to_bits_low r(1) e g(1) hop len(1,2)] prio_bits r(2) g(2)
    using v by simp
  ultimately show ?thesis by blast
qed

interpretation cemi: telegram_codec "wf_cemi code" "L_Data_ToCEMI code" CEMI_to_L_Data for code
proof
  show "wf_cemi code (l\<lparr>l_prio := q\<rparr>)" if "wf_cemi code l" for l q
    using that by (simp add: wf_cemi_def wf_l_data_def)
  show "\<exists>p. L_Data_ToCEMI code l = Some p \<and>
      CEMI_to_L_Data p = Some (l\<lparr>l_prio := prio_swap (l_prio l)\<rparr>)" if "wf_cemi code l" for l
  proof -
    from that have "(l_repeated l \<and> code = 0x29) = l_repeated l" by (auto simp: wf_cemi_def)
    then show ?thesis
      using cemi_round_trip [of l code] that by (simp add: wf_cemi_def)
  qed
qed

lemma cemi_body_SomeD:
  assumes "cemi_body code d = Some l"
  shows "1 \<le> length (l_data l)" "length (l_data l) = unat (d ! 6) + 1" "l_hopcount l AND 0xf8 = 0"
proof -
  have "(drop_bit 4 b AND 0x07) AND 0xf8 = 0" for b :: byte
    by (simp add: byte_bits)
  with assms show "l_hopcount l AND 0xf8 = 0" "length (l_data l) = unat (d ! 6) + 1"
    by (auto simp: cemi_body_def split: if_splits)
  then show "1 \<le> length (l_data l)" by simp
qed

section \<open>EMI1/2 lemmas\<close>

lemma emi_fields:
  assumes "1 \<le> length d"
  shows "EMI_to_L_Data ([code, c, 0, 0, d1, d2, b] @ d) = Some
     \<lparr>l_prio = prio_from_bits (drop_bit 2 c AND 0x3), l_repeated = False,
      l_valid_checksum = True, l_valid_length = True, l_AddrType = addr_type b,
      l_source = 0, l_dest = be16 d1 d2, l_hopcount = drop_bit 4 b AND 0x07,
      l_data = take (unat (b AND 0x0f) + 1) d\<rparr>"
proof -
  have "be16 0 0 = 0" by (simp add: be16_def)
  then show ?thesis
    using assms by (simp add: EMI_to_L_Data_def L_Data_new_def slice_def Suc_le_eq Let_def)
qed

lemma emi_ctrl: "c AND 0xfc = 0 \<Longrightarrow> drop_bit 2 (push_bit 2 c) AND 0x3 = (c :: byte)"
  by (auto simp: byte_bits)

section \<open>Properties\<close>

text \<open>
  \<^bold>\<open>C17\<close>: a telegram with 1 to 254 payload bytes and a three-bit hop count survives cEMI: parsing the
  frame built from it returns it with the two middle priorities exchanged, and with the repeated flag
  kept in an indication (code 0x29) and cleared in any other message.
\<close>

theorem cemi_encode_decode:
  assumes "wf_l_data l" and "length (l_data l) < 0xff"
  shows "\<exists>p. L_Data_ToCEMI code l = Some p \<and>
    CEMI_to_L_Data p = Some (l\<lparr>l_prio := prio_swap (l_prio l), l_repeated := l_repeated l \<and> code = 0x29\<rparr>)"
  using assms by (rule cemi_round_trip)

theorem cemi_encode_decode_witness:
  "\<exists>p. L_Data_ToCEMI 0x11 (L_Data_new\<lparr>l_repeated := True, l_data := [0x00, 0x81]\<rparr>) = Some p \<and>
    CEMI_to_L_Data p = Some (L_Data_new\<lparr>l_data := [0x00, 0x81]\<rparr>)"
  using cemi_encode_decode [of "L_Data_new\<lparr>l_repeated := True, l_data := [0x00, 0x81]\<rparr>" "0x11"]
  by (simp add: wf_l_data_def L_Data_new_def)

text \<open>
  A telegram that is relayed by two cEMI hops, each parsing the frame the one before it built,
  arrives as it was sent, priority included.
\<close>

theorem cemi_two_hops:
  assumes "wf_l_data l" and "length (l_data l) < 0xff"
  shows "\<exists>p l' p'. L_Data_ToCEMI 0x29 l = Some p \<and> CEMI_to_L_Data p = Some l' \<and>
    L_Data_ToCEMI 0x29 l' = Some p' \<and> CEMI_to_L_Data p' = Some l"
proof -
  from assms have "wf_cemi 0x29 l" by (simp add: wf_cemi_def)
  from cemi.relay_twice [OF this] show ?thesis
    by (auto simp: cemi.relay_def bind_eq_Some_conv)
qed

theorem cemi_two_hops_witness:
  "\<exists>p l' p'. L_Data_ToCEMI 0x29 (L_Data_new\<lparr>l_prio := PRIO_NORMAL, l_data := [0x00]\<rparr>) = Some p \<and>
    CEMI_to_L_Data p = Some l' \<and> L_Data_ToCEMI 0x29 l' = Some p' \<and>
    CEMI_to_L_Data p' = Some (L_Data_new\<lparr>l_prio := PRIO_NORMAL, l_data := [0x00]\<rparr>)"
  by (rule cemi_two_hops) (simp_all add: wf_l_data_def L_Data_new_def)

text \<open>
  Additional information in front of a cEMI message is skipped: whatever its bytes are, the parser
  returns what it returns for the message without it.
\<close>

theorem cemi_additional_info:
  assumes "unat n = length info"
  shows "CEMI_to_L_Data (code # n # info @ d) = CEMI_to_L_Data (code # 0 # d)"
  using cemi_parse [OF assms, of code d] cemi_parse [of 0 "[]" code d] by simp

theorem cemi_additional_info_witness:
  "CEMI_to_L_Data (0x29 # 4 # [0x04, 0x02, 0x12, 0x34] @ [0xbc, 0xe0, 0x11, 0x01, 0x0a, 0x03, 0x01, 0x00, 0x81]) =
   CEMI_to_L_Data (0x29 # 0 # [0xbc, 0xe0, 0x11, 0x01, 0x0a, 0x03, 0x01, 0x00, 0x81])"
  by (rule cemi_additional_info) simp

text \<open>
  A telegram parsed from cEMI can be sent out as cEMI again unless it carries 255 or 256 payload
  bytes, which the parser accepts and for which the assertion in \<open>L_Data_ToCEMI\<close> fails.
\<close>

theorem cemi_reencode_aborts:
  assumes "unat n = length info" and "CEMI_to_L_Data (code # n # info @ d) = Some l"
  shows "L_Data_ToCEMI code' l = None \<longleftrightarrow> 0xfe \<le> d ! 6"
proof -
  from assms have b: "cemi_body code d = Some l" by (simp add: cemi_parse)
  show ?thesis
    using cemi_body_SomeD [OF b] by (auto simp: L_Data_ToCEMI_def Let_def word_le_nat_alt)
qed

theorem cemi_reencode_aborts_witness:
  "\<exists>l. CEMI_to_L_Data (0x29 # 0 # 0 # 0 # 0 # 0 # 0 # 0 # 0xfe # replicate 255 0) = Some l \<and>
    L_Data_ToCEMI 0x11 l = None"
proof -
  let ?d = "0 # 0 # 0 # 0 # 0 # 0 # 0xfe # replicate 255 0 :: byte list"
  obtain l where l: "CEMI_to_L_Data (0x29 # 0 # [] @ ?d) = Some l"
    using cemi_parse [of 0 "[]" "0x29" ?d] by (simp add: cemi_body_def)
  then show ?thesis
    using cemi_reencode_aborts [OF _ l, of "0x11"] by simp
qed

text \<open>
  EMI1/2 frames have a four-bit length field and carry no source address: of a telegram with
  at least one payload byte the receiver sees the destination, address type, hop count and (exchanged)
  priority, and the first \<open>(n - 1) mod 16 + 1\<close> of its \<open>n\<close> payload bytes, so that exactly the
  telegrams of up to 16 bytes keep their payload.
\<close>

theorem emi_encode_decode:
  assumes "1 \<le> length (l_data l)" and "length (l_data l) \<le> 256" and "l_hopcount l AND 0xf8 = 0"
  shows "EMI_to_L_Data (L_Data_ToEMI code l) = Some (L_Data_new\<lparr>
    l_prio := prio_swap (l_prio l), l_AddrType := l_AddrType l, l_dest := l_dest l,
    l_hopcount := l_hopcount l,
    l_data := take ((length (l_data l) - 1) mod 16 + 1) (l_data l)\<rparr>)"
proof -
  define g where "g = (if l_AddrType l = GroupAddress then 0x80 else 0x00 :: byte)"
  have g: "g = 0x80 \<or> g = 0x00" "(if g = 0 then IndividualAddress else GroupAddress) = l_AddrType l"
    by (cases "l_AddrType l"; simp add: g_def)+
  have nib: "(x AND 0x0f) AND 0xf0 = 0" "(x AND 0x0f) AND 0x0f = x AND 0x0f" for x :: byte
    by (simp_all add: byte_bits)
  note n = npci_fields [OF assms(3) nib(1) g(1), of "len_m1 (l_data l)", unfolded nib]
  have u: "unat (len_m1 (l_data l)) = length (l_data l) - 1"
    using assms by (intro unat_len_m1) auto
  show ?thesis
    unfolding L_Data_ToEMI_def g_def [symmetric] emi_fields [OF assms(1)] addr_type_alt n g(2)
      emi_ctrl [OF prio_to_bits_low] prio_bits unat_low_nibble u L_Data_new_def
    by simp
qed

theorem emi_encode_decode_witness:
  "EMI_to_L_Data (L_Data_ToEMI 0x29 (L_Data_new\<lparr>l_dest := 0x1101, l_data := [0x00, 0x80]\<rparr>)) =
    Some (L_Data_new\<lparr>l_dest := 0x1101, l_data := [0x00, 0x80]\<rparr>)"
  using emi_encode_decode [of "L_Data_new\<lparr>l_dest := 0x1101, l_data := [0x00, 0x80]\<rparr>" "0x29"]
  by (simp add: L_Data_new_def)

text \<open>
  A monitored frame put into cEMI comes back byte for byte, whatever the message code and status,
  provided it is not empty; the receiver stamps it with its own time, not with the one in the message.
\<close>

theorem busmonitor_round_trip:
  "CEMI_to_Busmonitor sec usec (Busmonitor_to_CEMI code b no) =
     (if b_pdu b = [] then None else Some ((L_Busmonitor_new sec usec)\<lparr>b_pdu := b_pdu b\<rparr>))"
  by (simp add: CEMI_to_Busmonitor_def Busmonitor_to_CEMI_def slice_def Let_def)

end
