(* ===== verification/Eibnetip.thy ===== *)
theory Eibnetip
  imports Prelude
begin

text \<open>
  The KNXnet/IP messages of \<^verbatim>\<open>src/src/libserver/eibnetip.cpp\<close>: the packet header, the host protocol
  address information, every message with its builder (\<open>ToPacket\<close>) and its parser (\<open>parseEIBnet_...\<close>,
  \<open>None\<close> for a non-zero return), and the queue of the UDP socket.  The parsers fill a message object
  that its constructor has initialised.  Socket addresses are kept in host byte order and are all of
  the family \<open>AF_INET\<close>.
\<close>

unbundle bit_operations_syntax

section \<open>Packets and addresses\<close>

record sockaddr_in =
  sin_addr :: u32
  sin_port :: u16

definition sockaddr_zero :: sockaddr_in where
  "sockaddr_zero = \<lparr>sin_addr = 0, sin_port = 0\<rparr>"

record EIBNetIPPacket =
  ip_service :: u16
  ip_data :: carray
  ip_src :: sockaddr_in

text \<open>\<open>EIBNetIPPacket p; p.service = s; p.data = d;\<close>\<close>

definition ip_packet :: "u16 \<Rightarrow> carray \<Rightarrow> EIBNetIPPacket" where
  "ip_packet s d = \<lparr>ip_service = s, ip_data = d, ip_src = sockaddr_zero\<rparr>"

definition EIBNetIP_fromPacket :: "carray \<Rightarrow> sockaddr_in \<Rightarrow> EIBNetIPPacket option" where
  "EIBNetIP_fromPacket c src =
     (if length c < 6 then None
      else if c ! 0 \<noteq> 0x6 \<or> c ! 1 \<noteq> 0x10 then None
      else let len = unat (be16 (c ! 4) (c ! 5))
      in if len \<noteq> length c then None
      else Some \<lparr>ip_service = be16 (c ! 2) (c ! 3), ip_data = slice 6 (len - 6) c, ip_src = src\<rparr>)"

definition EIBNetIP_ToPacket :: "EIBNetIPPacket \<Rightarrow> carray" where
  "EIBNetIP_ToPacket p =
     (let n = of_nat (length (ip_data p) + 6)
      in [0x06, 0x10, hi8 (ip_service p), lo8 (ip_service p), hi8 n, lo8 n] @ ip_data p)"

definition IPtoEIBNetIP :: "sockaddr_in \<Rightarrow> bool \<Rightarrow> carray" where
  "IPtoEIBNetIP a nat_mode =
     [0x08, 0x01] @
     (if nat_mode then [0, 0, 0, 0, 0, 0]
      else [byte_at 24 (sin_addr a), byte_at 16 (sin_addr a), byte_at 8 (sin_addr a),
            byte_at 0 (sin_addr a), hi8 (sin_port a), lo8 (sin_port a)])"

text \<open>
  \<open>EIBnettoIP\<close> returns the address and the new value of the \<open>nat\<close> flag passed by reference;
  \<open>None\<close> is the result \<open>true\<close>.
\<close>

definition EIBnettoIP :: "carray \<Rightarrow> sockaddr_in \<Rightarrow> bool \<Rightarrow> (sockaddr_in \<times> bool) option" where
  "EIBnettoIP buf src nat_mode =
     (if buf ! 0 \<noteq> 0x8 \<or> buf ! 1 \<noteq> 0x1 then None
      else
        let ip = be32 (buf ! 2) (buf ! 3) (buf ! 4) (buf ! 5);
            port = be16 (buf ! 6) (buf ! 7);
            p = (if port = 0 then sin_port src else port)
        in if ip = 0 then Some (\<lparr>sin_addr = sin_addr src, sin_port = p\<rparr>, True)
           else Some (\<lparr>sin_addr = ip, sin_port = p\<rparr>, nat_mode))"

section \<open>Connection management\<close>

text \<open>The service codes of \<open>ServiceType\<close>.\<close>

abbreviation SEARCH_REQUEST :: u16 where "SEARCH_REQUEST \<equiv> 0x0201"
abbreviation SEARCH_RESPONSE :: u16 where "SEARCH_RESPONSE \<equiv> 0x0202"
abbreviation DESCRIPTION_REQUEST :: u16 where "DESCRIPTION_REQUEST \<equiv> 0x0203"
abbreviation DESCRIPTION_RESPONSE :: u16 where "DESCRIPTION_RESPONSE \<equiv> 0x0204"
abbreviation CONNECTION_REQUEST :: u16 where "CONNECTION_REQUEST \<equiv> 0x0205"
abbreviation CONNECTION_RESPONSE :: u16 where "CONNECTION_RESPONSE \<equiv> 0x0206"
abbreviation CONNECTIONSTATE_REQUEST :: u16 where "CONNECTIONSTATE_REQUEST \<equiv> 0x0207"
abbreviation CONNECTIONSTATE_RESPONSE :: u16 where "CONNECTIONSTATE_RESPONSE \<equiv> 0x0208"
abbreviation DISCONNECT_REQUEST :: u16 where "DISCONNECT_REQUEST \<equiv> 0x0209"
abbreviation DISCONNECT_RESPONSE :: u16 where "DISCONNECT_RESPONSE \<equiv> 0x020a"
abbreviation DEVICE_CONFIGURATION_REQUEST :: u16 where "DEVICE_CONFIGURATION_REQUEST \<equiv> 0x0310"
abbreviation DEVICE_CONFIGURATION_ACK :: u16 where "DEVICE_CONFIGURATION_ACK \<equiv> 0x0311"
abbreviation TUNNEL_REQUEST :: u16 where "TUNNEL_REQUEST \<equiv> 0x0420"
abbreviation TUNNEL_RESPONSE :: u16 where "TUNNEL_RESPONSE \<equiv> 0x0421"
abbreviation ROUTING_INDICATION :: u16 where "ROUTING_INDICATION \<equiv> 0x0530"
abbreviation ROUTING_LOST_MESSAGE :: u16 where "ROUTING_LOST_MESSAGE \<equiv> 0x0531"

record EIBnet_ConnectRequest =
  creq_caddr :: sockaddr_in
  creq_daddr :: sockaddr_in
  creq_CRI :: carray
  creq_nat :: bool

definition ConnectRequest_ToPacket :: "EIBnet_ConnectRequest \<Rightarrow> EIBNetIPPacket" where
  "ConnectRequest_ToPacket r = ip_packet CONNECTION_REQUEST
     (IPtoEIBNetIP (creq_caddr r) (creq_nat r) @ IPtoEIBNetIP (creq_daddr r) (creq_nat r) @
      [of_nat (length (creq_CRI r)) + 1] @ creq_CRI r)"

definition parseEIBnet_ConnectRequest :: "EIBNetIPPacket \<Rightarrow> EIBnet_ConnectRequest option" where
  "parseEIBnet_ConnectRequest p =
     (if ip_service p \<noteq> CONNECTION_REQUEST then None
      else if length (ip_data p) < 18 then None
      else case EIBnettoIP (slice 0 8 (ip_data p)) (ip_src p) False of
        None \<Rightarrow> None
      | Some (ca, n1) \<Rightarrow>
         (case EIBnettoIP (slice 8 8 (ip_data p)) (ip_src p) n1 of
            None \<Rightarrow> None
          | Some (da, n2) \<Rightarrow>
              if length (ip_data p) - 16 \<noteq> unat (ip_data p ! 16) then None
              else Some \<lparr>creq_caddr = ca, creq_daddr = da,
                     creq_CRI = slice 17 (length (ip_data p) - 17) (ip_data p), creq_nat = n2\<rparr>))"

record EIBnet_ConnectResponse =
  cres_channel :: byte
  cres_status :: byte
  cres_daddr :: sockaddr_in
  cres_nat :: bool
  cres_CRD :: carray

definition ConnectResponse_ToPacket :: "EIBnet_ConnectResponse \<Rightarrow> EIBNetIPPacket" where
  "ConnectResponse_ToPacket r = ip_packet CONNECTION_RESPONSE
     ([cres_channel r, cres_status r] @
      (if cres_status r = 0
       then IPtoEIBNetIP (cres_daddr r) (cres_nat r) @ [of_nat (length (cres_CRD r)) + 1] @ cres_CRD r
       else []))"

definition parseEIBnet_ConnectResponse :: "EIBNetIPPacket \<Rightarrow> EIBnet_ConnectResponse option" where
  "parseEIBnet_ConnectResponse p =
     (if ip_service p \<noteq> CONNECTION_RESPONSE then None
      else if length (ip_data p) < 2 then None
      else if ip_data p ! 1 \<noteq> 0 then
        (if length (ip_data p) \<noteq> 2 then None
         else Some \<lparr>cres_channel = ip_data p ! 0, cres_status = ip_data p ! 1,
                cres_daddr = sockaddr_zero, cres_nat = False, cres_CRD = []\<rparr>)
      else if length (ip_data p) < 12 then None
      else case EIBnettoIP (slice 2 8 (ip_data p)) (ip_src p) False of
        None \<Rightarrow> None
      | Some (da, n) \<Rightarrow>
          if length (ip_data p) - 10 \<noteq> unat (ip_data p ! 10) then None
          else Some \<lparr>cres_channel = ip_data p ! 0, cres_status = ip_data p ! 1, cres_daddr = da,
                 cres_nat = n, cres_CRD = slice 11 (length (ip_data p) - 11) (ip_data p)\<rparr>)"


record EIBnet_ConnectionStateRequest =
  csreq_caddr :: sockaddr_in
  csreq_channel :: byte
  csreq_nat :: bool

definition ConnectionStateRequest_ToPacket :: "EIBnet_ConnectionStateRequest \<Rightarrow> EIBNetIPPacket" where
  "ConnectionStateRequest_ToPacket r = ip_packet CONNECTIONSTATE_REQUEST
     ([csreq_channel r, 0] @ IPtoEIBNetIP (csreq_caddr r) (csreq_nat r))"

definition parseEIBnet_ConnectionStateRequest :: "EIBNetIPPacket \<Rightarrow> EIBnet_ConnectionStateRequest option" where
  "parseEIBnet_ConnectionStateRequest p =
     (if ip_service p \<noteq> CONNECTIONSTATE_REQUEST then None
      else if length (ip_data p) \<noteq> 10 then None
      else case EIBnettoIP (slice 2 8 (ip_data p)) (ip_src p) False of
        None \<Rightarrow> None
      | Some (ca, n) \<Rightarrow> Some \<lparr>csreq_caddr = ca, csreq_channel = ip_data p ! 0, csreq_nat = n\<rparr>)"


record EIBnet_ConnectionStateResponse =
  csres_channel :: byte
  csres_status :: byte

definition ConnectionStateResponse_ToPacket :: "EIBnet_ConnectionStateResponse \<Rightarrow> EIBNetIPPacket" where
  "ConnectionStateResponse_ToPacket r = ip_packet CONNECTIONSTATE_RESPONSE [csres_channel r, csres_status r]"

definition parseEIBnet_ConnectionStateResponse :: "EIBNetIPPacket \<Rightarrow> EIBnet_ConnectionStateResponse option" where
  "parseEIBnet_ConnectionStateResponse p =
     (if ip_service p \<noteq> CONNECTIONSTATE_RESPONSE then None
      else if length (ip_data p) \<noteq> 2 then None
      else Some \<lparr>csres_channel = ip_data p ! 0, csres_status = ip_data p ! 1\<rparr>)"


record EIBnet_DisconnectRequest =
  dreq_caddr :: sockaddr_in
  dreq_channel :: byte
  dreq_nat :: bool

definition DisconnectRequest_ToPacket :: "EIBnet_DisconnectRequest \<Rightarrow> EIBNetIPPacket" where
  "DisconnectRequest_ToPacket r = ip_packet DISCONNECT_REQUEST
     ([dreq_channel r, 0] @ IPtoEIBNetIP (dreq_caddr r) (dreq_nat r))"

definition parseEIBnet_DisconnectRequest :: "EIBNetIPPacket \<Rightarrow> EIBnet_DisconnectRequest option" where
  "parseEIBnet_DisconnectRequest p =
     (if ip_service p \<noteq> DISCONNECT_REQUEST then None
      else if length (ip_data p) \<noteq> 10 then None
      else case EIBnettoIP (slice 2 8 (ip_data p)) (ip_src p) False of
        None \<Rightarrow> None
      | Some (ca, n) \<Rightarrow> Some \<lparr>dreq_caddr = ca, dreq_channel = ip_data p ! 0, dreq_nat = n\<rparr>)"


record EIBnet_DisconnectResponse =
  dres_channel :: byte
  dres_status :: byte

definition DisconnectResponse_ToPacket :: "EIBnet_DisconnectResponse \<Rightarrow> EIBNetIPPacket" where
  "DisconnectResponse_ToPacket r = ip_packet DISCONNECT_RESPONSE [dres_channel r, dres_status r]"

definition parseEIBnet_DisconnectResponse :: "EIBNetIPPacket \<Rightarrow> EIBnet_DisconnectResponse option" where
  "parseEIBnet_DisconnectResponse p =
     (if ip_service p \<noteq> DISCONNECT_RESPONSE then None
      else if length (ip_data p) \<noteq> 2 then None
      else Some \<lparr>dres_channel = ip_data p ! 0, dres_status = ip_data p ! 1\<rparr>)"

section \<open>Tunnelling and device configuration\<close>

record EIBnet_TunnelRequest =
  treq_channel :: byte
  treq_seqno :: byte
  treq_CEMI :: carray

definition TunnelRequest_ToPacket :: "EIBnet_TunnelRequest \<Rightarrow> EIBNetIPPacket" where
  "TunnelRequest_ToPacket r = ip_packet TUNNEL_REQUEST
     ([4, treq_channel r, treq_seqno r, 0] @ treq_CEMI r)"

definition parseEIBnet_TunnelRequest :: "EIBNetIPPacket \<Rightarrow> EIBnet_TunnelRequest option" where
  "parseEIBnet_TunnelRequest p =
     (if ip_service p \<noteq> TUNNEL_REQUEST then None
      else if length (ip_data p) < 6 then None
      else if ip_data p ! 0 \<noteq> 4 then None
      else Some \<lparr>treq_channel = ip_data p ! 1, treq_seqno = ip_data p ! 2,
             treq_CEMI = slice 4 (length (ip_data p) - 4) (ip_data p)\<rparr>)"


record EIBnet_TunnelACK =
  tack_channel :: byte
  tack_seqno :: byte
  tack_status :: byte

definition TunnelACK_ToPacket :: "EIBnet_TunnelACK \<Rightarrow> EIBNetIPPacket" where
  "TunnelACK_ToPacket r = ip_packet TUNNEL_RESPONSE [4, tack_channel r, tack_seqno r, tack_status r]"

definition parseEIBnet_TunnelACK :: "EIBNetIPPacket \<Rightarrow> EIBnet_TunnelACK option" where
  "parseEIBnet_TunnelACK p =
     (if ip_service p \<noteq> TUNNEL_RESPONSE then None
      else if length (ip_data p) \<noteq> 4 then None
      else if ip_data p ! 0 \<noteq> 4 then None
      else Some \<lparr>tack_channel = ip_data p ! 1, tack_seqno = ip_data p ! 2,
             tack_status = ip_data p ! 3\<rparr>)"


record EIBnet_ConfigRequest =
  cfreq_channel :: byte
  cfreq_seqno :: byte
  cfreq_CEMI :: carray

definition ConfigRequest_ToPacket :: "EIBnet_ConfigRequest \<Rightarrow> EIBNetIPPacket" where
  "ConfigRequest_ToPacket r = ip_packet DEVICE_CONFIGURATION_REQUEST
     ([4, cfreq_channel r, cfreq_seqno r, 0] @ cfreq_CEMI r)"

definition parseEIBnet_ConfigRequest :: "EIBNetIPPacket \<Rightarrow> EIBnet_ConfigRequest option" where
  "parseEIBnet_ConfigRequest p =
     (if ip_service p \<noteq> DEVICE_CONFIGURATION_REQUEST then None
      else if length (ip_data p) < 6 then None
      else if ip_data p ! 0 \<noteq> 4 then None
      else Some \<lparr>cfreq_channel = ip_data p ! 1, cfreq_seqno = ip_data p ! 2,
             cfreq_CEMI = slice 4 (length (ip_data p) - 4) (ip_data p)\<rparr>)"


record EIBnet_ConfigACK =
  cfack_channel :: byte
  cfack_seqno :: byte
  cfack_status :: byte

definition ConfigACK_ToPacket :: "EIBnet_ConfigACK \<Rightarrow> EIBNetIPPacket" where
  "ConfigACK_ToPacket r = ip_packet DEVICE_CONFIGURATION_ACK [4, cfack_channel r, cfack_seqno r, cfack_status r]"

definition parseEIBnet_ConfigACK :: "EIBNetIPPacket \<Rightarrow> EIBnet_ConfigACK option" where
  "parseEIBnet_ConfigACK p =
     (if ip_service p \<noteq> DEVICE_CONFIGURATION_ACK then None
      else if length (ip_data p) \<noteq> 4 then None
      else if ip_data p ! 0 \<noteq> 4 then None
      else Some \<lparr>cfack_channel = ip_data p ! 1, cfack_seqno = ip_data p ! 2,
             cfack_status = ip_data p ! 3\<rparr>)"

section \<open>Discovery\<close>

record EIBnet_DescriptionRequest =
  descq_caddr :: sockaddr_in
  descq_nat :: bool

definition DescriptionRequest_ToPacket :: "EIBnet_DescriptionRequest \<Rightarrow> EIBNetIPPacket" where
  "DescriptionRequest_ToPacket r = ip_packet DESCRIPTION_REQUEST (IPtoEIBNetIP (descq_caddr r) (descq_nat r))"

definition parseEIBnet_DescriptionRequest :: "EIBNetIPPacket \<Rightarrow> EIBnet_DescriptionRequest option" where
  "parseEIBnet_DescriptionRequest p =
     (if ip_service p \<noteq> DESCRIPTION_REQUEST then None
      else if length (ip_data p) \<noteq> 8 then None
      else case EIBnettoIP (ip_data p) (ip_src p) False of
        None \<Rightarrow> None
      | Some (ca, n) \<Rightarrow> Some \<lparr>descq_caddr = ca, descq_nat = n\<rparr>)"


record EIBnet_SearchRequest =
  srchq_caddr :: sockaddr_in
  srchq_nat :: bool

definition SearchRequest_ToPacket :: "EIBnet_SearchRequest \<Rightarrow> EIBNetIPPacket" where
  "SearchRequest_ToPacket r = ip_packet SEARCH_REQUEST (IPtoEIBNetIP (srchq_caddr r) (srchq_nat r))"

definition parseEIBnet_SearchRequest :: "EIBNetIPPacket \<Rightarrow> EIBnet_SearchRequest option" where
  "parseEIBnet_SearchRequest p =
     (if ip_service p \<noteq> SEARCH_REQUEST then None
      else if length (ip_data p) \<noteq> 8 then None
      else case EIBnettoIP (ip_data p) (ip_src p) False of
        None \<Rightarrow> None
      | Some (ca, n) \<Rightarrow> Some \<lparr>srchq_caddr = ca, srchq_nat = n\<rparr>)"


record DIB_service_Entry =
  family :: byte
  version :: byte

text \<open>
  The fields the description and the search response share.  The fixed-size arrays are lists;
  \<open>wf_device\<close> in \<open>Eibnetip_Props\<close> states their sizes.
\<close>

record EIBnet_Device =
  KNXmedium :: byte
  devicestatus :: byte
  individual_addr :: eibaddr
  installid :: u16
  dev_serial :: carray
  dev_services :: "DIB_service_Entry list"
  multicastaddr :: carray
  dev_MAC :: carray
  dev_name :: carray

text \<open>
  Both responses hold the same two description blocks, at offset 0 and at offset 8.  The builders
  clear the last byte of the name, whatever it was.
\<close>

definition device_bytes :: "EIBnet_Device \<Rightarrow> carray" where
  "device_bytes r =
     [54, 1, KNXmedium r, devicestatus r, hi8 (individual_addr r), lo8 (individual_addr r),
      hi8 (installid r), lo8 (installid r)] @ dev_serial r @ multicastaddr r @ dev_MAC r @
     (dev_name r)[29 := 0] @ [of_nat (length (dev_services r) * 2 + 2), 2] @
     concat (map (\<lambda>s. [family s, version s]) (dev_services r))"

text \<open>
  \<open>services.resize (n / 2 - 1)\<close> with \<open>n = 0\<close> asks for \<open>SIZE_MAX\<close> elements and throws;
  the loop then reads the entries.
\<close>

datatype 'a parsed = Rejected | Throws | Parsed 'a

fun read_services :: "nat \<Rightarrow> carray \<Rightarrow> DIB_service_Entry list" where
  "read_services 0 d = []"
| "read_services (Suc n) d = \<lparr>family = d ! 0, version = d ! 1\<rparr> # read_services n (drop 2 d)"

definition read_device :: "carray \<Rightarrow> EIBnet_Device parsed" where
  "read_device d =
     (if d ! 0 \<noteq> 54 then Rejected
      else if d ! 1 \<noteq> 1 then Rejected
      else if d ! 55 \<noteq> 2 then Rejected
      else if unat (d ! 54) mod 2 \<noteq> 0 then Rejected
      else if unat (d ! 54) + 54 > length d then Rejected
      else if d ! 54 = 0 then Throws
      else Parsed
        \<lparr>KNXmedium = d ! 2, devicestatus = d ! 3, individual_addr = be16 (d ! 4) (d ! 5),
         installid = be16 (d ! 6) (d ! 7), dev_serial = slice 8 6 d,
         dev_services = read_services (unat (d ! 54) div 2 - 1) (drop 56 d),
         multicastaddr = slice 14 4 d, dev_MAC = slice 18 6 d,
         dev_name = (slice 24 30 d)[29 := 0]\<rparr>)"

record EIBnet_DescriptionResponse =
  descr_device :: EIBnet_Device
  descr_optional :: carray

definition DescriptionResponse_ToPacket :: "EIBnet_DescriptionResponse \<Rightarrow> EIBNetIPPacket" where
  "DescriptionResponse_ToPacket r = ip_packet DESCRIPTION_RESPONSE
     (device_bytes (descr_device r) @ descr_optional r)"

definition parseEIBnet_DescriptionResponse :: "EIBNetIPPacket \<Rightarrow> EIBnet_DescriptionResponse parsed" where
  "parseEIBnet_DescriptionResponse p =
     (if ip_service p \<noteq> DESCRIPTION_RESPONSE then Rejected
      else if length (ip_data p) < 56 then Rejected
      else case read_device (ip_data p) of
        Rejected \<Rightarrow> Rejected
      | Throws \<Rightarrow> Throws
      | Parsed v \<Rightarrow> Parsed \<lparr>descr_device = v,
          descr_optional = slice (unat (ip_data p ! 54) + 54)
            (length (ip_data p) - unat (ip_data p ! 54) - 54) (ip_data p)\<rparr>)"

record EIBnet_SearchResponse =
  srchr_device :: EIBnet_Device
  srchr_caddr :: sockaddr_in
  srchr_nat :: bool

definition SearchResponse_ToPacket :: "EIBnet_SearchResponse \<Rightarrow> EIBNetIPPacket" where
  "SearchResponse_ToPacket r = ip_packet SEARCH_RESPONSE
     (IPtoEIBNetIP (srchr_caddr r) (srchr_nat r) @ device_bytes (srchr_device r))"

definition parseEIBnet_SearchResponse :: "EIBNetIPPacket \<Rightarrow> EIBnet_SearchResponse parsed" where
  "parseEIBnet_SearchResponse p =
     (if ip_service p \<noteq> SEARCH_RESPONSE then Rejected
      else if length (ip_data p) < 64 then Rejected
      else case EIBnettoIP (slice 0 8 (ip_data p)) (ip_src p) False of
        None \<Rightarrow> Rejected
      | Some (ca, n) \<Rightarrow>
         (case read_device (drop 8 (ip_data p)) of
            Rejected \<Rightarrow> Rejected
          | Throws \<Rightarrow> Throws
          | Parsed v \<Rightarrow> Parsed \<lparr>srchr_device = v, srchr_caddr = ca, srchr_nat = n\<rparr>))"

section \<open>The UDP socket\<close>

text \<open>
  \<open>EIBNetIPSocket\<close>: the send queue with its write watcher and error counter, and the receive filter.
  What \<open>sendto\<close> reports is an argument: a positive count, a transient error (\<open>EAGAIN\<close>,
  \<open>EWOULDBLOCK\<close>, \<open>EINTR\<close>), or a hard error (a zero count included).
\<close>

datatype send_result = Sent | Again | Failed

record EIBNetIPSocket =
  send_q :: "(EIBNetIPPacket \<times> sockaddr_in) list"
  io_send_active :: bool
  send_error :: nat
  sock_paused :: bool
  io_recv_active :: bool

datatype sock_out =
    Datagram carray sockaddr_in
  | Drop carray
  | On_error
  | On_next

definition EIBNetIPSocket_Send :: "EIBNetIPSocket \<Rightarrow> EIBNetIPPacket \<Rightarrow> sockaddr_in \<Rightarrow> EIBNetIPSocket" where
  "EIBNetIPSocket_Send s p a =
     (let s' = (if send_q s = [] then s\<lparr>io_send_active := True\<rparr> else s)
      in s'\<lparr>send_q := send_q s @ [(p, a)]\<rparr>)"

definition io_send_cb :: "EIBNetIPSocket \<Rightarrow> send_result \<Rightarrow> EIBNetIPSocket \<times> sock_out list" where
  "io_send_cb s r =
     (case send_q s of
        [] \<Rightarrow> (s\<lparr>io_send_active := False\<rparr>, [On_next])
      | (d, a) # q \<Rightarrow>
         (let p = EIBNetIP_ToPacket d
          in case r of
               Sent \<Rightarrow> (s\<lparr>send_q := q, send_error := 0\<rparr>, [Datagram p a])
             | Again \<Rightarrow> (s, [])
             | Failed \<Rightarrow>
                 if send_error s > 5 then (s\<lparr>send_q := q, send_error := 0\<rparr>, [Drop p, On_error])
                 else (s\<lparr>send_error := send_error s + 1\<rparr>, [])))"

definition EIBNetIPSocket_pause :: "EIBNetIPSocket \<Rightarrow> EIBNetIPSocket" where
  "EIBNetIPSocket_pause s =
     (if sock_paused s then s else s\<lparr>sock_paused := True, io_recv_active := False\<rparr>)"

definition EIBNetIPSocket_unpause :: "EIBNetIPSocket \<Rightarrow> EIBNetIPSocket" where
  "EIBNetIPSocket_unpause s =
     (if \<not> sock_paused s then s else s\<lparr>sock_paused := False, io_recv_active := True\<rparr>)"

text \<open>The address filter of \<open>io_recv_cb\<close>, and the packet it hands to \<open>on_recv\<close>.\<close>

definition recv_accepts ::
  "byte \<Rightarrow> sockaddr_in \<Rightarrow> sockaddr_in \<Rightarrow> sockaddr_in \<Rightarrow> sockaddr_in \<Rightarrow> bool" where
  "recv_accepts recvall recvaddr localaddr recvaddr2 r \<longleftrightarrow>
     recvall = 1 \<or> r = recvaddr \<or> (recvall = 2 \<and> r \<noteq> localaddr) \<or> (recvall = 3 \<and> r = recvaddr2)"

definition io_recv_cb ::
  "byte \<Rightarrow> sockaddr_in \<Rightarrow> sockaddr_in \<Rightarrow> sockaddr_in \<Rightarrow> carray \<Rightarrow> sockaddr_in \<Rightarrow> EIBNetIPPacket option" where
  "io_recv_cb recvall recvaddr localaddr recvaddr2 datagram r =
     (let buf = take 255 datagram
      in if recv_accepts recvall recvaddr localaddr recvaddr2 r
         then EIBNetIP_fromPacket buf r else None)"

end
