(* ===== verification/Eibnetip_Props.thy ===== *)
theory Eibnetip_Props
  imports Eibnetip
begin

text \<open>Properties of the KNXnet/IP messages and of the UDP socket of \<open>Eibnetip\<close>.\<close>

unbundle bit_operations_syntax

section \<open>Header and addresses\<close>

lemma unat_of_nat_u16: "n < 65536 \<Longrightarrow> unat (of_nat n :: u16) = n"
  by (simp add: unat_of_nat)

lemma unat_of_nat_byte: "n < 256 \<Longrightarrow> unat (of_nat n :: byte) = n"
  by (simp add: unat_of_nat)

lemma ip_wire_round_trip:
  assumes "length (ip_data p) + 6 < 65536"
  shows "EIBNetIP_fromPacket (EIBNetIP_ToPacket p) src = Some (p\<lparr>ip_src := src\<rparr>)"
proof -
  obtain n :: u16 where n: "n = of_nat (length (ip_data p) + 6)" "unat n = length (ip_data p) + 6"
    using unat_of_nat_u16 [OF assms] by blast
  show ?thesis
    unfolding EIBNetIP_ToPacket_def n(1) [symmetric] Let_def
    using n(2) by (simp add: EIBNetIP_fromPacket_def Let_def)
qed

text \<open>
  The address a receiver reads for an endpoint: an address or port of zero, and everything when NAT
  is on, stands for the sender's own; an address of zero also switches NAT on.
\<close>

definition endpoint :: "sockaddr_in \<Rightarrow> sockaddr_in \<Rightarrow> bool \<Rightarrow> sockaddr_in" where
  "endpoint src a n =
     \<lparr>sin_addr = (if n \<or> sin_addr a = 0 then sin_addr src else sin_addr a),
      sin_port = (if n \<or> sin_port a = 0 then sin_port src else sin_port a)\<rparr>"

definition hidden :: "sockaddr_in \<Rightarrow> bool \<Rightarrow> bool" where
  "hidden a n \<longleftrightarrow> n \<or> sin_addr a = 0"

lemma length_IPtoEIBNetIP [simp]: "length (IPtoEIBNetIP a n) = 8"
  by (simp add: IPtoEIBNetIP_def)

lemma endpoint_read [simp]:
  "EIBnettoIP (IPtoEIBNetIP a n) src m = Some (endpoint src a n, m \<or> hidden a n)"
proof -
  have "be32 0 0 0 0 = 0" "be16 0 0 = 0" by (simp_all add: be32_def be16_def)
  then show ?thesis
    by (simp add: EIBnettoIP_def IPtoEIBNetIP_def endpoint_def hidden_def Let_def)
qed

section \<open>Messages\<close>

datatype (plugins only: code) eibnet_msg =
    Msg_ConnectRequest EIBnet_ConnectRequest
  | Msg_ConnectResponse EIBnet_ConnectResponse
  | Msg_ConnectionStateRequest EIBnet_ConnectionStateRequest
  | Msg_ConnectionStateResponse EIBnet_ConnectionStateResponse
  | Msg_DisconnectRequest EIBnet_DisconnectRequest
  | Msg_DisconnectResponse EIBnet_DisconnectResponse
  | Msg_TunnelRequest EIBnet_TunnelRequest
  | Msg_TunnelACK EIBnet_TunnelACK
  | Msg_ConfigRequest EIBnet_ConfigRequest
  | Msg_ConfigACK EIBnet_ConfigACK
  | Msg_DescriptionRequest EIBnet_DescriptionRequest
  | Msg_DescriptionResponse EIBnet_DescriptionResponse
  | Msg_SearchRequest EIBnet_SearchRequest
  | Msg_SearchResponse EIBnet_SearchResponse

primrec msg_ToPacket :: "eibnet_msg \<Rightarrow> EIBNetIPPacket" where
  "msg_ToPacket (Msg_ConnectRequest r) = ConnectRequest_ToPacket r"
| "msg_ToPacket (Msg_ConnectResponse r) = ConnectResponse_ToPacket r"
| "msg_ToPacket (Msg_ConnectionStateRequest r) = ConnectionStateRequest_ToPacket r"
| "msg_ToPacket (Msg_ConnectionStateResponse r) = ConnectionStateResponse_ToPacket r"
| "msg_ToPacket (Msg_DisconnectRequest r) = DisconnectRequest_ToPacket r"
| "msg_ToPacket (Msg_DisconnectResponse r) = DisconnectResponse_ToPacket r"
| "msg_ToPacket (Msg_TunnelRequest r) = TunnelRequest_ToPacket r"
| "msg_ToPacket (Msg_TunnelACK r) = TunnelACK_ToPacket r"
| "msg_ToPacket (Msg_ConfigRequest r) = ConfigRequest_ToPacket r"
| "msg_ToPacket (Msg_ConfigACK r) = ConfigACK_ToPacket r"
| "msg_ToPacket (Msg_DescriptionRequest r) = DescriptionRequest_ToPacket r"
| "msg_ToPacket (Msg_DescriptionResponse r) = DescriptionResponse_ToPacket r"
| "msg_ToPacket (Msg_SearchRequest r) = SearchRequest_ToPacket r"
| "msg_ToPacket (Msg_SearchResponse r) = SearchResponse_ToPacket r"

text \<open>The packet is given to each of the parsers; each checks the service code itself.\<close>

fun of_option :: "('a \<Rightarrow> 'b) \<Rightarrow> 'a option \<Rightarrow> 'b list" where
  "of_option f None = []"
| "of_option f (Some x) = [f x]"

fun of_parsed :: "('a \<Rightarrow> 'b) \<Rightarrow> 'a parsed \<Rightarrow> 'b list" where
  "of_parsed f (Parsed x) = [f x]"
| "of_parsed f Rejected = []"
| "of_parsed f Throws = []"

definition msg_parses :: "EIBNetIPPacket \<Rightarrow> eibnet_msg list" where
  "msg_parses p =
     of_option Msg_ConnectRequest (parseEIBnet_ConnectRequest p) @
     of_option Msg_ConnectResponse (parseEIBnet_ConnectResponse p) @
     of_option Msg_ConnectionStateRequest (parseEIBnet_ConnectionStateRequest p) @
     of_option Msg_ConnectionStateResponse (parseEIBnet_ConnectionStateResponse p) @
     of_option Msg_DisconnectRequest (parseEIBnet_DisconnectRequest p) @
     of_option Msg_DisconnectResponse (parseEIBnet_DisconnectResponse p) @
     of_option Msg_TunnelRequest (parseEIBnet_TunnelRequest p) @
     of_option Msg_TunnelACK (parseEIBnet_TunnelACK p) @
     of_option Msg_ConfigRequest (parseEIBnet_ConfigRequest p) @
     of_option Msg_ConfigACK (parseEIBnet_ConfigACK p) @
     of_option Msg_DescriptionRequest (parseEIBnet_DescriptionRequest p) @
     of_parsed Msg_DescriptionResponse (parseEIBnet_DescriptionResponse p) @
     of_option Msg_SearchRequest (parseEIBnet_SearchRequest p) @
     of_parsed Msg_SearchResponse (parseEIBnet_SearchResponse p)"

text \<open>The sizes of the fixed arrays, and the lengths that fit their length byte.\<close>

definition wf_device :: "EIBnet_Device \<Rightarrow> bool" where
  "wf_device v \<longleftrightarrow> length (dev_serial v) = 6 \<and> length (multicastaddr v) = 4 \<and> length (dev_MAC v) = 6 \<and>
     length (dev_name v) = 30 \<and> dev_name v ! 29 = 0 \<and> length (dev_services v) \<le> 126"

primrec wf_msg :: "eibnet_msg \<Rightarrow> bool" where
  "wf_msg (Msg_ConnectRequest r) \<longleftrightarrow> 1 \<le> length (creq_CRI r) \<and> length (creq_CRI r) \<le> 254"
| "wf_msg (Msg_ConnectResponse r) \<longleftrightarrow>
     (if cres_status r = 0 then 1 \<le> length (cres_CRD r) \<and> length (cres_CRD r) \<le> 254
      else cres_daddr r = sockaddr_zero \<and> \<not> cres_nat r \<and> cres_CRD r = [])"
| "wf_msg (Msg_ConnectionStateRequest r) \<longleftrightarrow> True"
| "wf_msg (Msg_ConnectionStateResponse r) \<longleftrightarrow> True"
| "wf_msg (Msg_DisconnectRequest r) \<longleftrightarrow> True"
| "wf_msg (Msg_DisconnectResponse r) \<longleftrightarrow> True"
| "wf_msg (Msg_TunnelRequest r) \<longleftrightarrow> 2 \<le> length (treq_CEMI r)"
| "wf_msg (Msg_TunnelACK r) \<longleftrightarrow> True"
| "wf_msg (Msg_ConfigRequest r) \<longleftrightarrow> 2 \<le> length (cfreq_CEMI r)"
| "wf_msg (Msg_ConfigACK r) \<longleftrightarrow> True"
| "wf_msg (Msg_DescriptionRequest r) \<longleftrightarrow> True"
| "wf_msg (Msg_DescriptionResponse r) \<longleftrightarrow> wf_device (descr_device r)"
| "wf_msg (Msg_SearchRequest r) \<longleftrightarrow> True"
| "wf_msg (Msg_SearchResponse r) \<longleftrightarrow> wf_device (srchr_device r)"

text \<open>The message a receiver sees: the endpoints resolved against the sender's address.\<close>

primrec received :: "sockaddr_in \<Rightarrow> eibnet_msg \<Rightarrow> eibnet_msg" where
  "received src (Msg_ConnectRequest r) = Msg_ConnectRequest (r\<lparr>
     creq_caddr := endpoint src (creq_caddr r) (creq_nat r),
     creq_daddr := endpoint src (creq_daddr r) (creq_nat r),
     creq_nat := hidden (creq_caddr r) (creq_nat r) \<or> hidden (creq_daddr r) (creq_nat r)\<rparr>)"
| "received src (Msg_ConnectResponse r) = Msg_ConnectResponse
     (if cres_status r = 0 then r\<lparr>cres_daddr := endpoint src (cres_daddr r) (cres_nat r),
        cres_nat := hidden (cres_daddr r) (cres_nat r)\<rparr> else r)"
| "received src (Msg_ConnectionStateRequest r) = Msg_ConnectionStateRequest (r\<lparr>
     csreq_caddr := endpoint src (csreq_caddr r) (csreq_nat r),
     csreq_nat := hidden (csreq_caddr r) (csreq_nat r)\<rparr>)"
| "received src (Msg_ConnectionStateResponse r) = Msg_ConnectionStateResponse r"
| "received src (Msg_DisconnectRequest r) = Msg_DisconnectRequest (r\<lparr>
     dreq_caddr := endpoint src (dreq_caddr r) (dreq_nat r),
     dreq_nat := hidden (dreq_caddr r) (dreq_nat r)\<rparr>)"
| "received src (Msg_DisconnectResponse r) = Msg_DisconnectResponse r"
| "received src (Msg_TunnelRequest r) = Msg_TunnelRequest r"
| "received src (Msg_TunnelACK r) = Msg_TunnelACK r"
| "received src (Msg_ConfigRequest r) = Msg_ConfigRequest r"
| "received src (Msg_ConfigACK r) = Msg_ConfigACK r"
| "received src (Msg_DescriptionRequest r) = Msg_DescriptionRequest (r\<lparr>
     descq_caddr := endpoint src (descq_caddr r) (descq_nat r),
     descq_nat := hidden (descq_caddr r) (descq_nat r)\<rparr>)"
| "received src (Msg_DescriptionResponse r) = Msg_DescriptionResponse r"
| "received src (Msg_SearchRequest r) = Msg_SearchRequest (r\<lparr>
     srchq_caddr := endpoint src (srchq_caddr r) (srchq_nat r),
     srchq_nat := hidden (srchq_caddr r) (srchq_nat r)\<rparr>)"
| "received src (Msg_SearchResponse r) = Msg_SearchResponse (r\<lparr>
     srchr_caddr := endpoint src (srchr_caddr r) (srchr_nat r),
     srchr_nat := hidden (srchr_caddr r) (srchr_nat r)\<rparr>)"

lemmas msg_ToPacket_defs =
  ConnectRequest_ToPacket_def ConnectResponse_ToPacket_def ConnectionStateRequest_ToPacket_def
  ConnectionStateResponse_ToPacket_def DisconnectRequest_ToPacket_def DisconnectResponse_ToPacket_def
  TunnelRequest_ToPacket_def TunnelACK_ToPacket_def ConfigRequest_ToPacket_def ConfigACK_ToPacket_def
  DescriptionRequest_ToPacket_def DescriptionResponse_ToPacket_def SearchRequest_ToPacket_def
  SearchResponse_ToPacket_def ip_packet_def

lemmas msg_parse_defs =
  parseEIBnet_ConnectRequest_def parseEIBnet_ConnectResponse_def
  parseEIBnet_ConnectionStateRequest_def parseEIBnet_ConnectionStateResponse_def
  parseEIBnet_DisconnectRequest_def parseEIBnet_DisconnectResponse_def
  parseEIBnet_TunnelRequest_def parseEIBnet_TunnelACK_def parseEIBnet_ConfigRequest_def
  parseEIBnet_ConfigACK_def parseEIBnet_DescriptionRequest_def
  parseEIBnet_DescriptionResponse_def parseEIBnet_SearchRequest_def parseEIBnet_SearchResponse_def

section \<open>Device information\<close>

lemma read_services_bytes:
  "read_services (length ss) (concat (map (\<lambda>s. [family s, version s]) ss) @ rest) = ss"
  by (induction ss) simp_all

lemma length_services [simp]: "length (concat (map (\<lambda>s. [family s, version s]) ss)) = 2 * length ss"
  by (induction ss) simp_all

lemma unat_services_len: "n \<le> 126 \<Longrightarrow> unat (of_nat (n * 2 + 2) :: byte) = n * 2 + 2"
  by (rule unat_of_nat_byte) simp

lemma length_device_bytes:
  "wf_device v \<Longrightarrow> length (device_bytes v) = 56 + 2 * length (dev_services v)"
  by (simp add: device_bytes_def wf_device_def)

lemma read_device_bytes:
  assumes "wf_device v"
  shows "read_device (device_bytes v @ rest) = Parsed v"
proof -
  let ?hd = "[54, 1, KNXmedium v, devicestatus v, hi8 (individual_addr v), lo8 (individual_addr v),
    hi8 (installid v), lo8 (installid v)] :: byte list"
  let ?nm = "(dev_name v)[29 := 0]"
  obtain n :: byte where n: "n = of_nat (length (dev_services v) * 2 + 2)"
      "unat n = length (dev_services v) * 2 + 2"
    using assms unat_services_len by (auto simp: wf_device_def)
  define sv where "sv = concat (map (\<lambda>s. [family s, version s]) (dev_services v))"
  define d where "d = ?hd @ dev_serial v @ multicastaddr v @ dev_MAC v @ ?nm @ [n, 2] @ sv @ rest"
  have len: "length (dev_serial v) = 6" "length (multicastaddr v) = 4" "length (dev_MAC v) = 6"
      "length (dev_name v) = 30" "dev_name v ! 29 = 0"
    using assms by (auto simp: wf_device_def)
  then have nm: "?nm = dev_name v" by (metis list_update_id)
  have d: "device_bytes v @ rest = d"
    by (simp add: d_def device_bytes_def n(1) sv_def)
  define pre where "pre = ?hd @ dev_serial v @ multicastaddr v @ dev_MAC v @ ?nm"
  have pre: "d = pre @ n # 2 # sv @ rest" "length pre = 54"
    using len by (simp_all add: d_def pre_def)
  have t: "d ! 54 = n" "d ! 55 = 2" "drop 56 d = sv @ rest" "length d = 56 + length sv + length rest"
    using pre(2) by (simp_all add: pre(1) nth_append)
  have h: "d ! 0 = 54" "d ! 1 = 1" "d ! 2 = KNXmedium v" "d ! 3 = devicestatus v"
      "d ! 4 = hi8 (individual_addr v)" "d ! 5 = lo8 (individual_addr v)"
      "d ! 6 = hi8 (installid v)" "d ! 7 = lo8 (installid v)"
    by (simp_all add: d_def)
  have f: "slice 8 6 d = dev_serial v" "slice 14 4 d = multicastaddr v" "slice 18 6 d = dev_MAC v"
      "slice 24 30 d = ?nm"
    using len by (simp_all add: d_def slice_def)
  have "n \<noteq> 0" "unat n mod 2 = 0" "unat n div 2 - 1 = length (dev_services v)"
    using n(2) by auto
  moreover have "length sv = 2 * length (dev_services v)"
    by (simp add: sv_def)
  moreover have "read_services (length (dev_services v)) (sv @ rest) = dev_services v"
    unfolding sv_def by (rule read_services_bytes)
  ultimately show ?thesis
    unfolding d read_device_def t h f using n(2) nm by simp
qed

lemma device_len_byte:
  assumes "wf_device v"
  shows "(device_bytes v @ rest) ! 54 = of_nat (length (dev_services v) * 2 + 2)"
  using assms by (simp add: device_bytes_def wf_device_def nth_append)

section \<open>Each parser on its own message\<close>

lemma wrong_service:
  "ip_service p \<noteq> CONNECTION_REQUEST \<Longrightarrow> parseEIBnet_ConnectRequest p = None"
  "ip_service p \<noteq> CONNECTION_RESPONSE \<Longrightarrow> parseEIBnet_ConnectResponse p = None"
  "ip_service p \<noteq> CONNECTIONSTATE_REQUEST \<Longrightarrow> parseEIBnet_ConnectionStateRequest p = None"
  "ip_service p \<noteq> CONNECTIONSTATE_RESPONSE \<Longrightarrow> parseEIBnet_ConnectionStateResponse p = None"
  "ip_service p \<noteq> DISCONNECT_REQUEST \<Longrightarrow> parseEIBnet_DisconnectRequest p = None"
  "ip_service p \<noteq> DISCONNECT_RESPONSE \<Longrightarrow> parseEIBnet_DisconnectResponse p = None"
  "ip_service p \<noteq> TUNNEL_REQUEST \<Longrightarrow> parseEIBnet_TunnelRequest p = None"
  "ip_service p \<noteq> TUNNEL_RESPONSE \<Longrightarrow> parseEIBnet_TunnelACK p = None"
  "ip_service p \<noteq> DEVICE_CONFIGURATION_REQUEST \<Longrightarrow> parseEIBnet_ConfigRequest p = None"
  "ip_service p \<noteq> DEVICE_CONFIGURATION_ACK \<Longrightarrow> parseEIBnet_ConfigACK p = None"
  "ip_service p \<noteq> DESCRIPTION_REQUEST \<Longrightarrow> parseEIBnet_DescriptionRequest p = None"
  "ip_service p \<noteq> DESCRIPTION_RESPONSE \<Longrightarrow> parseEIBnet_DescriptionResponse p = Rejected"
  "ip_service p \<noteq> SEARCH_REQUEST \<Longrightarrow> parseEIBnet_SearchRequest p = None"
  "ip_service p \<noteq> SEARCH_RESPONSE \<Longrightarrow> parseEIBnet_SearchResponse p = Rejected"
  by (simp_all add: msg_parse_defs)

lemma length_byte:
  assumes "length xs \<le> 254"
  shows "unat (of_nat (length xs) + 1 :: byte) = length xs + 1"
  using unat_of_nat_byte [of "length xs + 1"] assms by (simp add: add.commute)

lemma slice_whole: "length xs = n \<Longrightarrow> slice 0 n (xs @ ys) = xs"
  by (simp add: slice_def)

lemma ConnectRequest_trip:
  assumes "wf_msg (Msg_ConnectRequest r)"
  shows "of_option Msg_ConnectRequest (parseEIBnet_ConnectRequest (ConnectRequest_ToPacket r\<lparr>ip_src := src\<rparr>)) =
    [received src (Msg_ConnectRequest r)]"
proof -
  let ?c = "IPtoEIBNetIP (creq_caddr r) (creq_nat r)" and ?d = "IPtoEIBNetIP (creq_daddr r) (creq_nat r)"
  define l where "l = (of_nat (length (creq_CRI r)) + 1 :: byte)"
  define d where "d = ?c @ ?d @ [l] @ creq_CRI r"
  have l: "unat l = length (creq_CRI r) + 1"
    unfolding l_def using assms by (intro length_byte) simp
  have s: "slice 0 8 d = ?c" "slice 8 8 d = ?d" "d ! 16 = l" "length d = 17 + length (creq_CRI r)"
      "slice 17 (length (creq_CRI r)) d = creq_CRI r"
    by (simp_all add: d_def slice_def nth_append)
  have p: "ConnectRequest_ToPacket r = ip_packet CONNECTION_REQUEST d"
    by (simp add: ConnectRequest_ToPacket_def d_def l_def)
  show ?thesis
    using l s assms by (simp add: p parseEIBnet_ConnectRequest_def ip_packet_def Suc_le_eq)
qed

lemma ConnectResponse_trip:
  assumes "wf_msg (Msg_ConnectResponse r)"
  shows "of_option Msg_ConnectResponse (parseEIBnet_ConnectResponse (ConnectResponse_ToPacket r\<lparr>ip_src := src\<rparr>)) =
    [received src (Msg_ConnectResponse r)]"
proof (cases "cres_status r = 0")
  case False
  with assms show ?thesis
    by (simp add: parseEIBnet_ConnectResponse_def ConnectResponse_ToPacket_def ip_packet_def)
next
  case True
  let ?d = "IPtoEIBNetIP (cres_daddr r) (cres_nat r)"
  define l where "l = (of_nat (length (cres_CRD r)) + 1 :: byte)"
  define d where "d = [cres_channel r, 0] @ ?d @ [l] @ cres_CRD r"
  have l: "unat l = length (cres_CRD r) + 1"
    unfolding l_def using assms True by (intro length_byte) simp
  have s: "slice 2 8 d = ?d" "d ! 0 = cres_channel r" "d ! 1 = 0" "d ! 10 = l"
      "length d = 11 + length (cres_CRD r)" "slice 11 (length (cres_CRD r)) d = cres_CRD r"
    by (simp_all add: d_def slice_def nth_append)
  have p: "ConnectResponse_ToPacket r = ip_packet CONNECTION_RESPONSE d"
    using True by (simp add: ConnectResponse_ToPacket_def d_def l_def)
  show ?thesis
    using l s assms True by (simp add: p parseEIBnet_ConnectResponse_def ip_packet_def Suc_le_eq)
qed

lemma DescriptionResponse_trip:
  assumes "wf_device (descr_device r)"
  shows "parseEIBnet_DescriptionResponse (DescriptionResponse_ToPacket r\<lparr>ip_src := src\<rparr>) = Parsed r"
proof -
  let ?n = "length (dev_services (descr_device r))"
  define b where "b = device_bytes (descr_device r)"
  have "unat (of_nat (?n * 2 + 2) :: byte) = ?n * 2 + 2"
    using assms by (intro unat_services_len) (simp add: wf_device_def)
  then have u: "unat ((b @ descr_optional r) ! 54) = ?n * 2 + 2"
    unfolding b_def device_len_byte [OF assms] .
  have "length b = 56 + 2 * ?n"
    unfolding b_def by (rule length_device_bytes [OF assms])
  moreover have "read_device (b @ descr_optional r) = Parsed (descr_device r)"
    unfolding b_def by (rule read_device_bytes [OF assms])
  ultimately show ?thesis
    using u by (simp add: parseEIBnet_DescriptionResponse_def DescriptionResponse_ToPacket_def
        ip_packet_def b_def [symmetric] slice_def mult.commute)
qed

lemma SearchResponse_trip:
  assumes "wf_device (srchr_device r)"
  shows "of_parsed Msg_SearchResponse (parseEIBnet_SearchResponse (SearchResponse_ToPacket r\<lparr>ip_src := src\<rparr>)) =
    [received src (Msg_SearchResponse r)]"
  using length_device_bytes [OF assms] read_device_bytes [OF assms, of "[]"]
  by (simp add: parseEIBnet_SearchResponse_def SearchResponse_ToPacket_def ip_packet_def)

lemma msg_round_trip:
  assumes "wf_msg m"
  shows "msg_parses (msg_ToPacket m\<lparr>ip_src := src\<rparr>) = [received src m]"
proof -
  have sv: "ip_service (ip_packet c d\<lparr>ip_src := src\<rparr>) = c" for c d
    by (simp add: ip_packet_def)
  show ?thesis
  proof (cases m)
    case (Msg_ConnectRequest r)
    with assms ConnectRequest_trip [of r src] show ?thesis
      by (simp add: msg_parses_def wrong_service ConnectRequest_ToPacket_def sv del: wf_msg.simps received.simps)
  next
    case (Msg_ConnectResponse r)
    with assms ConnectResponse_trip [of r src] show ?thesis
      by (simp add: msg_parses_def wrong_service ConnectResponse_ToPacket_def sv del: wf_msg.simps received.simps)
  next
    case (Msg_DescriptionResponse r)
    with assms DescriptionResponse_trip [of r src] show ?thesis
      by (simp add: msg_parses_def wrong_service DescriptionResponse_ToPacket_def sv)
  next
    case (Msg_SearchResponse r)
    with assms SearchResponse_trip [of r src] show ?thesis
      by (simp add: msg_parses_def wrong_service SearchResponse_ToPacket_def sv)
  qed (use assms in \<open>simp_all add: msg_parses_def msg_ToPacket_defs msg_parse_defs slice_def\<close>)
qed

section \<open>The send queue\<close>

datatype sock_event = Ev_Send EIBNetIPPacket sockaddr_in | Ev_writable send_result

fun sock_step :: "EIBNetIPSocket \<Rightarrow> sock_event \<Rightarrow> EIBNetIPSocket \<times> sock_out list" where
  "sock_step s (Ev_Send p a) = (EIBNetIPSocket_Send s p a, [])"
| "sock_step s (Ev_writable r) = io_send_cb s r"

definition sock_inv :: "EIBNetIPSocket \<Rightarrow> bool" where
  "sock_inv s \<longleftrightarrow> (send_q s \<noteq> [] \<longrightarrow> io_send_active s) \<and> send_error s \<le> 6"

text \<open>What an event hands to \<open>Send\<close>, and what leaves the queue, sent or dropped.\<close>

fun submitted :: "sock_event \<Rightarrow> carray list" where
  "submitted (Ev_Send p a) = [EIBNetIP_ToPacket p]"
| "submitted (Ev_writable r) = []"

fun departed :: "sock_out \<Rightarrow> carray list" where
  "departed (Datagram p a) = [p]"
| "departed (Drop p) = [p]"
| "departed On_error = []"
| "departed On_next = []"

definition queued_packets :: "EIBNetIPSocket \<Rightarrow> carray list" where
  "queued_packets s = map (EIBNetIP_ToPacket \<circ> fst) (send_q s)"

lemma sock_step_inv: "sock_inv s \<Longrightarrow> sock_inv (fst (sock_step s e))"
  by (cases e)
    (auto simp: sock_inv_def io_send_cb_def EIBNetIPSocket_Send_def Let_def
      split: list.splits send_result.splits)

lemma sock_step_queue:
  "queued_packets s @ submitted e =
     collect departed (snd (sock_step s e)) @ queued_packets (fst (sock_step s e))"
  by (cases e)
    (auto simp: queued_packets_def io_send_cb_def EIBNetIPSocket_Send_def Let_def
      split: list.splits send_result.splits)

interpretation sock: fifo_machine sock_step "\<lambda>_. True" sock_inv "\<lambda>_. True" queued_packets submitted departed
  by unfold_locales (simp_all add: sock_step_inv sock_step_queue)

interpretation sock_any: fifo_machine sock_step "\<lambda>_. True" "\<lambda>_. True" "\<lambda>_. True" queued_packets submitted departed
  by unfold_locales (simp_all add: sock_step_queue)

section \<open>Properties\<close>

text \<open>
  A packet that the daemon puts on the wire is received with the same service and payload, stamped
  with the sender's address, exactly when the socket's filter accepts that address and the whole packet
  fits the 255-byte receive buffer; a longer packet is truncated, fails the length check and is lost.
\<close>

theorem ip_packet_delivery:
  assumes "length (ip_data p) < 65530"
  shows "io_recv_cb recvall recvaddr localaddr recvaddr2 (EIBNetIP_ToPacket p) r =
    (if recv_accepts recvall recvaddr localaddr recvaddr2 r \<and> length (ip_data p) \<le> 249
     then Some (p\<lparr>ip_src := r\<rparr>) else None)"
proof -
  let ?w = "EIBNetIP_ToPacket p"
  obtain n :: u16 where n: "n = of_nat (length (ip_data p) + 6)" "unat n = length (ip_data p) + 6"
    using unat_of_nat_u16 [of "length (ip_data p) + 6"] assms by auto
  have w: "?w = [0x06, 0x10, hi8 (ip_service p), lo8 (ip_service p), hi8 n, lo8 n] @ ip_data p"
    by (simp add: EIBNetIP_ToPacket_def n(1) Let_def)
  have long: "EIBNetIP_fromPacket (take 255 ?w) r = None" if "249 < length (ip_data p)"
    using that n(2) by (simp add: w EIBNetIP_fromPacket_def Let_def)
  have "take 255 ?w = ?w" if "length (ip_data p) \<le> 249"
    using that by (simp add: w)
  then show ?thesis
    using long ip_wire_round_trip [of p r] assms by (simp add: io_recv_cb_def Let_def)
qed

theorem ip_packet_delivery_witness:
  "io_recv_cb 1 sockaddr_zero sockaddr_zero sockaddr_zero
     (EIBNetIP_ToPacket (ip_packet TUNNEL_RESPONSE [4, 1, 0, 0])) \<lparr>sin_addr = 0x0a000001, sin_port = 3671\<rparr> =
   Some ((ip_packet TUNNEL_RESPONSE [4, 1, 0, 0])\<lparr>ip_src := \<lparr>sin_addr = 0x0a000001, sin_port = 3671\<rparr>\<rparr>)"
  using ip_packet_delivery [of "ip_packet TUNNEL_RESPONSE [4, 1, 0, 0]" 1]
  by (simp add: ip_packet_def recv_accepts_def)



text \<open>
  A search response of a valid shape whose service-family block announces a length of zero makes the
  parser throw (it asks for a vector of \<open>SIZE_MAX\<close> entries) instead of rejecting the packet.
\<close>

theorem search_response_zero_block_throws:
  assumes "ip_service p = SEARCH_RESPONSE" and "64 \<le> length (ip_data p)"
    and "ip_data p ! 0 = 8" and "ip_data p ! 1 = 1" and "ip_data p ! 8 = 54" and "ip_data p ! 9 = 1"
    and "ip_data p ! 63 = 2"
  shows "parseEIBnet_SearchResponse p = Throws \<longleftrightarrow> ip_data p ! 62 = 0"
proof -
  have nth: "drop 8 (ip_data p) ! k = ip_data p ! (8 + k)" if "k < 56" for k
    using that assms(2) by (intro nth_drop) simp
  obtain ca n where "EIBnettoIP (slice 0 8 (ip_data p)) (ip_src p) False = Some (ca, n)"
    using assms that by (cases "EIBnettoIP (slice 0 8 (ip_data p)) (ip_src p) False")
      (auto simp: EIBnettoIP_def Let_def split: if_splits)
  then show ?thesis
    using assms nth [of 0] nth [of 1] nth [of 54] nth [of 55]
    by (auto simp: parseEIBnet_SearchResponse_def read_device_def)
qed

theorem search_response_zero_block_throws_witness:
  "parseEIBnet_SearchResponse (ip_packet SEARCH_RESPONSE
     ([8, 1, 0, 0, 0, 0, 0, 0, 54, 1] @ replicate 52 0 @ [0, 2])) = Throws"
  using search_response_zero_block_throws [of "ip_packet SEARCH_RESPONSE
     ([8, 1, 0, 0, 0, 0, 0, 0, 54, 1] @ replicate 52 0 @ [0, 2])"]
  by (simp add: ip_packet_def nth_append)


text \<open>
  A socket with queued packets always has its write watcher running, so that no packet is stuck,
  and never counts more than six consecutive send errors.
\<close>

theorem socket_watches_queue:
  assumes "sock_inv s"
  shows "sock_inv (fst (run_events sock_step s es))"
  using assms by (rule sock.run_inv) (simp add: list_all_def)

theorem socket_watches_queue_witness:
  "sock_inv (fst (run_events sock_step
     \<lparr>send_q = [], io_send_active = False, send_error = 0, sock_paused = False, io_recv_active = True\<rparr>
     [Ev_Send (ip_packet TUNNEL_RESPONSE [4, 1, 0, 0]) sockaddr_zero, Ev_writable Failed]))"
  by (rule socket_watches_queue) (simp add: sock_inv_def)

end
