(* ===== verification/Layer4.thy ===== *)
theory Layer4
  imports Tpdu Lpdu
begin

text \<open>
  The transport layer endpoints of \<^verbatim>\<open>src/src/libserver/layer4.cpp\<close>: broadcast, group, raw and individual
  datagrams, the group socket, and the connection-oriented \<open>T_Connection\<close> with its state machine.
  A handler returns what it does in order: telegrams handed to the link (\<open>recv_L_Data\<close>), messages
  handed to the application (\<open>app->send\<close>), \<open>send_Next\<close>, or the abort of a failed assertion, after
  which the program no longer runs.
\<close>

unbundle bit_operations_syntax

datatype 'c l4_out = ToL3 l_data_pdu | ToApp 'c | SendNext | Abort

section \<open>Datagram endpoints\<close>

record BroadcastComm =
  bc_data :: carray
  bc_src :: eibaddr

record GroupComm =
  gc_data :: carray
  gc_src :: eibaddr

record TpduComm =
  tc_data :: carray
  tc_addr :: eibaddr

record GroupAPDU =
  ga_data :: carray
  ga_src :: eibaddr
  ga_dst :: eibaddr

text \<open>\<open>l->data = t.ToPacket ()\<close>, with the assertion inside, and then \<open>r->recv_L_Data (l)\<close>.\<close>

definition emit :: "tpdu \<Rightarrow> (carray \<Rightarrow> l_data_pdu) \<Rightarrow> 'c l4_out list" where
  "emit p mk = (case TPDU_ToPacket p of None \<Rightarrow> [Abort] | Some d \<Rightarrow> [ToL3 (mk d)])"

definition T_Broadcast_send_L_Data :: "l_data_pdu \<Rightarrow> BroadcastComm l4_out list" where
  "T_Broadcast_send_L_Data l =
     (case TPDU_fromPacket (l_data l) of
        T_DATA_XXX_REQ_PDU d \<Rightarrow> [ToApp \<lparr>bc_data = d, bc_src = l_source l\<rparr>]
      | _ \<Rightarrow> []) @ [SendNext]"

definition T_Broadcast_recv_Data :: "carray \<Rightarrow> BroadcastComm l4_out list" where
  "T_Broadcast_recv_Data c = emit (T_DATA_XXX_REQ_PDU c)
     (\<lambda>d. L_Data_new\<lparr>l_source := 0, l_dest := 0, l_AddrType := GroupAddress, l_data := d,
        l_hopcount := 0x07\<rparr>)"

definition T_Group_send_L_Data :: "l_data_pdu \<Rightarrow> GroupComm l4_out list" where
  "T_Group_send_L_Data l =
     (case TPDU_fromPacket (l_data l) of
        T_DATA_XXX_REQ_PDU d \<Rightarrow> [ToApp \<lparr>gc_data = d, gc_src = l_source l\<rparr>]
      | _ \<Rightarrow> []) @ [SendNext]"

definition T_Group_recv_Data :: "eibaddr \<Rightarrow> carray \<Rightarrow> GroupComm l4_out list" where
  "T_Group_recv_Data groupaddr c = emit (T_DATA_XXX_REQ_PDU c)
     (\<lambda>d. L_Data_new\<lparr>l_source := 0, l_dest := groupaddr, l_AddrType := GroupAddress, l_data := d\<rparr>)"

definition T_TPDU_send_L_Data :: "l_data_pdu \<Rightarrow> TpduComm l4_out list" where
  "T_TPDU_send_L_Data l = [ToApp \<lparr>tc_data = l_data l, tc_addr = l_source l\<rparr>, SendNext]"

definition T_TPDU_recv_Data :: "eibaddr \<Rightarrow> TpduComm \<Rightarrow> TpduComm l4_out list" where
  "T_TPDU_recv_Data src c =
     [ToL3 (L_Data_new\<lparr>l_source := src, l_dest := tc_addr c, l_AddrType := IndividualAddress,
        l_data := tc_data c\<rparr>)]"

definition T_Individual_send_L_Data :: "l_data_pdu \<Rightarrow> carray l4_out list" where
  "T_Individual_send_L_Data l =
     (case TPDU_fromPacket (l_data l) of
        T_DATA_XXX_REQ_PDU d \<Rightarrow> [ToApp d]
      | _ \<Rightarrow> []) @ [SendNext]"

definition T_Individual_recv_Data :: "eibaddr \<Rightarrow> carray \<Rightarrow> carray l4_out list" where
  "T_Individual_recv_Data dest c = emit (T_DATA_XXX_REQ_PDU c)
     (\<lambda>d. L_Data_new\<lparr>l_source := 0, l_dest := dest, l_AddrType := IndividualAddress, l_data := d\<rparr>)"

definition GroupSocket_send_L_Data :: "l_data_pdu \<Rightarrow> GroupAPDU l4_out list" where
  "GroupSocket_send_L_Data l =
     (case TPDU_fromPacket (l_data l) of
        T_DATA_XXX_REQ_PDU d \<Rightarrow> [ToApp \<lparr>ga_data = d, ga_src = l_source l, ga_dst = l_dest l\<rparr>]
      | _ \<Rightarrow> []) @ [SendNext]"

definition GroupSocket_recv_Data :: "GroupAPDU \<Rightarrow> GroupAPDU l4_out list" where
  "GroupSocket_recv_Data c = emit (T_DATA_XXX_REQ_PDU (ga_data c))
     (\<lambda>d. L_Data_new\<lparr>l_source := 0, l_dest := ga_dst c, l_AddrType := GroupAddress, l_data := d\<rparr>)"

text \<open>The address filters of \<open>Layer4commonWO\<close>; \<open>own\<close> is \<open>getAddress ()\<close>.\<close>

definition WO_checkAddress :: "bool \<Rightarrow> eibaddr \<Rightarrow> eibaddr \<Rightarrow> bool" where
  "WO_checkAddress write_only own addr \<longleftrightarrow> \<not> write_only \<and> addr = own"

definition WO_checkGroupAddress :: "bool \<Rightarrow> eibaddr \<Rightarrow> bool" where
  "WO_checkGroupAddress write_only addr \<longleftrightarrow> \<not> write_only"

section \<open>Connections\<close>

text \<open>The modes 0, 1 and 2 of \<open>T_Connection\<close>, by the names its comment gives them.\<close>

datatype t_mode = CLOSED | IDLE | ACK_WAIT

text \<open>
  The sequence numbers are assigned only the values zero and \<open>x & 0x0f\<close>; they are kept in a byte.
  \<open>timer_on\<close> says whether the retransmission timer runs.
\<close>

record T_Connection =
  t_in :: "carray list"
  t_current :: carray
  t_recvno :: byte
  t_sendno :: byte
  t_mode_of :: t_mode
  t_repcount :: nat
  t_dest :: eibaddr
  timer_on :: bool

text \<open>The constructor leaves \<open>repcount\<close> uninitialised.\<close>

definition T_Connection_new :: "nat \<Rightarrow> eibaddr \<Rightarrow> T_Connection" where
  "T_Connection_new garbage d =
     \<lparr>t_in = [], t_current = [], t_recvno = 0, t_sendno = 0, t_mode_of = CLOSED,
      t_repcount = garbage, t_dest = d, timer_on = False\<rparr>"

definition SendDisconnect :: "T_Connection \<Rightarrow> carray l4_out list" where
  "SendDisconnect s = emit T_DISCONNECT_REQ_PDU
     (\<lambda>d. L_Data_new\<lparr>l_source := 0, l_dest := t_dest s, l_AddrType := IndividualAddress, l_data := d,
        l_prio := PRIO_SYSTEM\<rparr>)"

definition SendAck :: "T_Connection \<Rightarrow> byte \<Rightarrow> carray l4_out list" where
  "SendAck s serno = emit (T_ACK_PDU serno)
     (\<lambda>d. L_Data_new\<lparr>l_source := 0, l_dest := t_dest s, l_AddrType := IndividualAddress, l_data := d\<rparr>)"

definition SendData :: "T_Connection \<Rightarrow> byte \<Rightarrow> carray \<Rightarrow> carray l4_out list" where
  "SendData s serno c = emit (T_DATA_CONNECTED_REQ_PDU serno c)
     (\<lambda>d. L_Data_new\<lparr>l_source := 0, l_dest := t_dest s, l_AddrType := IndividualAddress, l_data := d\<rparr>)"

definition SendConnect :: "T_Connection \<Rightarrow> T_Connection \<times> carray l4_out list" where
  "SendConnect s =
     (s\<lparr>t_mode_of := IDLE, t_sendno := 0, t_recvno := 0, t_repcount := 0\<rparr>,
      emit T_CONNECT_REQ_PDU
        (\<lambda>d. L_Data_new\<lparr>l_source := 0, l_dest := t_dest s, l_AddrType := IndividualAddress, l_data := d,
           l_prio := PRIO_SYSTEM\<rparr>))"

text \<open>\<open>stop\<close> also hands the application an empty message.\<close>

definition T_Connection_stop :: "T_Connection \<Rightarrow> T_Connection \<times> carray l4_out list" where
  "T_Connection_stop s =
     (s\<lparr>t_mode_of := CLOSED, timer_on := False\<rparr>, SendDisconnect s @ [ToApp []])"

definition SendCheck :: "T_Connection \<Rightarrow> T_Connection \<times> carray l4_out list" where
  "SendCheck s =
     (if t_mode_of s \<noteq> IDLE then (s, [])
      else
        let s = s\<lparr>t_repcount := 0\<rparr>
        in case t_in s of
             [] \<Rightarrow> (s, [])
           | c # rest \<Rightarrow>
               (s\<lparr>t_in := rest, t_current := c, t_mode_of := ACK_WAIT, timer_on := True\<rparr>,
                SendData s (t_sendno s) c))"

definition T_Connection_recv_Data :: "T_Connection \<Rightarrow> carray \<Rightarrow> T_Connection \<times> carray l4_out list" where
  "T_Connection_recv_Data s c = SendCheck (s\<lparr>t_in := t_in s @ [c]\<rparr>)"

definition timer_cb :: "T_Connection \<Rightarrow> T_Connection \<times> carray l4_out list" where
  "timer_cb s =
     (if t_mode_of s = ACK_WAIT \<and> t_repcount s < 3
      then (s\<lparr>t_repcount := t_repcount s + 1, timer_on := True\<rparr>, SendData s (t_sendno s) (t_current s))
      else T_Connection_stop s)"

definition recv_connected :: "T_Connection \<Rightarrow> byte \<Rightarrow> carray \<Rightarrow> T_Connection \<times> carray l4_out list" where
  "recv_connected s serno d =
     (if serno \<noteq> t_recvno s \<and> serno \<noteq> (t_recvno s - 1) AND 0x0f then T_Connection_stop s
      else if serno = t_recvno s
      then (s\<lparr>t_recvno := (t_recvno s + 1) AND 0x0f\<rparr>,
            [ToApp (d[0 := d ! 0 AND 0x03])] @ SendAck s (t_recvno s))
      else (s, SendAck s serno))"

definition recv_nack :: "T_Connection \<Rightarrow> byte \<Rightarrow> T_Connection \<times> carray l4_out list" where
  "recv_nack s serno =
     (if serno \<noteq> t_sendno s then T_Connection_stop s
      else if t_repcount s \<ge> 3 \<or> t_mode_of s \<noteq> ACK_WAIT then T_Connection_stop s
      else (s\<lparr>t_repcount := t_repcount s + 1\<rparr>, SendData s (t_sendno s) (t_current s)))"

definition recv_ack :: "T_Connection \<Rightarrow> byte \<Rightarrow> T_Connection \<times> carray l4_out list" where
  "recv_ack s serno =
     (if serno \<noteq> t_sendno s then T_Connection_stop s
      else if t_mode_of s \<noteq> ACK_WAIT then T_Connection_stop s
      else SendCheck (s\<lparr>t_mode_of := IDLE, timer_on := False, t_sendno := (t_sendno s + 1) AND 0x0f\<rparr>))"

definition T_Connection_send_L_Data :: "T_Connection \<Rightarrow> l_data_pdu \<Rightarrow> T_Connection \<times> carray l4_out list" where
  "T_Connection_send_L_Data s l =
     (let (s', out) =
        (case TPDU_fromPacket (l_data l) of
           T_DISCONNECT_REQ_PDU \<Rightarrow> T_Connection_stop s
         | T_CONNECT_REQ_PDU \<Rightarrow> T_Connection_stop s
         | T_DATA_CONNECTED_REQ_PDU serno d \<Rightarrow> recv_connected s serno d
         | T_NACK_PDU serno \<Rightarrow> recv_nack s serno
         | T_ACK_PDU serno \<Rightarrow> recv_ack s serno
         | _ \<Rightarrow> (s, []))
      in (s', out @ [SendNext]))"

text \<open>
  The events of a connection: a telegram from the bus, a message from the application, the timer.
\<close>

datatype t_event = FromL3 l_data_pdu | FromApp carray | Timeout

fun t_step :: "T_Connection \<Rightarrow> t_event \<Rightarrow> T_Connection \<times> carray l4_out list" where
  "t_step s (FromL3 l) = T_Connection_send_L_Data s l"
| "t_step s (FromApp c) = T_Connection_recv_Data s c"
| "t_step s Timeout = timer_cb s"

lemmas t_defs =
  T_Connection_send_L_Data_def recv_connected_def recv_nack_def recv_ack_def timer_cb_def
  T_Connection_recv_Data_def SendCheck_def T_Connection_stop_def Let_def

end
