(* ===== verification/Layer4_Props.thy ===== *)
theory Layer4_Props
  imports Layer4
begin

text \<open>
  Properties of the transport layer endpoints of \<open>Layer4\<close>: what the datagram endpoints deliver, and the
  invariant, receiver and sender behaviour of \<open>T_Connection\<close> over arbitrary sequences of events.
\<close>

unbundle bit_operations_syntax

section \<open>Four-bit sequence numbers\<close>

definition seqno :: "nat \<Rightarrow> byte" where
  "seqno i = of_nat i AND 0x0f"

lemma unat_seqno: "unat (seqno i) = i mod 16"
  unfolding seqno_def unat_low_nibble by (simp add: unat_of_nat mod_mod_cancel)

lemma seqno_eq_iff: "seqno i = seqno j \<longleftrightarrow> i mod 16 = j mod 16"
proof
  assume "seqno i = seqno j"
  then have "unat (seqno i) = unat (seqno j)" by (rule arg_cong)
  then show "i mod 16 = j mod 16" unfolding unat_seqno .
next
  assume "i mod 16 = j mod 16"
  then have "unat (seqno i) = unat (seqno j)" unfolding unat_seqno .
  then show "seqno i = seqno j" by (rule unsigned_word_eqI)
qed

lemma and_0f_high [simp]: "(w AND 0x0f) AND 0xf0 = (0 :: byte)"
  by (simp add: byte_bits)

lemma seqno_high [simp]: "seqno i AND 0xf0 = 0"
  unfolding seqno_def by (rule and_0f_high)

lemma seqno_Suc [simp]: "(seqno i + 1) AND 0x0f = seqno (Suc i)"
proof -
  have "(seqno i + 1) AND 0x0f = (of_nat i + 1) AND 0x0f"
    unfolding seqno_def by (rule low_nibble_add)
  also have "of_nat i + 1 = (of_nat (Suc i) :: byte)" by simp
  finally show ?thesis by (simp only: seqno_def)
qed

lemma seqno_pred [simp]: "(seqno (Suc i) - 1) AND 0x0f = seqno i"
proof -
  have "(seqno (Suc i) - 1) AND 0x0f = (seqno (Suc i) + - 1) AND 0x0f"
    by (simp only: diff_conv_add_uminus)
  also have "\<dots> = (of_nat (Suc i) + - 1) AND 0x0f"
    unfolding seqno_def by (rule low_nibble_add)
  also have "of_nat (Suc i) + - 1 = (of_nat i :: byte)" by simp
  finally show ?thesis by (simp only: seqno_def)
qed

lemma seqno_neq_Suc: "seqno i \<noteq> seqno (Suc i)"
proof -
  have "i mod 16 \<noteq> Suc i mod 16" by (simp add: mod_Suc)
  then show ?thesis unfolding seqno_eq_iff .
qed

section \<open>Frames\<close>

lemma connected_parsed:
  assumes "TPDU_fromPacket c = T_DATA_CONNECTED_REQ_PDU k d"
  shows "d = c" "c \<noteq> []" "k AND 0xf0 = 0"
  using assms by (auto simp: tpdu_parse_defs split: if_splits)

lemma ack_parsed:
  assumes "TPDU_fromPacket c = T_ACK_PDU k"
  shows "k AND 0xf0 = 0"
  using assms by (auto simp: tpdu_parse_defs split: if_splits)

text \<open>What a telegram tells its receiver.\<close>

definition tpdu_of :: "l_data_pdu \<Rightarrow> tpdu" where
  "tpdu_of l = TPDU_fromPacket (l_data l)"

definition as_connected :: "carray \<Rightarrow> byte \<Rightarrow> carray" where
  "as_connected c k = c[0 := (c ! 0 AND 3) OR 0x40 OR push_bit 2 (k AND 0x0f)]"

lemma emit_Some: "TPDU_ToPacket p = Some d \<Longrightarrow> emit p mk = [ToL3 (mk d)]"
  by (simp add: emit_def)

lemma SendData_eq:
  assumes "c \<noteq> []" and "k AND 0xf0 = 0"
  obtains l where "SendData s k c = [ToL3 l]" "tpdu_of l = T_DATA_CONNECTED_REQ_PDU k (as_connected c k)"
proof -
  from assms obtain p where p: "TPDU_ToPacket (T_DATA_CONNECTED_REQ_PDU k c) = Some p"
    by (auto simp: tpdu_ToPacket_defs)
  have "tpdu_of (L_Data_new\<lparr>l_source := 0, l_dest := t_dest s, l_AddrType := IndividualAddress,
      l_data := p\<rparr>) = T_DATA_CONNECTED_REQ_PDU k (as_connected c k)"
    using data_connected_decoded [OF p] by (simp add: tpdu_of_def as_connected_def L_Data_new_def)
  then show ?thesis
    using that unfolding SendData_def emit_Some [OF p] by blast
qed

lemma SendAck_eq:
  assumes "k AND 0xf0 = 0"
  obtains l where "SendAck s k = [ToL3 l]" "tpdu_of l = T_ACK_PDU k"
proof -
  from assms have p: "TPDU_ToPacket (T_ACK_PDU k) = Some [0xC2 OR push_bit 2 (k AND 0x0f)]"
    by (auto simp: tpdu_ToPacket_defs)
  have "tpdu_of (L_Data_new\<lparr>l_source := 0, l_dest := t_dest s, l_AddrType := IndividualAddress,
      l_data := [0xC2 OR push_bit 2 (k AND 0x0f)]\<rparr>) = T_ACK_PDU k"
    using ack_decoded(1) [OF assms] by (simp add: tpdu_of_def L_Data_new_def)
  then show ?thesis
    using that unfolding SendAck_def emit_Some [OF p] by blast
qed

lemma SendDisconnect_eq:
  obtains l where "SendDisconnect s = [ToL3 l]" "tpdu_of l = T_DISCONNECT_REQ_PDU"
proof -
  have p: "TPDU_ToPacket T_DISCONNECT_REQ_PDU = Some [0x81]"
    by (simp add: tpdu_ToPacket_defs)
  have "tpdu_of (L_Data_new\<lparr>l_source := 0, l_dest := t_dest s, l_AddrType := IndividualAddress,
      l_data := [0x81], l_prio := PRIO_SYSTEM\<rparr>) = T_DISCONNECT_REQ_PDU"
    by (simp add: tpdu_of_def L_Data_new_def)
  then show ?thesis
    using that unfolding SendDisconnect_def emit_Some [OF p] by blast
qed

section \<open>The invariant\<close>

text \<open>
  The sequence numbers have four bits; the timer runs exactly while an acknowledgement is awaited, and
  then at most three repetitions have been made; no empty message is queued.
\<close>

definition t_inv :: "T_Connection \<Rightarrow> bool" where
  "t_inv s \<longleftrightarrow> t_sendno s AND 0xf0 = 0 \<and> t_recvno s AND 0xf0 = 0 \<and>
     (timer_on s \<longleftrightarrow> t_mode_of s = ACK_WAIT) \<and>
     (t_mode_of s = ACK_WAIT \<longrightarrow> t_repcount s \<le> 3 \<and> t_current s \<noteq> []) \<and> [] \<notin> set (t_in s)"

fun not_empty :: "t_event \<Rightarrow> bool" where
  "not_empty (FromApp c) = (c \<noteq> [])"
| "not_empty _ = True"

lemma SendData_no_abort: "c \<noteq> [] \<Longrightarrow> k AND 0xf0 = 0 \<Longrightarrow> Abort \<notin> set (SendData s k c)"
  by (rule SendData_eq [of c k s]) auto

lemma SendAck_no_abort: "k AND 0xf0 = 0 \<Longrightarrow> Abort \<notin> set (SendAck s k)"
  by (rule SendAck_eq [of k s]) auto

lemma SendDisconnect_no_abort: "Abort \<notin> set (SendDisconnect s)"
  by (rule SendDisconnect_eq [of s]) auto

lemmas no_abort = SendData_no_abort SendAck_no_abort SendDisconnect_no_abort

definition t_safe :: "T_Connection \<times> carray l4_out list \<Rightarrow> bool" where
  "t_safe r \<longleftrightarrow> t_inv (fst r) \<and> Abort \<notin> set (snd r)"

lemma stop_safe: "t_inv s \<Longrightarrow> t_safe (T_Connection_stop s)"
  by (simp add: t_safe_def t_inv_def T_Connection_stop_def no_abort)

lemma SendCheck_safe: "t_inv s \<Longrightarrow> t_safe (SendCheck s)"
  by (auto simp: t_safe_def t_inv_def SendCheck_def no_abort Let_def split: list.splits)

lemma handlers_safe:
  assumes "t_inv s"
  shows "k AND 0xf0 = 0 \<Longrightarrow> t_safe (recv_connected s k d)" "t_safe (recv_nack s k)"
    "t_safe (recv_ack s k)" "t_safe (timer_cb s)" "c \<noteq> [] \<Longrightarrow> t_safe (T_Connection_recv_Data s c)"
proof -
  have up: "t_inv (s\<lparr>t_mode_of := IDLE, timer_on := False, t_sendno := (t_sendno s + 1) AND 0x0f\<rparr>)"
    "c \<noteq> [] \<Longrightarrow> t_inv (s\<lparr>t_in := t_in s @ [c]\<rparr>)"
    using assms by (auto simp: t_inv_def)
  show "t_safe (recv_ack s k)" "c \<noteq> [] \<Longrightarrow> t_safe (T_Connection_recv_Data s c)"
    using SendCheck_safe [OF up(1)] SendCheck_safe [OF up(2)] stop_safe [OF assms]
    by (simp_all add: recv_ack_def T_Connection_recv_Data_def)
  show "k AND 0xf0 = 0 \<Longrightarrow> t_safe (recv_connected s k d)" "t_safe (recv_nack s k)" "t_safe (timer_cb s)"
    using assms stop_safe [OF assms]
    by (auto simp: recv_connected_def recv_nack_def timer_cb_def t_safe_def t_inv_def no_abort)
qed

lemma t_step_safe:
  assumes "t_inv s" and "not_empty e"
  shows "t_safe (t_step s e)"
proof (cases e)
  case (FromL3 l)
  have "t_safe (case TPDU_fromPacket (l_data l) of
           T_DISCONNECT_REQ_PDU \<Rightarrow> T_Connection_stop s
         | T_CONNECT_REQ_PDU \<Rightarrow> T_Connection_stop s
         | T_DATA_CONNECTED_REQ_PDU serno d \<Rightarrow> recv_connected s serno d
         | T_NACK_PDU serno \<Rightarrow> recv_nack s serno
         | T_ACK_PDU serno \<Rightarrow> recv_ack s serno
         | _ \<Rightarrow> (s, []))"
    using handlers_safe [OF assms(1)] stop_safe [OF assms(1)] assms(1)
      connected_parsed(3) [of "l_data l"]
    by (cases "TPDU_fromPacket (l_data l)") (simp_all add: t_safe_def)
  then show ?thesis
    by (simp add: FromL3 T_Connection_send_L_Data_def t_safe_def case_prod_beta Let_def)
qed (use assms handlers_safe [OF assms(1)] in simp_all)

interpretation tconn: event_machine t_step not_empty t_inv "\<lambda>x. x \<noteq> Abort"
proof
  show "t_inv (fst (t_step s e))" if "t_inv s" "not_empty e" for s e
    using t_step_safe [OF that] by (simp add: t_safe_def)
  show "x \<noteq> Abort" if "t_inv s" "not_empty e" "x \<in> set (snd (t_step s e))" for s e x
    using t_step_safe [OF that(1,2)] that(3) by (auto simp: t_safe_def)
qed

section \<open>The receiver\<close>

text \<open>The numbered telegrams among the events, and what the application and the peer get.\<close>

definition numbered :: "l_data_pdu \<Rightarrow> (byte \<times> carray) list" where
  "numbered l = (case tpdu_of l of T_DATA_CONNECTED_REQ_PDU k d \<Rightarrow> [(k, d)] | _ \<Rightarrow> [])"

fun numbered_in :: "t_event \<Rightarrow> (byte \<times> carray) list" where
  "numbered_in (FromL3 l) = numbered l"
| "numbered_in _ = []"

fun delivered :: "carray l4_out \<Rightarrow> carray list" where
  "delivered (ToApp d) = (if d = [] then [] else [d])"
| "delivered _ = []"

fun acked :: "carray l4_out \<Rightarrow> byte list" where
  "acked (ToL3 l) = (case tpdu_of l of T_ACK_PDU k \<Rightarrow> [k] | _ \<Rightarrow> [])"
| "acked _ = []"

fun sent_data :: "carray l4_out \<Rightarrow> (byte \<times> carray) list" where
  "sent_data (ToL3 l) = numbered l"
| "sent_data _ = []"

definition unmark :: "carray \<Rightarrow> carray" where
  "unmark d = d[0 := d ! 0 AND 0x03]"

text \<open>The abstract receiver: pass on a telegram that has the expected number.\<close>

fun deliver :: "byte \<Rightarrow> (byte \<times> carray) list \<Rightarrow> carray list" where
  "deliver n [] = []"
| "deliver n ((k, d) # xs) =
     (if k = n then unmark d # deliver ((n + 1) AND 0x0f) xs else deliver n xs)"

text \<open>A frame list, as the observers above see it.\<close>

lemma observe_SendData:
  assumes "c \<noteq> []" "k AND 0xf0 = 0"
  shows "collect delivered (SendData s k c) = []" "collect acked (SendData s k c) = []"
    "collect sent_data (SendData s k c) = [(k, as_connected c k)]"
  by (rule SendData_eq [OF assms, of s]; simp add: numbered_def)+

lemma observe_SendAck:
  assumes "k AND 0xf0 = 0"
  shows "collect delivered (SendAck s k) = []" "collect acked (SendAck s k) = [k]"
    "collect sent_data (SendAck s k) = []"
  by (rule SendAck_eq [OF assms, of s]; simp add: numbered_def)+

lemma observe_stop [simp]:
  "collect delivered (snd (T_Connection_stop s)) = []"
  "collect acked (snd (T_Connection_stop s)) = []"
  "collect sent_data (snd (T_Connection_stop s)) = []"
  by (rule SendDisconnect_eq [of s]; simp add: T_Connection_stop_def numbered_def)+

lemma fst_stop [simp]:
  "t_recvno (fst (T_Connection_stop s)) = t_recvno s"
  "t_mode_of (fst (T_Connection_stop s)) = CLOSED"
  by (simp_all add: T_Connection_stop_def)

lemma SendData_delivers_nothing [simp]: "collect delivered (SendData s k c) = []"
  by (simp add: SendData_def emit_def split: option.split)

lemma SendData_acks_nothing [simp]: "collect acked (SendData s k c) = []"
proof (cases "TPDU_ToPacket (T_DATA_CONNECTED_REQ_PDU k c)")
  case (Some p)
  then have "c \<noteq> []" "k AND 0xf0 = 0" by (auto simp: tpdu_ToPacket_defs split: if_splits)
  then show ?thesis by (rule observe_SendData)
qed (simp add: SendData_def emit_def)

lemma SendCheck_observe [simp]:
  "collect delivered (snd (SendCheck s)) = []" "collect acked (snd (SendCheck s)) = []"
  "t_recvno (fst (SendCheck s)) = t_recvno s"
  by (auto simp: SendCheck_def Let_def split: list.split)

lemma other_handlers_observe [simp]:
  "collect delivered (snd (recv_nack s k)) = []" "collect acked (snd (recv_nack s k)) = []"
  "t_recvno (fst (recv_nack s k)) = t_recvno s"
  "collect delivered (snd (recv_ack s k)) = []" "collect acked (snd (recv_ack s k)) = []"
  "t_recvno (fst (recv_ack s k)) = t_recvno s"
  "collect delivered (snd (timer_cb s)) = []" "collect acked (snd (timer_cb s)) = []"
  "t_recvno (fst (timer_cb s)) = t_recvno s"
  "collect delivered (snd (T_Connection_recv_Data s c)) = []"
  "collect acked (snd (T_Connection_recv_Data s c)) = []"
  "t_recvno (fst (T_Connection_recv_Data s c)) = t_recvno s"
  by (auto simp: recv_nack_def recv_ack_def timer_cb_def T_Connection_recv_Data_def)

lemma t_step_delivers:
  "collect delivered (snd (t_step s e)) @ deliver (t_recvno (fst (t_step s e))) xs =
     deliver (t_recvno s) (numbered_in e @ xs)"
proof (cases e)
  case (FromL3 l)
  show ?thesis
  proof (cases "tpdu_of l")
    case (T_DATA_CONNECTED_REQ_PDU k d)
    then have "d \<noteq> []" "k AND 0xf0 = 0"
      using connected_parsed [of "l_data l" k d] by (auto simp: tpdu_of_def)
    then show ?thesis
      using T_DATA_CONNECTED_REQ_PDU observe_SendAck(1) [of k s]
      by (auto simp: FromL3 T_Connection_send_L_Data_def recv_connected_def numbered_def tpdu_of_def
          unmark_def case_prod_beta Let_def)
  qed (simp_all add: FromL3 T_Connection_send_L_Data_def numbered_def tpdu_of_def case_prod_beta Let_def)
qed simp_all

lemma run_delivers:
  "collect delivered (snd (run_events t_step s es)) =
     deliver (t_recvno s) (collect numbered_in es)"
proof (induction es arbitrary: s)
  case (Cons e es)
  then show ?case
    using t_step_delivers [of s e "collect numbered_in es"]
    by (simp only: run_events_Cons collect_simps)
qed simp

text \<open>
  The telegrams of a sender that waits for acknowledgements: number \<open>i\<close> is the payload \<open>p\<close>, sent once
  and repeated \<open>r\<close> times, then number \<open>i + 1\<close> follows.
\<close>

fun stream :: "nat \<Rightarrow> (carray \<times> nat) list \<Rightarrow> (byte \<times> carray) list" where
  "stream i [] = []"
| "stream i ((p, r) # xs) = replicate (Suc r) (seqno i, p) @ stream (Suc i) xs"

lemma deliver_repeats: "deliver (seqno (Suc i)) (replicate r (seqno i, p) @ xs) = deliver (seqno (Suc i)) xs"
  using seqno_neq_Suc [of i] by (induction r) simp_all

lemma deliver_stream: "deliver (seqno i) (stream i ps) = map (unmark \<circ> fst) ps"
proof (induction ps arbitrary: i)
  case (Cons pr ps)
  obtain p r where "pr = (p, r)" by (cases pr)
  with Cons show ?case
    using deliver_repeats [of i r p] seqno_Suc [of i] by simp
qed simp

text \<open>The acknowledgements of the receiver: the expected number and the one before it.\<close>

fun ack_list :: "byte \<Rightarrow> (byte \<times> carray) list \<Rightarrow> byte list" where
  "ack_list n [] = []"
| "ack_list n ((k, d) # xs) =
     (if k = n then k # ack_list ((n + 1) AND 0x0f) xs
      else if k = (n - 1) AND 0x0f then k # ack_list n xs else ack_list n xs)"

lemma t_step_acks:
  "collect acked (snd (t_step s e)) @ ack_list (t_recvno (fst (t_step s e))) xs =
     ack_list (t_recvno s) (numbered_in e @ xs)"
proof (cases e)
  case (FromL3 l)
  show ?thesis
  proof (cases "tpdu_of l")
    case (T_DATA_CONNECTED_REQ_PDU k d)
    then have "k AND 0xf0 = 0"
      using connected_parsed [of "l_data l" k d] by (auto simp: tpdu_of_def)
    then show ?thesis
      using T_DATA_CONNECTED_REQ_PDU observe_SendAck(2) [of k s]
      by (auto simp: FromL3 T_Connection_send_L_Data_def recv_connected_def numbered_def tpdu_of_def
          case_prod_beta Let_def)
  qed (simp_all add: FromL3 T_Connection_send_L_Data_def numbered_def tpdu_of_def case_prod_beta Let_def)
qed simp_all

lemma run_acks:
  "collect acked (snd (run_events t_step s es)) = ack_list (t_recvno s) (collect numbered_in es)"
proof (induction es arbitrary: s)
  case (Cons e es)
  then show ?case
    using t_step_acks [of s e "collect numbered_in es"]
    by (simp only: run_events_Cons collect_simps)
qed simp

lemma ack_repeats:
  "ack_list (seqno (Suc i)) (replicate r (seqno i, p) @ xs) =
     replicate r (seqno i) @ ack_list (seqno (Suc i)) xs"
  using seqno_neq_Suc [of i] by (induction r) simp_all

lemma ack_stream: "ack_list (seqno i) (stream i ps) = map fst (stream i ps)"
proof (induction ps arbitrary: i)
  case (Cons pr ps)
  obtain p r where "pr = (p, r)" by (cases pr)
  with Cons show ?case
    using ack_repeats [of i r p] by (simp add: map_replicate_const)
qed simp

section \<open>The sender\<close>

text \<open>How many data frames the connection may still send before an acknowledgement arrives.\<close>

definition budget :: "T_Connection \<Rightarrow> nat" where
  "budget s =
     (if t_mode_of s = IDLE then 4 else if t_mode_of s = ACK_WAIT then 3 - t_repcount s else 0)"

fun ack_of :: "t_event \<Rightarrow> byte option" where
  "ack_of (FromL3 l) = (case tpdu_of l of T_ACK_PDU k \<Rightarrow> Some k | _ \<Rightarrow> None)"
| "ack_of _ = None"

lemma SendData_once: "length (collect sent_data (SendData s k c)) \<le> 1"
  by (simp add: SendData_def emit_def numbered_def split: option.split tpdu.split)

lemma SendAck_no_data [simp]: "collect sent_data (SendAck s k) = []"
proof (cases "k AND 0xf0 = 0")
  case True
  then show ?thesis by (rule observe_SendAck)
qed (simp add: SendAck_def emit_def tpdu_ToPacket_defs)

definition in_budget :: "T_Connection \<Rightarrow> T_Connection \<times> carray l4_out list \<Rightarrow> bool" where
  "in_budget s r \<longleftrightarrow> length (collect sent_data (snd r)) + budget (fst r) \<le> budget s"

lemma stop_in_budget: "in_budget s (T_Connection_stop s)"
  by (simp add: in_budget_def budget_def)

lemma SendCheck_in_budget: "in_budget s (SendCheck s)"
  using SendData_once [of "s\<lparr>t_repcount := 0\<rparr>"]
  by (auto simp: in_budget_def budget_def SendCheck_def Let_def split: list.split)

lemma repeat_in_budget:
  assumes "t_mode_of s = ACK_WAIT" and "t_repcount s < 3"
    and "t_mode_of s' = ACK_WAIT" and "t_repcount s' = t_repcount s + 1"
  shows "in_budget s (s', SendData s (t_sendno s) (t_current s))"
  using SendData_once [of s "t_sendno s" "t_current s"] assms by (simp add: in_budget_def budget_def)

lemma budget_in [simp]: "budget (s\<lparr>t_in := q\<rparr>) = budget s"
  by (simp add: budget_def)

lemma t_step_budget:
  assumes "ack_of e = None"
  shows "in_budget s (t_step s e)"
proof (cases e)
  case (FromL3 l)
  have n: "in_budget s (recv_nack s k)" for k
    using repeat_in_budget [of s] stop_in_budget [of s] by (simp add: recv_nack_def)
  have c: "in_budget s (recv_connected s k d)" for k d
    using stop_in_budget [of s] by (simp add: recv_connected_def in_budget_def budget_def)
  show ?thesis
    using assms n c stop_in_budget [of s]
    by (cases "tpdu_of l")
      (simp_all add: FromL3 T_Connection_send_L_Data_def tpdu_of_def in_budget_def case_prod_beta Let_def)
next
  case (FromApp c)
  then show ?thesis
    using SendCheck_in_budget [of "s\<lparr>t_in := t_in s @ [c]\<rparr>"]
    by (simp add: T_Connection_recv_Data_def in_budget_def)
next
  case Timeout
  then show ?thesis
    using repeat_in_budget [of s] stop_in_budget [of s] by (simp add: timer_cb_def)
qed

lemma run_budget:
  assumes "list_all (\<lambda>e. ack_of e = None) es"
  shows "length (collect sent_data (snd (run_events t_step s es))) \<le> budget s"
  using assms
proof (induction es arbitrary: s)
  case (Cons e es)
  have "length (collect sent_data (snd (run_events t_step (fst (t_step s e)) es))) \<le> budget (fst (t_step s e))"
    using Cons.prems by (intro Cons.IH) simp
  then show ?case
    using t_step_budget [of e s] Cons.prems by (simp add: run_events_Cons in_budget_def del: run_events.simps)
qed simp

text \<open>A closed connection stays closed, and sends nothing but acknowledgements and disconnects.\<close>

fun quiet :: "carray l4_out \<Rightarrow> bool" where
  "quiet (ToL3 l) = (case tpdu_of l of T_ACK_PDU k \<Rightarrow> True | T_DISCONNECT_REQ_PDU \<Rightarrow> True | _ \<Rightarrow> False)"
| "quiet _ = True"

lemma quiet_SendAck: "x \<in> set (SendAck s k) \<Longrightarrow> quiet x"
proof (cases "k AND 0xf0 = 0")
  case True
  then show "x \<in> set (SendAck s k) \<Longrightarrow> quiet x" by (rule SendAck_eq [of k s]) auto
qed (simp add: SendAck_def emit_def tpdu_ToPacket_defs)

lemma quiet_stop: "x \<in> set (snd (T_Connection_stop s)) \<Longrightarrow> quiet x"
  by (rule SendDisconnect_eq [of s]) (auto simp: T_Connection_stop_def)

lemma closed_step:
  assumes "t_mode_of s = CLOSED"
  shows "t_mode_of (fst (t_step s e)) = CLOSED" "x \<in> set (snd (t_step s e)) \<Longrightarrow> quiet x"
proof -
  have "t_mode_of (fst (t_step s e)) = CLOSED \<and> (\<forall>x \<in> set (snd (t_step s e)). quiet x)"
  proof (cases e)
    case (FromL3 l)
    then show ?thesis
      using assms quiet_SendAck [of _ s] quiet_stop [of _ s]
      by (cases "TPDU_fromPacket (l_data l)")
        (auto simp: T_Connection_send_L_Data_def recv_connected_def recv_nack_def recv_ack_def
          case_prod_beta Let_def)
  qed (use assms quiet_stop [of _ s] in
      \<open>auto simp: T_Connection_recv_Data_def SendCheck_def timer_cb_def\<close>)
  then show "t_mode_of (fst (t_step s e)) = CLOSED" "x \<in> set (snd (t_step s e)) \<Longrightarrow> quiet x"
    by auto
qed

interpretation closed: event_machine t_step "\<lambda>_. True" "\<lambda>s. t_mode_of s = CLOSED" quiet
  by unfold_locales (use closed_step in blast)+

text \<open>An idle or waiting connection sends its queue, one telegram per acknowledgement.\<close>

fun numbering :: "nat \<Rightarrow> carray list \<Rightarrow> (byte \<times> carray) list" where
  "numbering i [] = []"
| "numbering i (c # cs) = (seqno i, as_connected c (seqno i)) # numbering (Suc i) cs"

lemma ack_step:
  assumes "t_mode_of s = ACK_WAIT" and "ack_of e = Some (t_sendno s)"
  shows "fst (t_step s e) =
      fst (SendCheck (s\<lparr>t_mode_of := IDLE, timer_on := False, t_sendno := (t_sendno s + 1) AND 0x0f\<rparr>))"
    and "collect sent_data (snd (t_step s e)) = collect sent_data (snd
      (SendCheck (s\<lparr>t_mode_of := IDLE, timer_on := False, t_sendno := (t_sendno s + 1) AND 0x0f\<rparr>)))"
proof -
  from assms(2) obtain l where e: "e = FromL3 l" and l: "TPDU_fromPacket (l_data l) = T_ACK_PDU (t_sendno s)"
    by (cases e) (auto simp: tpdu_of_def split: tpdu.splits)
  show "fst (t_step s e) =
      fst (SendCheck (s\<lparr>t_mode_of := IDLE, timer_on := False, t_sendno := (t_sendno s + 1) AND 0x0f\<rparr>))"
    "collect sent_data (snd (t_step s e)) = collect sent_data (snd
      (SendCheck (s\<lparr>t_mode_of := IDLE, timer_on := False, t_sendno := (t_sendno s + 1) AND 0x0f\<rparr>)))"
    using assms(1) by (simp_all add: e l T_Connection_send_L_Data_def recv_ack_def case_prod_beta Let_def)
qed

lemma drain:
  assumes "t_mode_of s = ACK_WAIT" and "t_sendno s = seqno i" and "[] \<notin> set (t_in s)"
    and "map ack_of es = map (Some \<circ> seqno) [i..<Suc (i + length (t_in s))]"
  shows "t_mode_of (fst (run_events t_step s es)) = IDLE \<and> t_in (fst (run_events t_step s es)) = [] \<and>
    collect sent_data (snd (run_events t_step s es)) = numbering (Suc i) (t_in s)"
  using assms
proof (induction "t_in s" arbitrary: s i es)
  case Nil
  then obtain e where es: "es = [e]" and a: "ack_of e = Some (t_sendno s)"
    by (cases es) auto
  from Nil show ?case
    using ack_step [OF _ a] unfolding es run_events_Cons by (simp add: SendCheck_def Let_def)
next
  case (Cons c cs)
  have "map ack_of es = Some (seqno i) # map (Some \<circ> seqno) [Suc i..<Suc (Suc i + length cs)]"
    using Cons.prems(4) unfolding Cons.hyps(2) [symmetric] by (simp add: upt_conv_Cons del: upt_Suc)
  then obtain e es' where es: "es = e # es'" and a: "ack_of e = Some (t_sendno s)"
    and as: "map ack_of es' = map (Some \<circ> seqno) [Suc i..<Suc (Suc i + length cs)]"
    using Cons.prems(2) by (cases es) auto
  define s' where "s' = fst (t_step s e)"
  have q: "t_in s = c # cs" and c: "c \<noteq> []" "[] \<notin> set cs"
    using Cons.hyps(2) [symmetric] Cons.prems(3) by auto
  have s': "t_in s' = cs" "t_mode_of s' = ACK_WAIT" "t_sendno s' = seqno (Suc i)"
    unfolding s'_def ack_step(1) [OF Cons.prems(1) a]
    using Cons.prems(2) q by (simp_all add: SendCheck_def Let_def)
  have out: "collect sent_data (snd (t_step s e)) = [(seqno (Suc i), as_connected c (seqno (Suc i)))]"
    unfolding ack_step(2) [OF Cons.prems(1) a]
    using Cons.prems(2) q observe_SendData(3) [OF c(1) seqno_high]
    by (simp add: SendCheck_def Let_def)
  have "t_mode_of (fst (run_events t_step s' es')) = IDLE \<and> t_in (fst (run_events t_step s' es')) = [] \<and>
    collect sent_data (snd (run_events t_step s' es')) = numbering (Suc (Suc i)) (t_in s')"
    using s' c as by (intro Cons.hyps(1)) auto
  then show ?case
    unfolding es run_events_Cons s'_def [symmetric] using out s' q by simp
qed

lemma submit_waiting:
  assumes "t_mode_of s = ACK_WAIT"
  shows "run_events t_step s (map FromApp cs) = (s\<lparr>t_in := t_in s @ cs\<rparr>, [])"
  using assms
  by (induction cs arbitrary: s) (simp_all add: T_Connection_recv_Data_def SendCheck_def)

lemma submit_and_drain:
  assumes "t_mode_of s = IDLE" and "t_in s = []" and "t_sendno s = seqno i" and "[] \<notin> set cs"
    and "map ack_of acks = map (Some \<circ> seqno) [i..<i + length cs]"
  shows "t_mode_of (fst (run_events t_step s (map FromApp cs @ acks))) = IDLE \<and>
    t_in (fst (run_events t_step s (map FromApp cs @ acks))) = [] \<and>
    collect sent_data (snd (run_events t_step s (map FromApp cs @ acks))) = numbering i cs"
proof (cases cs)
  case Nil
  then show ?thesis using assms by simp
next
  case (Cons c cs')
  define s1 where "s1 = fst (T_Connection_recv_Data s c)"
  have s1: "t_mode_of s1 = ACK_WAIT" "t_in s1 = []" "t_sendno s1 = seqno i"
    using assms by (simp_all add: s1_def T_Connection_recv_Data_def SendCheck_def Let_def)
  have o1: "collect sent_data (snd (t_step s (FromApp c))) = [(seqno i, as_connected c (seqno i))]"
    using assms Cons observe_SendData(3) [OF _ seqno_high, of c] not_sym [of "[]" c]
    by (simp add: T_Connection_recv_Data_def SendCheck_def Let_def)
  define s2 where "s2 = s1\<lparr>t_in := cs'\<rparr>"
  have r: "run_events t_step s (map FromApp cs @ acks) =
      (fst (run_events t_step s2 acks), snd (t_step s (FromApp c)) @ snd (run_events t_step s2 acks))"
    using submit_waiting [OF s1(1), of cs'] s1(2)
    by (simp add: Cons run_events_append case_prod_beta Let_def s1_def [symmetric] s2_def)
  have d: "t_mode_of (fst (run_events t_step s2 acks)) = IDLE \<and> t_in (fst (run_events t_step s2 acks)) = [] \<and>
    collect sent_data (snd (run_events t_step s2 acks)) = numbering (Suc i) (t_in s2)"
    using assms(4,5) s1 Cons by (intro drain) (auto simp: s2_def)
  show ?thesis
    unfolding r using d o1 by (simp add: Cons s2_def)
qed

lemma deliver_numbering: "deliver (seqno i) (numbering i cs) = map unmark cs"
proof (induction cs arbitrary: i)
  case (Cons c cs)
  have "(x AND 3 OR 0x40 OR push_bit 2 (k AND 0x0f)) AND 0x03 = x AND (3 :: byte)" for x k
    by (simp add: byte_bits)
  then have "unmark (as_connected c (seqno i)) = unmark c"
    by (cases c) (simp_all add: unmark_def as_connected_def)
  with Cons show ?case by simp
qed simp

text \<open>The telegrams a connection hands to the link.\<close>

fun l3_frames :: "carray l4_out \<Rightarrow> l_data_pdu list" where
  "l3_frames (ToL3 l) = [l]"
| "l3_frames _ = []"

lemma frames_numbered: "collect numbered_in (map FromL3 (collect l3_frames outs)) = collect sent_data outs"
proof (induction outs)
  case (Cons x xs)
  then show ?case by (cases x) simp_all
qed simp

section \<open>Properties\<close>



text \<open>
  Exactly-once, in-order delivery.  When the numbered telegrams that reach a connection, amid any
  other events, are those of a sender that repeats a telegram any number of times before it sends the
  next, the application gets every payload once and in order, and every copy is acknowledged with its
  number.
\<close>

theorem tconn_exactly_once:
  assumes "t_recvno s = seqno i" and "collect numbered_in es = stream i ps"
  shows "collect delivered (snd (run_events t_step s es)) = map (unmark \<circ> fst) ps \<and>
    collect acked (snd (run_events t_step s es)) = map fst (stream i ps)"
  using assms by (simp add: run_delivers run_acks deliver_stream ack_stream)

theorem tconn_exactly_once_witness:
  "collect delivered (snd (run_events t_step (T_Connection_new 0 0x1101)
     [FromL3 (L_Data_new\<lparr>l_data := [0x42, 0x80]\<rparr>), Timeout, FromL3 (L_Data_new\<lparr>l_data := [0x42, 0x80]\<rparr>),
      FromL3 (L_Data_new\<lparr>l_data := [0x47, 0x00]\<rparr>)])) = [[0x02, 0x80], [0x03, 0x00]]"
proof -
  let ?es = "[FromL3 (L_Data_new\<lparr>l_data := [0x42, 0x80]\<rparr>), Timeout,
    FromL3 (L_Data_new\<lparr>l_data := [0x42, 0x80]\<rparr>), FromL3 (L_Data_new\<lparr>l_data := [0x47, 0x00]\<rparr>)]"
  have "TPDU_fromPacket [0x42, 0x80] = T_DATA_CONNECTED_REQ_PDU 0 [0x42, 0x80]"
    "TPDU_fromPacket [0x47, 0x00] = T_DATA_CONNECTED_REQ_PDU 1 [0x47, 0x00]"
    by (simp_all add: tpdu_parse_defs)
  then have n: "collect numbered_in ?es = stream 0 [([0x42, 0x80], 1), ([0x47, 0x00], 0)]"
    by (simp add: numbered_def tpdu_of_def L_Data_new_def seqno_def)
  show ?thesis
    using tconn_exactly_once [OF _ n, of "T_Connection_new 0 0x1101"]
    by (simp add: T_Connection_new_def seqno_def unmark_def)
qed

text \<open>
  While no acknowledgement arrives, whatever else happens, a connection sends at most four data
  frames, the telegram and three repetitions, and none at all when it is closed.
\<close>

theorem tconn_retransmission_bound:
  assumes "list_all (\<lambda>e. ack_of e = None) es"
  shows "length (collect sent_data (snd (run_events t_step s es))) \<le> (if t_mode_of s = CLOSED then 0 else 4)"
  using run_budget [OF assms, of s] by (auto simp: budget_def split: if_splits)

theorem tconn_retransmission_bound_witness:
  "length (collect sent_data (snd (run_events t_step (fst (SendConnect (T_Connection_new 0 0x1101)))
     [FromApp [0x00, 0x80], Timeout, Timeout, Timeout, Timeout]))) \<le> 4"
  using tconn_retransmission_bound [of "[FromApp [0x00, 0x80], Timeout, Timeout, Timeout, Timeout]"
      "fst (SendConnect (T_Connection_new 0 0x1101))"]
  by (simp add: SendConnect_def)

text \<open>
  The invariant of a connection (four-bit sequence numbers, a timer that runs exactly while an
  acknowledgement is awaited, at most three repetitions) is kept by every event, and no assertion ever
  fails as long as the application submits no empty message.
\<close>

theorem tconn_safe:
  assumes "t_inv s" and "list_all not_empty es"
  shows "t_inv (fst (run_events t_step s es)) \<and> Abort \<notin> set (snd (run_events t_step s es))"
  using tconn.run_inv [OF assms] tconn.run_out [OF assms] by blast

theorem tconn_safe_witness:
  "t_inv (fst (run_events t_step (T_Connection_new 7 0x1101) [FromApp [0x00], Timeout])) \<and>
   Abort \<notin> set (snd (run_events t_step (T_Connection_new 7 0x1101) [FromApp [0x00], Timeout]))"
  by (rule tconn_safe) (simp_all add: t_inv_def T_Connection_new_def)

text \<open>
  As constructed, a connection never opens and never sends data: nothing in the code calls
  \<open>SendConnect\<close>, and without it every sequence of events leaves the connection closed and makes it send
  only acknowledgements and disconnects, so that what the application submits is queued for ever.
\<close>

theorem tconn_never_transmits:
  "t_mode_of (fst (run_events t_step (T_Connection_new garbage d) es)) = CLOSED \<and>
     list_all quiet (snd (run_events t_step (T_Connection_new garbage d) es))"
  using closed.run_inv [of "T_Connection_new garbage d" es] closed.run_out [of "T_Connection_new garbage d" es]
  by (auto simp: T_Connection_new_def list_all_iff)

text \<open>
  What an application sends to a group reaches, through the layer 3 telegram, every other group
  endpoint: a non-empty message becomes one telegram to that group address, and an endpoint that gets
  the telegram hands its application the message (with the six transport bits cleared), the sender and
  the group.
\<close>

theorem group_message_delivery:
  assumes "ga_data c \<noteq> []"
  shows "\<exists>l. GroupSocket_recv_Data c = [ToL3 l] \<and> l_dest l = ga_dst c \<and> l_AddrType l = GroupAddress \<and>
    GroupSocket_send_L_Data (l\<lparr>l_source := src\<rparr>) =
      [ToApp \<lparr>ga_data = unmark (ga_data c), ga_src = src, ga_dst = ga_dst c\<rparr>, SendNext] \<and>
    T_Group_send_L_Data (l\<lparr>l_source := src\<rparr>) = [ToApp \<lparr>gc_data = unmark (ga_data c), gc_src = src\<rparr>, SendNext]"
proof -
  obtain p where p: "TPDU_ToPacket (T_DATA_XXX_REQ_PDU (ga_data c)) = Some p"
    using assms by (auto simp: tpdu_ToPacket_defs)
  show ?thesis
    unfolding GroupSocket_recv_Data_def emit_Some [OF p]
    using data_xxx_decoded [OF p]
    by (simp add: GroupSocket_send_L_Data_def T_Group_send_L_Data_def L_Data_new_def unmark_def)
qed

theorem group_message_delivery_witness:
  "\<exists>l. GroupSocket_recv_Data \<lparr>ga_data = [0x00, 0x81], ga_src = 0, ga_dst = 0x0a03\<rparr> = [ToL3 l] \<and>
    T_Group_send_L_Data (l\<lparr>l_source := 0x1101\<rparr>) = [ToApp \<lparr>gc_data = [0x00, 0x81], gc_src = 0x1101\<rparr>, SendNext]"
  using group_message_delivery [of "\<lparr>ga_data = [0x00, 0x81], ga_src = 0, ga_dst = 0x0a03\<rparr>" "0x1101"]
  by (auto simp: unmark_def)

end
