(* ===== verification/Groupcache.thy ===== *)
theory Groupcache
  imports Apdu Tpdu Lpdu
begin

text \<open>
  The group cache of \<^verbatim>\<open>src/src/libserver/groupcache.cpp\<close> and its client requests of
  \<^verbatim>\<open>groupcacheclient.cpp\<close>: the last value of each group address, an index by sequence number that
  orders the entries by their last update, and the readers that wait for an update.
\<close>

unbundle bit_operations_syntax

section \<open>State\<close>

text \<open>The constructor of an entry leaves \<open>recvtime\<close> and \<open>seq\<close> unset; nothing reads them before they are.\<close>

record GroupCacheEntry =
  e_data :: carray
  e_src :: eibaddr
  e_dst :: eibaddr
  e_recvtime :: nat
  e_seq :: u32

definition GroupCacheEntry_new :: "eibaddr \<Rightarrow> GroupCacheEntry" where
  "GroupCacheEntry_new d = \<lparr>e_data = [], e_src = 0, e_dst = d, e_recvtime = 0, e_seq = 0\<rparr>"

text \<open>
  \<open>SeqMap\<close>, a \<open>std::map\<close> by sequence number: the pairs in ascending order of their keys.
  \<open>emplace\<close> does nothing when the key is there already.
\<close>

type_synonym seqmap = "(u32 \<times> eibaddr) list"

definition seq_erase :: "u32 \<Rightarrow> seqmap \<Rightarrow> seqmap" where
  "seq_erase k = filter (\<lambda>x. fst x \<noteq> k)"

fun seq_emplace :: "u32 \<Rightarrow> eibaddr \<Rightarrow> seqmap \<Rightarrow> seqmap" where
  "seq_emplace k a [] = [(k, a)]"
| "seq_emplace k a (x # xs) =
     (if k < fst x then (k, a) # x # xs
      else if k = fst x then x # xs
      else x # seq_emplace k a xs)"

text \<open>
  A \<open>GCReader\<close> waits for one group address, a \<open>GCTracker\<close> for any update since a sequence number; the
  flag says which of the two update callbacks it was given.  \<open>r_stopped\<close> is \<open>GroupCacheReader::stopped\<close>.
  A tracker declares a second member of that name, which hides the first, and never sets it.
\<close>

datatype gc_kind = GCReader eibaddr | GCTracker u32 bool "eibaddr list"

record gc_reader =
  r_client :: nat
  r_kind :: gc_kind
  r_stopped :: bool
  r_timer :: bool

record GroupCache =
  gc_cache :: "eibaddr \<Rightarrow> GroupCacheEntry option"
  gc_cache_seq :: seqmap
  gc_seq :: u32
  gc_maxsize :: nat
  gc_enable :: bool
  gc_readers :: "gc_reader list"

datatype gc_out =
    ToClient nat carray
  | GC_ToL3 l_data_pdu
  | GC_SendNext
  | GC_RemTrigger
  | GC_Undefined

definition GroupCache_new :: "nat \<Rightarrow> GroupCache" where
  "GroupCache_new maxsize =
     \<lparr>gc_cache = Map.empty, gc_cache_seq = [], gc_seq = 0, gc_maxsize = maxsize, gc_enable = False,
      gc_readers = []\<rparr>"

section \<open>Replies\<close>

definition ReadCallback :: "GroupCacheEntry \<Rightarrow> bool \<Rightarrow> carray" where
  "ReadCallback gce nowait =
     (let ty = (if nowait then 0x0075 else 0x0074)
      in [hi8 ty, lo8 ty, hi8 (e_src gce), lo8 (e_src gce), hi8 (e_dst gce), lo8 (e_dst gce)] @ e_data gce)"

definition LastUpdatesCallback :: "eibaddr list \<Rightarrow> u32 \<Rightarrow> carray" where
  "LastUpdatesCallback addrs end_seq =
     [hi8 0x0076, lo8 0x0076, byte_at 8 end_seq, byte_at 0 end_seq] @
     concat (map (\<lambda>a. [hi8 a, lo8 a]) addrs)"

definition LastUpdates2Callback :: "eibaddr list \<Rightarrow> u32 \<Rightarrow> carray" where
  "LastUpdates2Callback addrs end_seq =
     [hi8 0x0077, lo8 0x0077, byte_at 24 end_seq, byte_at 16 end_seq, byte_at 8 end_seq, byte_at 0 end_seq] @
     concat (map (\<lambda>a. [hi8 a, lo8 a]) addrs)"

section \<open>Readers\<close>

text \<open>\<open>GroupCacheReader::stop\<close>; a tracker stops its timer first.\<close>

definition GroupCacheReader_stop :: "gc_reader \<Rightarrow> gc_reader \<times> gc_out list" where
  "GroupCacheReader_stop r =
     (if r_stopped r then (r, []) else (r\<lparr>r_stopped := True\<rparr>, [GC_RemTrigger]))"

definition GCTracker_stop :: "gc_reader \<Rightarrow> gc_reader \<times> gc_out list" where
  "GCTracker_stop r = GroupCacheReader_stop (r\<lparr>r_timer := False\<rparr>)"

text \<open>The loop of \<open>GCTracker::handler\<close> over the index, from its end backwards.\<close>

fun handler_loop :: "u32 \<Rightarrow> seqmap \<Rightarrow> eibaddr list" where
  "handler_loop start [] = []"
| "handler_loop start ((k, a) # xs) =
     (if k \<ge> start then a # (if k = start then [] else handler_loop start xs) else [])"

definition GCTracker_handler :: "GroupCache \<Rightarrow> gc_reader \<Rightarrow> u32 \<Rightarrow> bool \<Rightarrow> eibaddr list \<Rightarrow> gc_reader \<times> gc_out list" where
  "GCTracker_handler g r start v2 a =
     (let a' = a @ handler_loop start (rev (gc_cache_seq g));
          msg = (if v2 then LastUpdates2Callback a' (gc_seq g) else LastUpdatesCallback a' (gc_seq g));
          (r', out) = GCTracker_stop (r\<lparr>r_kind := GCTracker start v2 a'\<rparr>)
      in (r', ToClient (r_client r) msg # out))"

definition reader_updated :: "GroupCache \<Rightarrow> GroupCacheEntry \<Rightarrow> gc_reader \<Rightarrow> gc_reader \<times> gc_out list" where
  "reader_updated g c r =
     (case r_kind r of
        GCReader addr \<Rightarrow>
          (if r_stopped r then (r, [])
           else if e_dst c \<noteq> addr then (r, [])
           else let (r', out) = GroupCacheReader_stop r
                in (r', ToClient (r_client r) (ReadCallback c False) # out))
      | GCTracker start v2 a \<Rightarrow> GCTracker_handler g r start v2 a)"

definition reader_timeout :: "GroupCache \<Rightarrow> gc_reader \<Rightarrow> gc_reader \<times> gc_out list" where
  "reader_timeout g r =
     (case r_kind r of
        GCReader addr \<Rightarrow>
          (if r_stopped r then (r, [])
           else let (r', out) = GroupCacheReader_stop r
                in (r', ToClient (r_client r) (ReadCallback (GroupCacheEntry_new addr) False) # out))
      | GCTracker start v2 a \<Rightarrow> GCTracker_handler g r start v2 a)"

text \<open>\<open>GroupCache::updated\<close> runs the readers from the last to the first.\<close>

fun update_readers :: "GroupCache \<Rightarrow> GroupCacheEntry \<Rightarrow> gc_reader list \<Rightarrow> gc_reader list \<times> gc_out list" where
  "update_readers g c [] = ([], [])"
| "update_readers g c (r # rs) =
     (let (rs', out) = update_readers g c rs; (r', out') = reader_updated g c r
      in (r' # rs', out @ out'))"

definition remtrigger_cb :: "GroupCache \<Rightarrow> GroupCache" where
  "remtrigger_cb g = g\<lparr>gc_readers := filter (\<lambda>r. \<not> r_stopped r) (gc_readers g)\<rparr>"

text \<open>The timer of the \<open>i\<close>th reader, which fires once and only while it runs.\<close>

definition gc_timeout :: "GroupCache \<Rightarrow> nat \<Rightarrow> GroupCache \<times> gc_out list" where
  "gc_timeout g i =
     (if i < length (gc_readers g) \<and> r_timer (gc_readers g ! i)
      then let (r', out) = reader_timeout g (gc_readers g ! i)
           in (g\<lparr>gc_readers := (gc_readers g)[i := r'\<lparr>r_timer := False\<rparr>]\<rparr>, out)
      else (g, []))"

section \<open>Updates\<close>

text \<open>
  The loop \<open>while (cache_seq.size () >= maxsize)\<close>, which erases the oldest entry.  With a maximal size
  of zero it would go on to dereference \<open>begin ()\<close> of an empty map; \<open>GroupCache_send_L_Data\<close> reports
  that as \<open>GC_Undefined\<close>.
\<close>

fun evict :: "nat \<Rightarrow> (eibaddr \<Rightarrow> GroupCacheEntry option) \<Rightarrow> seqmap \<Rightarrow> (eibaddr \<Rightarrow> GroupCacheEntry option) \<times> seqmap" where
  "evict m c [] = (c, [])"
| "evict m c ((k, a) # xs) =
     (if length ((k, a) # xs) \<ge> m then evict m (c(a := None)) xs else (c, (k, a) # xs))"

text \<open>The telegrams the cache stores: group responses and group writes.\<close>

definition cacheable :: "l_data_pdu \<Rightarrow> carray option" where
  "cacheable l =
     (case TPDU_fromPacket (l_data l) of
        T_DATA_XXX_REQ_PDU d \<Rightarrow>
          (if length d \<ge> 2 \<and> d ! 0 AND 0x3 = 0 \<and> (d ! 1 AND 0xC0 = 0x40 \<or> d ! 1 AND 0xC0 = 0x80)
           then Some d else None)
      | _ \<Rightarrow> None)"

definition gc_store :: "GroupCache \<Rightarrow> nat \<Rightarrow> l_data_pdu \<Rightarrow> carray \<Rightarrow> GroupCache \<times> GroupCacheEntry" where
  "gc_store g now l d =
     (let (c, s) =
        (case gc_cache g (l_dest l) of
           None \<Rightarrow> evict (gc_maxsize g) (gc_cache g) (gc_cache_seq g)
         | Some e \<Rightarrow> (gc_cache g, seq_erase (e_seq e) (gc_cache_seq g)));
          n = gc_seq g + 1;
          e = \<lparr>e_data = d, e_src = l_source l, e_dst = l_dest l, e_recvtime = now, e_seq = n\<rparr>
      in (g\<lparr>gc_cache := c(l_dest l \<mapsto> e), gc_cache_seq := seq_emplace n (l_dest l) s, gc_seq := n\<rparr>, e))"

definition GroupCache_send_L_Data :: "GroupCache \<Rightarrow> nat \<Rightarrow> l_data_pdu \<Rightarrow> GroupCache \<times> gc_out list" where
  "GroupCache_send_L_Data g now l =
     (if gc_enable g then
        (case cacheable l of
           None \<Rightarrow> (g, [GC_SendNext])
         | Some d \<Rightarrow>
             if gc_cache g (l_dest l) = None \<and> gc_maxsize g = 0 then (g, [GC_Undefined])
             else
               let (g', e) = gc_store g now l d;
                   (rs, out) = update_readers g' e (gc_readers g')
               in (g'\<lparr>gc_readers := rs\<rparr>, out @ [GC_SendNext]))
      else (g, [GC_SendNext]))"

definition GroupCache_Start :: "GroupCache \<Rightarrow> GroupCache" where
  "GroupCache_Start g = g\<lparr>gc_enable := True\<rparr>"

definition GroupCache_Clear :: "GroupCache \<Rightarrow> GroupCache" where
  "GroupCache_Clear g = g\<lparr>gc_cache := Map.empty\<rparr>"

definition GroupCache_Stop :: "GroupCache \<Rightarrow> GroupCache" where
  "GroupCache_Stop g = (GroupCache_Clear g)\<lparr>gc_enable := False\<rparr>"

definition GroupCache_remove :: "GroupCache \<Rightarrow> eibaddr \<Rightarrow> GroupCache" where
  "GroupCache_remove g ga =
     (case gc_cache g ga of
        None \<Rightarrow> g
      | Some e \<Rightarrow> g\<lparr>gc_cache_seq := seq_erase (e_seq e) (gc_cache_seq g), gc_cache := (gc_cache g)(ga := None)\<rparr>)"

section \<open>Reading\<close>

text \<open>The read request \<open>apdu\<close> inside \<open>tpdu\<close>; both conversions succeed.\<close>

definition read_request :: "eibaddr \<Rightarrow> l_data_pdu" where
  "read_request addr =
     L_Data_new\<lparr>l_data := the (Option.bind A_GroupValue_Read_ToPacket T_DATA_XXX_REQ_ToPacket),
       l_source := 0, l_dest := addr, l_AddrType := GroupAddress\<rparr>"

definition GroupCache_Read ::
  "GroupCache \<Rightarrow> nat \<Rightarrow> eibaddr \<Rightarrow> nat \<Rightarrow> u16 \<Rightarrow> nat \<Rightarrow> GroupCache \<times> gc_out list" where
  "GroupCache_Read g now addr tmo age cc =
     (if \<not> gc_enable g then (g, [ToClient cc (ReadCallback (GroupCacheEntry_new 0) (tmo = 0))])
      else
        let c = (case gc_cache g addr of
                   None \<Rightarrow> None
                 | Some e \<Rightarrow> if age \<noteq> 0 \<and> e_recvtime e + unat age < now then None else Some e)
        in case c of
             Some e \<Rightarrow> (g, [ToClient cc (ReadCallback e (tmo = 0))])
           | None \<Rightarrow>
               if tmo = 0 then (g, [ToClient cc (ReadCallback (GroupCacheEntry_new addr) True)])
               else (g\<lparr>gc_readers := gc_readers g @
                        [\<lparr>r_client = cc, r_kind = GCReader addr, r_stopped = False, r_timer = True\<rparr>]\<rparr>,
                     [GC_ToL3 (read_request addr)]))"

definition GroupCache_LastUpdates2 :: "GroupCache \<Rightarrow> u32 \<Rightarrow> nat \<Rightarrow> GroupCache" where
  "GroupCache_LastUpdates2 g start cc =
     g\<lparr>gc_readers := gc_readers g @
        [\<lparr>r_client = cc, r_kind = GCTracker start True [], r_stopped = False, r_timer = True\<rparr>]\<rparr>"

definition GroupCache_LastUpdates :: "GroupCache \<Rightarrow> u16 \<Rightarrow> nat \<Rightarrow> GroupCache" where
  "GroupCache_LastUpdates g start cc =
     (let st = (gc_seq g AND NOT 0xFFFF) + ucast start
      in if st > gc_seq g then g
         else g\<lparr>gc_readers := gc_readers g @
                [\<lparr>r_client = cc, r_kind = GCTracker st False [], r_stopped = False, r_timer = True\<rparr>]\<rparr>)"

section \<open>Client requests\<close>

definition sendreject :: "nat \<Rightarrow> u16 \<Rightarrow> gc_out" where
  "sendreject cc ty = ToClient cc [hi8 ty, lo8 ty]"

text \<open>\<open>GroupCacheRequest\<close>, for a client of a router that has a cache.\<close>

definition GroupCacheRequest :: "GroupCache \<Rightarrow> nat \<Rightarrow> nat \<Rightarrow> carray \<Rightarrow> GroupCache \<times> gc_out list" where
  "GroupCacheRequest g now cc buf =
     (let ty = be16 (buf ! 0) (buf ! 1); len = length buf; bad = (g, [sendreject cc 0x0000])
      in if ty = 0x0070 then (GroupCache_Start g, [sendreject cc 0x0070])
         else if ty = 0x0071 then (GroupCache_Stop g, [sendreject cc 0x0071])
         else if ty = 0x0072 then (GroupCache_Clear g, [sendreject cc 0x0072])
         else if ty = 0x0073 then
           (if len < 4 then bad
            else (GroupCache_remove g (be16 (buf ! 2) (buf ! 3)), [sendreject cc 0x0073]))
         else if ty = 0x0074 \<or> ty = 0x0075 then
           (if len < 4 then bad
            else if ty = 0x0074 \<and> len < 6 then bad
            else GroupCache_Read g now (be16 (buf ! 2) (buf ! 3)) (if ty = 0x0075 then 0 else 1)
                   (if ty = 0x0074 then be16 (buf ! 4) (buf ! 5) else 0) cc)
         else if ty = 0x0076 then
           (if len < 5 then bad
            else (GroupCache_LastUpdates g (be16 (buf ! 2) (buf ! 3)) cc, []))
         else if ty = 0x0077 then
           (if len < 7 then bad
            else (GroupCache_LastUpdates2 g (be32 (buf ! 2) (buf ! 3) (buf ! 4) (buf ! 5)) cc, []))
         else bad)"

end
