(* ===== verification/Groupcache_Props.thy ===== *)
theory Groupcache_Props
  imports Groupcache
begin

text \<open>
  Properties of \<open>Groupcache\<close>: the cache refines a bounded list of values in the order of their last update,
  readers are answered at most once, and where clearing, trackers and \<open>LastUpdates\<close> depart from that.
\<close>

unbundle bit_operations_syntax

section \<open>Specification\<close>

text \<open>
  The values of the most recently updated addresses, oldest first.  An update moves the address to the
  end; a new address makes room by dropping the oldest.
\<close>

type_synonym gc_value = "carray \<times> eibaddr \<times> nat"

definition lru_put :: "nat \<Rightarrow> eibaddr \<Rightarrow> gc_value \<Rightarrow> (eibaddr \<times> gc_value) list \<Rightarrow> (eibaddr \<times> gc_value) list" where
  "lru_put m a v xs =
     (if a \<in> fst ` set xs then filter (\<lambda>x. fst x \<noteq> a) xs else drop (Suc (length xs) - m) xs) @ [(a, v)]"

definition entry_value :: "GroupCacheEntry \<Rightarrow> gc_value" where
  "entry_value e = (e_data e, e_src e, e_recvtime e)"

definition gc_abs :: "GroupCache \<Rightarrow> (eibaddr \<times> gc_value) list" where
  "gc_abs g = map (\<lambda>(k, a). (a, entry_value (the (gc_cache g a)))) (gc_cache_seq g)"

section \<open>Invariant\<close>

definition index_inv :: "(eibaddr \<Rightarrow> GroupCacheEntry option) \<Rightarrow> seqmap \<Rightarrow> bool" where
  "index_inv c s \<longleftrightarrow> sorted_wrt (<) (map fst s) \<and>
     (\<forall>k a. (k, a) \<in> set s \<longrightarrow> (\<exists>e. c a = Some e \<and> e_seq e = k)) \<and>
     (\<forall>a e. c a = Some e \<longrightarrow> (e_seq e, a) \<in> set s \<and> e_dst e = a)"

definition gc_inv :: "GroupCache \<Rightarrow> bool" where
  "gc_inv g \<longleftrightarrow> index_inv (gc_cache g) (gc_cache_seq g) \<and>
     (\<forall>k a. (k, a) \<in> set (gc_cache_seq g) \<longrightarrow> k \<le> gc_seq g) \<and>
     length (gc_cache_seq g) \<le> gc_maxsize g \<and> 0 < gc_maxsize g"

lemma index_distinct:
  assumes "index_inv c s"
  shows "distinct (map snd s)"
proof -
  have "sorted_wrt (<) (map fst s)" using assms by (simp add: index_inv_def)
  then have d: "distinct (map fst s)" by (simp add: strict_sorted_iff)
  then have s: "distinct s" by (simp add: distinct_map)
  have "inj_on snd (set s)"
  proof (rule inj_onI)
    fix x y assume "x \<in> set s" "y \<in> set s" "snd x = snd y"
    moreover obtain k a l b where "x = (k, a)" "y = (l, b)" by (cases x, cases y)
    ultimately show "x = y" using assms unfolding index_inv_def by (metis option.inject snd_conv)
  qed
  with s show ?thesis by (simp add: distinct_map)
qed

lemma index_lookup:
  assumes "index_inv c s"
  shows "map_of (map (\<lambda>(k, a). (a, entry_value (the (c a)))) s) b = map_option entry_value (c b)"
proof (cases "c b")
  case None
  then have "b \<notin> snd ` set s"
    using assms by (fastforce simp: index_inv_def)
  then show ?thesis
    using None by (auto simp: map_of_eq_None_iff image_iff)
next
  case (Some e)
  then have "(e_seq e, b) \<in> set s" using assms by (simp add: index_inv_def)
  then have "(b, entry_value e) \<in> set (map (\<lambda>(k, a). (a, entry_value (the (c a)))) s)"
    using Some by force
  moreover have "distinct (map fst (map (\<lambda>(k, a). (a, entry_value (the (c a)))) s))"
    using index_distinct [OF assms] by (simp add: comp_def case_prod_beta)
  ultimately show ?thesis
    using Some by (simp add: map_of_is_SomeI)
qed

section \<open>Eviction and insertion\<close>

lemma word_Suc_unat: "x \<noteq> - 1 \<Longrightarrow> unat (x + 1) = Suc (unat (x :: u32))"
  using unatSuc [of x] by (simp add: eq_neg_iff_add_eq_0 add.commute)

lemma word_less_Suc: "x \<noteq> - 1 \<Longrightarrow> x < x + (1 :: u32)"
  by (simp add: word_less_nat_alt word_Suc_unat)

lemma seq_emplace_end: "(\<And>x. x \<in> set s \<Longrightarrow> fst x < n) \<Longrightarrow> seq_emplace n a s = s @ [(n, a)]"
  by (induction s) fastforce+

lemma evict_seq: "0 < m \<Longrightarrow> snd (evict m c s) = drop (Suc (length s) - m) s"
proof (induction s arbitrary: c)
  case (Cons x xs)
  then show ?case by (cases x) (auto simp: Suc_diff_le)
qed simp

lemma evict_cache:
  "0 < m \<Longrightarrow> fst (evict m c s) b =
     (if b \<in> snd ` set (take (Suc (length s) - m) s) then None else c b)"
proof (induction s arbitrary: c)
  case (Cons x xs)
  then show ?case by (cases x) (auto simp: Suc_diff_le)
qed simp

lemma evict_index:
  assumes "index_inv c s" and "0 < m"
  shows "index_inv (fst (evict m c s)) (snd (evict m c s))"
proof -
  let ?n = "Suc (length s) - m"
  have d: "distinct (map snd (take ?n s @ drop ?n s))"
    using index_distinct [OF assms(1)] by simp
  then have disj: "snd ` set (take ?n s) \<inter> snd ` set (drop ?n s) = {}"
    by (simp del: append_take_drop_id)
  have so: "sorted_wrt (<) (map fst (drop ?n s))"
    using assms(1) by (simp add: index_inv_def drop_map [symmetric] sorted_wrt_drop)
  have sp: "set s = set (take ?n s) \<union> set (drop ?n s)"
    by (metis append_take_drop_id set_append)
  show ?thesis
    unfolding index_inv_def evict_seq [OF assms(2)]
  proof (intro conjI allI impI)
    fix k a assume ka: "(k, a) \<in> set (drop ?n s)"
    then have "(k, a) \<in> set s" using sp by blast
    moreover have "a \<notin> snd ` set (take ?n s)" using disj ka by force
    ultimately show "\<exists>e. fst (evict m c s) a = Some e \<and> e_seq e = k"
      using assms by (simp add: evict_cache index_inv_def)
  next
    fix a e assume e: "fst (evict m c s) a = Some e"
    then have a: "a \<notin> snd ` set (take ?n s)" "c a = Some e"
      using assms(2) by (auto simp: evict_cache split: if_splits)
    then have "(e_seq e, a) \<in> set s" "e_dst e = a" using assms(1) by (auto simp: index_inv_def)
    then show "(e_seq e, a) \<in> set (drop ?n s)" "e_dst e = a" using a sp by force+
  qed (rule so)
qed

lemma erase_index:
  assumes "index_inv c s" and "c a = Some e"
  shows "index_inv (c(a := None)) (seq_erase (e_seq e) s)"
    and "seq_erase (e_seq e) s = filter (\<lambda>x. snd x \<noteq> a) s"
proof -
  have k: "fst x = e_seq e \<longleftrightarrow> snd x = a" if "x \<in> set s" for x
  proof -
    obtain k b where x: "x = (k, b)" by (cases x)
    have d: "distinct (map fst s)" using assms(1) by (simp add: index_inv_def strict_sorted_iff)
    have "(e_seq e, a) \<in> set s" using assms by (simp add: index_inv_def)
    with d that x show ?thesis
      using assms by (force simp: index_inv_def dest: eq_key_imp_eq_value)
  qed
  then show "seq_erase (e_seq e) s = filter (\<lambda>x. snd x \<noteq> a) s"
    unfolding seq_erase_def by (intro filter_cong) auto
  have "sorted_wrt (<) (map fst (seq_erase (e_seq e) s))"
    using assms(1) by (simp add: index_inv_def seq_erase_def sorted_wrt_map sorted_wrt_filter)
  then show "index_inv (c(a := None)) (seq_erase (e_seq e) s)"
    using assms(1) k by (fastforce simp: index_inv_def seq_erase_def)
qed

lemma insert_index:
  assumes "index_inv c s" and "c a = None" and "\<And>k b. (k, b) \<in> set s \<Longrightarrow> k < e_seq e" and "e_dst e = a"
  shows "index_inv (c(a \<mapsto> e)) (s @ [(e_seq e, a)])"
proof -
  have "a \<notin> snd ` set s" using assms(1,2) by (fastforce simp: index_inv_def)
  then show ?thesis
    using assms by (auto simp: index_inv_def sorted_wrt_append) (metis image_eqI snd_conv)+
qed

section \<open>Storing a telegram\<close>

text \<open>What the two branches of \<open>gc_store\<close> leave behind before the new entry is added.\<close>

lemma make_room:
  assumes "gc_inv g" and "(c, s) = (case gc_cache g a of
      None \<Rightarrow> evict (gc_maxsize g) (gc_cache g) (gc_cache_seq g)
    | Some e \<Rightarrow> (gc_cache g, seq_erase (e_seq e) (gc_cache_seq g)))"
  shows "index_inv (c(a := None)) s" "\<And>x. x \<in> set s \<Longrightarrow> fst x \<le> gc_seq g" "length s < gc_maxsize g"
    and "map (\<lambda>(k, b). (b, entry_value (the (c b)))) s @ [(a, v)] = lru_put (gc_maxsize g) a v (gc_abs g)"
proof -
  let ?C = "gc_cache g" and ?S = "gc_cache_seq g" and ?m = "gc_maxsize g"
  have i: "index_inv ?C ?S" and le: "\<And>x. x \<in> set ?S \<Longrightarrow> fst x \<le> gc_seq g" and m: "0 < ?m" "length ?S \<le> ?m"
    using assms(1) by (auto simp: gc_inv_def)
  have mem: "a \<in> fst ` set (gc_abs g) \<longleftrightarrow> ?C a \<noteq> None"
    using index_lookup [OF i, of a] unfolding gc_abs_def [symmetric] by (metis map_of_eq_None_iff option.map_disc_iff)
  have "index_inv (c(a := None)) s \<and> (\<forall>x \<in> set s. fst x \<le> gc_seq g) \<and> length s < ?m \<and>
    map (\<lambda>(k, b). (b, entry_value (the (c b)))) s @ [(a, v)] = lru_put ?m a v (gc_abs g)"
  proof (cases "?C a")
    case None
    then have cs: "c = fst (evict ?m ?C ?S)" "s = drop (Suc (length ?S) - ?m) ?S"
      using assms(2) evict_seq [OF m(1), of ?C ?S] by (auto simp: prod_eq_iff)
    have ci: "index_inv c s" using evict_index [OF i m(1)] evict_seq [OF m(1)] by (simp add: cs)
    have ca: "c a = None" using None by (simp add: cs evict_cache [OF m(1)])
    have "c b = ?C b" if "(k, b) \<in> set s" for k b
    proof -
      have "c b \<noteq> None" using ci that unfolding index_inv_def by blast
      then show ?thesis by (simp add: cs evict_cache [OF m(1)] split: if_splits)
    qed
    then have "map (\<lambda>(k, b). (b, entry_value (the (c b)))) s = map (\<lambda>(k, b). (b, entry_value (the (?C b)))) s"
      by (intro map_cong) auto
    then show ?thesis
      using ci ca m None mem le
      by (auto simp: cs lru_put_def gc_abs_def drop_map fun_upd_idem dest: in_set_dropD)
  next
    case (Some e)
    then have cs: "c = ?C" "s = seq_erase (e_seq e) ?S" using assms(2) by simp_all
    have f: "s = filter (\<lambda>x. snd x \<noteq> a) ?S" using erase_index(2) [OF i Some] cs(2) by simp
    have "(e_seq e, a) \<in> set ?S" using i Some by (simp add: index_inv_def)
    then have "length s < length ?S" unfolding f by (intro length_filter_less) auto
    moreover have "index_inv (c(a := None)) s" using erase_index(1) [OF i Some] cs by simp
    moreover have "map (\<lambda>(k, b). (b, entry_value (the (c b)))) s = filter (\<lambda>x. fst x \<noteq> a) (gc_abs g)"
      by (simp add: f cs(1) gc_abs_def filter_map comp_def case_prod_beta)
    ultimately show ?thesis
      using m le mem Some by (auto simp: lru_put_def f)
  qed
  then show "index_inv (c(a := None)) s" "\<And>x. x \<in> set s \<Longrightarrow> fst x \<le> gc_seq g" "length s < ?m"
    "map (\<lambda>(k, b). (b, entry_value (the (c b)))) s @ [(a, v)] = lru_put ?m a v (gc_abs g)"
    by auto
qed

lemma store_refines:
  assumes "gc_inv g" and "gc_seq g \<noteq> - 1"
  shows "gc_inv (fst (gc_store g now l d))"
    and "gc_abs (fst (gc_store g now l d)) = lru_put (gc_maxsize g) (l_dest l) (d, l_source l, now) (gc_abs g)"
proof -
  let ?a = "l_dest l" and ?n = "gc_seq g + 1"
  obtain c s where cs: "(c, s) = (case gc_cache g ?a of
      None \<Rightarrow> evict (gc_maxsize g) (gc_cache g) (gc_cache_seq g)
    | Some e \<Rightarrow> (gc_cache g, seq_erase (e_seq e) (gc_cache_seq g)))"
    by (metis surj_pair)
  define e where "e = \<lparr>e_data = d, e_src = l_source l, e_dst = ?a, e_recvtime = now, e_seq = ?n\<rparr>"
  note r = make_room [OF assms(1) cs]
  have less: "gc_seq g < ?n" using assms(2) by (rule word_less_Suc)
  have lt: "fst x < ?n" if "x \<in> set s" for x using r(2) [OF that] less by (rule order.strict_trans1)
  have emp: "seq_emplace ?n ?a s = s @ [(?n, ?a)]" using lt by (rule seq_emplace_end)
  have st: "fst (gc_store g now l d) = g\<lparr>gc_cache := c(?a \<mapsto> e), gc_cache_seq := s @ [(?n, ?a)], gc_seq := ?n\<rparr>"
    unfolding gc_store_def cs [symmetric] by (simp add: emp e_def Let_def)
  have i: "index_inv (c(?a \<mapsto> e)) (s @ [(?n, ?a)])"
    using insert_index [OF r(1), of ?a e] lt by (simp add: e_def) force
  show "gc_inv (fst (gc_store g now l d))"
    unfolding gc_inv_def st using i lt r(3) assms(1) by (fastforce simp: gc_inv_def)
  have "b \<noteq> ?a" if "(k, b) \<in> set s" for k b
    using r(1) that unfolding index_inv_def by (metis fun_upd_same option.distinct(1))
  then have "map (\<lambda>(k, b). (b, entry_value (the ((c(?a \<mapsto> e)) b)))) s = map (\<lambda>(k, b). (b, entry_value (the (c b)))) s"
    by (intro map_cong) auto
  then show "gc_abs (fst (gc_store g now l d)) = lru_put (gc_maxsize g) ?a (d, l_source l, now) (gc_abs g)"
    unfolding r(4) [symmetric] st by (simp add: gc_abs_def e_def entry_value_def)
qed

section \<open>Runs\<close>

text \<open>A telegram with the time it arrives at, a client request, a timer, the removal of stopped readers.\<close>

datatype gc_event = Telegram nat l_data_pdu | Request nat nat carray | Reader_timeout nat | Remtrigger

fun gc_step :: "GroupCache \<Rightarrow> gc_event \<Rightarrow> GroupCache \<times> gc_out list" where
  "gc_step g (Telegram now l) = GroupCache_send_L_Data g now l"
| "gc_step g (Request now cc buf) = GroupCacheRequest g now cc buf"
| "gc_step g (Reader_timeout i) = gc_timeout g i"
| "gc_step g Remtrigger = (remtrigger_cb g, [])"

text \<open>The requests that neither clear, disable nor remove.\<close>

fun keeps_cache :: "gc_event \<Rightarrow> bool" where
  "keeps_cache (Request now cc buf) = (be16 (buf ! 0) (buf ! 1) \<notin> {0x0071, 0x0072, 0x0073})"
| "keeps_cache _ = True"

text \<open>The specification of an event: what it puts into the list of values.\<close>

fun spec_step :: "nat \<Rightarrow> gc_event \<Rightarrow> (eibaddr \<times> gc_value) list \<Rightarrow> (eibaddr \<times> gc_value) list" where
  "spec_step m (Telegram now l) xs =
     (case cacheable l of None \<Rightarrow> xs | Some d \<Rightarrow> lru_put m (l_dest l) (d, l_source l, now) xs)"
| "spec_step m _ xs = xs"

lemma abs_readers [simp]: "gc_abs (g\<lparr>gc_readers := rs\<rparr>) = gc_abs g" "gc_inv (g\<lparr>gc_readers := rs\<rparr>) = gc_inv g"
  "gc_abs (g\<lparr>gc_enable := b\<rparr>) = gc_abs g" "gc_inv (g\<lparr>gc_enable := b\<rparr>) = gc_inv g"
  by (simp_all add: gc_abs_def gc_inv_def)

lemma store_fields [simp]:
  "gc_maxsize (fst (gc_store g now l d)) = gc_maxsize g" "gc_enable (fst (gc_store g now l d)) = gc_enable g"
  "gc_seq (fst (gc_store g now l d)) = gc_seq g + 1" "gc_readers (fst (gc_store g now l d)) = gc_readers g"
  by (simp_all add: gc_store_def case_prod_beta Let_def)

text \<open>What an event may change besides the cache: the readers, and the flag that enables the cache.\<close>

definition same_cache :: "GroupCache \<Rightarrow> GroupCache \<Rightarrow> bool" where
  "same_cache g g' \<longleftrightarrow> (\<exists>rs b. g' = g\<lparr>gc_readers := rs, gc_enable := b\<rparr> \<and> (gc_enable g \<longrightarrow> b))"

lemma same_cache_intros:
  "same_cache g g" "same_cache g (g\<lparr>gc_readers := rs\<rparr>)" "same_cache g (g\<lparr>gc_enable := True\<rparr>)"
proof -
  have "g = g\<lparr>gc_readers := gc_readers g, gc_enable := gc_enable g\<rparr>"
    "g\<lparr>gc_readers := rs\<rparr> = g\<lparr>gc_readers := rs, gc_enable := gc_enable g\<rparr>"
    "g\<lparr>gc_enable := True\<rparr> = g\<lparr>gc_readers := gc_readers g, gc_enable := True\<rparr>" by simp_all
  then show "same_cache g g" "same_cache g (g\<lparr>gc_readers := rs\<rparr>)" "same_cache g (g\<lparr>gc_enable := True\<rparr>)"
    unfolding same_cache_def by blast+
qed

lemma request_same_cache:
  assumes "keeps_cache (Request now cc buf)"
  shows "same_cache g (fst (GroupCacheRequest g now cc buf))"
  using assms same_cache_intros [of g]
  by (auto simp: GroupCacheRequest_def GroupCache_Start_def GroupCache_Read_def GroupCache_LastUpdates_def
      GroupCache_LastUpdates2_def Let_def split: option.split)

lemma other_same_cache:
  "same_cache g (fst (gc_timeout g i))" "same_cache g (remtrigger_cb g)"
  using same_cache_intros [of g]
  by (auto simp: gc_timeout_def remtrigger_cb_def case_prod_beta Let_def)

lemma gc_step_refines:
  assumes "gc_inv g" and "gc_enable g" and "gc_seq g \<noteq> - 1" and "keeps_cache e"
  defines "g' \<equiv> fst (gc_step g e)"
  shows "gc_inv g' \<and> gc_enable g' \<and> gc_maxsize g' = gc_maxsize g \<and>
    unat (gc_seq g') \<le> Suc (unat (gc_seq g)) \<and> gc_abs g' = spec_step (gc_maxsize g) e (gc_abs g)"
proof -
  have same: ?thesis if "same_cache g g'" "\<And>xs. spec_step (gc_maxsize g) e xs = xs"
    using that assms(1,2) by (auto simp: same_cache_def)
  show ?thesis
  proof (cases e)
    case (Telegram now l)
    show ?thesis
    proof (cases "cacheable l")
      case None
      then show ?thesis
        using assms(1,2) by (simp add: g'_def Telegram GroupCache_send_L_Data_def)
    next
      case (Some d)
      have "0 < gc_maxsize g" using assms(1) by (simp add: gc_inv_def)
      then obtain rs where g': "g' = (fst (gc_store g now l d))\<lparr>gc_readers := rs\<rparr>"
        using assms(2) Some by (auto simp: g'_def Telegram GroupCache_send_L_Data_def case_prod_beta Let_def)
      show ?thesis
        unfolding g' using store_refines [OF assms(1,3), of now l d] assms(2,3) Some
        by (simp add: Telegram word_Suc_unat)
    qed
  next
    case (Request now cc buf)
    with assms request_same_cache show ?thesis by (intro same) (auto simp: g'_def)
  next
    case (Reader_timeout i)
    with other_same_cache show ?thesis by (intro same) (auto simp: g'_def)
  next
    case Remtrigger
    with other_same_cache show ?thesis by (intro same) (auto simp: g'_def)
  qed
qed

lemma gc_run_refines:
  assumes "gc_inv g" and "gc_enable g" and "unat (gc_seq g) + length es < 2 ^ 32" and "list_all keeps_cache es"
  shows "gc_inv (fst (run_events gc_step g es)) \<and>
    gc_abs (fst (run_events gc_step g es)) = fold (spec_step (gc_maxsize g)) es (gc_abs g)"
  using assms
proof (induction es arbitrary: g)
  case (Cons e es)
  have "unat (gc_seq g) \<noteq> unat (- 1 :: u32)" using Cons.prems(3)
    by (simp add: unsigned_minus_1_eq_mask mask_eq_exp_minus_1)
  then have ne: "gc_seq g \<noteq> - 1" by metis
  have k: "keeps_cache e" "list_all keeps_cache es" using Cons.prems(4) by simp_all
  note st = gc_step_refines [OF Cons.prems(1,2) ne k(1)]
  then have "unat (gc_seq (fst (gc_step g e))) + length es < 2 ^ 32" using Cons.prems(3) by simp
  with st k(2) Cons.IH [of "fst (gc_step g e)"] show ?case
    unfolding run_events_Cons by simp
qed simp

section \<open>Survival\<close>

lemma lru_put_recent:
  assumes "xs = pre @ (a, v) # suf" and "b \<noteq> a" and "distinct (map fst suf)" and "fst ` set suf \<subseteq> insert b B"
    and "finite B" and "card (insert b B) < m"
  shows "\<exists>pre' suf'. lru_put m b w xs = pre' @ (a, v) # suf' \<and> distinct (map fst suf') \<and>
    fst ` set suf' \<subseteq> insert b B"
proof (cases "b \<in> fst ` set xs")
  case True
  then have "lru_put m b w xs =
      filter (\<lambda>x. fst x \<noteq> b) pre @ (a, v) # (filter (\<lambda>x. fst x \<noteq> b) suf @ [(b, w)])"
    using assms(1,2) by (simp add: lru_put_def)
  moreover have "distinct (map fst (filter (\<lambda>x. fst x \<noteq> b) suf @ [(b, w)]))"
    using assms(3) by (auto simp: distinct_map_filter)
  ultimately show ?thesis using assms(4) by fastforce
next
  case False
  then have "fst ` set suf \<subseteq> B - {b}" using assms(1,4) by auto
  then have "card (fst ` set suf) \<le> card (B - {b})" using assms(5) by (intro card_mono) auto
  moreover have "card (fst ` set suf) = length suf" using assms(3) by (metis distinct_card length_map list.set_map)
  moreover have "Suc (card (B - {b})) = card (insert b B)" using assms(5) by (simp add: card.insert_remove)
  ultimately have n: "Suc (length xs) - m \<le> length pre" using assms(1,6) by simp
  have "lru_put m b w xs = drop (Suc (length xs) - m) pre @ (a, v) # (suf @ [(b, w)])"
    using False n assms(1) by (simp add: lru_put_def)
  moreover have "distinct (map fst (suf @ [(b, w)]))" using assms(1,3) False by auto
  ultimately show ?thesis using assms(4) by fastforce
qed

text \<open>The addresses an event updates.\<close>

fun updates :: "gc_event \<Rightarrow> eibaddr list" where
  "updates (Telegram now l) = (case cacheable l of None \<Rightarrow> [] | Some d \<Rightarrow> [l_dest l])"
| "updates _ = []"

lemma spec_recent:
  assumes "xs = pre @ (a, v) # suf" and "distinct (map fst suf)" and "fst ` set suf \<subseteq> B" and "finite B"
    and "a \<notin> set (collect updates es)" and "set (collect updates es) \<subseteq> B" and "card B < m"
  shows "\<exists>pre' suf'. fold (spec_step m) es xs = pre' @ (a, v) # suf' \<and> distinct (map fst suf') \<and> fst ` set suf' \<subseteq> B"
  using assms
proof (induction es arbitrary: xs pre suf)
  case (Cons e es)
  show ?case
  proof (cases "updates e")
    case Nil
    then have "spec_step m e xs = xs" by (cases e) (auto split: option.splits)
    with Cons Nil show ?thesis by simp
  next
    case (Cons b bs)
    then obtain w where u: "updates e = [b]" and st: "spec_step m e xs = lru_put m b w xs"
      by (cases e) (auto split: option.splits)
    from u Cons.prems(5,6) have b: "b \<noteq> a" "insert b B = B" by auto
    with lru_put_recent [OF Cons.prems(1) b(1) Cons.prems(2), of B m w] Cons.prems(3,4,7)
    obtain pre' suf' where "lru_put m b w xs = pre' @ (a, v) # suf'" "distinct (map fst suf')" "fst ` set suf' \<subseteq> B"
      by auto
    with Cons.IH [of "lru_put m b w xs" pre' suf'] Cons.prems(4-7) show ?thesis
      by (simp add: st)
  qed
qed auto

lemma spec_distinct:
  "distinct (map fst xs) \<Longrightarrow> distinct (map fst (fold (spec_step m) es xs))"
proof (induction es arbitrary: xs)
  case (Cons e es)
  have "distinct (map fst (spec_step m e xs))"
    using Cons.prems
    by (cases e)
      (auto simp: lru_put_def distinct_map_filter drop_map [symmetric] distinct_drop dest: in_set_dropD
        split: option.splits)
  then show ?case using Cons.IH by simp
qed simp

section \<open>Readers\<close>

text \<open>The replies to a client, and its readers that have not answered yet.\<close>

fun reply_to :: "nat \<Rightarrow> gc_out \<Rightarrow> carray list" where
  "reply_to cc (ToClient c msg) = (if c = cc then [msg] else [])"
| "reply_to cc _ = []"

fun is_reader :: "gc_kind \<Rightarrow> bool" where
  "is_reader (GCReader a) = True"
| "is_reader (GCTracker s v a) = False"

definition waiting :: "nat \<Rightarrow> gc_reader list \<Rightarrow> nat" where
  "waiting cc rs = length (filter (\<lambda>r. r_client r = cc \<and> \<not> r_stopped r) rs)"

definition only_readers :: "nat \<Rightarrow> gc_reader list \<Rightarrow> bool" where
  "only_readers cc rs \<longleftrightarrow> (\<forall>r \<in> set rs. r_client r = cc \<longrightarrow> is_reader (r_kind r))"

text \<open>A reader's handler answers as often as it stops waiting.\<close>

definition answers :: "nat \<Rightarrow> gc_reader \<Rightarrow> gc_reader \<times> gc_out list \<Rightarrow> bool" where
  "answers cc r x \<longleftrightarrow> r_client (fst x) = r_client r \<and> is_reader (r_kind (fst x)) = is_reader (r_kind r) \<and>
     (only_readers cc [r] \<longrightarrow> length (collect (reply_to cc) (snd x)) + waiting cc [fst x] = waiting cc [r])"

lemma updated_answers: "answers cc r (reader_updated g c r)"
  by (cases "r_kind r")
    (auto simp: answers_def reader_updated_def GroupCacheReader_stop_def GCTracker_handler_def
      GCTracker_stop_def waiting_def only_readers_def case_prod_beta Let_def)

lemma timeout_answers: "answers cc r (reader_timeout g r)"
  by (cases "r_kind r")
    (auto simp: answers_def reader_timeout_def GroupCacheReader_stop_def GCTracker_handler_def
      GCTracker_stop_def waiting_def only_readers_def case_prod_beta Let_def)

lemma waiting_Cons: "waiting cc (r # rs) = waiting cc [r] + waiting cc rs"
  by (simp add: waiting_def)

lemma only_readers_Cons: "only_readers cc (r # rs) \<longleftrightarrow> only_readers cc [r] \<and> only_readers cc rs"
  by (simp add: only_readers_def)

lemma update_readers_answers:
  assumes "only_readers cc rs"
  shows "only_readers cc (fst (update_readers g c rs))"
    and "length (collect (reply_to cc) (snd (update_readers g c rs))) +
      waiting cc (fst (update_readers g c rs)) = waiting cc rs"
proof -
  have "only_readers cc (fst (update_readers g c rs)) \<and>
    length (collect (reply_to cc) (snd (update_readers g c rs))) +
      waiting cc (fst (update_readers g c rs)) = waiting cc rs"
    using assms
  proof (induction rs)
    case (Cons r rs)
    then show ?case
      using updated_answers [of cc r g c] only_readers_Cons [of cc r rs] waiting_Cons [of cc r rs]
        only_readers_Cons [of cc "fst (reader_updated g c r)" "fst (update_readers g c rs)"]
        waiting_Cons [of cc "fst (reader_updated g c r)" "fst (update_readers g c rs)"]
      by (auto simp: answers_def case_prod_beta Let_def only_readers_def [of cc "[_]"])
  qed (simp add: waiting_def)
  then show "only_readers cc (fst (update_readers g c rs))"
    "length (collect (reply_to cc) (snd (update_readers g c rs))) +
      waiting cc (fst (update_readers g c rs)) = waiting cc rs" by simp_all
qed

lemma waiting_append [simp]: "waiting cc (xs @ ys) = waiting cc xs + waiting cc ys"
  by (simp add: waiting_def)

lemma only_readers_append [simp]: "only_readers cc (xs @ ys) \<longleftrightarrow> only_readers cc xs \<and> only_readers cc ys"
  by (auto simp: only_readers_def)

lemma timer_irrelevant [simp]:
  "waiting cc (r\<lparr>r_timer := b\<rparr> # rs) = waiting cc (r # rs)"
  "only_readers cc (r\<lparr>r_timer := b\<rparr> # rs) = only_readers cc (r # rs)"
  by (simp_all add: waiting_def only_readers_def)

fun asks :: "nat \<Rightarrow> gc_event \<Rightarrow> bool" where
  "asks cc (Request now c buf) = (c = cc)"
| "asks cc _ = False"

definition once_per_reader :: "nat \<Rightarrow> GroupCache \<Rightarrow> GroupCache \<times> gc_out list \<Rightarrow> bool" where
  "once_per_reader cc g x \<longleftrightarrow> only_readers cc (gc_readers (fst x)) \<and>
     length (collect (reply_to cc) (snd x)) + waiting cc (gc_readers (fst x)) \<le> waiting cc (gc_readers g)"

lemma telegram_once:
  assumes "only_readers cc (gc_readers g)"
  shows "once_per_reader cc g (GroupCache_send_L_Data g now l)"
  using update_readers_answers [OF assms] assms
  by (simp add: GroupCache_send_L_Data_def case_prod_beta Let_def once_per_reader_def split: option.split)

lemma timeout_once:
  assumes "only_readers cc (gc_readers g)"
  shows "once_per_reader cc g (gc_timeout g i)"
proof (cases "i < length (gc_readers g)")
  case True
  let ?r = "gc_readers g ! i"
  note sp = id_take_nth_drop [OF True] upd_conv_take_nth_drop [OF True]
  have "only_readers cc (take i (gc_readers g))" "only_readers cc [?r]"
    "only_readers cc (drop (Suc i) (gc_readers g))"
    using assms True by (auto simp: only_readers_def dest: in_set_takeD in_set_dropD)
  moreover have "waiting cc (gc_readers g) =
      waiting cc (take i (gc_readers g)) + waiting cc [?r] + waiting cc (drop (Suc i) (gc_readers g))"
    using waiting_Cons [of cc ?r "drop (Suc i) (gc_readers g)"] by (subst sp(1)) simp
  ultimately show ?thesis
    using assms timeout_answers [of cc ?r g]
    by (simp add: gc_timeout_def once_per_reader_def sp(2) answers_def case_prod_beta Let_def
        waiting_Cons [of cc "fst (reader_timeout g ?r)" "drop (Suc i) (gc_readers g)"]
        only_readers_Cons [of cc "fst (reader_timeout g ?r)" "drop (Suc i) (gc_readers g)"])
      (simp add: only_readers_def)
qed (simp add: gc_timeout_def once_per_reader_def assms)

lemma request_once:
  assumes "only_readers cc (gc_readers g)" and "c \<noteq> cc"
  shows "once_per_reader cc g (GroupCacheRequest g now c buf)"
proof -
  have rm: "gc_readers (GroupCache_remove g a) = gc_readers g" for a
    by (simp add: GroupCache_remove_def split: option.split)
  have lu: "only_readers cc (gc_readers (GroupCache_LastUpdates g s c)) \<and>
      waiting cc (gc_readers (GroupCache_LastUpdates g s c)) = waiting cc (gc_readers g)" for s
    using assms by (simp add: GroupCache_LastUpdates_def Let_def only_readers_def waiting_def)
  have rd: "once_per_reader cc g (GroupCache_Read g now a tmo age c)" for a tmo age
    using assms
    by (simp add: GroupCache_Read_def Let_def once_per_reader_def only_readers_def waiting_def split: option.split)
  have reject: "once_per_reader cc g (g', [sendreject c ty])" if "gc_readers g' = gc_readers g" for g' ty
    using assms that by (simp add: once_per_reader_def sendreject_def)
  have lu2: "once_per_reader cc g (GroupCache_LastUpdates2 g s c, [])" for s
    using assms by (simp add: once_per_reader_def GroupCache_LastUpdates2_def only_readers_def waiting_def)
  have lu': "once_per_reader cc g (GroupCache_LastUpdates g s c, [])" for s
    using lu [of s] by (simp add: once_per_reader_def)
  have g: "gc_readers (GroupCache_Start g) = gc_readers g" "gc_readers (GroupCache_Stop g) = gc_readers g"
    "gc_readers (GroupCache_Clear g) = gc_readers g"
    by (simp_all add: GroupCache_Start_def GroupCache_Stop_def GroupCache_Clear_def)
  show ?thesis
    unfolding GroupCacheRequest_def Let_def
    by (simp add: rd reject lu2 lu' rm g)
qed

lemma gc_step_once:
  assumes "only_readers cc (gc_readers g)" and "\<not> asks cc e"
  shows "once_per_reader cc g (gc_step g e)"
proof (cases e)
  case Remtrigger
  have "waiting cc (filter (\<lambda>r. \<not> r_stopped r) rs) = waiting cc rs" for rs
    by (auto simp: waiting_def intro!: arg_cong [where f = length] filter_cong)
  with assms Remtrigger show ?thesis
    by (simp add: once_per_reader_def remtrigger_cb_def only_readers_def)
qed (use assms in \<open>simp_all add: telegram_once request_once timeout_once\<close>)

lemma gc_run_once:
  assumes "only_readers cc (gc_readers g)" and "list_all (\<lambda>e. \<not> asks cc e) es"
  shows "length (collect (reply_to cc) (snd (run_events gc_step g es))) \<le> waiting cc (gc_readers g)"
  using assms
proof (induction es arbitrary: g)
  case (Cons e es)
  then have st: "once_per_reader cc g (gc_step g e)" by (intro gc_step_once) simp_all
  with Cons have "length (collect (reply_to cc) (snd (run_events gc_step (fst (gc_step g e)) es))) \<le>
      waiting cc (gc_readers (fst (gc_step g e)))"
    by (intro Cons.IH) (simp_all add: once_per_reader_def)
  with st show ?case
    unfolding run_events_Cons by (simp add: once_per_reader_def)
qed simp

section \<open>Trackers\<close>

lemma handler_loop_filter:
  assumes "sorted_wrt (<) (map fst s)"
  shows "handler_loop start (rev s) = rev (map snd (filter (\<lambda>x. start \<le> fst x) s))"
  using assms
proof (induction s rule: rev_induct)
  case (snoc x xs)
  obtain k a where x: "x = (k, a)" by (cases x)
  from snoc.prems x have so: "sorted_wrt (<) (map fst xs)" and lt: "\<And>y. y \<in> set xs \<Longrightarrow> fst y < k"
    by (auto simp: sorted_wrt_append)
  then have "filter (\<lambda>x. start \<le> fst x) xs = []" if "k \<le> start"
    using that by (auto simp: filter_empty_conv dest!: lt)
  then show ?case using snoc.IH [OF so] by (auto simp: x)
qed simp

lemma high_half:
  fixes q :: u32
  shows "unat (q AND NOT 0xFFFF) = unat q - unat q mod 65536"
proof -
  have "(q AND NOT 0xFFFF) AND (q AND 0xFFFF) = 0" by (simp add: word_bits)
  then have "(q AND NOT 0xFFFF) + (q AND 0xFFFF) = (q AND NOT 0xFFFF) OR (q AND 0xFFFF)"
    by (rule disjunctive_add_eq_or)
  also have "\<dots> = q" by (simp add: word_bits)
  finally have h: "q AND NOT 0xFFFF = q - (q AND 0xFFFF)" by (metis add_diff_cancel_right')
  have "q AND 0xFFFF = take_bit 16 q" by (simp add: take_bit_eq_mask mask_eq_exp_minus_1)
  then have "unat (q AND 0xFFFF) = take_bit 16 (unat q)" by (simp only: unsigned_take_bit_eq)
  then have "unat (q AND 0xFFFF) = unat q mod 65536" by (simp add: take_bit_eq_mod)
  then show ?thesis unfolding h by (simp add: unat_sub word_and_le2)
qed

lemma start_position:
  fixes q :: u32 and start :: u16
  shows "q < (q AND NOT 0xFFFF) + ucast start \<longleftrightarrow> unat q mod 65536 < unat start"
proof -
  have lt: "unat start < 65536" using unsigned_less [of start, where ?'a = nat] by simp
  then have st: "unat (ucast start :: u32) = unat start" "unat start < 65536"
    by (simp_all add: unsigned_ucast_eq take_bit_nat_eq_self)
  have q: "unat q < 2 ^ 32" using unsigned_less [of q, where ?'a = nat] by simp
  then have "unat q div 65536 < 65536" by (intro less_mult_imp_div_less) simp
  then have "unat q - unat q mod 65536 \<le> 2 ^ 32 - 65536" by (simp add: minus_mod_eq_mult_div)
  then have "unat (q AND NOT 0xFFFF) + unat (ucast start :: u32) < 2 ^ 32"
    unfolding high_half st(1) using st(2) by simp
  then have "unat ((q AND NOT 0xFFFF) + ucast start) = unat (q AND NOT 0xFFFF) + unat start"
    using unat_add_lem [of "q AND NOT 0xFFFF" "ucast start :: u32"] st by simp
  moreover have "unat q mod 65536 \<le> unat q" by simp
  ultimately show ?thesis unfolding word_less_nat_alt high_half by linarith
qed

lemma update_readers_snoc:
  "update_readers g c (rs @ [r]) =
     (fst (update_readers g c rs) @ [fst (reader_updated g c r)],
      snd (reader_updated g c r) @ snd (update_readers g c rs))"
  by (induction rs) (simp_all add: case_prod_beta Let_def)

lemma waiting_reader_answered:
  assumes "r_kind r = GCReader (e_dst c)" and "\<not> r_stopped r"
  shows "fst (reader_updated g c r) = r\<lparr>r_stopped := True\<rparr>"
    and "collect (reply_to (r_client r)) (snd (reader_updated g c r)) = [ReadCallback c False]"
  using assms by (simp_all add: reader_updated_def GroupCacheReader_stop_def)

lemma store_entry:
  "snd (gc_store g now l d) =
     \<lparr>e_data = d, e_src = l_source l, e_dst = l_dest l, e_recvtime = now, e_seq = gc_seq g + 1\<rparr>"
  by (simp add: gc_store_def case_prod_beta Let_def)

lemma no_reply_unless_waiting:
  assumes "only_readers cc (gc_readers g)" and "waiting cc (gc_readers g) = 0" and "list_all (\<lambda>e. \<not> asks cc e) es"
  shows "collect (reply_to cc) (snd (run_events gc_step g es)) = []"
  using gc_run_once [OF assms(1,3)] assms(2) by simp

section \<open>Properties\<close>

text \<open>
  \<^bold>\<open>C6\<close>: the group cache implements a bounded list of values ordered by last update.  Over every sequence
  of telegrams, client requests other than clear, disable and remove, timeouts and reader removals (up to
  the 32-bit limit of the update counter), the index stays consistent with the cache, the list of cached
  values is what the specification \<open>lru_put\<close> computes from the group responses and writes alone, and
  the cache finds for an address what that list holds for it.
\<close>

theorem gc_refines_lru:
  assumes "gc_inv g" and "gc_enable g" and "unat (gc_seq g) + length es < 2 ^ 32" and "list_all keeps_cache es"
  shows "gc_inv (fst (run_events gc_step g es)) \<and>
    gc_abs (fst (run_events gc_step g es)) = fold (spec_step (gc_maxsize g)) es (gc_abs g) \<and>
    map_option entry_value (gc_cache (fst (run_events gc_step g es)) a) =
      map_of (fold (spec_step (gc_maxsize g)) es (gc_abs g)) a"
proof -
  note r = gc_run_refines [OF assms]
  then have "index_inv (gc_cache (fst (run_events gc_step g es))) (gc_cache_seq (fst (run_events gc_step g es)))"
    by (simp add: gc_inv_def)
  with r index_lookup [OF this, of a] show ?thesis
    by (simp add: gc_abs_def [of "fst (run_events gc_step g es)", symmetric])
qed

theorem gc_refines_lru_witness:
  "map_option entry_value (gc_cache (fst (run_events gc_step ((GroupCache_new 2)\<lparr>gc_enable := True\<rparr>)
     [Telegram 5 (L_Data_new\<lparr>l_source := 0x1101, l_dest := 0x0a03, l_data := [0x00, 0x81]\<rparr>)])) 0x0a03) =
   Some ([0x00, 0x81], 0x1101, 5)"
proof -
  have "TPDU_fromPacket [0x00, 0x81] = T_DATA_XXX_REQ_PDU [0x00, 0x81]"
    by (simp add: tpdu_parse_defs)
  then have "cacheable (L_Data_new\<lparr>l_source := 0x1101, l_dest := 0x0a03, l_data := [0x00, 0x81]\<rparr>) =
      Some [0x00, 0x81]"
    by (simp add: cacheable_def)
  then show ?thesis
    using gc_refines_lru [of "(GroupCache_new 2)\<lparr>gc_enable := True\<rparr>"
        "[Telegram 5 (L_Data_new\<lparr>l_source := 0x1101, l_dest := 0x0a03, l_data := [0x00, 0x81]\<rparr>)]" "0x0a03"]
    by (simp add: GroupCache_new_def gc_inv_def index_inv_def gc_abs_def lru_put_def)
qed

text \<open>
  The cache holds the latest value of every recently used group: after a group write or response,
  its value stays in the cache through all further events that update fewer than \<open>maxsize\<close> other
  addresses, however often.
\<close>

theorem gc_keeps_recent_value:
  assumes "gc_inv g" and "gc_enable g" and "cacheable l = Some d" and "list_all keeps_cache es"
    and "unat (gc_seq g) + Suc (length es) < 2 ^ 32" and "l_dest l \<notin> set (collect updates es)"
    and "card (set (collect updates es)) < gc_maxsize g"
  shows "map_option entry_value
      (gc_cache (fst (run_events gc_step g (Telegram now l # es))) (l_dest l)) = Some (d, l_source l, now)"
proof -
  let ?e = "Telegram now l" and ?m = "gc_maxsize g" and ?v = "(d, l_source l, now)"
  let ?g = "fst (run_events gc_step g (?e # es))"
  have r: "gc_inv ?g \<and> gc_abs ?g = fold (spec_step ?m) (?e # es) (gc_abs g)"
    using assms by (intro gc_run_refines) simp_all
  have i: "index_inv (gc_cache g) (gc_cache_seq g)" "index_inv (gc_cache ?g) (gc_cache_seq ?g)"
    using assms(1) r unfolding gc_inv_def by blast+
  obtain pre where "spec_step ?m ?e (gc_abs g) = pre @ (l_dest l, ?v) # []"
    using assms(3) by (simp add: lru_put_def)
  from spec_recent [OF this, of "set (collect updates es)" es ?m] assms(6,7)
  obtain pre' suf' where f: "gc_abs ?g = pre' @ (l_dest l, ?v) # suf'"
    using r by auto
  have "distinct (map fst (gc_abs ?g))"
    using index_distinct [OF i(2)] by (simp add: gc_abs_def comp_def case_prod_beta)
  then have "map_of (gc_abs ?g) (l_dest l) = Some ?v" by (rule map_of_is_SomeI) (simp only: f in_set_conv_decomp, blast)
  then show ?thesis
    using index_lookup [OF i(2), of "l_dest l"] unfolding gc_abs_def by simp
qed

theorem gc_keeps_recent_value_witness:
  "map_option entry_value (gc_cache (fst (run_events gc_step ((GroupCache_new 2)\<lparr>gc_enable := True\<rparr>)
     [Telegram 5 (L_Data_new\<lparr>l_source := 0x1101, l_dest := 0x0a03, l_data := [0x00, 0x81]\<rparr>),
      Telegram 6 (L_Data_new\<lparr>l_source := 0x1102, l_dest := 0x0a04, l_data := [0x00, 0x80]\<rparr>), Remtrigger])) 0x0a03) =
   Some ([0x00, 0x81], 0x1101, 5)"
proof -
  have "TPDU_fromPacket [0x00, 0x81] = T_DATA_XXX_REQ_PDU [0x00, 0x81]"
    "TPDU_fromPacket [0x00, 0x80] = T_DATA_XXX_REQ_PDU [0x00, 0x80]"
    by (simp_all add: tpdu_parse_defs)
  then have "cacheable (L_Data_new\<lparr>l_source := 0x1101, l_dest := 0x0a03, l_data := [0x00, 0x81]\<rparr>) =
      Some [0x00, 0x81]"
    "cacheable (L_Data_new\<lparr>l_source := 0x1102, l_dest := 0x0a04, l_data := [0x00, 0x80]\<rparr>) = Some [0x00, 0x80]"
    by (simp_all add: cacheable_def)
  then show ?thesis
    using gc_keeps_recent_value [of "(GroupCache_new 2)\<lparr>gc_enable := True\<rparr>"
        "L_Data_new\<lparr>l_source := 0x1101, l_dest := 0x0a03, l_data := [0x00, 0x81]\<rparr>" "[0x00, 0x81]"
        "[Telegram 6 (L_Data_new\<lparr>l_source := 0x1102, l_dest := 0x0a04, l_data := [0x00, 0x80]\<rparr>), Remtrigger]" 5]
    by (simp add: GroupCache_new_def gc_inv_def index_inv_def)
qed

text \<open>
  A client that reads an address the cache does not hold, and waits, gets exactly one reply: when
  a group write or response for the address arrives, the client is sent its value and source, and
  whatever happens afterwards (more telegrams, the timeout, requests of other clients) it is sent nothing
  more.
\<close>

theorem gc_read_answered_once:
  fixes now :: nat and age :: u16
  assumes "gc_inv g" and "gc_enable g" and "gc_cache g a = None" and "tmo \<noteq> 0"
    and "only_readers cc (gc_readers g)" and "waiting cc (gc_readers g) = 0"
    and "cacheable l = Some d" and "l_dest l = a" and "list_all (\<lambda>e. \<not> asks cc e) es"
  defines "g1 \<equiv> fst (GroupCache_Read g now a tmo age cc)"
  shows "collect (reply_to cc) (snd (GroupCache_Read g now a tmo age cc)) @
      collect (reply_to cc) (snd (run_events gc_step g1 (Telegram now' l # es))) =
    [ReadCallback \<lparr>e_data = d, e_src = l_source l, e_dst = a, e_recvtime = now', e_seq = gc_seq g + 1\<rparr> False]"
proof -
  define r where "r = \<lparr>r_client = cc, r_kind = GCReader a, r_stopped = False, r_timer = True\<rparr>"
  have g1: "g1 = g\<lparr>gc_readers := gc_readers g @ [r]\<rparr>"
    and o1: "collect (reply_to cc) (snd (GroupCache_Read g now a tmo age cc)) = []"
    using assms(2-4) by (simp_all add: g1_def GroupCache_Read_def r_def)
  define s e where "s = fst (gc_store g1 now' l d)" and "e = snd (gc_store g1 now' l d)"
  have e: "e = \<lparr>e_data = d, e_src = l_source l, e_dst = a, e_recvtime = now', e_seq = gc_seq g + 1\<rparr>"
    using assms(8) by (simp add: e_def store_entry g1)
  have m: "0 < gc_maxsize g" using assms(1) by (simp add: gc_inv_def)
  let ?u = "update_readers s e (gc_readers g)"
  have st: "gc_step g1 (Telegram now' l) = (s\<lparr>gc_readers := fst ?u @ [fst (reader_updated s e r)]\<rparr>,
      snd (reader_updated s e r) @ snd ?u @ [GC_SendNext])"
    using m assms(2,7) update_readers_snoc [of s e "gc_readers g" r]
    by (simp add: GroupCache_send_L_Data_def g1 case_prod_beta Let_def s_def e_def)
  note up = update_readers_answers [OF assms(5), of s e]
  note an = waiting_reader_answered [of r e s]
  have quiet: "collect (reply_to cc) (snd (run_events gc_step (fst (gc_step g1 (Telegram now' l))) es)) = []"
    using up an assms(6,9) unfolding st
    by (intro no_reply_unless_waiting) (simp_all add: r_def e waiting_def only_readers_def)
  have "collect (reply_to cc) (snd (gc_step g1 (Telegram now' l))) = [ReadCallback e False]"
    using up(2) assms(6) an(2) unfolding st by (simp add: r_def e)
  then show ?thesis
    unfolding run_events_Cons o1 using quiet by (simp add: e)
qed

theorem gc_read_answered_once_witness:
  "collect (reply_to 7) (snd (run_events gc_step
      (fst (GroupCache_Read ((GroupCache_new 2)\<lparr>gc_enable := True\<rparr>) 4 0x0a03 1 0 7))
      [Telegram 5 (L_Data_new\<lparr>l_source := 0x1101, l_dest := 0x0a03, l_data := [0x00, 0x81]\<rparr>), Reader_timeout 0])) =
   [[0x00, 0x74, 0x11, 0x01, 0x0a, 0x03, 0x00, 0x81]]"
proof -
  have "TPDU_fromPacket [0x00, 0x81] = T_DATA_XXX_REQ_PDU [0x00, 0x81]"
    by (simp_all add: tpdu_parse_defs)
  then have "cacheable (L_Data_new\<lparr>l_source := 0x1101, l_dest := 0x0a03, l_data := [0x00, 0x81]\<rparr>) =
      Some [0x00, 0x81]"
    by (simp_all add: cacheable_def)
  then show ?thesis
    using gc_read_answered_once [of "(GroupCache_new 2)\<lparr>gc_enable := True\<rparr>" "0x0a03" 1 7
        "L_Data_new\<lparr>l_source := 0x1101, l_dest := 0x0a03, l_data := [0x00, 0x81]\<rparr>" "[0x00, 0x81]"
        "[Reader_timeout 0]" 4 0 5]
    by (simp add: GroupCache_new_def gc_inv_def index_inv_def only_readers_def waiting_def GroupCache_Read_def
        ReadCallback_def hi8_def lo8_def L_Data_new_def del: run_events.simps)
qed

text \<open>
  A client that tracks updates from a sequence number on is told, at the next update, exactly the
  addresses of the cache whose last update is not older, the newest first, and the current number.
\<close>

theorem gc_tracker_reports:
  assumes "gc_inv g" and "r_kind r = GCTracker start True []"
  shows "collect (reply_to (r_client r)) (snd (reader_updated g c r)) =
    [LastUpdates2Callback (rev (map snd (filter (\<lambda>x. start \<le> fst x) (gc_cache_seq g)))) (gc_seq g)]"
proof -
  have "sorted_wrt (<) (map fst (gc_cache_seq g))" using assms(1) by (simp add: gc_inv_def index_inv_def)
  from handler_loop_filter [OF this, of start] assms(2) show ?thesis
    by (simp add: reader_updated_def GCTracker_handler_def GCTracker_stop_def GroupCacheReader_stop_def
        case_prod_beta Let_def)
qed

theorem gc_tracker_reports_witness:
  "collect (reply_to 3) (snd (reader_updated
     ((GroupCache_new 2)\<lparr>gc_cache := [0x0a03 \<mapsto> (GroupCacheEntry_new 0x0a03)\<lparr>e_seq := 1\<rparr>],
        gc_cache_seq := [(1, 0x0a03)], gc_seq := 1\<rparr>) (GroupCacheEntry_new 0x0a03)
     \<lparr>r_client = 3, r_kind = GCTracker 1 True [], r_stopped = False, r_timer = True\<rparr>)) =
   [LastUpdates2Callback [0x0a03] 1]"
  using gc_tracker_reports [of "(GroupCache_new 2)\<lparr>gc_cache := [0x0a03 \<mapsto> (GroupCacheEntry_new 0x0a03)\<lparr>e_seq := 1\<rparr>],
      gc_cache_seq := [(1, 0x0a03)], gc_seq := 1\<rparr>"
      "\<lparr>r_client = 3, r_kind = GCTracker 1 True [], r_stopped = False, r_timer = True\<rparr>" 1 "GroupCacheEntry_new 0x0a03"]
  by (simp add: GroupCache_new_def gc_inv_def index_inv_def GroupCacheEntry_new_def)

text \<open>
  A tracker does not stop at its first reply.  The flag it tests is a second member of the same name
  that is never set, so two updates that arrive before the stopped reader is removed are both reported.
\<close>

theorem gc_tracker_replies_twice:
  assumes "r_kind r = GCTracker start v2 xs"
  shows "length (collect (reply_to (r_client r)) (snd (reader_updated g c r))) = 1 \<and>
    length (collect (reply_to (r_client r)) (snd (reader_updated g' c' (fst (reader_updated g c r))))) = 1"
  using assms
  by (simp add: reader_updated_def GCTracker_handler_def GCTracker_stop_def GroupCacheReader_stop_def
      case_prod_beta Let_def)

theorem gc_tracker_replies_twice_witness:
  "length (collect (reply_to 3) (snd (reader_updated (GroupCache_new 2) (GroupCacheEntry_new 0x0a03)
     (fst (reader_updated (GroupCache_new 2) (GroupCacheEntry_new 0x0a03)
       \<lparr>r_client = 3, r_kind = GCTracker 1 True [], r_stopped = False, r_timer = True\<rparr>))))) = 1"
  using gc_tracker_replies_twice [of "\<lparr>r_client = 3, r_kind = GCTracker 1 True [], r_stopped = False, r_timer = True\<rparr>"]
  by simp

text \<open>
  The 16-bit update request is lost when the requested position is ahead of the low half of the
  counter: then, and only then, no tracker is created and the client is never answered.
\<close>

theorem gc_last_updates_lost:
  "GroupCache_LastUpdates g start cc = g \<longleftrightarrow> unat (gc_seq g) mod 65536 < unat start"
proof -
  have "g\<lparr>gc_readers := gc_readers g @ [r]\<rparr> \<noteq> g" for r
  proof
    assume "g\<lparr>gc_readers := gc_readers g @ [r]\<rparr> = g"
    then have "gc_readers (g\<lparr>gc_readers := gc_readers g @ [r]\<rparr>) = gc_readers g" by (rule arg_cong)
    then show False by simp
  qed
  then show ?thesis
    using start_position [of "gc_seq g" start] by (simp add: GroupCache_LastUpdates_def Let_def)
qed

text \<open>
  Clearing the cache leaves its index behind.  With room for two addresses, an address that is
  written, cleared and written again is lost when a second address is written, although the cache held
  only one: the stale index entry is evicted and takes the fresh value with it.
\<close>

theorem gc_clear_loses_fresh_value:
  fixes t1 :: nat
  assumes "cacheable l = Some d" and "cacheable l' = Some d'" and "l_dest l \<noteq> l_dest l'"
  defines "g \<equiv> GroupCache_Clear (fst (GroupCache_send_L_Data ((GroupCache_new 2)\<lparr>gc_enable := True\<rparr>) t1 l))"
  shows "dom (gc_cache (fst (GroupCache_send_L_Data g t2 l))) = {l_dest l} \<and>
    gc_cache (fst (GroupCache_send_L_Data (fst (GroupCache_send_L_Data g t2 l)) t3 l')) (l_dest l) = None"
  using assms(1-3)
  by (simp add: g_def GroupCache_send_L_Data_def gc_store_def GroupCache_Clear_def GroupCache_new_def Let_def)

theorem gc_clear_loses_fresh_value_witness:
  "\<exists>g t. gc_cache (fst (GroupCache_send_L_Data g t
      (L_Data_new\<lparr>l_source := 0x1101, l_dest := 0x0a04, l_data := [0x00, 0x81]\<rparr>))) 0x0a03 = None \<and>
    dom (gc_cache g) = {0x0a03} \<and> gc_maxsize g = 2"
proof -
  have "TPDU_fromPacket [0x00, 0x81] = T_DATA_XXX_REQ_PDU [0x00, 0x81]"
    by (simp_all add: tpdu_parse_defs)
  then have c: "cacheable (L_Data_new\<lparr>l_source := 0x1101, l_dest := a, l_data := [0x00, 0x81]\<rparr>) = Some [0x00, 0x81]" for a
    by (simp_all add: cacheable_def)
  have mx: "gc_maxsize (fst (GroupCache_send_L_Data g t l)) = gc_maxsize g" for g t l
    by (simp add: GroupCache_send_L_Data_def case_prod_beta Let_def split: option.split)
  show ?thesis
    using gc_clear_loses_fresh_value [OF c [of "0x0a03"] c [of "0x0a04"], of 1 2 3]
    by (intro exI conjI) (auto simp: L_Data_new_def mx GroupCache_Clear_def GroupCache_new_def)
qed

end
