(* ===== verification/Link.thy ===== *)
theory Link
  imports Lpdu
begin

text \<open>
  The link connections of \<^verbatim>\<open>src/src/libserver/link.cpp\<close> and \<^verbatim>\<open>link.h\<close>: the state machine of
  \<open>LinkConnect\<close> that starts, stops and restarts a driver, and the address filters of the driver classes.
  A handler returns the calls it makes, in order.  A driver that answers from inside \<open>start\<close> or \<open>stop\<close>
  is an answer that follows: \<open>setState\<close> changes nothing after those calls.
\<close>

section \<open>Drivers\<close>

text \<open>
  The driver behind a link, as far as addresses go: a bus with the addresses seen on it, a client with
  one address, a layer 4 endpoint that may be write-only, the group cache, or a server.

  The group cache takes its address from \<open>BaseRouter::addr\<close>.  \<open>Router\<close> declares a member of the same
  name and assigns only that one, so that the cache's stays zero.
\<close>

datatype driver =
    BusDriver "eibaddr \<Rightarrow> bool"
  | LineDriver eibaddr
  | Layer4WO eibaddr bool
  | CacheDriver
  | ServerDriver

definition BaseRouter_addr :: eibaddr where
  "BaseRouter_addr = 0"

fun Driver_hasAddress :: "driver \<Rightarrow> eibaddr \<Rightarrow> bool" where
  "Driver_hasAddress (BusDriver addrs) a = addrs a"
| "Driver_hasAddress (LineDriver own) a = (a = own)"
| "Driver_hasAddress (Layer4WO own wo) a = (a = own)"
| "Driver_hasAddress CacheDriver a = (a = BaseRouter_addr)"
| "Driver_hasAddress ServerDriver a = False"

fun Driver_addAddress :: "driver \<Rightarrow> eibaddr \<Rightarrow> driver" where
  "Driver_addAddress (BusDriver addrs) a = BusDriver (addrs(a := True))"
| "Driver_addAddress d a = d"

fun Driver_checkAddress :: "driver \<Rightarrow> eibaddr \<Rightarrow> bool" where
  "Driver_checkAddress (BusDriver addrs) a = True"
| "Driver_checkAddress (LineDriver own) a = (a = own)"
| "Driver_checkAddress (Layer4WO own wo) a = (\<not> wo \<and> a = own)"
| "Driver_checkAddress CacheDriver a = False"
| "Driver_checkAddress ServerDriver a = False"

fun Driver_checkGroupAddress :: "driver \<Rightarrow> eibaddr \<Rightarrow> bool" where
  "Driver_checkGroupAddress (BusDriver addrs) a = True"
| "Driver_checkGroupAddress (LineDriver own) a = True"
| "Driver_checkGroupAddress (Layer4WO own wo) a = (\<not> wo)"
| "Driver_checkGroupAddress CacheDriver a = True"
| "Driver_checkGroupAddress ServerDriver a = False"

section \<open>Link connections\<close>

datatype LConnState =
    L_down
  | L_going_down
  | L_up
  | L_going_up
  | L_wait_retry
  | L_error
  | L_up_error
  | L_going_down_error

text \<open>The order of the enumerators, which the router compares.\<close>

fun LConnState_num :: "LConnState \<Rightarrow> nat" where
  "LConnState_num L_down = 0"
| "LConnState_num L_going_down = 1"
| "LConnState_num L_up = 2"
| "LConnState_num L_going_up = 3"
| "LConnState_num L_wait_retry = 4"
| "LConnState_num L_error = 5"
| "LConnState_num L_up_error = 6"
| "LConnState_num L_going_down_error = 7"

text \<open>
  The configured delay and limit are natural numbers.  \<open>c_timer\<close> says whether the one timer runs that serves both retries and send timeouts.
\<close>

record LinkConnect =
  c_state :: LConnState
  c_retry_delay :: nat
  c_retries :: nat
  c_max_retries :: nat
  c_send_more :: bool
  c_timer :: bool
  c_ignore :: bool
  c_transient :: bool
  c_may_fail :: bool
  c_is_local :: bool
  c_addr :: eibaddr
  c_seq :: nat
  c_driver :: driver

definition LinkConnect_new :: "driver \<Rightarrow> nat \<Rightarrow> nat \<Rightarrow> LinkConnect" where
  "LinkConnect_new d retry_delay max_retries =
     \<lparr>c_state = L_down, c_retry_delay = retry_delay, c_retries = 0, c_max_retries = max_retries,
      c_send_more = True, c_timer = False, c_ignore = False, c_transient = False, c_may_fail = False,
      c_is_local = False, c_addr = 0, c_seq = 0, c_driver = d\<rparr>"

datatype link_out =
    Driver_start
  | Driver_stop
  | LinkStateChanged
  | Driver_send l_data_pdu
  | Call_send_Next
  | Link_abort

definition LinkConnect_start :: "LinkConnect \<Rightarrow> LinkConnect \<times> link_out list" where
  "LinkConnect_start c = (c\<lparr>c_send_more := True\<rparr>, [Driver_start])"

definition LinkConnect_stop :: "LinkConnect \<Rightarrow> LinkConnect \<times> link_out list" where
  "LinkConnect_stop c = (c, [Driver_stop])"

text \<open>The label \<open>retry\<close> of \<open>setState\<close>, with the precedence the condition has.\<close>

definition link_retry :: "LinkConnect \<Rightarrow> LinkConnect \<times> link_out list" where
  "link_retry c =
     (if (c_retry_delay c > 0 \<and> c_max_retries c = 0) \<or> c_retries c < c_max_retries c
      then (c\<lparr>c_state := L_wait_retry, c_timer := True\<rparr>, [])
      else (c\<lparr>c_state := L_error\<rparr>, [LinkStateChanged]))"

definition and_notify :: "LinkConnect \<times> link_out list \<Rightarrow> LinkConnect \<times> link_out list" where
  "and_notify x = (fst x, snd x @ [LinkStateChanged])"

definition setState :: "LinkConnect \<Rightarrow> LConnState \<Rightarrow> LinkConnect \<times> link_out list" where
  "setState c0 new =
     (if c_state c0 = new then (c0, [])
      else
        let old = c_state c0;
            c1 = c0\<lparr>c_state := new\<rparr>;
            c = (if old = L_wait_retry \<or> old = L_up \<and> new \<noteq> L_up then c1\<lparr>c_timer := False\<rparr> else c1);
            stay = and_notify (c, []);
            become = (\<lambda>s. and_notify (c\<lparr>c_state := s\<rparr>, []));
            inval = (c, [Link_abort])
        in case old of
             L_down \<Rightarrow>
               (case new of
                  L_going_up \<Rightarrow> and_notify (LinkConnect_start c)
                | L_going_down \<Rightarrow> become L_down
                | _ \<Rightarrow> inval)
           | L_going_down \<Rightarrow>
               (case new of
                  L_error \<Rightarrow> become L_going_down_error
                | L_down \<Rightarrow> stay
                | _ \<Rightarrow> inval)
           | L_up \<Rightarrow>
               (case new of
                  L_going_up \<Rightarrow> become L_up
                | L_going_down \<Rightarrow> and_notify (LinkConnect_stop c)
                | L_down \<Rightarrow> and_notify (LinkConnect_stop c)
                | L_error \<Rightarrow> become L_up_error
                | _ \<Rightarrow> inval)
           | L_going_up \<Rightarrow>
               (case new of
                  L_up \<Rightarrow> and_notify (c\<lparr>c_retries := 0\<rparr>, [])
                | L_going_down \<Rightarrow> and_notify (LinkConnect_stop c)
                | L_down \<Rightarrow> link_retry c
                | L_error \<Rightarrow> become L_up_error
                | _ \<Rightarrow> inval)
           | L_wait_retry \<Rightarrow>
               (case new of
                  L_going_up \<Rightarrow> and_notify (LinkConnect_start c)
                | L_going_down \<Rightarrow> become L_down
                | _ \<Rightarrow> inval)
           | L_error \<Rightarrow>
               (case new of
                  L_wait_retry \<Rightarrow> link_retry c
                | L_error \<Rightarrow> stay
                | L_going_down \<Rightarrow> become L_error
                | L_down \<Rightarrow> link_retry c
                | _ \<Rightarrow> inval)
           | L_up_error \<Rightarrow>
               (case new of
                  L_going_down \<Rightarrow> and_notify (LinkConnect_stop (c\<lparr>c_state := L_going_down_error\<rparr>))
                | L_down \<Rightarrow> link_retry c
                | L_error \<Rightarrow> stay
                | _ \<Rightarrow> inval)
           | L_going_down_error \<Rightarrow>
               (case new of
                  L_down \<Rightarrow> link_retry c
                | L_error \<Rightarrow> stay
                | L_going_down \<Rightarrow> become L_going_down_error
                | _ \<Rightarrow> inval))"

definition LinkConnect_started :: "LinkConnect \<Rightarrow> LinkConnect \<times> link_out list" where
  "LinkConnect_started c = setState c L_up"

definition LinkConnect_stopped :: "LinkConnect \<Rightarrow> LinkConnect \<times> link_out list" where
  "LinkConnect_stopped c = setState c L_down"

definition LinkConnect_errored :: "LinkConnect \<Rightarrow> LinkConnect \<times> link_out list" where
  "LinkConnect_errored c = setState c L_error"

definition retry_timer_cb :: "LinkConnect \<Rightarrow> LinkConnect \<times> link_out list" where
  "retry_timer_cb c =
     (if c_state c = L_up \<and> \<not> c_send_more c then LinkConnect_errored c
      else if c_state c \<noteq> L_wait_retry then (c, [])
      else setState (c\<lparr>c_retries := c_retries c + 1\<rparr>) L_going_up)"

definition LinkConnect_send_Next :: "LinkConnect \<Rightarrow> LinkConnect \<times> link_out list" where
  "LinkConnect_send_Next c =
     (let c' = c\<lparr>c_send_more := True\<rparr>
      in (if c_state c = L_up then c'\<lparr>c_timer := False\<rparr> else c', [Call_send_Next]))"

definition LinkConnect_send_L_Data :: "LinkConnect \<Rightarrow> l_data_pdu \<Rightarrow> LinkConnect \<times> link_out list" where
  "LinkConnect_send_L_Data c l =
     (let c' = c\<lparr>c_send_more := False\<rparr>
      in if c_state c \<noteq> L_up then (c', [Link_abort])
         else (c'\<lparr>c_timer := True\<rparr>, [Driver_send l]))"

definition LinkConnect_setAddress :: "LinkConnect \<Rightarrow> eibaddr \<Rightarrow> LinkConnect" where
  "LinkConnect_setAddress c a = c\<lparr>c_addr := a\<rparr>"

section \<open>Histories\<close>

text \<open>
  What happens to a link: the driver reports, the router asks it to go up or down, the timer fires, the
  driver is ready for the next telegram, the router sends one.  The timer fires only while it runs, and then stops.
\<close>

datatype link_event =
    Ev_started
  | Ev_stopped
  | Ev_errored
  | Ev_up
  | Ev_down
  | Ev_timer
  | Ev_next
  | Ev_send l_data_pdu

fun link_step :: "LinkConnect \<Rightarrow> link_event \<Rightarrow> LinkConnect \<times> link_out list" where
  "link_step c Ev_started = LinkConnect_started c"
| "link_step c Ev_stopped = LinkConnect_stopped c"
| "link_step c Ev_errored = LinkConnect_errored c"
| "link_step c Ev_up = setState c L_going_up"
| "link_step c Ev_down = setState c L_going_down"
| "link_step c Ev_timer = (if c_timer c then retry_timer_cb (c\<lparr>c_timer := False\<rparr>) else (c, []))"
| "link_step c Ev_next = LinkConnect_send_Next c"
| "link_step c (Ev_send l) = LinkConnect_send_L_Data c l"

lemmas link_defs =
  setState_def LinkConnect_started_def LinkConnect_stopped_def LinkConnect_errored_def
  retry_timer_cb_def LinkConnect_send_Next_def LinkConnect_send_L_Data_def LinkConnect_start_def
  LinkConnect_stop_def   link_retry_def and_notify_def Let_def

section \<open>Lemmas\<close>

text \<open>The transitions \<open>setState\<close> does not allow.\<close>

definition invalid_transition :: "LConnState \<Rightarrow> LConnState \<Rightarrow> bool" where
  "invalid_transition old new \<longleftrightarrow>
     new \<in> (case old of
        L_down \<Rightarrow> {L_up, L_wait_retry, L_error, L_up_error, L_going_down_error}
      | L_going_down \<Rightarrow> {L_up, L_going_up, L_wait_retry, L_up_error, L_going_down_error}
      | L_up \<Rightarrow> {L_wait_retry, L_up_error, L_going_down_error}
      | L_going_up \<Rightarrow> {L_wait_retry, L_up_error, L_going_down_error}
      | L_wait_retry \<Rightarrow> {L_down, L_up, L_error, L_up_error, L_going_down_error}
      | L_error \<Rightarrow> {L_up, L_going_up, L_up_error, L_going_down_error}
      | L_up_error \<Rightarrow> {L_up, L_going_up, L_wait_retry, L_going_down_error}
      | L_going_down_error \<Rightarrow> {L_up, L_going_up, L_wait_retry, L_up_error})"

lemma setState_abort: "Link_abort \<in> set (snd (setState c new)) \<longleftrightarrow> invalid_transition (c_state c) new"
  by (cases "c_state c"; cases new)
    (simp_all add: link_defs invalid_transition_def)

text \<open>A link waits for a retry only while the timer runs and a retry is left.\<close>

definition link_inv :: "LinkConnect \<Rightarrow> bool" where
  "link_inv c \<longleftrightarrow> (c_max_retries c > 0 \<longrightarrow> c_retries c \<le> c_max_retries c) \<and>
     (c_state c = L_wait_retry \<longrightarrow> c_timer c \<and> (c_max_retries c > 0 \<longrightarrow> c_retries c < c_max_retries c))"

lemma setState_inv: "link_inv c \<Longrightarrow> new \<noteq> L_wait_retry \<Longrightarrow> link_inv (fst (setState c new))"
  by (cases "c_state c"; cases new) (auto simp: link_defs link_inv_def)

lemma setState_config [simp]:
  "c_max_retries (fst (setState c new)) = c_max_retries c" "c_retry_delay (fst (setState c new)) = c_retry_delay c"
  by (cases "c_state c"; cases new; simp add: link_defs)+

lemma timer_inv:
  assumes "link_inv c" and "c_timer c"
  shows "link_inv (fst (retry_timer_cb (c\<lparr>c_timer := False\<rparr>)))"
proof (cases "c_state c = L_wait_retry")
  case True
  with assms show ?thesis by (auto simp: link_defs link_inv_def)
next
  case False
  with assms have "link_inv (c\<lparr>c_timer := False\<rparr>)" by (simp add: link_inv_def)
  then show ?thesis
    using False setState_inv [of "c\<lparr>c_timer := False\<rparr>" L_error]
    by (simp add: retry_timer_cb_def LinkConnect_errored_def)
qed

lemma link_inv_send_more [simp]: "link_inv (c\<lparr>c_send_more := b\<rparr>) = link_inv c"
  by (simp add: link_inv_def)

lemma link_step_inv:
  assumes "link_inv c"
  shows "link_inv (fst (link_step c e))"
proof (cases e)
  case Ev_timer
  with assms timer_inv [of c] show ?thesis by simp
next
  case Ev_next
  with assms show ?thesis by (auto simp: LinkConnect_send_Next_def Let_def link_inv_def)
next
  case (Ev_send l)
  with assms show ?thesis by (auto simp: LinkConnect_send_L_Data_def Let_def link_inv_def)
qed (use assms setState_inv in
    \<open>simp_all add: LinkConnect_started_def LinkConnect_stopped_def LinkConnect_errored_def\<close>)

section \<open>Retries\<close>

fun starts :: "link_out \<Rightarrow> unit list" where
  "starts Driver_start = [()]"
| "starts _ = []"

text \<open>The restarts a link has left until it succeeds or the router starts it anew.\<close>

definition retries_left :: "LinkConnect \<Rightarrow> nat" where
  "retries_left c = c_max_retries c - c_retries c"

fun not_progress :: "link_event \<Rightarrow> bool" where
  "not_progress Ev_started = False"
| "not_progress Ev_up = False"
| "not_progress _ = True"

lemma setState_starts:
  assumes "new \<notin> {L_up, L_going_up}"
  shows "collect starts (snd (setState c new)) = []" "retries_left (fst (setState c new)) = retries_left c"
proof -
  have "collect starts (snd (setState c new)) = [] \<and> retries_left (fst (setState c new)) = retries_left c"
    using assms by (cases "c_state c"; cases new) (simp_all add: link_defs retries_left_def)
  then show "collect starts (snd (setState c new)) = []" "retries_left (fst (setState c new)) = retries_left c"
    by simp_all
qed

lemma link_step_starts:
  assumes "link_inv c" and "c_max_retries c > 0" and "not_progress e"
  shows "length (collect starts (snd (link_step c e))) + retries_left (fst (link_step c e)) \<le> retries_left c"
    and "c_max_retries (fst (link_step c e)) = c_max_retries c"
proof -
  have "length (collect starts (snd (link_step c e))) + retries_left (fst (link_step c e)) \<le> retries_left c \<and>
    c_max_retries (fst (link_step c e)) = c_max_retries c"
  proof (cases e)
    case Ev_timer
    have r: "retries_left (c\<lparr>c_timer := False\<rparr>) = retries_left c" by (simp add: retries_left_def)
    show ?thesis
    proof (cases "c_state c = L_wait_retry \<and> c_timer c")
      case True
      with assms show ?thesis
        by (auto simp: Ev_timer link_defs retries_left_def link_inv_def)
    next
      case False
      then show ?thesis
        using setState_starts [of L_error "c\<lparr>c_timer := False\<rparr>"] r
        by (auto simp: Ev_timer retry_timer_cb_def LinkConnect_errored_def)
    qed
  qed (use assms(3) setState_starts [of _ c] in
      \<open>simp_all add: LinkConnect_stopped_def LinkConnect_errored_def LinkConnect_send_Next_def LinkConnect_send_L_Data_def
        Let_def retries_left_def\<close>)
  then show "length (collect starts (snd (link_step c e))) + retries_left (fst (link_step c e)) \<le> retries_left c"
    "c_max_retries (fst (link_step c e)) = c_max_retries c" by simp_all
qed

lemma link_run_starts:
  assumes "link_inv c" and "c_max_retries c > 0" and "list_all not_progress es"
  shows "length (collect starts (snd (run_events link_step c es))) \<le> retries_left c"
  using assms
proof (induction es arbitrary: c)
  case (Cons e es)
  from Cons.prems have e: "not_progress e" by simp
  have "length (collect starts (snd (run_events link_step (fst (link_step c e)) es))) \<le>
      retries_left (fst (link_step c e))"
    using Cons.prems link_step_starts(2) [OF Cons.prems(1,2) e] link_step_inv
    by (intro Cons.IH) simp_all
  then show ?case
    using link_step_starts(1) [OF Cons.prems(1,2) e] unfolding run_events_Cons by simp
qed simp

section \<open>Well-behaved drivers\<close>

text \<open>
  What a driver has been told and has reported.  It reports success once per start and not after it was
  told to stop, and reports errors and its end only while it is active.  The router starts a link only
  when the link is down, waiting, or starting or up already, and sends only to links that are up.
\<close>

datatype drv_state = D_off | D_starting | D_running | D_stopping | D_failed

fun permitted :: "LinkConnect \<Rightarrow> drv_state \<Rightarrow> link_event \<Rightarrow> bool" where
  "permitted c d Ev_started = (d = D_starting)"
| "permitted c d Ev_stopped = (d \<noteq> D_off)"
| "permitted c d Ev_errored = (d \<noteq> D_off)"
| "permitted c d Ev_up = (c_state c \<in> {L_down, L_up, L_going_up, L_wait_retry})"
| "permitted c d (Ev_send l) = (c_state c = L_up)"
| "permitted c d _ = True"

fun drv_report :: "drv_state \<Rightarrow> link_event \<Rightarrow> drv_state" where
  "drv_report d Ev_started = D_running"
| "drv_report d Ev_stopped = D_off"
| "drv_report d Ev_errored = D_failed"
| "drv_report d _ = d"

fun drv_told :: "drv_state \<Rightarrow> link_out \<Rightarrow> drv_state" where
  "drv_told d Driver_start = D_starting"
| "drv_told d Driver_stop = (if d = D_off then D_off else D_stopping)"
| "drv_told d _ = d"

inductive link_reach :: "LinkConnect \<Rightarrow> drv_state \<Rightarrow> bool" where
  link_init: "link_reach (LinkConnect_new drv retry_delay max_retries) D_off"
| link_event: "link_reach c d \<Longrightarrow> permitted c d e \<Longrightarrow>
    link_reach (fst (link_step c e)) (foldl drv_told (drv_report d e) (snd (link_step c e)))"

text \<open>The driver states that go with a link state.\<close>

fun drv_ok :: "LConnState \<Rightarrow> drv_state set" where
  "drv_ok L_down = {D_off}"
| "drv_ok L_going_up = {D_starting}"
| "drv_ok L_up = {D_running}"
| "drv_ok L_going_down = {D_stopping}"
| "drv_ok L_up_error = {D_failed, D_running, D_stopping}"
| "drv_ok L_going_down_error = {D_failed, D_stopping}"
| "drv_ok L_error = {D_off, D_failed}"
| "drv_ok L_wait_retry = {D_off}"

lemma drv_ok_step:
  assumes "d \<in> drv_ok (c_state c)" and "permitted c d e"
  shows "foldl drv_told (drv_report d e) (snd (link_step c e)) \<in> drv_ok (c_state (fst (link_step c e))) \<and>
    Link_abort \<notin> set (snd (link_step c e))"
  using assms
  by (cases e; cases "c_state c"; cases d) (simp_all add: link_defs)

lemma link_reach_ok: "link_reach c d \<Longrightarrow> d \<in> drv_ok (c_state c)"
  by (induction rule: link_reach.induct) (simp_all add: LinkConnect_new_def drv_ok_step del: link_step.simps)

text \<open>What the router's bookkeeping needs of a step: a link that starts can take a telegram.\<close>

fun leaves_readiness :: "link_event \<Rightarrow> bool" where
  "leaves_readiness Ev_next = False"
| "leaves_readiness (Ev_send l) = False"
| "leaves_readiness _ = True"

definition startable :: "LinkConnect \<Rightarrow> bool" where
  "startable c \<longleftrightarrow> (c_state c = L_going_up \<longrightarrow> c_send_more c)"

lemma setState_ready:
  "c_send_more c \<Longrightarrow> c_send_more (fst (setState c new))"
  "c_driver (fst (setState c new)) = c_driver c"
  by (cases "c_state c"; cases new; simp add: link_defs)+

text \<open>The calls by which a link is started and stopped.\<close>

fun control :: "link_out \<Rightarrow> bool" where
  "control Driver_start = True"
| "control Driver_stop = True"
| "control LinkStateChanged = True"
| "control _ = False"

lemma setState_control: "\<not> invalid_transition (c_state c) new \<Longrightarrow> list_all control (snd (setState c new))"
  by (cases "c_state c"; cases new) (simp_all add: link_defs invalid_transition_def)

lemma setState_startable: "startable c \<Longrightarrow> \<not> invalid_transition (c_state c) new \<Longrightarrow> startable (fst (setState c new))"
  by (cases "c_state c"; cases new) (simp_all add: link_defs startable_def invalid_transition_def)

lemma setState_up:
  assumes "startable c" and "\<not> invalid_transition (c_state c) new"
    and "c_state (fst (setState c new)) = L_up" and "c_state c = L_up \<Longrightarrow> c_send_more c"
  shows "c_send_more (fst (setState c new))"
proof (cases "c_state c = L_up \<or> c_state c = L_going_up")
  case True
  with assms show ?thesis by (auto simp: startable_def intro: setState_ready)
next
  case False
  with assms(2,3) show ?thesis
    by (cases "c_state c"; cases new) (simp_all add: link_defs invalid_transition_def split: if_splits)
qed

section \<open>Properties\<close>



text \<open>
  The transitions that abort are exactly those of the table \<open>invalid_transition\<close>; among them are a
  success report that arrives after the link was told to stop, and a second end report of a failed driver
  while the link waits for its retry.
\<close>

theorem link_abort_table:
  "(Link_abort \<in> set (snd (setState c new)) \<longleftrightarrow> invalid_transition (c_state c) new) \<and>
   invalid_transition L_going_down L_up \<and> invalid_transition L_wait_retry L_down"
  by (simp add: setState_abort) (simp add: invalid_transition_def)

text \<open>
  \<^bold>\<open>C37\<close>: with a limit on retries, a failing driver is started at most as often as the limit allows: in
  every sequence of events without a success and without a new start by the router, the number of
  restarts is at most the number of retries left.
\<close>

theorem link_retry_bound:
  assumes "link_inv c" and "c_max_retries c > 0" and "list_all not_progress es"
  shows "length (collect starts (snd (run_events link_step c es))) \<le> c_max_retries c - c_retries c"
  using link_run_starts [OF assms] by (simp add: retries_left_def)

theorem link_retry_bound_witness:
  "length (collect starts (snd (run_events link_step
     ((LinkConnect_new (LineDriver 0x1101) 5 2)\<lparr>c_state := L_going_up\<rparr>)
     [Ev_stopped, Ev_timer, Ev_stopped, Ev_timer, Ev_stopped, Ev_timer]))) \<le> 2"
  using link_retry_bound [of "(LinkConnect_new (LineDriver 0x1101) 5 2)\<lparr>c_state := L_going_up\<rparr>"
      "[Ev_stopped, Ev_timer, Ev_stopped, Ev_timer, Ev_stopped, Ev_timer]"]
  by (simp add: link_inv_def LinkConnect_new_def)

end
