(* ===== verification/Router.thy ===== *)
theory Router
  imports Link
begin

text \<open>
  The router of \<^verbatim>\<open>src/src/libserver/router.cpp\<close> and \<^verbatim>\<open>router.h\<close>: it owns the links, accepts the telegrams
  they receive, queues them, sends each to the links it is for, paces itself by the links' readiness, and
  starts and stops the links.

  The model has no global filters, so that a call of \<open>r_low\<close> reaches \<open>r_high\<close> at once and back.  The
  links are listed in the order in which the hash table is iterated.  The asynchronous triggers of the
  event loop are flags of the state: an event of the environment runs the handler of a flag that is set.
  A driver answers \<open>start\<close> and \<open>stop\<close> by later events; it may ask for the next telegram from inside
  \<open>send_L_Data\<close> (the argument \<open>ready\<close>) or later.  The clock is read once per handler.
\<close>

section \<open>State\<close>

record Router =
  r_addr :: eibaddr
  r_links :: "(nat \<times> LinkConnect) list"
  r_linkChanges :: "nat list"
  r_seq :: nat
  r_low_send_more :: bool
  r_high_send_more :: bool
  r_high_sending :: bool
  r_is_started :: bool
  r_buf :: "l_data_pdu list"
  r_mbuf :: "l_busmonitor_pdu list"
  r_ignore :: "(carray \<times> nat) list"
  r_busmonitor :: "nat list"
  r_vbusmonitor :: "nat list"
  r_want_up :: bool
  r_some_running :: bool
  r_all_running :: bool
  r_running_signal :: bool
  r_force_broadcast :: bool
  r_exitcode :: nat
  r_trigger :: bool
  r_mtrigger :: bool
  r_state_trigger :: bool
  r_start_timer :: bool
  r_start_timeout :: nat
  r_client_start :: eibaddr
  r_client_len :: nat
  r_client_pos :: nat
  r_client_addrs :: "bool list"

text \<open>The state after the constructor and the settings \<open>setup\<close> reads, before the links are added.\<close>

definition Router_new :: "eibaddr \<Rightarrow> eibaddr \<Rightarrow> nat \<Rightarrow> bool \<Rightarrow> nat \<Rightarrow> Router" where
  "Router_new addr start len force_broadcast timeout =
     \<lparr>r_addr = addr, r_links = [], r_linkChanges = [], r_seq = 1,
      r_low_send_more = False, r_high_send_more = False, r_high_sending = False, r_is_started = False,
      r_buf = [], r_mbuf = [], r_ignore = [], r_busmonitor = [], r_vbusmonitor = [],
      r_want_up = False, r_some_running = False, r_all_running = False, r_running_signal = False,
      r_force_broadcast = force_broadcast, r_exitcode = 0,
      r_trigger = False, r_mtrigger = False, r_state_trigger = False,
      r_start_timer = False, r_start_timeout = timeout,
      r_client_start = start, r_client_len = len, r_client_pos = len - 1,
      r_client_addrs = replicate len False\<rparr>"

text \<open>
  What the router does: it calls the driver of a link, copies telegrams to the registered monitors,
  leaves the event loop, reports a link that is not ready although it should be, or dies in a failed
  assertion.
\<close>

datatype r_out =
    To nat link_out
  | Monitor nat l_busmonitor_pdu
  | VMonitor nat carray
  | Ev_break
  | Internal_error nat
  | Router_abort

type_synonym r_result = "Router \<times> r_out list"

section \<open>Links\<close>

definition link_hasAddress :: "LinkConnect \<Rightarrow> eibaddr \<Rightarrow> bool" where
  "link_hasAddress c a = Driver_hasAddress (c_driver c) a"

definition link_checkAddress :: "LinkConnect \<Rightarrow> eibaddr \<Rightarrow> bool" where
  "link_checkAddress c a = Driver_checkAddress (c_driver c) a"

definition link_checkGroupAddress :: "LinkConnect \<Rightarrow> eibaddr \<Rightarrow> bool" where
  "link_checkGroupAddress c a = Driver_checkGroupAddress (c_driver c) a"

definition link_addAddress :: "LinkConnect \<Rightarrow> eibaddr \<Rightarrow> LinkConnect" where
  "link_addAddress c a = c\<lparr>c_driver := Driver_addAddress (c_driver c) a\<rparr>"

fun is_server :: "driver \<Rightarrow> bool" where
  "is_server ServerDriver = True"
| "is_server _ = False"

definition set_link :: "nat \<Rightarrow> LinkConnect \<Rightarrow> (nat \<times> LinkConnect) list \<Rightarrow> (nat \<times> LinkConnect) list" where
  "set_link i c ls = map (\<lambda>(j, d). if j = i then (j, c) else (j, d)) ls"

section \<open>Readiness\<close>

text \<open>\<open>send_Next\<close>: every link that is up has asked for the next telegram.\<close>

definition links_ready :: "(nat \<times> LinkConnect) list \<Rightarrow> bool" where
  "links_ready ls = list_all (\<lambda>(i, c). c_state c = L_up \<longrightarrow> c_send_more c) ls"

definition RouterLow_send_Next :: "Router \<Rightarrow> Router" where
  "RouterLow_send_Next r = r\<lparr>r_low_send_more := True, r_trigger := True\<rparr>"

definition Router_send_Next :: "Router \<Rightarrow> Router" where
  "Router_send_Next r =
     (if r_high_sending r then r
      else if r_high_send_more r then r
      else if \<not> links_ready (r_links r) then r
      else RouterLow_send_Next (r\<lparr>r_high_send_more := True\<rparr>))"

definition linkStateChanged :: "nat \<Rightarrow> Router \<Rightarrow> Router" where
  "linkStateChanged i r = r\<lparr>r_linkChanges := r_linkChanges r @ [i], r_state_trigger := True\<rparr>"

text \<open>The calls a link makes on the router and on its driver.\<close>

fun absorb :: "nat \<Rightarrow> link_out list \<Rightarrow> Router \<Rightarrow> r_result" where
  "absorb i [] r = (r, [])"
| "absorb i (LinkStateChanged # os) r = absorb i os (linkStateChanged i r)"
| "absorb i (Call_send_Next # os) r = absorb i os (Router_send_Next r)"
| "absorb i (Link_abort # os) r = (r, [Router_abort])"
| "absorb i (x # os) r = (fst (absorb i os r), To i x # snd (absorb i os r))"

definition link_call :: "nat \<Rightarrow> (LinkConnect \<Rightarrow> LinkConnect \<times> link_out list) \<Rightarrow> Router \<Rightarrow> r_result" where
  "link_call i f r =
     (case map_of (r_links r) i of
        None \<Rightarrow> (r, [])
      | Some c \<Rightarrow> absorb i (snd (f c)) (r\<lparr>r_links := set_link i (fst (f c)) (r_links r)\<rparr>))"

fun each_link :: "(nat \<Rightarrow> Router \<Rightarrow> r_result) \<Rightarrow> nat list \<Rightarrow> Router \<Rightarrow> r_result" where
  "each_link f [] r = (r, [])"
| "each_link f (i # is) r =
     (fst (each_link f is (fst (f i r))), snd (f i r) @ snd (each_link f is (fst (f i r))))"

section \<open>Starting and stopping\<close>

text \<open>
  The loops of \<open>start_\<close> and \<open>stop_\<close> mark each link they have told with the new sequence number; links that
  come or go meanwhile restart the scan, which skips those.
\<close>

definition start_link :: "nat \<Rightarrow> Router \<Rightarrow> r_result" where
  "start_link i r =
     (case map_of (r_links r) i of
        None \<Rightarrow> (r, [])
      | Some c \<Rightarrow>
          if c_ignore c \<or> c_transient c \<or> c_seq c \<ge> r_seq r then (r, [])
          else link_call i (\<lambda>c. setState (c\<lparr>c_seq := r_seq r\<rparr>) L_going_up) r)"

definition start_links :: "Router \<Rightarrow> r_result" where
  "start_links r =
     each_link start_link (map fst (r_links r)) (r\<lparr>r_some_running := True, r_seq := r_seq r + 1\<rparr>)"

definition Router_start :: "Router \<Rightarrow> r_result" where
  "Router_start r =
     (if r_want_up r then (r, [])
      else let (r1, os) = start_links (r\<lparr>r_want_up := True\<rparr>)
           in (if r_start_timeout r > 0 then r1\<lparr>r_start_timer := True\<rparr> else r1, os))"

definition stop_link :: "nat \<Rightarrow> Router \<Rightarrow> r_result" where
  "stop_link i r =
     (case map_of (r_links r) i of
        None \<Rightarrow> (r, [])
      | Some c \<Rightarrow>
          if c_seq c \<ge> r_seq r then (r, [])
          else link_call i (\<lambda>c. setState (c\<lparr>c_seq := r_seq r\<rparr>) L_going_down) r)"

definition stop_links :: "Router \<Rightarrow> r_result" where
  "stop_links r =
     each_link stop_link (map fst (r_links r)) (r\<lparr>r_all_running := False, r_seq := r_seq r + 1\<rparr>)"

definition Router_stop :: "Router \<Rightarrow> r_result" where
  "Router_stop r = (if \<not> r_want_up r then (r, []) else stop_links (r\<lparr>r_want_up := False\<rparr>))"

definition Router_started :: "Router \<Rightarrow> Router" where
  "Router_started r =
     r\<lparr>r_low_send_more := True, r_high_send_more := True, r_trigger := True, r_mtrigger := True,
       r_running_signal := r_all_running r \<or> r_running_signal r\<rparr>"

definition Router_stopped :: "Router \<Rightarrow> r_result" where
  "Router_stopped r = (if r_want_up r then Router_stop r else (r, [Ev_break]))"

definition RouterHigh_started :: "Router \<Rightarrow> Router" where
  "RouterHigh_started r = (if r_is_started r then r else Router_started (r\<lparr>r_is_started := True\<rparr>))"

definition RouterHigh_stopped :: "Router \<Rightarrow> r_result" where
  "RouterHigh_stopped r = Router_stopped (r\<lparr>r_is_started := False\<rparr>)"

text \<open>\<open>start_timer_cb\<close>\<close>

definition start_timer_cb :: "Router \<Rightarrow> r_result" where
  "start_timer_cb r = Router_stop r"

text \<open>
  \<open>state_trigger_cb\<close>.  The first loop empties the queue of changed links.  What it queues itself while it
  runs are links that go down now, for which the call does nothing more.
\<close>

definition recheck_link :: "nat \<Rightarrow> Router \<Rightarrow> r_result" where
  "recheck_link i r =
     (case map_of (r_links r) i of
        None \<Rightarrow> (r, [])
      | Some c \<Rightarrow>
          if \<not> r_want_up r \<and> c_state c \<noteq> L_down \<and> LConnState_num (c_state c) < LConnState_num L_wait_retry
          then link_call i (\<lambda>c. setState c L_going_down) r
          else (r, []))"

definition drain_changes :: "Router \<Rightarrow> r_result" where
  "drain_changes r =
     (let (r1, os) = each_link recheck_link (r_linkChanges r) r in (r1\<lparr>r_linkChanges := []\<rparr>, os))"

text \<open>One round of the second loop: what it does to the link, and what it adds to the counters.\<close>

definition check_link :: "nat \<Rightarrow> Router \<Rightarrow> r_result" where
  "check_link i r =
     (case map_of (r_links r) i of
        None \<Rightarrow> (r, [])
      | Some c \<Rightarrow>
          if c_transient c then
            if \<not> r_want_up r \<and> c_state c \<noteq> L_down \<and> c_state c \<noteq> L_error
            then link_call i (\<lambda>c. setState c L_going_down) r
            else (r, [])
          else
            let (r1, o1) =
                  (if c_state c \<in> {L_up_error, L_going_down_error} then link_call i LinkConnect_stop r
                   else (r, []));
                (r2, o2) =
                  (if c_state c \<in> {L_down, L_error, L_up} then (r1, [])
                   else if c_state c \<in> {L_up_error, L_going_down_error, L_wait_retry} \<and> c_may_fail c
                   then (r1, [])
                   else if \<not> r_want_up r1 then link_call i (\<lambda>c. setState c L_going_down) r1
                   else (r1, []))
            in (r2, o1 @ o2))"

definition counts_up :: "LinkConnect \<Rightarrow> bool" where
  "counts_up c \<longleftrightarrow> \<not> c_transient c \<and> c_state c = L_up"

definition counts_down :: "LinkConnect \<Rightarrow> bool" where
  "counts_down c \<longleftrightarrow> \<not> c_transient c \<and> c_state c \<in> {L_down, L_error} \<and> \<not> c_may_fail c \<and> \<not> c_ignore c"

definition counts_going :: "bool \<Rightarrow> LinkConnect \<Rightarrow> bool" where
  "counts_going want_up c \<longleftrightarrow>
     (if c_transient c then \<not> want_up \<and> c_state c \<noteq> L_down \<and> c_state c \<noteq> L_error
      else c_state c \<in> {L_going_up, L_going_down} \<or>
           c_state c \<in> {L_up_error, L_going_down_error, L_wait_retry} \<and> \<not> c_may_fail c)"

definition set_running :: "nat \<Rightarrow> nat \<Rightarrow> nat \<Rightarrow> Router \<Rightarrow> Router" where
  "set_running n_up n_going n_down r =
     (if n_going = 0 \<and> n_down = 0 \<and> n_up > 0 then r\<lparr>r_all_running := True, r_some_running := True\<rparr>
      else if n_going = 0 \<and> n_up = 0 then r\<lparr>r_all_running := False, r_some_running := False\<rparr>
      else r\<lparr>r_all_running := False, r_some_running := True\<rparr>)"

definition stop_if_down :: "nat \<Rightarrow> Router \<Rightarrow> r_result" where
  "stop_if_down n_down r =
     (if r_want_up r \<and> n_down > 0 then Router_stop (r\<lparr>r_exitcode := 1\<rparr>) else (r, []))"

definition report_running :: "bool \<Rightarrow> bool \<Rightarrow> Router \<Rightarrow> r_result" where
  "report_running osrn oarn r =
     (if osrn \<and> \<not> r_some_running r then RouterHigh_stopped r
      else if \<not> oarn \<and> r_all_running r then ((RouterHigh_started r)\<lparr>r_start_timer := False\<rparr>, [])
      else (r, []))"

definition state_trigger_cb :: "Router \<Rightarrow> r_result" where
  "state_trigger_cb r0 =
     (let x1 = drain_changes (r0\<lparr>r_state_trigger := False\<rparr>);
          cs = map snd (r_links (fst x1));
          n_up = length (filter counts_up cs);
          n_going = length (filter (counts_going (r_want_up (fst x1))) cs);
          n_down = length (filter counts_down cs);
          x2 = each_link check_link (map fst (r_links (fst x1))) (fst x1);
          x3 = stop_if_down n_down (set_running n_up n_going n_down (fst x2));
          x4 = report_running (r_some_running r0) (r_all_running r0) (fst x3)
      in (fst x4, snd x1 @ snd x2 @ snd x3 @ snd x4))"

section \<open>Registration\<close>

definition registerLink :: "nat \<Rightarrow> LinkConnect \<Rightarrow> bool \<Rightarrow> Router \<Rightarrow> bool \<times> r_result" where
  "registerLink i c transient r =
     (if map_of (r_links r) i \<noteq> None then (False, (r, []))
      else
        let c1 = (if transient then c\<lparr>c_transient := True\<rparr> else c);
            r1 = r\<lparr>r_links := r_links r @ [(i, c1)]\<rparr>
        in (True,
            if r_want_up r1
            then link_call i (\<lambda>c. setState (c\<lparr>c_seq := r_seq r\<rparr>) L_going_up) (r1\<lparr>r_all_running := False\<rparr>)
            else (r1, [])))"

definition unregisterLink :: "nat \<Rightarrow> Router \<Rightarrow> bool \<times> Router" where
  "unregisterLink i r =
     (if map_of (r_links r) i = None then (False, r)
      else (True, r\<lparr>r_links := filter (\<lambda>(j, c). j \<noteq> i) (r_links r), r_state_trigger := True\<rparr>))"

definition registerBusmonitor :: "nat \<Rightarrow> Router \<Rightarrow> bool \<times> Router" where
  "registerBusmonitor cb r = (True, r\<lparr>r_busmonitor := r_busmonitor r @ [cb]\<rparr>)"

definition registerVBusmonitor :: "nat \<Rightarrow> Router \<Rightarrow> bool \<times> Router" where
  "registerVBusmonitor cb r = (True, r\<lparr>r_vbusmonitor := r_vbusmonitor r @ [cb]\<rparr>)"

definition deregisterBusmonitor :: "nat \<Rightarrow> Router \<Rightarrow> bool \<times> Router" where
  "deregisterBusmonitor cb r =
     (cb \<in> set (r_busmonitor r), r\<lparr>r_busmonitor := remove1 cb (r_busmonitor r)\<rparr>)"

definition deregisterVBusmonitor :: "nat \<Rightarrow> Router \<Rightarrow> bool \<times> Router" where
  "deregisterVBusmonitor cb r =
     (cb \<in> set (r_vbusmonitor r), r\<lparr>r_vbusmonitor := remove1 cb (r_vbusmonitor r)\<rparr>)"

section \<open>Addresses\<close>

text \<open>
  \<open>hasAddress\<close>: the link argument is an in-out parameter; the second component is its value afterwards.
\<close>

definition Router_hasAddress :: "Router \<Rightarrow> eibaddr \<Rightarrow> nat option \<Rightarrow> bool \<times> nat option" where
  "Router_hasAddress r a link =
     (if a = r_addr r then (True, link)
      else if (case link of None \<Rightarrow> False
               | Some i \<Rightarrow> (case map_of (r_links r) i of None \<Rightarrow> False | Some c \<Rightarrow> link_hasAddress c a))
      then (False, link)
      else case find (\<lambda>(i, c). Some i \<noteq> link \<and> link_hasAddress c a) (r_links r) of
             Some (i, c) \<Rightarrow> (True, Some i)
           | None \<Rightarrow> (False, link))"

definition Router_checkAddress :: "Router \<Rightarrow> eibaddr \<Rightarrow> nat option \<Rightarrow> bool" where
  "Router_checkAddress r a link \<longleftrightarrow>
     a = 0 \<or> list_ex (\<lambda>(i, c). Some i \<noteq> link \<and> link_checkAddress c a) (r_links r)"

definition Router_checkGroupAddress :: "Router \<Rightarrow> eibaddr \<Rightarrow> nat option \<Rightarrow> bool" where
  "Router_checkGroupAddress r a link \<longleftrightarrow>
     a = 0 \<or> list_ex (\<lambda>(i, c). Some i \<noteq> link \<and> link_checkGroupAddress c a) (r_links r)"

definition client_free :: "Router \<Rightarrow> nat \<Rightarrow> bool" where
  "client_free r pos \<longleftrightarrow>
     \<not> r_client_addrs r ! pos \<and>
     (let a = r_client_start r + of_nat pos in a \<noteq> r_addr r \<and> \<not> fst (Router_hasAddress r a None))"

definition get_client_addr :: "Router \<Rightarrow> eibaddr \<times> Router" where
  "get_client_addr r =
     (case find (client_free r) (map (\<lambda>i. (r_client_pos r + i) mod r_client_len r) [1..<r_client_len r + 1]) of
        Some pos \<Rightarrow>
          (r_client_start r + of_nat pos,
           r\<lparr>r_client_pos := pos, r_client_addrs := (r_client_addrs r)[pos := True]\<rparr>)
      | None \<Rightarrow> (0, r))"

definition hasClientAddrs :: "Router \<Rightarrow> bool" where
  "hasClientAddrs r \<longleftrightarrow> r_client_len r > 0"

definition release_client_addr :: "eibaddr \<Rightarrow> Router \<Rightarrow> Router" where
  "release_client_addr a r =
     (if a < r_client_start r then r
      else let pos = unat a - unat (r_client_start r)
           in if pos \<ge> r_client_len r then r
              else if \<not> r_client_addrs r ! pos then r
              else r\<lparr>r_client_addrs := (r_client_addrs r)[pos := False]\<rparr>)"

section \<open>Receiving\<close>

definition queue_L_Data :: "l_data_pdu \<Rightarrow> Router \<Rightarrow> Router" where
  "queue_L_Data l r =
     (if r_some_running r \<or> r_want_up r
      then r\<lparr>r_buf := r_buf r @ [l], r_trigger := r_running_signal r \<or> r_trigger r\<rparr>
      else r)"

definition queue_L_Busmonitor :: "l_busmonitor_pdu \<Rightarrow> Router \<Rightarrow> Router" where
  "queue_L_Busmonitor b r =
     (if r_some_running r \<or> r_want_up r
      then r\<lparr>r_mbuf := r_mbuf r @ [b], r_mtrigger := r_running_signal r \<or> r_mtrigger r\<rparr>
      else r)"

definition set_source :: "Router \<Rightarrow> LinkConnect \<Rightarrow> l_data_pdu \<Rightarrow> l_data_pdu" where
  "set_source r c l =
     (if l_source l = 0 then l\<lparr>l_source := (if c_addr c = 0 then r_addr r else c_addr c)\<rparr> else l)"

definition in_client_block :: "Router \<Rightarrow> eibaddr \<Rightarrow> bool" where
  "in_client_block r a \<longleftrightarrow>
     r_client_len r \<noteq> 0 \<and> r_client_start r \<le> a \<and> unat a < unat (r_client_start r) + r_client_len r"

definition Router_recv_L_Data :: "l_data_pdu \<Rightarrow> nat \<Rightarrow> Router \<Rightarrow> Router" where
  "Router_recv_L_Data l0 i r =
     (case map_of (r_links r) i of
        None \<Rightarrow> r
      | Some c \<Rightarrow>
          if l_AddrType l0 = IndividualAddress \<and> l_dest l0 = 0 then r
          else
            let l = set_source r c l0;
                known = Router_hasAddress r (l_source l) None
            in if l_source l = r_addr r then
                 (if \<not> c_is_local c then r else queue_L_Data l r)
               else if fst known then
                 (if snd known \<noteq> Some i then r else queue_L_Data l r)
               else if in_client_block r (l_source l) then r
               else if l_source l \<noteq> 0xFFFF then
                 queue_L_Data l
                   (r\<lparr>r_links := set_link i (link_addAddress c (l_source l)) (r_links r)\<rparr>)
               else queue_L_Data l r)"

section \<open>Sending\<close>

text \<open>
  Handing a copy to one link.  A driver in \<open>ready\<close> asks for the next telegram at once; the router's own
  \<open>send_Next\<close> returns then, since it is still sending.
\<close>

definition hand_over :: "(nat \<Rightarrow> bool) \<Rightarrow> l_data_pdu \<Rightarrow> nat \<Rightarrow> LinkConnect \<Rightarrow> LinkConnect \<times> r_out list" where
  "hand_over ready l i c =
     (if is_server (c_driver c) then (c, [])
      else let (c1, os) = LinkConnect_send_L_Data c l
           in (if ready i then fst (LinkConnect_send_Next c1) else c1,
               if Link_abort \<in> set os then [Router_abort] else map (To i) os))"

text \<open>The loop over the links that both address types share, with the condition on the destination.\<close>

definition deliver_one :: "(nat \<Rightarrow> bool) \<Rightarrow> (LinkConnect \<Rightarrow> bool) \<Rightarrow> l_data_pdu \<Rightarrow> nat \<Rightarrow> LinkConnect \<Rightarrow>
    LinkConnect \<times> r_out list" where
  "deliver_one ready accepts l i c =
     (if c_state c \<noteq> L_up then (c, [])
      else if \<not> c_send_more c then (c, [Internal_error i])
      else if link_hasAddress c (l_source l) then (c, [])
      else if accepts c then hand_over ready l i c
      else (c, []))"

fun deliver_all :: "(nat \<Rightarrow> bool) \<Rightarrow> (LinkConnect \<Rightarrow> bool) \<Rightarrow> l_data_pdu \<Rightarrow> (nat \<times> LinkConnect) list \<Rightarrow>
    (nat \<times> LinkConnect) list \<times> r_out list" where
  "deliver_all ready accepts l [] = ([], [])"
| "deliver_all ready accepts l ((i, c) # ls) =
     ((i, fst (deliver_one ready accepts l i c)) # fst (deliver_all ready accepts l ls),
      snd (deliver_one ready accepts l i c) @ snd (deliver_all ready accepts l ls))"

definition dest_found :: "Router \<Rightarrow> l_data_pdu \<Rightarrow> bool" where
  "dest_found r l \<longleftrightarrow>
     l_dest l = r_addr r \<or>
     l_dest l \<noteq> 0xFFFF \<and>
     list_ex (\<lambda>(i, c). \<not> link_hasAddress c (l_source l) \<and> link_hasAddress c (l_dest l)) (r_links r)"

text \<open>
  The conditions on the destination.  In the second one \<open>?:\<close> binds weaker than \<open>||\<close>, so that a hop count of 7
  selects the links that have seen the address.
\<close>

definition group_accepts :: "l_data_pdu \<Rightarrow> LinkConnect \<Rightarrow> bool" where
  "group_accepts l c \<longleftrightarrow> l_hopcount l = 7 \<or> link_checkGroupAddress c (l_dest l)"

definition individual_accepts :: "bool \<Rightarrow> l_data_pdu \<Rightarrow> LinkConnect \<Rightarrow> bool" where
  "individual_accepts found l c \<longleftrightarrow>
     (if l_hopcount l = 7 \<or> found then link_hasAddress c (l_dest l) else link_checkAddress c (l_dest l))"

definition dest_accepts :: "Router \<Rightarrow> l_data_pdu \<Rightarrow> LinkConnect \<Rightarrow> bool" where
  "dest_accepts r l =
     (if l_AddrType l = GroupAddress then group_accepts l else individual_accepts (dest_found r l) l)"

definition Router_send_L_Data :: "(nat \<Rightarrow> bool) \<Rightarrow> l_data_pdu \<Rightarrow> Router \<Rightarrow> r_result" where
  "Router_send_L_Data ready l r =
     (if \<not> r_high_send_more r then (r, [Router_abort])
      else
        let r1 = r\<lparr>r_high_sending := True, r_high_send_more := False\<rparr>;
            sent = deliver_all ready (dest_accepts r1 l) l (r_links r1)
        in (Router_send_Next (r1\<lparr>r_links := fst sent, r_high_sending := False\<rparr>), snd sent))"

text \<open>One round of the loop of \<open>trigger_cb\<close>.\<close>

definition hop_down :: "Router \<Rightarrow> l_data_pdu \<Rightarrow> l_data_pdu" where
  "hop_down r l = (if l_hopcount l < 7 \<or> \<not> r_force_broadcast r then l\<lparr>l_hopcount := l_hopcount l - 1\<rparr> else l)"

definition route :: "(nat \<Rightarrow> bool) \<Rightarrow> nat \<Rightarrow> l_data_pdu \<Rightarrow> Router \<Rightarrow> r_result" where
  "route ready now l r =
     (if l_hopcount l = 0 then (r, [])
      else
        let l1 = hop_down r l
        in case L_Data_ToPacket (l1\<lparr>l_repeated := True\<rparr>) of
             None \<Rightarrow> (r, [Router_abort])
           | Some d \<Rightarrow>
               if l_repeated l \<and> d \<in> set (map fst (r_ignore r)) then (r, [])
               else
                 let l2 = l1\<lparr>l_repeated := False\<rparr>;
                     l3 = (if l_AddrType l2 = IndividualAddress \<and> l_dest l2 = r_addr r
                           then l2\<lparr>l_dest := 0\<rparr> else l2)
                 in Router_send_L_Data ready l3
                      (r\<lparr>r_ignore := r_ignore r @ [(d, now + 1000000)], r_low_send_more := False\<rparr>))"

definition monitor_copies :: "l_data_pdu \<Rightarrow> Router \<Rightarrow> r_out list" where
  "monitor_copies l r =
     (if r_vbusmonitor r = [] then []
      else case L_Data_ToPacket l of
             None \<Rightarrow> [Router_abort]
           | Some d \<Rightarrow> map (\<lambda>cb. VMonitor cb d) (r_vbusmonitor r))"

fun trigger_loop :: "(nat \<Rightarrow> bool) \<Rightarrow> nat \<Rightarrow> l_data_pdu list \<Rightarrow> Router \<Rightarrow> r_result" where
  "trigger_loop ready now [] r = (r\<lparr>r_buf := []\<rparr>, [])"
| "trigger_loop ready now (l # ls) r =
     (if \<not> r_low_send_more r then (r\<lparr>r_buf := l # ls\<rparr>, [])
      else
        let os = monitor_copies l r; (r1, o1) = route ready now l r
        in if Router_abort \<in> set os then (r, os)
           else if Router_abort \<in> set o1 then (r1, os @ o1)
           else (fst (trigger_loop ready now ls r1), os @ o1 @ snd (trigger_loop ready now ls r1)))"

text \<open>The scan at the end of \<open>trigger_cb\<close>, which erases up to the first entry that is still valid.\<close>

definition prune_ignore :: "nat \<Rightarrow> (carray \<times> nat) list \<Rightarrow> (carray \<times> nat) list" where
  "prune_ignore tm xs = (case dropWhile (\<lambda>(d, end). end < tm) xs of [] \<Rightarrow> xs | y # ys \<Rightarrow> y # ys)"

definition trigger_cb :: "(nat \<Rightarrow> bool) \<Rightarrow> nat \<Rightarrow> Router \<Rightarrow> r_result" where
  "trigger_cb ready now r =
     (let (r1, os) = trigger_loop ready now (r_buf r) (r\<lparr>r_trigger := False\<rparr>)
      in (r1\<lparr>r_ignore := prune_ignore now (r_ignore r1)\<rparr>, os))"

definition mtrigger_cb :: "Router \<Rightarrow> r_result" where
  "mtrigger_cb r =
     (r\<lparr>r_mbuf := [], r_mtrigger := False\<rparr>,
      collect (\<lambda>b. map (\<lambda>cb. Monitor cb b) (r_busmonitor r)) (r_mbuf r))"

section \<open>Histories\<close>

datatype r_event =
    R_recv nat l_data_pdu
  | R_monitor l_busmonitor_pdu
  | R_link nat link_event
  | R_trigger "nat \<Rightarrow> bool" nat
  | R_mtrigger
  | R_state_trigger
  | R_start
  | R_stop
  | R_start_timer
  | R_register nat LinkConnect bool
  | R_unregister nat
  | R_client_addr
  | R_release eibaddr
  | R_busmonitor nat
  | R_vbusmonitor nat
  | R_no_busmonitor nat
  | R_no_vbusmonitor nat

fun r_step :: "Router \<Rightarrow> r_event \<Rightarrow> r_result" where
  "r_step r (R_recv i l) = (Router_recv_L_Data l i r, [])"
| "r_step r (R_monitor b) = (queue_L_Busmonitor b r, [])"
| "r_step r (R_link i e) = link_call i (\<lambda>c. link_step c e) r"
| "r_step r (R_trigger ready now) = (if r_trigger r then trigger_cb ready now r else (r, []))"
| "r_step r R_mtrigger = (if r_mtrigger r then mtrigger_cb r else (r, []))"
| "r_step r R_state_trigger = (if r_state_trigger r then state_trigger_cb r else (r, []))"
| "r_step r R_start = Router_start r"
| "r_step r R_stop = Router_stop r"
| "r_step r R_start_timer =
     (if r_start_timer r then start_timer_cb (r\<lparr>r_start_timer := False\<rparr>) else (r, []))"
| "r_step r (R_register i c transient) = snd (registerLink i c transient r)"
| "r_step r (R_unregister i) = (snd (unregisterLink i r), [])"
| "r_step r R_client_addr = (snd (get_client_addr r), [])"
| "r_step r (R_release a) = (release_client_addr a r, [])"
| "r_step r (R_busmonitor cb) = (snd (registerBusmonitor cb r), [])"
| "r_step r (R_vbusmonitor cb) = (snd (registerVBusmonitor cb r), [])"
| "r_step r (R_no_busmonitor cb) = (snd (deregisterBusmonitor cb r), [])"
| "r_step r (R_no_vbusmonitor cb) = (snd (deregisterVBusmonitor cb r), [])"

end
