(* ===== verification/Router_Delivery.thy ===== *)
theory Router_Delivery
  imports Router
begin

text \<open>
  What the router does with a telegram: which links receive it and in which form, how the hop count bounds
  forwarding, how repetitions are recognised, and how addresses are learned and allocated.
\<close>

section \<open>Telegrams on the wire\<close>

text \<open>The telegrams \<open>ToPacket\<close> can encode.\<close>

definition encodable :: "l_data_pdu \<Rightarrow> bool" where
  "encodable l \<longleftrightarrow> 1 \<le> length (l_data l) \<and> length (l_data l) \<le> 0xff \<and> l_hopcount l AND 0xf8 = 0"

lemma ToPacket_encodable: "encodable l \<longleftrightarrow> (\<exists>d. L_Data_ToPacket l = Some d)"
  by (auto simp: encodable_def L_Data_ToPacket_def Let_def)

lemma encodable_update [simp]:
  "encodable (l\<lparr>l_repeated := b\<rparr>) = encodable l" "encodable (l\<lparr>l_dest := a\<rparr>) = encodable l"
  "encodable (l\<lparr>l_source := a\<rparr>) = encodable l"
  by (simp_all add: encodable_def)

lemma hop_bound: "h AND 0xf8 = 0 \<longleftrightarrow> unat h \<le> 7" for h :: byte
proof -
  have "h AND 0xf8 = 0 \<longleftrightarrow> drop_bit 3 h = 0" by (simp add: byte_bits)
  also have "\<dots> \<longleftrightarrow> unat (drop_bit 3 h) = 0" by (simp add: unat_eq_0)
  also have "unat (drop_bit 3 h) = unat h div 8" by (simp add: drop_bit_eq_div unat_div_distrib)
  finally show ?thesis by (simp add: div_eq_0_iff) linarith
qed

lemma hop_pred: "h \<noteq> 0 \<Longrightarrow> unat (h - 1) = unat h - 1" for h :: byte
  by (simp add: unat_sub word_le_nat_alt unat_eq_0 Suc_le_eq unat_gt_0)

lemma hop_down_encodable: "encodable l \<Longrightarrow> l_hopcount l \<noteq> 0 \<Longrightarrow> encodable (hop_down r l)"
  by (auto simp: encodable_def hop_down_def hop_bound hop_pred)

lemma hop_down_fields [simp]:
  "l_source (hop_down r l) = l_source l" "l_dest (hop_down r l) = l_dest l"
  "l_AddrType (hop_down r l) = l_AddrType l" "hop_down r (l\<lparr>l_repeated := b\<rparr>) = (hop_down r l)\<lparr>l_repeated := b\<rparr>"
  by (simp_all add: hop_down_def)

section \<open>Delivery\<close>

lemma comprehension_map_filter:
  "concat (map (\<lambda>(i, c). if P c then [(i, y)] else []) xs) = map (\<lambda>(i, c). (i, y)) (filter (\<lambda>(i, c). P c) xs)"
  by (induction xs) auto


text \<open>The telegrams handed to drivers, and the form in which the router forwards one.\<close>

fun sent_to :: "r_out \<Rightarrow> (nat \<times> l_data_pdu) list" where
  "sent_to (To i (Driver_send l)) = [(i, l)]"
| "sent_to _ = []"

definition forwarded :: "Router \<Rightarrow> l_data_pdu \<Rightarrow> l_data_pdu" where
  "forwarded r l =
     (let l1 = (hop_down r l)\<lparr>l_repeated := False\<rparr>
      in if l_AddrType l = IndividualAddress \<and> l_dest l = r_addr r then l1\<lparr>l_dest := 0\<rparr> else l1)"

lemma hand_over_sends:
  assumes "c_state c = L_up"
  shows "collect sent_to (snd (hand_over ready l i c)) = (if is_server (c_driver c) then [] else [(i, l)])"
    and "Router_abort \<notin> set (snd (hand_over ready l i c))"
  using assms by (simp_all add: hand_over_def LinkConnect_send_L_Data_def Let_def)

lemma deliver_one_sends:
  assumes "c_state c = L_up \<Longrightarrow> c_send_more c"
  shows "collect sent_to (snd (deliver_one ready acc l i c)) =
      (if c_state c = L_up \<and> \<not> link_hasAddress c (l_source l) \<and> acc c \<and> \<not> is_server (c_driver c)
       then [(i, l)] else [])"
  using assms by (simp add: deliver_one_def hand_over_sends)

lemma deliver_sends:
  assumes "links_ready ls"
  shows "collect sent_to (snd (deliver_all ready acc l ls)) =
      map (\<lambda>(i, c). (i, l))
        (filter (\<lambda>(i, c). c_state c = L_up \<and> \<not> link_hasAddress c (l_source l) \<and> acc c \<and> \<not> is_server (c_driver c)) ls)"
  using assms
proof (induction ls)
  case (Cons x ls)
  obtain i c where x: "x = (i, c)" by force
  from Cons.prems have "c_state c = L_up \<Longrightarrow> c_send_more c" "links_ready ls"
    by (simp_all add: x links_ready_def)
  with Cons.IH show ?case by (simp add: x deliver_one_sends)
qed simp

lemma deliver_safe: "Router_abort \<notin> set (snd (deliver_all ready acc l ls))"
  by (induction ready acc l ls rule: deliver_all.induct) (auto simp: deliver_one_def hand_over_sends)

lemma deliver_ready: "links_ready ls \<Longrightarrow> Internal_error j \<notin> set (snd (deliver_all ready acc l ls))"
proof (induction ready acc l ls rule: deliver_all.induct)
  case (2 ready acc l i c ls)
  have "Internal_error j \<notin> set (snd (hand_over ready l i c))"
    by (auto simp: hand_over_def LinkConnect_send_L_Data_def Let_def)
  with 2 show ?case by (auto simp: deliver_one_def links_ready_def)
qed simp

text \<open>When the router takes a telegram from its queue and does not drop it.\<close>

definition wire_form :: "Router \<Rightarrow> l_data_pdu \<Rightarrow> carray" where
  "wire_form r l = the (L_Data_ToPacket ((hop_down r l)\<lparr>l_repeated := True\<rparr>))"

definition passes :: "Router \<Rightarrow> l_data_pdu \<Rightarrow> bool" where
  "passes r l \<longleftrightarrow> encodable l \<and> l_hopcount l \<noteq> 0 \<and> \<not> (l_repeated l \<and> wire_form r l \<in> set (map fst (r_ignore r)))"

lemma wire_form_Some: "encodable l \<Longrightarrow> l_hopcount l \<noteq> 0 \<Longrightarrow>
    L_Data_ToPacket ((hop_down r l)\<lparr>l_repeated := True\<rparr>) = Some (wire_form r l)"
  using hop_down_encodable [of l r] by (auto simp: wire_form_def ToPacket_encodable [symmetric] dest: iffD1 [OF ToPacket_encodable])

lemma route_passes:
  assumes "passes r l"
  shows "route ready now l r = Router_send_L_Data ready (forwarded r l)
      (r\<lparr>r_ignore := r_ignore r @ [(wire_form r l, now + 1000000)], r_low_send_more := False\<rparr>)"
  using assms wire_form_Some [of l r]
  by (auto simp: route_def passes_def forwarded_def Let_def)

lemma route_drops:
  assumes "encodable l" and "\<not> passes r l"
  shows "route ready now l r = (r, [])"
  using assms wire_form_Some [of l r]
  by (auto simp: route_def passes_def Let_def)

lemma dest_accepts_flags [simp]:
  "dest_accepts (r\<lparr>r_high_sending := x, r_high_send_more := y\<rparr>) = dest_accepts r"
  "dest_accepts (r\<lparr>r_ignore := z, r_low_send_more := y\<rparr>) = dest_accepts r"
  by (simp_all add: fun_eq_iff dest_accepts_def dest_found_def)

lemma Router_send_sends:
  assumes "links_ready (r_links r)" and "r_high_send_more r"
  shows "collect sent_to (snd (Router_send_L_Data ready l r)) =
      map (\<lambda>(i, c). (i, l)) (filter (\<lambda>(i, c). c_state c = L_up \<and> \<not> link_hasAddress c (l_source l) \<and>
        dest_accepts r l c \<and> \<not> is_server (c_driver c)) (r_links r))"
  using assms by (simp add: Router_send_L_Data_def Let_def deliver_sends)

text \<open>The router is about to handle the one telegram in its queue.\<close>

definition about_to_route :: "l_data_pdu \<Rightarrow> Router \<Rightarrow> bool" where
  "about_to_route l r \<longleftrightarrow>
     r_trigger r \<and> r_low_send_more r \<and> r_high_send_more r \<and> links_ready (r_links r) \<and>
     r_buf r = [l] \<and> encodable l"

lemma monitor_copies_no_abort: "encodable l \<Longrightarrow> Router_abort \<notin> set (monitor_copies l r)"
  by (auto simp: monitor_copies_def ToPacket_encodable)

lemma monitor_copies_sends [simp]: "collect sent_to (monitor_copies l r) = []"
  by (auto simp: monitor_copies_def collect_def split: option.splits)

lemma Router_send_no_abort: "r_high_send_more r \<Longrightarrow> Router_abort \<notin> set (snd (Router_send_L_Data ready l r))"
  by (simp add: Router_send_L_Data_def Let_def deliver_safe)

lemma trigger_loop_single:
  assumes "r_low_send_more r" and "r_high_send_more r" and "encodable l"
  shows "trigger_loop ready now [l] r =
    ((fst (route ready now l r))\<lparr>r_buf := []\<rparr>, monitor_copies l r @ snd (route ready now l r))"
proof -
  have "Router_abort \<notin> set (snd (route ready now l r))"
    using assms by (cases "passes r l") (simp_all add: route_passes route_drops Router_send_no_abort)
  with assms show ?thesis
    by (simp add: Let_def case_prod_beta monitor_copies_no_abort)
qed

lemma trigger_sends:
  assumes "about_to_route l r"
  shows "collect sent_to (snd (r_step r (R_trigger ready now))) =
      (if passes r l
       then map (\<lambda>(i, c). (i, forwarded r l))
         (filter (\<lambda>(i, c). c_state c = L_up \<and> \<not> link_hasAddress c (l_source l) \<and>
            dest_accepts r (forwarded r l) c \<and> \<not> is_server (c_driver c)) (r_links r))
       else [])"
proof -
  let ?r = "r\<lparr>r_trigger := False\<rparr>"
  from assms have a: "r_low_send_more ?r" "r_high_send_more ?r" "encodable l" "links_ready (r_links ?r)"
    by (simp_all add: about_to_route_def)
  have p: "passes ?r l = passes r l" "forwarded ?r l = forwarded r l" "dest_accepts ?r = dest_accepts r"
    "wire_form ?r l = wire_form r l" "l_source (forwarded r l) = l_source l"
    by (simp_all add: passes_def forwarded_def wire_form_def hop_down_def dest_accepts_def dest_found_def fun_eq_iff Let_def)
  from assms show ?thesis
    by (simp add: about_to_route_def trigger_cb_def Let_def case_prod_beta
        trigger_loop_single [OF a(1-3)] route_passes route_drops p Router_send_sends a del: trigger_loop.simps)
qed

section \<open>Properties of delivery\<close>

text \<open>
  \<^bold>\<open>C11\<close>: a group telegram that the router takes from its queue (neither exhausted nor a repetition, and
  not marked for forced broadcast) goes, with its hop count lowered by one and the repeat flag cleared, to
  exactly the links that are up, accept the group address, and are not where its source address is; to
  each of them once, in the order of the links.
\<close>

theorem router_group_delivery:
  assumes "about_to_route l r" and "passes r l" and "l_AddrType l = GroupAddress"
    and "l_hopcount l < 7 \<or> \<not> r_force_broadcast r"
  shows "collect sent_to (snd (r_step r (R_trigger ready now))) =
    [(i, l\<lparr>l_hopcount := l_hopcount l - 1, l_repeated := False\<rparr>). (i, c) \<leftarrow> r_links r,
      c_state c = L_up \<and> link_checkGroupAddress c (l_dest l) \<and> \<not> link_hasAddress c (l_source l)]"
proof -
  let ?l = "l\<lparr>l_hopcount := l_hopcount l - 1, l_repeated := False\<rparr>"
  have f: "forwarded r l = ?l" using assms(3,4) by (auto simp: forwarded_def hop_down_def Let_def)
  have "unat (l_hopcount l - 1) \<le> 6"
    using assms(2) by (auto simp: passes_def encodable_def hop_bound hop_pred)
  then have h: "l_hopcount l - 1 \<noteq> 7" by auto
  have "\<not> is_server (c_driver c)" if "link_checkGroupAddress c (l_dest l)" for c
    using that by (cases "c_driver c") (simp_all add: link_checkGroupAddress_def)
  then have "(c_state c = L_up \<and> \<not> link_hasAddress c (l_source l) \<and> dest_accepts r ?l c \<and> \<not> is_server (c_driver c)) =
      (c_state c = L_up \<and> link_checkGroupAddress c (l_dest l) \<and> \<not> link_hasAddress c (l_source l))" for c
    using assms(3) h by (auto simp: dest_accepts_def group_accepts_def)
  then show ?thesis
    using assms(2) by (simp add: trigger_sends [OF assms(1)] f comprehension_map_filter del: r_step.simps)
qed

text \<open>A router with two bus links and a client, the first bus having seen one address.\<close>

definition sample_router :: "l_data_pdu \<Rightarrow> Router" where
  "sample_router l =
     (Router_new 0x1001 0x10f0 4 True 0)\<lparr>
       r_links := [(1, (LinkConnect_new (BusDriver (\<lambda>a. a = 0x1101)) 0 0)\<lparr>c_state := L_up\<rparr>),
         (2, (LinkConnect_new (BusDriver (\<lambda>a. False)) 0 0)\<lparr>c_state := L_up\<rparr>),
         (3, (LinkConnect_new (LineDriver 0x10f0) 0 0)\<lparr>c_state := L_up, c_addr := 0x10f0\<rparr>)],
       r_want_up := True, r_some_running := True, r_all_running := True, r_running_signal := True,
       r_is_started := True, r_low_send_more := True, r_high_send_more := True, r_trigger := True,
       r_buf := [l]\<rparr>"

lemmas sample_simps = sample_router_def Router_new_def LinkConnect_new_def L_Data_new_def about_to_route_def
  passes_def encodable_def links_ready_def link_hasAddress_def link_checkAddress_def link_checkGroupAddress_def

theorem router_group_delivery_witness:
  "collect sent_to (snd (r_step (sample_router (L_Data_new\<lparr>l_AddrType := GroupAddress, l_source := 0x1101, l_dest := 0x0a03, l_hopcount := 6,
      l_data := [0x00, 0x81]\<rparr>)) (R_trigger (\<lambda>i. True) 0))) =
   [(2, L_Data_new\<lparr>l_AddrType := GroupAddress, l_source := 0x1101, l_dest := 0x0a03, l_hopcount := 5, l_data := [0x00, 0x81]\<rparr>),
    (3, L_Data_new\<lparr>l_AddrType := GroupAddress, l_source := 0x1101, l_dest := 0x0a03, l_hopcount := 5, l_data := [0x00, 0x81]\<rparr>)]"
  using router_group_delivery [of "L_Data_new\<lparr>l_AddrType := GroupAddress, l_source := 0x1101, l_dest := 0x0a03, l_hopcount := 6,
      l_data := [0x00, 0x81]\<rparr>" "sample_router (L_Data_new\<lparr>l_AddrType := GroupAddress, l_source := 0x1101, l_dest := 0x0a03, l_hopcount := 6,
      l_data := [0x00, 0x81]\<rparr>)" "\<lambda>i. True" 0]
  by (simp add: sample_simps del: r_step.simps)



text \<open>
  With forced broadcasts, a telegram with hop count 7 to an individual address that no link has seen
  is sent to no link at all, because of the precedence of \<open>?:\<close> in the condition; the documentation
  promises that it is sent to every link.
\<close>

theorem router_broadcast_lost:
  assumes "about_to_route l r" and "l_AddrType l = IndividualAddress" and "l_hopcount l = 7"
    and "r_force_broadcast r" and "l_dest l \<noteq> r_addr r"
    and "list_all (\<lambda>(i, c). \<not> link_hasAddress c (l_dest l)) (r_links r)"
  shows "collect sent_to (snd (r_step r (R_trigger ready now))) = []"
proof -
  have f: "l_dest (forwarded r l) = l_dest l" "l_hopcount (forwarded r l) = 7"
    "l_AddrType (forwarded r l) = IndividualAddress"
    using assms(2-5) by (simp_all add: forwarded_def hop_down_def Let_def)
  then have "\<not> dest_accepts r (forwarded r l) c" if "\<not> link_hasAddress c (l_dest l)" for c
    using that by (simp add: dest_accepts_def individual_accepts_def)
  with assms(6) have "filter (\<lambda>(i, c). c_state c = L_up \<and> \<not> link_hasAddress c (l_source l) \<and>
      dest_accepts r (forwarded r l) c \<and> \<not> is_server (c_driver c)) (r_links r) = []"
    by (auto simp: filter_empty_conv list_all_iff)
  then show ?thesis by (simp only: trigger_sends [OF assms(1)] if_cancel list.map)
qed

theorem router_broadcast_lost_witness:
  "collect sent_to (snd (r_step (sample_router (L_Data_new\<lparr>l_AddrType := IndividualAddress, l_source := 0x10f0,
      l_dest := 0x1205, l_hopcount := 7, l_data := [0x00, 0x81]\<rparr>)) (R_trigger (\<lambda>i. True) 0))) = []"
  by (rule router_broadcast_lost [where l = "L_Data_new\<lparr>l_AddrType := IndividualAddress, l_source := 0x10f0,
      l_dest := 0x1205, l_hopcount := 7, l_data := [0x00, 0x81]\<rparr>"]) (simp_all add: sample_simps)

section \<open>Hop counts\<close>

text \<open>
  A telegram that is handed on from router to router, whatever states the routers are in, with the number
  of routers that forwarded it.
\<close>

inductive relayed :: "l_data_pdu \<Rightarrow> l_data_pdu \<Rightarrow> nat \<Rightarrow> bool" where
  relayed_start: "relayed l l 0"
| relayed_hop: "relayed l l' n \<Longrightarrow> \<not> r_force_broadcast r \<Longrightarrow>
    (i, l'') \<in> set (collect sent_to (snd (route ready now l' r))) \<Longrightarrow> relayed l l'' (Suc n)"

lemma hand_over_telegram: "(i, l') \<in> set (collect sent_to (snd (hand_over ready l j c))) \<Longrightarrow> l' = l"
  by (auto simp: hand_over_def LinkConnect_send_L_Data_def Let_def split: if_splits)

lemma deliver_telegram: "(i, l') \<in> set (collect sent_to (snd (deliver_all ready acc l ls))) \<Longrightarrow> l' = l"
  by (induction ready acc l ls rule: deliver_all.induct)
    (auto simp: deliver_one_def dest: hand_over_telegram split: if_splits)

lemma route_telegram:
  assumes "(i, l') \<in> set (collect sent_to (snd (route ready now l r)))"
  shows "l_hopcount l \<noteq> 0 \<and> l' = forwarded r l"
  using assms
  by (auto simp: route_def forwarded_def Let_def Router_send_L_Data_def dest!: deliver_telegram
      split: if_splits option.splits)

lemma forwarded_hop: "\<not> r_force_broadcast r \<Longrightarrow> l_hopcount (forwarded r l) = l_hopcount l - 1"
  by (simp add: forwarded_def hop_down_def Let_def)

text \<open>
  Routing loops die out.  Each router lowers the hop count of what it forwards by one, so that a
  telegram with hop count \<open>h\<close> is forwarded at most \<open>h\<close> times along any path of routers without forced
  broadcasts, in whatever states they are.
\<close>

theorem router_hop_limit:
  assumes "relayed l l' n"
  shows "unat (l_hopcount l') + n = unat (l_hopcount l)"
  using assms
proof (induction rule: relayed.induct)
  case (relayed_hop l l' n r i l'' ready now)
  then have h: "l_hopcount l' \<noteq> 0" and l: "l'' = forwarded r l'" using route_telegram by blast+
  from h have "unat (l_hopcount l') > 0" by (simp add: unat_gt_0)
  with relayed_hop.IH show ?case by (simp add: l forwarded_hop [OF relayed_hop.hyps(2)] hop_pred [OF h])
qed simp

theorem router_hop_limit_witness:
  "unat (l_hopcount (L_Data_new\<lparr>l_AddrType := GroupAddress, l_source := 0x1101, l_dest := 0x0a03, l_hopcount := 5,
      l_data := [0x00, 0x81]\<rparr>)) + 1 =
   unat (l_hopcount (L_Data_new\<lparr>l_AddrType := GroupAddress, l_source := 0x1101, l_dest := 0x0a03, l_hopcount := 6,
      l_data := [0x00, 0x81]\<rparr>))"
proof (rule router_hop_limit)
  let ?l = "L_Data_new\<lparr>l_AddrType := GroupAddress, l_source := 0x1101, l_dest := 0x0a03, l_hopcount := 6,
      l_data := [0x00, 0x81]\<rparr>"
  let ?r = "(sample_router ?l)\<lparr>r_force_broadcast := False\<rparr>"
  have "passes ?r ?l" by (simp add: sample_simps)
  from route_passes [OF this, of "\<lambda>i. True" 0]
  have "(2, ?l\<lparr>l_hopcount := 5\<rparr>) \<in> set (collect sent_to (snd (route (\<lambda>i. True) 0 ?l ?r)))"
    by (simp add: Router_send_sends sample_simps forwarded_def hop_down_def Let_def dest_accepts_def group_accepts_def)
  then show "relayed ?l (L_Data_new\<lparr>l_AddrType := GroupAddress, l_source := 0x1101, l_dest := 0x0a03, l_hopcount := 5,
      l_data := [0x00, 0x81]\<rparr>) 1"
    using relayed_hop [OF relayed_start, of ?r 2 "?l\<lparr>l_hopcount := 5\<rparr>" "\<lambda>i. True" 0 ?l] by (simp add: sample_router_def L_Data_new_def)
qed

section \<open>Repetitions\<close>

lemma Router_send_ignore [simp]: "r_ignore (fst (Router_send_L_Data ready l r)) = r_ignore r"
  by (simp add: Router_send_L_Data_def Let_def Router_send_Next_def RouterLow_send_Next_def)

lemma prune_keeps: "(d, t) \<in> set xs \<Longrightarrow> now \<le> t \<Longrightarrow> (d, t) \<in> set (prune_ignore now xs)"
proof -
  assume "(d, t) \<in> set xs" and "now \<le> t"
  then have "(d, t) \<in> set (dropWhile (\<lambda>(d, end). end < now) xs)"
    by (induction xs) auto
  then show ?thesis using set_dropWhileD by (fastforce simp: prune_ignore_def split: list.splits)
qed

lemma trigger_remembers:
  assumes "about_to_route l r" and "passes r l"
  shows "(wire_form r l, now + 1000000) \<in> set (r_ignore (fst (r_step r (R_trigger ready now))))"
proof -
  let ?r = "r\<lparr>r_trigger := False\<rparr>"
  from assms(1) have a: "r_low_send_more ?r" "r_high_send_more ?r" "encodable l"
    by (simp_all add: about_to_route_def)
  have p: "passes ?r l" "wire_form ?r l = wire_form r l"
    using assms(2) by (simp_all add: passes_def wire_form_def hop_down_def)
  have "(wire_form r l, now + 1000000) \<in> set (r_ignore (fst (trigger_loop ready now [l] ?r)))"
    by (simp add: trigger_loop_single [OF a] route_passes [OF p(1)] p(2) del: trigger_loop.simps)
  with assms(1) show ?thesis
    by (simp add: about_to_route_def trigger_cb_def Let_def case_prod_beta prune_keeps del: trigger_loop.simps)
qed

text \<open>
  A repetition of a telegram the router has just forwarded is recognised and not forwarded again: a
  copy that differs only in the repeat flag, and that the router takes up next, is sent to no link.  The
  time limit of one second plays no role here, since outdated entries are removed only after the queue has
  been handled.
\<close>

theorem router_drops_repetition:
  assumes "about_to_route l r" and "passes r l"
    and "about_to_route (l\<lparr>l_repeated := True\<rparr>) r'"
    and "r_ignore r' = r_ignore (fst (r_step r (R_trigger ready now)))"
    and "r_force_broadcast r' = r_force_broadcast r"
  shows "collect sent_to (snd (r_step r' (R_trigger ready' now'))) = []"
proof -
  have "wire_form r' (l\<lparr>l_repeated := True\<rparr>) = wire_form r l"
    using assms(5) by (simp add: wire_form_def hop_down_def)
  then have "\<not> passes r' (l\<lparr>l_repeated := True\<rparr>)"
    using trigger_remembers [OF assms(1,2), of now ready] unfolding assms(4) [symmetric]
    by (force simp: passes_def)
  then show ?thesis by (simp only: trigger_sends [OF assms(3)] if_False)
qed

theorem router_drops_repetition_witness:
  "collect sent_to (snd (r_step
     ((sample_router (L_Data_new\<lparr>l_source := 0x10f0, l_dest := 0x1101, l_hopcount := 6, l_data := [0x00, 0x81],
         l_repeated := True\<rparr>))\<lparr>r_ignore := r_ignore (fst (r_step (sample_router (L_Data_new\<lparr>l_source := 0x10f0,
           l_dest := 0x1101, l_hopcount := 6, l_data := [0x00, 0x81]\<rparr>)) (R_trigger (\<lambda>i. False) 5)))\<rparr>)
     (R_trigger (\<lambda>i. True) 2000006))) = []"
  by (rule router_drops_repetition [where l = "L_Data_new\<lparr>l_source := 0x10f0, l_dest := 0x1101, l_hopcount := 6,
        l_data := [0x00, 0x81]\<rparr>" and r = "sample_router (L_Data_new\<lparr>l_source := 0x10f0, l_dest := 0x1101,
        l_hopcount := 6, l_data := [0x00, 0x81]\<rparr>)" and ready = "\<lambda>i. False" and now = 5])
    (simp_all add: sample_simps del: r_step.simps)

section \<open>Client addresses\<close>

lemma find_SomeD: "find P xs = Some x \<Longrightarrow> x \<in> set xs \<and> P x"
  by (induction xs) (auto split: if_splits)

lemma Router_hasAddress_none:
  "fst (Router_hasAddress r a None) \<longleftrightarrow> a = r_addr r \<or> list_ex (\<lambda>(i, c). link_hasAddress c a) (r_links r)"
proof (cases "find (\<lambda>(i, c). link_hasAddress c a) (r_links r)")
  case None
  then have "\<not> list_ex (\<lambda>(i, c). link_hasAddress c a) (r_links r)"
    by (auto simp: list_ex_iff find_None_iff)
  with None show ?thesis by (simp add: Router_hasAddress_def)
next
  case (Some x)
  with find_SomeD [OF this] show ?thesis by (auto simp: Router_hasAddress_def list_ex_iff split: prod.splits)
qed

text \<open>The scan visits every position of the block once.\<close>

lemma scan_positions:
  assumes "0 < n"
  shows "set (map (\<lambda>i. (p + i) mod n) [1..<n + 1]) = {..<n}"
proof -
  have "k \<in> (\<lambda>i. (p + i) mod n) ` {1..<n + 1}" if "k < n" for k
  proof -
    let ?i = "(k + (n - p mod n)) mod n"
    have "(p + ?i) mod n = (p mod n + (k + (n - p mod n))) mod n" by (simp add: mod_simps)
    also have "p mod n + (k + (n - p mod n)) = k + n" using mod_less_divisor [OF assms, of p] by linarith
    finally have eq: "(p + ?i) mod n = k" using that by simp
    show ?thesis
    proof (cases "?i = 0")
      case True
      with eq have "k = (p + n) mod n" by simp
      with assms show ?thesis by (intro image_eqI [of _ _ n]) auto
    next
      case False
      with eq assms show ?thesis by (intro image_eqI [of _ _ ?i]) (auto simp: Suc_le_eq less_Suc_eq)
    qed
  qed
  with assms show ?thesis by (auto simp del: upt_Suc)
qed

lemma client_address_pos:
  fixes s :: eibaddr
  assumes "unat s + n \<le> 65536" and "p < n"
  shows "unat (s + of_nat p) = unat s + p"
proof -
  have p: "unat (of_nat p :: eibaddr) = p" using assms by (simp add: unat_of_nat)
  then have "unat s + unat (of_nat p :: eibaddr) < 2 ^ LENGTH(16)" using assms by simp
  from iffD1 [OF unat_add_lem this] show ?thesis by (simp add: p)
qed

lemma find_scan:
  assumes "r_client_len r > 0"
  shows "find (client_free r) (map (\<lambda>i. (r_client_pos r + i) mod r_client_len r) [1..<r_client_len r + 1]) = None
      \<longleftrightarrow> (\<forall>pos<r_client_len r. \<not> client_free r pos)"
  and "find (client_free r) (map (\<lambda>i. (r_client_pos r + i) mod r_client_len r) [1..<r_client_len r + 1]) = Some pos
      \<Longrightarrow> pos < r_client_len r \<and> client_free r pos"
  using scan_positions [OF assms, of "r_client_pos r"]
  by (auto simp: find_None_iff simp del: set_map upt_Suc dest!: find_SomeD)

text \<open>
  Dynamic client addresses.  When the block has a free address, the allocation returns an address of
  the block that is not allocated, is not the router's own and is not known on any link, and marks exactly
  that one; releasing it restores the table.  When there is none it returns 0 and changes nothing.
\<close>

theorem client_address_allocation:
  assumes "length (r_client_addrs r) = r_client_len r" and "0 < r_client_len r"
    and "0 < unat (r_client_start r)" and "unat (r_client_start r) + r_client_len r \<le> 65536"
  shows "(if \<exists>pos<r_client_len r. client_free r pos
    then \<exists>pos<r_client_len r. fst (get_client_addr r) = r_client_start r + of_nat pos \<and>
      fst (get_client_addr r) \<noteq> 0 \<and> \<not> r_client_addrs r ! pos \<and>
      fst (get_client_addr r) \<noteq> r_addr r \<and>
      list_all (\<lambda>(i, c). \<not> link_hasAddress c (fst (get_client_addr r))) (r_links r) \<and>
      r_client_addrs (snd (get_client_addr r)) = (r_client_addrs r)[pos := True] \<and>
      r_client_addrs (release_client_addr (fst (get_client_addr r)) (snd (get_client_addr r))) = r_client_addrs r
    else get_client_addr r = (0, r))"
proof (cases "find (client_free r) (map (\<lambda>i. (r_client_pos r + i) mod r_client_len r) [1..<r_client_len r + 1])")
  case None
  then show ?thesis using find_scan(1) [OF assms(2)] by (simp add: get_client_addr_def)
next
  case (Some pos)
  then have pos: "pos < r_client_len r" "client_free r pos" using find_scan(2) [OF assms(2)] by blast+
  let ?a = "r_client_start r + of_nat pos"
  have u: "unat ?a = unat (r_client_start r) + pos" by (rule client_address_pos [OF assms(4) pos(1)])
  then have "?a \<noteq> 0" "\<not> ?a < r_client_start r" using assms(3) by (auto simp: word_less_nat_alt)
  moreover from pos have "list_all (\<lambda>(i, c). \<not> link_hasAddress c ?a) (r_links r)"
    by (auto simp: client_free_def Router_hasAddress_none Let_def list_all_iff list_ex_iff)
  moreover from pos have "(r_client_addrs r)[pos := False] = r_client_addrs r"
    by (simp add: client_free_def list_update_same_conv assms(1))
  ultimately show ?thesis
    using pos Some assms(1) u
    by (auto simp: get_client_addr_def release_client_addr_def client_free_def Let_def)
qed

theorem client_address_allocation_witness:
  "fst (get_client_addr (Router_new 0x1001 0x10f0 4 False 0)) \<noteq> 0"
proof -
  let ?r = "Router_new 0x1001 0x10f0 4 False 0"
  have "client_free ?r 1" by (simp add: client_free_def Router_hasAddress_def Router_new_def Let_def)
  then have "\<exists>pos<r_client_len ?r. client_free ?r pos" by (intro exI [of _ 1]) (simp add: Router_new_def)
  with client_address_allocation [of ?r] show ?thesis by (auto simp: Router_new_def)
qed

end
