(* ===== verification/Router_Safety.thy ===== *)
theory Router_Safety
  imports Router_Delivery
begin

text \<open>
  The router and its links together: in every history in which the drivers follow their protocol, no
  assertion fails, no link is sent a telegram it cannot take, no wake-up is lost, and every address is
  known on at most one link; and a link that fails at the wrong moment blocks the router for good.
\<close>

section \<open>Histories with well-behaved drivers\<close>

fun tell :: "(nat \<Rightarrow> drv_state) \<Rightarrow> r_out \<Rightarrow> nat \<Rightarrow> drv_state" where
  "tell D (To i x) = D(i := drv_told (D i) x)"
| "tell D _ = D"

fun drv_event :: "(nat \<Rightarrow> drv_state) \<Rightarrow> r_event \<Rightarrow> nat \<Rightarrow> drv_state" where
  "drv_event D (R_link i e) = D(i := drv_report (D i) e)"
| "drv_event D (R_register i c transient) = D(i := D_off)"
| "drv_event D _ = D"

definition drv_after :: "(nat \<Rightarrow> drv_state) \<Rightarrow> Router \<Rightarrow> r_event \<Rightarrow> nat \<Rightarrow> drv_state" where
  "drv_after D r e = foldl tell (drv_event D e) (snd (r_step r e))"

text \<open>
  What the environment may do: links receive telegrams that can be encoded; drivers report as
  \<open>permitted\<close> says and ask for the next telegram only after they were given one; the router is started once;
  a new link is down and has no address that is known already.
\<close>

fun driver_may :: "drv_state \<Rightarrow> LinkConnect \<Rightarrow> link_event \<Rightarrow> bool" where
  "driver_may d c Ev_next = (\<not> c_send_more c)"
| "driver_may d c Ev_up = False"
| "driver_may d c Ev_down = False"
| "driver_may d c (Ev_send l) = False"
| "driver_may d c e = permitted c d e"

definition disjoint_addresses :: "LinkConnect \<Rightarrow> LinkConnect \<Rightarrow> bool" where
  "disjoint_addresses c d \<longleftrightarrow> (\<forall>a. \<not> (link_hasAddress c a \<and> link_hasAddress d a))"

fun allowed :: "(nat \<Rightarrow> drv_state) \<Rightarrow> Router \<Rightarrow> r_event \<Rightarrow> bool" where
  "allowed D r (R_recv i l) = encodable l"
| "allowed D r (R_link i e) = (\<forall>c. map_of (r_links r) i = Some c \<longrightarrow> driver_may (D i) c e)"
| "allowed D r R_start = (r_seq r = 1)"
| "allowed D r (R_register i c transient) =
     (map_of (r_links r) i = None \<and> c_state c = L_down \<and> c_send_more c \<and>
      list_all (\<lambda>(j, d). disjoint_addresses c d) (r_links r))"
| "allowed D r e = True"

inductive router_reach :: "Router \<Rightarrow> (nat \<Rightarrow> drv_state) \<Rightarrow> bool" where
  router_init: "router_reach (Router_new addr start len force_broadcast timeout) (\<lambda>i. D_off)"
| router_event: "router_reach r D \<Longrightarrow> allowed D r e \<Longrightarrow> router_reach (fst (r_step r e)) (drv_after D r e)"

section \<open>The invariant\<close>

definition link_ok :: "drv_state \<Rightarrow> LinkConnect \<Rightarrow> bool" where
  "link_ok d c \<longleftrightarrow> d \<in> drv_ok (c_state c) \<and> startable c"

definition links_ok :: "(nat \<Rightarrow> drv_state) \<Rightarrow> (nat \<times> LinkConnect) list \<Rightarrow> bool" where
  "links_ok D ls = list_all (\<lambda>(i, c). link_ok (D i) c) ls"

definition all_more :: "(nat \<times> LinkConnect) list \<Rightarrow> bool" where
  "all_more ls = list_all (\<lambda>(i, c). c_send_more c) ls"

definition one_owner :: "(nat \<times> LinkConnect) list \<Rightarrow> bool" where
  "one_owner ls \<longleftrightarrow> (\<forall>(i, c)\<in>set ls. \<forall>(j, d)\<in>set ls. i \<noteq> j \<longrightarrow> disjoint_addresses c d)"

text \<open>A router that was never started.\<close>

definition fresh :: "Router \<Rightarrow> bool" where
  "fresh r \<longleftrightarrow> \<not> r_want_up r \<and> \<not> r_high_send_more r \<and> \<not> r_is_started r \<and>
     list_all (\<lambda>(i, c). c_state c = L_down \<and> c_send_more c) (r_links r)"

definition base_inv :: "(nat \<Rightarrow> drv_state) \<Rightarrow> Router \<Rightarrow> bool" where
  "base_inv D r \<longleftrightarrow>
     distinct (map fst (r_links r)) \<and> links_ok D (r_links r) \<and> one_owner (r_links r) \<and>
     \<not> r_high_sending r \<and> (r_low_send_more r \<longrightarrow> r_high_send_more r) \<and>
     (r_want_up r \<and> r_high_send_more r \<longrightarrow> links_ready (r_links r)) \<and>
     (r_want_up r \<and> \<not> r_is_started r \<longrightarrow> \<not> r_high_send_more r \<and> all_more (r_links r)) \<and>
     (r_seq r \<le> 1 \<longrightarrow> fresh r)"

text \<open>A telegram that waits and may be sent has a trigger pending.\<close>

definition awake :: "Router \<Rightarrow> bool" where
  "awake r \<longleftrightarrow>
     list_all encodable (r_buf r) \<and>
     (r_low_send_more r \<and> r_running_signal r \<and> r_buf r \<noteq> [] \<longrightarrow> r_trigger r)"

text \<open>No assertion fails, and no link is found unready while the router runs.\<close>

definition harmless :: "Router \<Rightarrow> r_out list \<Rightarrow> bool" where
  "harmless r os \<longleftrightarrow> Router_abort \<notin> set os \<and> (r_want_up r \<longrightarrow> (\<forall>i. Internal_error i \<notin> set os))"

section \<open>Links in the list\<close>

lemma set_link_keys [simp]: "map fst (set_link i c ls) = map fst ls"
  by (induction ls) (auto simp: set_link_def)

lemma set_link_cases: "(j, d) \<in> set (set_link i c ls) \<Longrightarrow> (j = i \<and> d = c) \<or> (j \<noteq> i \<and> (j, d) \<in> set ls)"
  by (auto simp: set_link_def split: if_splits)

lemma list_all_set_link_weaken:
  assumes "list_all P ls" and "Q (i, c)" and "\<And>j d. (j, d) \<in> set ls \<Longrightarrow> j \<noteq> i \<Longrightarrow> P (j, d) \<Longrightarrow> Q (j, d)"
  shows "list_all Q (set_link i c ls)"
  using assms by (fastforce simp: list_all_iff dest: set_link_cases)

lemma list_all_set_link:
  assumes "list_all (\<lambda>(j, c). P c) ls" and "map_of ls i = Some c" and "P c \<Longrightarrow> P c'"
  shows "list_all (\<lambda>(j, c). P c) (set_link i c' ls)"
  using assms(1,3) map_of_SomeD [OF assms(2)] by (fastforce simp: list_all_iff dest: set_link_cases)

lemma links_ok_set_link:
  "links_ok D ls \<Longrightarrow> link_ok d c \<Longrightarrow> links_ok (D(i := d)) (set_link i c ls)"
  unfolding links_ok_def by (erule list_all_set_link_weaken) auto

lemma links_ok_other: "i \<notin> fst ` set ls \<Longrightarrow> links_ok (D(i := d)) ls = links_ok D ls"
  by (induction ls) (auto simp: links_ok_def)

lemma one_ownerD: "one_owner ls \<Longrightarrow> (i, c) \<in> set ls \<Longrightarrow> (j, d) \<in> set ls \<Longrightarrow> i \<noteq> j \<Longrightarrow> disjoint_addresses c d"
  by (fastforce simp: one_owner_def)

lemma one_owner_set_link:
  assumes "one_owner ls" and "map_of ls i = Some c" and "c_driver c' = c_driver c"
  shows "one_owner (set_link i c' ls)"
proof -
  have d: "disjoint_addresses c' = disjoint_addresses c" "disjoint_addresses d c' = disjoint_addresses d c" for d
    using assms(3) by (simp_all add: fun_eq_iff disjoint_addresses_def link_hasAddress_def)
  from assms(1) map_of_SomeD [OF assms(2)] show ?thesis
    by (fastforce simp: one_owner_def d dest!: set_link_cases)
qed

section \<open>One link changes\<close>

text \<open>A change of a link that the router's bookkeeping survives.\<close>

definition link_upd :: "LinkConnect \<Rightarrow> LinkConnect \<Rightarrow> bool" where
  "link_upd c c' \<longleftrightarrow>
     (c_send_more c \<longrightarrow> c_send_more c') \<and>
     ((c_state c = L_up \<longrightarrow> c_send_more c) \<longrightarrow> (c_state c' = L_up \<longrightarrow> c_send_more c')) \<and>
     c_driver c' = c_driver c"

lemma base_inv_set_link_owner:
  assumes "base_inv D r" and "map_of (r_links r) i = Some c" and "link_ok d' c'"
    and "c_send_more c \<Longrightarrow> c_send_more c'"
    and "(c_state c = L_up \<Longrightarrow> c_send_more c) \<Longrightarrow> c_state c' = L_up \<Longrightarrow> c_send_more c'"
    and "one_owner (set_link i c' (r_links r))" and "r_seq r \<le> 1 \<Longrightarrow> c_state c' = L_down"
  shows "base_inv (D(i := d')) (r\<lparr>r_links := set_link i c' (r_links r)\<rparr>)"
proof -
  have "links_ready (set_link i c' (r_links r))" if "links_ready (r_links r)"
    using that assms(5) unfolding links_ready_def by (auto intro: list_all_set_link [OF _ assms(2)])
  moreover have "all_more (set_link i c' (r_links r))" if "all_more (r_links r)"
    using that assms(4) unfolding all_more_def by (auto intro: list_all_set_link [OF _ assms(2)])
  moreover have "fresh (r\<lparr>r_links := set_link i c' (r_links r)\<rparr>)" if "fresh r" "r_seq r \<le> 1"
    using that assms(4,7) unfolding fresh_def by (auto intro: list_all_set_link [OF _ assms(2)])
  ultimately show ?thesis
    using assms(1,3,6) by (auto simp: base_inv_def links_ok_set_link)
qed

lemma base_inv_set_link:
  assumes "base_inv D r" and "map_of (r_links r) i = Some c" and "link_ok d' c'" and "link_upd c c'"
    and "r_seq r \<le> 1 \<Longrightarrow> c_state c' = L_down"
  shows "base_inv (D(i := d')) (r\<lparr>r_links := set_link i c' (r_links r)\<rparr>)"
  using assms one_owner_set_link [OF _ assms(2), of c']
  by (intro base_inv_set_link_owner [OF assms(1-3)]) (auto simp: base_inv_def link_upd_def)

lemma base_inv_fields [simp]:
  "base_inv D (r\<lparr>r_linkChanges := x\<rparr>) = base_inv D r" "base_inv D (r\<lparr>r_state_trigger := y\<rparr>) = base_inv D r"
  "base_inv D (r\<lparr>r_all_running := y\<rparr>) = base_inv D r" "base_inv D (r\<lparr>r_some_running := y\<rparr>) = base_inv D r"
  "base_inv D (r\<lparr>r_exitcode := n\<rparr>) = base_inv D r" "base_inv D (r\<lparr>r_start_timer := y\<rparr>) = base_inv D r"
  "base_inv D (r\<lparr>r_trigger := y\<rparr>) = base_inv D r" "base_inv D (r\<lparr>r_buf := b\<rparr>) = base_inv D r"
  "base_inv D (r\<lparr>r_ignore := z\<rparr>) = base_inv D r"
  by (auto simp: base_inv_def fresh_def)

text \<open>The parts of the router's state that its calls on links leave alone.\<close>

definition same_frame :: "Router \<Rightarrow> Router \<Rightarrow> bool" where
  "same_frame r r' \<longleftrightarrow> (\<exists>ls x y. r' = r\<lparr>r_links := ls, r_linkChanges := x, r_state_trigger := y\<rparr> \<and>
     map fst ls = map fst (r_links r))"

lemma same_frame_refl [simp]: "same_frame r r"
  unfolding same_frame_def by (rule exI [of _ "r_links r"], rule exI [of _ "r_linkChanges r"],
      rule exI [of _ "r_state_trigger r"]) simp

lemma same_frame_trans: "same_frame r r' \<Longrightarrow> same_frame r' r'' \<Longrightarrow> same_frame r r''"
  unfolding same_frame_def by force

lemma same_frame_fields:
  assumes "same_frame r r'"
  shows "r_want_up r' = r_want_up r" "r_seq r' = r_seq r" "r_is_started r' = r_is_started r"
    "r_low_send_more r' = r_low_send_more r" "r_high_send_more r' = r_high_send_more r" "r_buf r' = r_buf r"
    "r_trigger r' = r_trigger r" "r_running_signal r' = r_running_signal r" "r_high_sending r' = r_high_sending r"
    "map fst (r_links r') = map fst (r_links r)"
  using assms by (auto simp: same_frame_def)

lemma absorb_frame:
  assumes "list_all control os"
  shows "(\<exists>x y. fst (absorb i os r) = r\<lparr>r_linkChanges := x, r_state_trigger := y\<rparr>) \<and>
    snd (absorb i os r) = map (To i) (filter (\<lambda>x. x \<noteq> LinkStateChanged) os)"
  using assms
proof (induction i os r rule: absorb.induct)
  case (1 i r)
  show ?case
    by (intro conjI exI [of _ "r_linkChanges r"] exI [of _ "r_state_trigger r"]) simp_all
qed (auto simp: linkStateChanged_def)

text \<open>Only drivers are started and stopped.\<close>

fun calm_out :: "r_out \<Rightarrow> bool" where
  "calm_out (To i x) = control x"
| "calm_out _ = False"

lemma calm_link: "list_all control os \<Longrightarrow> list_all calm_out (map (To i) (filter P os))"
  by (induction os) auto

lemma calm_quiet: "list_all calm_out os \<Longrightarrow> harmless r os"
  by (auto simp: harmless_def list_all_iff)

lemma calm_sends: "list_all calm_out os \<Longrightarrow> collect sent_to os = []"
proof (induction os)
  case (Cons x os)
  then have "sent_to x = []" by (induction x rule: sent_to.induct) auto
  with Cons show ?case by simp
qed simp

lemma tell_link:
  "foldl tell D (map (To i) (filter (\<lambda>x. x \<noteq> LinkStateChanged) os)) = D(i := foldl drv_told (D i) os)"
  by (induction os arbitrary: D) auto

lemma link_call_inv:
  assumes "base_inv D r" and "map_of (r_links r) i = Some c" and "f c = (c', os)"
    and "list_all control os"
    and "link_ok (foldl drv_told d os) c'" and "link_upd c c'" and "r_seq r \<le> 1 \<Longrightarrow> c_state c' = L_down"
  shows "base_inv (foldl tell (D(i := d)) (snd (link_call i f r))) (fst (link_call i f r))"
    and "same_frame r (fst (link_call i f r))" and "list_all calm_out (snd (link_call i f r))"
    and "all_more (r_links r) \<Longrightarrow> all_more (r_links (fst (link_call i f r)))"
proof -
  let ?r = "r\<lparr>r_links := set_link i c' (r_links r)\<rparr>"
  have eq: "link_call i f r = absorb i os ?r" using assms(2,3) by (simp add: link_call_def)
  from absorb_frame [OF assms(4), of i ?r] obtain x y where
    a: "fst (absorb i os ?r) = ?r\<lparr>r_linkChanges := x, r_state_trigger := y\<rparr>"
      "snd (absorb i os ?r) = map (To i) (filter (\<lambda>x. x \<noteq> LinkStateChanged) os)"
    by blast
  have "base_inv (D(i := foldl drv_told d os)) ?r"
    using base_inv_set_link [OF assms(1,2,5,6)] assms(7) by blast
  then show "base_inv (foldl tell (D(i := d)) (snd (link_call i f r))) (fst (link_call i f r))"
    unfolding eq a tell_link by simp
  show "same_frame r (fst (link_call i f r))" unfolding eq a same_frame_def by fastforce
  show "list_all calm_out (snd (link_call i f r))" unfolding eq a by (rule calm_link [OF assms(4)])
  show "all_more (r_links r) \<Longrightarrow> all_more (r_links (fst (link_call i f r)))"
    using assms(6) list_all_set_link [OF _ assms(2)] unfolding eq a all_more_def by (simp add: link_upd_def)
qed

text \<open>The calls of \<open>setState\<close> that the router makes.\<close>

lemma link_upd_setState:
  assumes "startable c" and "\<not> invalid_transition (c_state c) new"
  shows "link_upd c (fst (setState c new))" and "startable (fst (setState c new))"
  using assms setState_up [OF assms]
  by (auto simp: link_upd_def setState_ready setState_startable)

lemma link_event_ok:
  assumes "link_ok d c" and "permitted c d e" and "leaves_readiness e"
  shows "link_ok (foldl drv_told (drv_report d e) (snd (link_step c e))) (fst (link_step c e))"
    and "link_upd c (fst (link_step c e))" and "list_all control (snd (link_step c e))"
proof -
  have step: "foldl drv_told (drv_report d e) (snd (link_step c e)) \<in> drv_ok (c_state (fst (link_step c e)))"
      "Link_abort \<notin> set (snd (link_step c e))"
    using drv_ok_step [of d c e] assms by (simp_all add: link_ok_def)
  have sc: "startable c" using assms(1) by (simp add: link_ok_def)
  have "startable (fst (link_step c e)) \<and> link_upd c (fst (link_step c e)) \<and> list_all control (snd (link_step c e))"
  proof (cases e)
    case Ev_timer
    let ?c = "c\<lparr>c_timer := False\<rparr>" and ?c' = "c\<lparr>c_timer := False, c_retries := c_retries c + 1\<rparr>"
    have s: "startable ?c" "startable ?c'" using sc by (simp_all add: startable_def)
    have u: "link_upd c x" if "link_upd ?c x \<or> link_upd ?c' x" for x
      using that by (auto simp: link_upd_def)
    show ?thesis
      using step(2) s sc u link_upd_setState [OF s(1), of L_error] link_upd_setState [OF s(2), of L_going_up]
        setState_control [of ?c L_error] setState_control [of ?c' L_going_up]
      by (auto simp: Ev_timer retry_timer_cb_def LinkConnect_errored_def setState_abort
          invalid_transition_def link_upd_def [of c c] link_upd_def [of c ?c])
  qed (use assms(3) step(2) link_upd_setState [OF sc] setState_control in
      \<open>simp_all add: LinkConnect_started_def LinkConnect_stopped_def LinkConnect_errored_def setState_abort\<close>)
  with step show "link_ok (foldl drv_told (drv_report d e) (snd (link_step c e))) (fst (link_step c e))"
    "link_upd c (fst (link_step c e))" "list_all control (snd (link_step c e))" by (simp_all add: link_ok_def)
qed

section \<open>Loops over the links\<close>

definition fine :: "(nat \<Rightarrow> drv_state) \<Rightarrow> Router \<Rightarrow> r_result \<Rightarrow> bool" where
  "fine D r x \<longleftrightarrow> base_inv (foldl tell D (snd x)) (fst x) \<and> same_frame r (fst x) \<and> list_all calm_out (snd x) \<and>
     (all_more (r_links r) \<longrightarrow> all_more (r_links (fst x)))"

lemma fine_refl [simp]: "fine D r (r, []) = base_inv D r"
  by (simp add: fine_def)

lemma fine_trans:
  assumes "fine D r (r1, o1)" and "fine (foldl tell D o1) r1 (r2, o2)"
  shows "fine D r (r2, o1 @ o2)"
  using assms same_frame_trans by (auto simp: fine_def)

definition keeps :: "(Router \<Rightarrow> bool) \<Rightarrow> (nat \<Rightarrow> Router \<Rightarrow> r_result) \<Rightarrow> bool" where
  "keeps Q f \<longleftrightarrow> (\<forall>i D r. base_inv D r \<and> r_seq r > 1 \<and> Q r \<longrightarrow> fine D r (f i r) \<and> Q (fst (f i r)))"

lemma each_link_keeps:
  assumes "keeps Q f" and "base_inv D r" and "r_seq r > 1" and "Q r"
  shows "fine D r (each_link f is r) \<and> Q (fst (each_link f is r))"
  using assms(2-4)
proof (induction "is" arbitrary: D r)
  case (Cons i "is")
  from assms(1) Cons.prems have f: "fine D r (f i r)" "Q (fst (f i r))" by (simp_all add: keeps_def)
  then have "base_inv (foldl tell D (snd (f i r))) (fst (f i r))" "r_seq (fst (f i r)) > 1"
    using Cons.prems same_frame_fields(2) by (auto simp: fine_def)
  from Cons.IH [OF this f(2)] show ?case
    using fine_trans [of D r "fst (f i r)" "snd (f i r)"] f(1) by simp
qed simp

lemma link_call_down:
  assumes "base_inv D r" and "r_seq r > 1" and "\<And>c. c_state (g c) = c_state c"
    and "\<And>c. startable (g c) = startable c" and "\<And>c x. link_upd (g c) x = link_upd c x"
  shows "fine D r (link_call i (\<lambda>c. setState (g c) L_going_down) r)"
proof (cases "map_of (r_links r) i")
  case None
  with assms(1) show ?thesis by (simp add: link_call_def)
next
  case (Some c)
  have "link_ok (D i) c"
    using assms(1) map_of_SomeD [OF Some] by (auto simp: base_inv_def links_ok_def list_all_iff)
  then have "link_ok (D i) (g c)" by (simp add: link_ok_def assms(3,4))
  note ok = link_event_ok [OF this, of Ev_down, simplified]
  show ?thesis
    using link_call_inv [OF assms(1) Some, of "\<lambda>c. setState (g c) L_going_down" "fst (setState (g c) L_going_down)"
        "snd (setState (g c) L_going_down)" "D i"] ok assms(2,5)
    by (simp add: fine_def)
qed

lemma link_call_up:
  assumes "base_inv D r" and "r_seq r > 1" and "map_of (r_links r) i = Some c"
    and "c_state c \<in> {L_down, L_up, L_going_up, L_wait_retry}"
  shows "fine D r (link_call i (\<lambda>c. setState (c\<lparr>c_seq := n\<rparr>) L_going_up) r)"
proof -
  let ?c = "c\<lparr>c_seq := n\<rparr>"
  have "link_ok (D i) c"
    using assms(1) map_of_SomeD [OF assms(3)] by (auto simp: base_inv_def links_ok_def list_all_iff)
  then have "link_ok (D i) ?c" by (simp add: link_ok_def startable_def)
  note ok = link_event_ok [OF this, of Ev_up, simplified]
  show ?thesis
    using link_call_inv [OF assms(1,3), of "\<lambda>c. setState (c\<lparr>c_seq := n\<rparr>) L_going_up" "fst (setState ?c L_going_up)"
        "snd (setState ?c L_going_up)" "D i"] ok assms(2,4)
    by (simp add: fine_def link_upd_def)
qed

lemma seq_update [simp]:
  "startable (c\<lparr>c_seq := n\<rparr>) = startable c" "link_upd (c\<lparr>c_seq := n\<rparr>) x = link_upd c x"
  by (simp_all add: startable_def link_upd_def)

lemma stop_link_keeps: "keeps (\<lambda>r. True) stop_link"
  unfolding keeps_def stop_link_def by (auto intro: link_call_down split: option.splits)

lemma recheck_link_keeps: "keeps (\<lambda>r. True) recheck_link"
  unfolding keeps_def recheck_link_def by (auto intro: link_call_down [of _ _ "\<lambda>c. c"] split: option.splits)

text \<open>\<open>start_\<close> runs while every link is down or has just been started by it.\<close>

definition starting :: "Router \<Rightarrow> bool" where
  "starting r = list_all (\<lambda>(i, c). c_state c \<in> {L_down, L_going_up}) (r_links r)"

lemma absorb_links: "list_all control os \<Longrightarrow> r_links (fst (absorb i os r)) = r_links r"
  by (induction i os r rule: absorb.induct) (auto simp: linkStateChanged_def)

lemma link_call_links:
  assumes "map_of (r_links r) i = Some c" and "list_all control (snd (f c))"
  shows "r_links (fst (link_call i f r)) = set_link i (fst (f c)) (r_links r)"
  using assms by (simp add: link_call_def absorb_links)

lemma start_link_keeps: "keeps starting start_link"
proof -
  have "fine D r (start_link i r) \<and> starting (fst (start_link i r))"
    if r: "base_inv D r" "r_seq r > 1" "starting r" for i D r
  proof (cases "map_of (r_links r) i")
    case None
    with r show ?thesis by (simp add: start_link_def)
  next
    case (Some c)
    let ?c = "c\<lparr>c_seq := r_seq r\<rparr>"
    have c: "c_state c \<in> {L_down, L_going_up}"
      using r(3) map_of_SomeD [OF Some] by (auto simp: starting_def list_all_iff)
    then have "list_all control (snd (setState ?c L_going_up))"
      by (intro setState_control) (auto simp: invalid_transition_def)
    moreover from c have "c_state (fst (setState ?c L_going_up)) = L_going_up"
      by (auto simp: link_defs)
    ultimately have "starting (fst (link_call i (\<lambda>c. setState (c\<lparr>c_seq := r_seq r\<rparr>) L_going_up) r))"
      using r(3) unfolding starting_def
      by (auto simp: link_call_links [OF Some] intro: list_all_set_link [OF _ Some])
    with r c link_call_up [OF r(1,2) Some] show ?thesis
      by (auto simp: start_link_def Some)
  qed
  then show ?thesis by (auto simp: keeps_def)
qed

lemma link_call_stop:
  assumes "base_inv D r" and "r_seq r > 1" and "map_of (r_links r) i = Some c"
    and "c_state c \<in> {L_up_error, L_going_down_error}"
  shows "fine D r (link_call i LinkConnect_stop r)"
proof -
  have "link_ok (D i) c"
    using assms(1) map_of_SomeD [OF assms(3)] by (auto simp: base_inv_def links_ok_def list_all_iff)
  then have "link_ok (foldl drv_told (D i) [Driver_stop]) c"
    using assms(4) by (cases "D i") (auto simp: link_ok_def)
  then show ?thesis
    using link_call_inv [OF assms(1,3), of LinkConnect_stop c "[Driver_stop]" "D i"] assms(2)
    by (simp add: fine_def LinkConnect_stop_def link_upd_def)
qed

lemma check_link_keeps: "keeps (\<lambda>r. True) check_link"
proof -
  have "fine D r (check_link i r)" if r: "base_inv D r" "r_seq r > 1" for i D r
  proof (cases "map_of (r_links r) i")
    case None
    with r show ?thesis by (simp add: check_link_def)
  next
    case (Some c)
    define x where "x = (if c_state c \<in> {L_up_error, L_going_down_error} then link_call i LinkConnect_stop r
      else (r, []))"
    have x: "fine D r x" using r link_call_stop [OF r Some] by (auto simp: x_def)
    then have x': "base_inv (foldl tell D (snd x)) (fst x)" "r_seq (fst x) > 1"
      using r(2) same_frame_fields(2) by (auto simp: fine_def)
    have down: "fine D r (link_call i (\<lambda>c. setState c L_going_down) r)"
      by (rule link_call_down [OF r, of "\<lambda>c. c"]) simp_all
    have down': "fine D r (fst (link_call i (\<lambda>c. setState c L_going_down) (fst x)),
        snd x @ snd (link_call i (\<lambda>c. setState c L_going_down) (fst x)))"
      using fine_trans [of D r "fst x" "snd x"] x link_call_down [OF x', of "\<lambda>c. c" i] by simp
    have "check_link i r \<in> {(r, []), link_call i (\<lambda>c. setState c L_going_down) r, x,
        (fst (link_call i (\<lambda>c. setState c L_going_down) (fst x)),
         snd x @ snd (link_call i (\<lambda>c. setState c L_going_down) (fst x)))}"
      by (simp add: check_link_def Some Let_def case_prod_beta x_def [symmetric] del: insert_iff)
        (simp split: if_split)
    with r(1) x down down' show ?thesis by auto
  qed
  then show ?thesis by (simp add: keeps_def)
qed

section \<open>Steps\<close>

definition r_inv :: "(nat \<Rightarrow> drv_state) \<Rightarrow> Router \<Rightarrow> bool" where
  "r_inv D r \<longleftrightarrow> base_inv D r \<and> awake r"

lemma awake_frame: "same_frame r r' \<Longrightarrow> awake r' = awake r"
  by (simp add: awake_def same_frame_fields)

lemma fine_inv: "fine D r x \<Longrightarrow> awake r \<Longrightarrow> r_inv (foldl tell D (snd x)) (fst x)"
  by (auto simp: fine_def r_inv_def dest: awake_frame)

lemma started_seq: "base_inv D r \<Longrightarrow> r_want_up r \<Longrightarrow> r_seq r > 1"
  by (auto simp: base_inv_def fresh_def)

lemma stop_links_fine:
  assumes "base_inv D (r\<lparr>r_want_up := False\<rparr>)" and "r_want_up r" and "r_seq r > 1"
  shows "base_inv (foldl tell D (snd (Router_stop r))) (fst (Router_stop r))"
    and "list_all calm_out (snd (Router_stop r))" and "\<not> r_want_up (fst (Router_stop r))"
    and "awake (fst (Router_stop r)) = awake r" and "r_is_started (fst (Router_stop r)) = r_is_started r"
    and "r_high_send_more (fst (Router_stop r)) = r_high_send_more r" and "r_seq (fst (Router_stop r)) = r_seq r + 1"
    and "r_low_send_more (fst (Router_stop r)) = r_low_send_more r"
    and "all_more (r_links r) \<Longrightarrow> all_more (r_links (fst (Router_stop r)))"
proof -
  let ?r = "r\<lparr>r_want_up := False, r_all_running := False, r_seq := r_seq r + 1\<rparr>"
  have "base_inv D ?r" "r_seq ?r > 1"
    using assms by (auto simp: base_inv_def fresh_def)
  from each_link_keeps [OF stop_link_keeps this, of "map fst (r_links r)"]
  have f: "fine D ?r (each_link stop_link (map fst (r_links r)) ?r)" by simp
  then have sf: "same_frame ?r (fst (each_link stop_link (map fst (r_links r)) ?r))" by (simp add: fine_def)
  have "awake ?r = awake r" by (simp add: awake_def)
  with f sf show "base_inv (foldl tell D (snd (Router_stop r))) (fst (Router_stop r))"
    "list_all calm_out (snd (Router_stop r))" "\<not> r_want_up (fst (Router_stop r))"
    "awake (fst (Router_stop r)) = awake r" "r_is_started (fst (Router_stop r)) = r_is_started r"
    "r_high_send_more (fst (Router_stop r)) = r_high_send_more r" "r_seq (fst (Router_stop r)) = r_seq r + 1"
    "r_low_send_more (fst (Router_stop r)) = r_low_send_more r"
    "all_more (r_links r) \<Longrightarrow> all_more (r_links (fst (Router_stop r)))"
    using assms(2) same_frame_fields [OF sf] awake_frame [OF sf]
    by (simp_all add: fine_def Router_stop_def stop_links_def)
qed

lemma stopping: "base_inv D r \<Longrightarrow> r_want_up r \<Longrightarrow> base_inv D (r\<lparr>r_want_up := False\<rparr>)"
  by (auto simp: base_inv_def fresh_def)

lemma Router_stop_inv:
  assumes "r_inv D r"
  shows "r_inv (foldl tell D (snd (Router_stop r))) (fst (Router_stop r))" "list_all calm_out (snd (Router_stop r))"
proof -
  show "r_inv (foldl tell D (snd (Router_stop r))) (fst (Router_stop r))"
    using assms stop_links_fine [OF stopping, of D r] started_seq [of D r] by (cases "r_want_up r") (auto simp: r_inv_def Router_stop_def)
  show "list_all calm_out (snd (Router_stop r))"
    using assms stop_links_fine(2) [OF stopping, of D r] started_seq [of D r] by (cases "r_want_up r") (auto simp: r_inv_def Router_stop_def)
qed

lemma Router_start_inv:
  assumes "r_inv D r" and "r_seq r = 1"
  shows "r_inv (foldl tell D (snd (Router_start r))) (fst (Router_start r))" "list_all calm_out (snd (Router_start r))"
proof -
  let ?r = "r\<lparr>r_want_up := True, r_some_running := True, r_seq := r_seq r + 1\<rparr>"
  have fr: "fresh r" using assms by (simp add: r_inv_def base_inv_def)
  then have "all_more (r_links r)" by (auto simp: fresh_def all_more_def list_all_iff)
  then have "base_inv D ?r" "r_seq ?r > 1" using assms fr by (auto simp: r_inv_def base_inv_def fresh_def)
  moreover have "starting ?r" using fr by (auto simp: fresh_def starting_def list_all_iff)
  ultimately have f: "fine D ?r (each_link start_link (map fst (r_links r)) ?r)"
    using each_link_keeps [OF start_link_keeps] by blast
  have "awake ?r" using assms(1) by (simp add: r_inv_def awake_def)
  from fine_inv [OF f this] f
  show "r_inv (foldl tell D (snd (Router_start r))) (fst (Router_start r))" "list_all calm_out (snd (Router_start r))"
    using fr by (auto simp: fresh_def Router_start_def start_links_def case_prod_beta r_inv_def awake_def fine_def)
qed

text \<open>The handler of state changes.\<close>

lemma fresh_check:
  assumes "fresh r"
  shows "each_link recheck_link is r = (r, [])" and "each_link check_link is r = (r, [])"
proof -
  have "recheck_link i r = (r, []) \<and> check_link i r = (r, [])" for i
  proof (cases "map_of (r_links r) i")
    case (Some c)
    then have "c_state c = L_down"
      using assms map_of_SomeD [OF Some] by (auto simp: fresh_def list_all_iff)
    with Some show ?thesis by (simp add: recheck_link_def check_link_def Let_def)
  qed (simp add: recheck_link_def check_link_def)
  then show "each_link recheck_link is r = (r, [])" "each_link check_link is r = (r, [])"
    by (induction "is") simp_all
qed

lemma recheck_all:
  assumes "r_inv D r" and "f = recheck_link \<or> f = check_link"
  shows "fine D r (each_link f is r)"
proof (cases "r_seq r > 1")
  case True
  from assms(1) have "base_inv D r" by (simp add: r_inv_def)
  from each_link_keeps [OF recheck_link_keeps this True] each_link_keeps [OF check_link_keeps this True] assms(2)
  show ?thesis by auto
next
  case False
  with assms have "fresh r" "base_inv D r" by (auto simp: r_inv_def base_inv_def)
  with assms(2) show ?thesis by (auto simp: fresh_check)
qed

lemma r_inv_fields [simp]:
  "r_inv D (r\<lparr>r_linkChanges := x\<rparr>) = r_inv D r" "r_inv D (r\<lparr>r_state_trigger := y\<rparr>) = r_inv D r"
  "r_inv D (r\<lparr>r_all_running := y\<rparr>) = r_inv D r" "r_inv D (r\<lparr>r_some_running := y\<rparr>) = r_inv D r"
  "r_inv D (r\<lparr>r_exitcode := n\<rparr>) = r_inv D r" "r_inv D (r\<lparr>r_start_timer := y\<rparr>) = r_inv D r"
  "r_inv D (r\<lparr>r_all_running := y, r_some_running := z\<rparr>) = r_inv D r"
  by (simp_all add: r_inv_def base_inv_def awake_def fresh_def)

text \<open>Part of a handler: the invariant holds afterwards, and nothing was sent.\<close>

definition safe :: "(nat \<Rightarrow> drv_state) \<Rightarrow> Router \<Rightarrow> r_result \<Rightarrow> bool" where
  "safe D r x \<longleftrightarrow> r_inv (foldl tell D (snd x)) (fst x) \<and>
     Router_abort \<notin> set (snd x) \<and> (\<forall>i. Internal_error i \<notin> set (snd x)) \<and> collect sent_to (snd x) = []"

lemma safe_refl [simp]: "safe D r (r', []) = r_inv D r'"
  by (simp add: safe_def)

lemma safe_append:
  "safe D r (r1, o1) \<Longrightarrow> safe (foldl tell D o1) r1 (r2, o2) \<Longrightarrow> safe D r (r2, o1 @ o2)"
  by (auto simp: safe_def)

lemma safe_calm: "r_inv (foldl tell D (snd x)) (fst x) \<Longrightarrow> list_all calm_out (snd x) \<Longrightarrow> safe D r x"
  by (auto simp: safe_def calm_sends list_all_iff)

lemma fine_safe: "fine D r x \<Longrightarrow> awake r \<Longrightarrow> safe D r x"
  by (rule safe_calm [OF fine_inv]) (auto simp: fine_def)

lemma RouterHigh_stopped_safe:
  assumes "r_inv D r"
  shows "safe D r (RouterHigh_stopped r)"
proof (cases "r_want_up r")
  case True
  let ?r = "r\<lparr>r_is_started := False\<rparr>"
  have "base_inv D (?r\<lparr>r_want_up := False\<rparr>)" "r_seq ?r > 1" "awake ?r"
    using assms True started_seq [of D r] by (auto simp: r_inv_def base_inv_def awake_def fresh_def)
  with True stop_links_fine [of D ?r] show ?thesis
    by (simp add: RouterHigh_stopped_def Router_stopped_def r_inv_def safe_calm)
next
  case False
  with assms show ?thesis
    by (auto simp: RouterHigh_stopped_def Router_stopped_def r_inv_def base_inv_def awake_def fresh_def safe_def)
qed

lemma RouterHigh_started_inv:
  assumes "r_inv D r" and "r_seq r > 1"
  shows "r_inv D (RouterHigh_started r)"
proof (cases "r_is_started r")
  case False
  have "links_ready (r_links r)" if "r_want_up r"
    using assms(1) False that by (auto simp: r_inv_def base_inv_def all_more_def links_ready_def list_all_iff)
  with assms False show ?thesis
    by (auto simp: RouterHigh_started_def Router_started_def r_inv_def base_inv_def awake_def)
qed (simp add: RouterHigh_started_def assms)

lemma drain_changes_safe: "r_inv D r \<Longrightarrow> safe D r (drain_changes r)"
  using recheck_all [of D r recheck_link "r_linkChanges r"] fine_safe [of D r "each_link recheck_link (r_linkChanges r) r"]
  by (simp add: drain_changes_def case_prod_beta safe_def r_inv_def [of D r])

lemma stop_if_down_safe: "r_inv D r \<Longrightarrow> safe D r (stop_if_down n r)"
  using Router_stop_inv [of D "r\<lparr>r_exitcode := 1\<rparr>"] by (auto simp: stop_if_down_def intro!: safe_calm)

lemma set_running_inv: "r_inv D r \<Longrightarrow> r_inv D (set_running u g d r)"
  by (simp add: set_running_def)

lemma stop_if_down_seq: "r_inv D r \<Longrightarrow> r_seq r > 1 \<Longrightarrow> r_seq (fst (stop_if_down n r)) > 1"
  using stop_links_fine(7) [of D "r\<lparr>r_exitcode := 1\<rparr>"] stopping [of D "r\<lparr>r_exitcode := 1\<rparr>"]
  by (auto simp: stop_if_down_def r_inv_def)

lemma set_running_seq [simp]: "r_seq (set_running u g d r) = r_seq r"
  by (simp add: set_running_def)

lemma report_running_safe:
  assumes "r_inv D r" and "r_all_running r \<Longrightarrow> r_seq r > 1"
  shows "safe D r (report_running osrn oarn r)"
  using assms RouterHigh_stopped_safe [OF assms(1)] RouterHigh_started_inv [OF assms(1)]
  by (auto simp: report_running_def)

lemma state_trigger_safe:
  assumes "r_inv D r"
  shows "safe D r (state_trigger_cb r)"
proof -
  define x1 where "x1 = drain_changes (r\<lparr>r_state_trigger := False\<rparr>)"
  define cs where "cs = map snd (r_links (fst x1))"
  define x2 where "x2 = each_link check_link (map fst (r_links (fst x1))) (fst x1)"
  define r3 where "r3 = set_running (length (filter counts_up cs))
    (length (filter (counts_going (r_want_up (fst x1))) cs)) (length (filter counts_down cs)) (fst x2)"
  define x3 where "x3 = stop_if_down (length (filter counts_down cs)) r3"
  define x4 where "x4 = report_running (r_some_running r) (r_all_running r) (fst x3)"
  have eq: "state_trigger_cb r = (fst x4, snd x1 @ snd x2 @ snd x3 @ snd x4)"
    by (simp add: state_trigger_cb_def Let_def x4_def x3_def r3_def x2_def cs_def x1_def)
  have s1: "safe D r x1"
    using drain_changes_safe [of D "r\<lparr>r_state_trigger := False\<rparr>"] assms by (simp add: x1_def safe_def)
  let ?D1 = "foldl tell D (snd x1)"
  let ?D2 = "foldl tell ?D1 (snd x2)"
  let ?D3 = "foldl tell ?D2 (snd x3)"
  have f2: "fine ?D1 (fst x1) x2"
    unfolding x2_def using s1 by (intro recheck_all) (simp_all add: safe_def)
  then have s2: "safe ?D1 (fst x1) x2" using s1 by (intro fine_safe) (simp_all add: safe_def r_inv_def)
  then have i3: "r_inv ?D2 r3" unfolding r3_def by (intro set_running_inv) (simp add: safe_def)
  have s3: "safe ?D2 r3 x3" unfolding x3_def by (rule stop_if_down_safe [OF i3])
  have "r_seq (fst x3) > 1" if "r_all_running (fst x3)"
  proof (cases "r_seq r > 1")
    case True
    have "same_frame (r\<lparr>r_state_trigger := False\<rparr>) (fst (each_link recheck_link (r_linkChanges r) (r\<lparr>r_state_trigger := False\<rparr>)))"
      using recheck_all [of D "r\<lparr>r_state_trigger := False\<rparr>" recheck_link "r_linkChanges r"] assms
      by (simp add: fine_def)
    from same_frame_fields(2) [OF this] have "r_seq (fst x1) = r_seq r"
      by (simp add: x1_def drain_changes_def case_prod_beta)
    moreover from f2 have "r_seq (fst x2) = r_seq (fst x1)" by (simp add: fine_def same_frame_fields(2))
    ultimately have "r_seq r3 > 1" using True by (simp add: r3_def)
    then show ?thesis using stop_if_down_seq [OF i3] by (simp add: x3_def)
  next
    case False
    then have f: "fresh (r\<lparr>r_state_trigger := False\<rparr>)" using assms by (auto simp: r_inv_def base_inv_def fresh_def)
    then have x1: "x1 = (r\<lparr>r_state_trigger := False, r_linkChanges := []\<rparr>, [])"
      by (simp add: x1_def drain_changes_def fresh_check)
    with f have "fresh (fst x1)" by (simp add: fresh_def)
    then have "x2 = (fst x1, [])" by (simp add: x2_def fresh_check)
    moreover from f have "filter counts_up cs = []"
      by (auto simp: cs_def x1 fresh_def list_all_iff filter_empty_conv counts_up_def)
    ultimately have "\<not> r_all_running r3" "\<not> r_want_up r3"
      using f by (auto simp: r3_def set_running_def x1 fresh_def)
    with that show ?thesis by (simp add: x3_def stop_if_down_def)
  qed
  then have s4: "safe ?D3 (fst x3) x4"
    unfolding x4_def using s3 by (intro report_running_safe) (simp_all add: safe_def)
  have "safe ?D2 r3 (fst x4, snd x3 @ snd x4)" using safe_append [of ?D2 r3 "fst x3" "snd x3"] s3 s4 by simp
  then have "safe ?D2 (fst x2) (fst x4, snd x3 @ snd x4)" by (simp add: safe_def)
  then have "safe ?D1 (fst x1) (fst x4, snd x2 @ snd x3 @ snd x4)"
    using safe_append [of ?D1 "fst x1" "fst x2" "snd x2"] s2 by simp
  then show ?thesis unfolding eq using safe_append [of D r "fst x1" "snd x1"] s1 by simp
qed

text \<open>Delivery.\<close>

lemma one_owner_drivers:
  assumes "map (\<lambda>(i, c). (i, c_driver c)) ls' = map (\<lambda>(i, c). (i, c_driver c)) ls" and "one_owner ls"
  shows "one_owner ls'"
proof -
  have orig: "\<exists>c'. (i, c') \<in> set ls \<and> c_driver c' = c_driver c" if "(i, c) \<in> set ls'" for i c
  proof -
    from that have "(i, c_driver c) \<in> set (map (\<lambda>(i, c). (i, c_driver c)) ls')" by force
    then show ?thesis unfolding assms(1) by force
  qed
  have "disjoint_addresses c d" if m: "(i, c) \<in> set ls'" "(j, d) \<in> set ls'" "i \<noteq> j" for i c j d
  proof -
    from orig [OF m(1)] orig [OF m(2)] obtain c' d' where
      "(i, c') \<in> set ls" "(j, d') \<in> set ls" "c_driver c' = c_driver c" "c_driver d' = c_driver d" by blast
    with assms(2) m(3) show ?thesis by (fastforce simp: one_owner_def disjoint_addresses_def link_hasAddress_def)
  qed
  then show ?thesis by (auto simp: one_owner_def)
qed

lemma deliver_one_link:
  "c_state (fst (deliver_one ready acc l i c)) = c_state c" "c_driver (fst (deliver_one ready acc l i c)) = c_driver c"
  "c_state c \<noteq> L_up \<Longrightarrow> fst (deliver_one ready acc l i c) = c"
  by (auto simp: deliver_one_def hand_over_def LinkConnect_send_L_Data_def LinkConnect_send_Next_def Let_def)

lemma deliver_links:
  "map fst (fst (deliver_all ready acc l ls)) = map fst ls"
  "map (\<lambda>(i, c). (i, c_driver c)) (fst (deliver_all ready acc l ls)) = map (\<lambda>(i, c). (i, c_driver c)) ls"
  by (induction ready acc l ls rule: deliver_all.induct) (simp_all add: deliver_one_link)

lemma deliver_links_ok: "links_ok D ls \<Longrightarrow> links_ok D (fst (deliver_all ready acc l ls))"
proof (induction ready acc l ls rule: deliver_all.induct)
  case (2 ready acc l i c ls)
  then show ?case
    using deliver_one_link [where ready = ready and acc = acc and l = l and i = i and c = c]
    by (cases "c_state c = L_up") (auto simp: links_ok_def link_ok_def startable_def)
qed (simp add: links_ok_def)

lemma hand_over_tell: "foldl tell D (snd (hand_over ready l i c)) = D"
  by (simp add: hand_over_def LinkConnect_send_L_Data_def Let_def)

lemma deliver_tell: "foldl tell D (snd (deliver_all ready acc l ls)) = D"
  by (induction ready acc l ls rule: deliver_all.induct) (simp_all add: deliver_one_def hand_over_tell)

lemma Router_send_Next_inv:
  assumes "base_inv D r" and "r_want_up r \<Longrightarrow> r_is_started r" and "r_seq r > 1"
  shows "base_inv D (Router_send_Next r)"
  using assms by (auto simp: base_inv_def Router_send_Next_def RouterLow_send_Next_def)

lemma Router_send_L_Data_inv:
  assumes "base_inv D (r\<lparr>r_low_send_more := b\<rparr>)" and "r_high_send_more r" and "\<not> r_low_send_more r"
  shows "base_inv D (fst (Router_send_L_Data ready l r))"
    and "foldl tell D (snd (Router_send_L_Data ready l r)) = D" and "harmless r (snd (Router_send_L_Data ready l r))"
proof -
  let ?sent = "deliver_all ready (dest_accepts r l) l (r_links r)"
  let ?r = "r\<lparr>r_high_send_more := False, r_links := fst ?sent, r_high_sending := False\<rparr>"
  have s: "r_seq r > 1" "r_want_up r \<Longrightarrow> r_is_started r" "r_want_up r \<Longrightarrow> links_ready (r_links r)"
    using assms by (auto simp: base_inv_def fresh_def)
  have "base_inv D ?r"
    using assms s deliver_links(1) [of ready "dest_accepts r l" l "r_links r"]
      one_owner_drivers [OF deliver_links(2) [of ready "dest_accepts r l" l "r_links r"]]
    by (auto simp: base_inv_def deliver_links_ok)
  from Router_send_Next_inv [OF this] s show "base_inv D (fst (Router_send_L_Data ready l r))"
    using assms(2) by (simp add: Router_send_L_Data_def Let_def)
  show "foldl tell D (snd (Router_send_L_Data ready l r)) = D"
    using assms(2) by (simp add: Router_send_L_Data_def Let_def deliver_tell)
  show "harmless r (snd (Router_send_L_Data ready l r))"
    using assms(2) s(3) by (simp add: Router_send_L_Data_def Let_def harmless_def deliver_safe deliver_ready)
qed

lemma route_inv:
  assumes "base_inv D r" and "r_low_send_more r" and "encodable l"
  shows "base_inv D (fst (route ready now l r))" and "foldl tell D (snd (route ready now l r)) = D"
    and "harmless r (snd (route ready now l r))" and "r_want_up (fst (route ready now l r)) = r_want_up r"
proof -
  let ?r = "r\<lparr>r_ignore := r_ignore r @ [(wire_form r l, now + 1000000)], r_low_send_more := False\<rparr>"
  have h: "base_inv D (?r\<lparr>r_low_send_more := True\<rparr>)" "r_high_send_more ?r" "\<not> r_low_send_more ?r"
    using assms(1,2) by (auto simp: base_inv_def fresh_def)
  have "r_want_up (fst (Router_send_L_Data ready x ?r)) = r_want_up r" for x
    by (simp add: Router_send_L_Data_def Let_def Router_send_Next_def RouterLow_send_Next_def)
  with Router_send_L_Data_inv [OF h, of ready "forwarded r l"] assms(1)
  have "base_inv D (fst (route ready now l r)) \<and> foldl tell D (snd (route ready now l r)) = D \<and>
      harmless r (snd (route ready now l r)) \<and> r_want_up (fst (route ready now l r)) = r_want_up r"
    by (cases "passes r l") (simp_all add: route_passes route_drops [OF assms(3)] harmless_def)
  then show "base_inv D (fst (route ready now l r))" "foldl tell D (snd (route ready now l r)) = D"
    "harmless r (snd (route ready now l r))" "r_want_up (fst (route ready now l r)) = r_want_up r" by blast+
qed

lemma monitor_copies_tell: "foldl tell D (monitor_copies l r) = D"
proof -
  have "foldl tell D (map (\<lambda>cb. VMonitor cb d) cbs) = D" for d cbs by (induction cbs) simp_all
  then show ?thesis by (simp add: monitor_copies_def split: option.split)
qed

lemma monitor_copies_quiet: "encodable l \<Longrightarrow> harmless r (monitor_copies l r)"
  using monitor_copies_no_abort [of l r] by (auto simp: harmless_def monitor_copies_def split: option.splits if_splits)

lemma trigger_loop_inv:
  assumes "base_inv D r" and "list_all encodable ls"
  shows "base_inv D (fst (trigger_loop ready now ls r)) \<and> foldl tell D (snd (trigger_loop ready now ls r)) = D \<and>
    harmless r (snd (trigger_loop ready now ls r)) \<and> list_all encodable (r_buf (fst (trigger_loop ready now ls r))) \<and>
    (r_buf (fst (trigger_loop ready now ls r)) = [] \<or> \<not> r_low_send_more (fst (trigger_loop ready now ls r)))"
  using assms
proof (induction ls arbitrary: r)
  case Nil
  then show ?case by (simp add: harmless_def)
next
  case (Cons l ls)
  show ?case
  proof (cases "r_low_send_more r")
    case True
    from Cons.prems have l: "encodable l" and ls: "list_all encodable ls" by simp_all
    note i = route_inv [OF Cons.prems(1) True l, of ready now]
    note m = monitor_copies_quiet [OF l, of r]
    have "Router_abort \<notin> set (monitor_copies l r)" "Router_abort \<notin> set (snd (route ready now l r))"
      using m i(3) by (simp_all add: harmless_def)
    with Cons.IH [OF i(1) ls] i m True show ?thesis
      by (auto simp: Let_def case_prod_beta monitor_copies_tell harmless_def)
  qed (use Cons.prems in \<open>simp add: harmless_def\<close>)
qed

lemma trigger_cb_inv:
  assumes "r_inv D r"
  shows "r_inv D (fst (trigger_cb ready now r))" and "foldl tell D (snd (trigger_cb ready now r)) = D"
    and "harmless r (snd (trigger_cb ready now r))"
proof -
  let ?r = "r\<lparr>r_trigger := False\<rparr>"
  have "base_inv D ?r" "list_all encodable (r_buf r)" using assms by (simp_all add: r_inv_def awake_def)
  note t = trigger_loop_inv [OF this, of ready now]
  then show "r_inv D (fst (trigger_cb ready now r))"
    by (auto simp: trigger_cb_def case_prod_beta r_inv_def awake_def)
  from t show "foldl tell D (snd (trigger_cb ready now r)) = D" "harmless r (snd (trigger_cb ready now r))"
    by (simp_all add: trigger_cb_def case_prod_beta harmless_def)
qed

text \<open>Receiving.\<close>

lemma queue_L_Data_inv: "r_inv D r \<Longrightarrow> encodable l \<Longrightarrow> r_inv D (queue_L_Data l r)"
  by (auto simp: r_inv_def base_inv_def awake_def fresh_def queue_L_Data_def)

lemma hasAddress_added:
  "link_hasAddress (link_addAddress c a) b \<Longrightarrow> link_hasAddress c b \<or> b = a"
  by (cases "c_driver c") (auto simp: link_hasAddress_def link_addAddress_def split: if_splits)

lemma learn_inv:
  assumes "r_inv D r" and "map_of (r_links r) i = Some c" and "\<not> fst (Router_hasAddress r a None)"
  shows "r_inv D (r\<lparr>r_links := set_link i (link_addAddress c a) (r_links r)\<rparr>)"
proof -
  have inv: "base_inv D r" "one_owner (r_links r)" using assms(1) by (simp_all add: r_inv_def base_inv_def)
  have no: "\<not> link_hasAddress d a" if "(j, d) \<in> set (r_links r)" for j d
    using assms(3) that by (auto simp: Router_hasAddress_none list_ex_iff)
  have "disjoint_addresses c d \<and> disjoint_addresses d c" if "(j, d) \<in> set (r_links r)" "j \<noteq> i" for j d
    using one_ownerD [OF inv(2)] map_of_SomeD [OF assms(2)] that by blast
  with no have dis: "disjoint_addresses (link_addAddress c a) d \<and> disjoint_addresses d (link_addAddress c a)"
    if "(j, d) \<in> set (r_links r)" "j \<noteq> i" for j d
    using that hasAddress_added [of c a] unfolding disjoint_addresses_def by blast
  have "disjoint_addresses x y" if "(j, x) \<in> set (set_link i (link_addAddress c a) (r_links r))"
    "(k, y) \<in> set (set_link i (link_addAddress c a) (r_links r))" "j \<noteq> k" for j x k y
    using set_link_cases [OF that(1)] set_link_cases [OF that(2)] that(3) dis one_ownerD [OF inv(2)]
    by blast
  then have "one_owner (set_link i (link_addAddress c a) (r_links r))" by (auto simp: one_owner_def)
  moreover have "link_ok (D i) c" "r_seq r \<le> 1 \<Longrightarrow> c_state c = L_down"
    using inv(1) map_of_SomeD [OF assms(2)] by (auto simp: base_inv_def links_ok_def list_all_iff fresh_def)
  ultimately have "base_inv (D(i := D i)) (r\<lparr>r_links := set_link i (link_addAddress c a) (r_links r)\<rparr>)"
    by (intro base_inv_set_link_owner [OF inv(1) assms(2)])
      (simp_all add: link_addAddress_def link_ok_def startable_def)
  with assms(1) show ?thesis by (simp add: r_inv_def awake_def)
qed

lemma recv_inv:
  assumes "r_inv D r" and "encodable l"
  shows "r_inv D (Router_recv_L_Data l i r)"
proof (cases "map_of (r_links r) i")
  case (Some c)
  have "encodable (set_source r c l)" using assms(2) by (simp add: set_source_def)
  then show ?thesis
    using assms(1) queue_L_Data_inv [OF assms(1)] queue_L_Data_inv [OF learn_inv [OF assms(1) Some]]
    by (auto simp: Router_recv_L_Data_def Some Let_def)
qed (simp add: Router_recv_L_Data_def assms)

text \<open>The router waits to be woken, and no link owes it anything.\<close>

definition blocked :: "Router \<Rightarrow> bool" where
  "blocked r \<longleftrightarrow> \<not> r_low_send_more r \<and> \<not> r_high_send_more r \<and> r_is_started r \<and> all_more (r_links r)"

lemma fine_blocked: "fine D r x \<Longrightarrow> blocked r \<Longrightarrow> blocked (fst x)"
  by (auto simp: fine_def blocked_def same_frame_fields)

text \<open>Events of a link.\<close>

lemma link_of:
  assumes "base_inv D r" and "map_of (r_links r) i = Some c"
  shows "link_ok (D i) c" and "r_seq r \<le> 1 \<Longrightarrow> c_state c = L_down \<and> c_send_more c"
    and "r_want_up r \<Longrightarrow> \<not> r_is_started r \<Longrightarrow> c_send_more c"
  using assms(1) map_of_SomeD [OF assms(2)]
  by (auto simp: base_inv_def links_ok_def fresh_def all_more_def list_all_iff)

lemma driver_may_permitted:
  "driver_may d c e \<Longrightarrow> e \<noteq> Ev_next \<Longrightarrow> permitted c d e \<and> leaves_readiness e"
  by (cases e) auto

lemma link_down_event:
  assumes "link_ok d c" and "c_state c = L_down" and "driver_may d c e" and "e \<noteq> Ev_next"
  shows "c_state (fst (link_step c e)) = L_down"
  using assms by (cases e) (auto simp: link_ok_def retry_timer_cb_def)

lemma next_inv:
  assumes "r_inv D r" and "map_of (r_links r) i = Some c" and "\<not> c_send_more c"
  shows "safe D r (link_call i LinkConnect_send_Next r)"
proof -
  define c' where "c' = fst (LinkConnect_send_Next c)"
  have c': "c_state c' = c_state c" "c_driver c' = c_driver c" "c_send_more c'"
    by (auto simp: c'_def LinkConnect_send_Next_def Let_def)
  have b: "base_inv D r" using assms(1) by (simp add: r_inv_def)
  note l = link_of [OF b assms(2)]
  let ?r = "r\<lparr>r_links := set_link i c' (r_links r)\<rparr>"
  have "base_inv (D(i := D i)) ?r"
    using l c' assms(3) by (intro base_inv_set_link [OF b assms(2)]) (auto simp: link_ok_def link_upd_def startable_def)
  moreover have "r_seq r > 1" "r_want_up r \<Longrightarrow> r_is_started r" using l(2,3) assms(3) by force+
  ultimately have "base_inv D (Router_send_Next ?r)" by (intro Router_send_Next_inv) simp_all
  moreover have "awake (Router_send_Next ?r)"
    using assms(1) by (auto simp: r_inv_def awake_def Router_send_Next_def RouterLow_send_Next_def)
  moreover have "link_call i LinkConnect_send_Next r = (Router_send_Next ?r, [])"
    by (simp add: link_call_def assms(2) c'_def LinkConnect_send_Next_def Let_def)
  ultimately show ?thesis by (simp add: r_inv_def)
qed

lemma link_event_inv:
  assumes "r_inv D r" and "allowed D r (R_link i e)"
  shows "r_inv (drv_after D r (R_link i e)) (fst (r_step r (R_link i e))) \<and>
    list_all calm_out (snd (r_step r (R_link i e))) \<and> (blocked r \<longrightarrow> blocked (fst (r_step r (R_link i e))))"
proof (cases "map_of (r_links r) i")
  case None
  have "base_inv (D(i := d)) r = base_inv D r" for d
    using None by (simp add: base_inv_def links_ok_other map_of_eq_None_iff)
  with assms(1) None show ?thesis by (simp add: drv_after_def link_call_def r_inv_def)
next
  case (Some c)
  have b: "base_inv D r" using assms(1) by (simp add: r_inv_def)
  note l = link_of [OF b Some]
  from assms(2) Some have may: "driver_may (D i) c e" by simp
  show ?thesis
  proof (cases "e = Ev_next")
    case True
    with may have "\<not> blocked r"
      using map_of_SomeD [OF Some] by (auto simp: blocked_def all_more_def list_all_iff)
    with True may next_inv [OF assms(1) Some] show ?thesis
      by (simp add: drv_after_def link_call_def Some safe_def) (simp add: LinkConnect_send_Next_def Let_def)
  next
    case False
    note p = driver_may_permitted [OF may False]
    note ok = link_event_ok [OF l(1) conjunct1 [OF p] conjunct2 [OF p]]
    note call = link_call_inv [OF b Some, of "\<lambda>c. link_step c e" "fst (link_step c e)" "snd (link_step c e)"
        "drv_report (D i) e"]
    have d: "r_seq r \<le> 1 \<Longrightarrow> c_state (fst (link_step c e)) = L_down"
      using link_down_event [OF l(1) _ may False] l(2) by blast
    have "awake (fst (link_call i (\<lambda>c. link_step c e) r))"
      using call(2) ok d assms(1) awake_frame by (simp add: r_inv_def del: link_step.simps)
    moreover have "blocked (fst (link_call i (\<lambda>c. link_step c e) r))" if "blocked r"
      using call(2,4) ok d that by (simp add: blocked_def same_frame_fields del: link_step.simps)
    ultimately show ?thesis using call ok d by (simp add: drv_after_def r_inv_def del: link_step.simps)
  qed
qed

text \<open>Registration.\<close>

lemma register_inv:
  assumes "r_inv D r" and "allowed D r (R_register i c transient)"
  shows "r_inv (drv_after D r (R_register i c transient)) (fst (r_step r (R_register i c transient))) \<and>
    list_all calm_out (snd (r_step r (R_register i c transient))) \<and>
    (blocked r \<longrightarrow> blocked (fst (r_step r (R_register i c transient))))"
proof -
  define c1 where "c1 = (if transient then c\<lparr>c_transient := True\<rparr> else c)"
  let ?D = "D(i := D_off)" and ?r = "r\<lparr>r_links := r_links r @ [(i, c1)]\<rparr>"
  have b: "base_inv D r" using assms(1) by (simp add: r_inv_def)
  have new: "i \<notin> fst ` set (r_links r)" "c_state c1 = L_down" "c_send_more c1"
    using assms(2) by (auto simp: c1_def map_of_eq_None_iff)
  have dis: "disjoint_addresses c1 d \<and> disjoint_addresses d c1" if "(j, d) \<in> set (r_links r)" for j d
    using assms(2) that by (auto simp: list_all_iff disjoint_addresses_def c1_def link_hasAddress_def)
  have "one_owner (r_links r)" using b by (simp add: base_inv_def)
  note old = one_ownerD [OF this]
  have "disjoint_addresses x y" if "(j, x) \<in> set (r_links ?r)" "(k, y) \<in> set (r_links ?r)" "j \<noteq> k" for j x k y
    using that dis old by auto
  then have "one_owner (r_links ?r)" by (auto simp: one_owner_def)
  moreover have "links_ok ?D (r_links ?r)"
    using b new links_ok_other [OF new(1), of D] by (simp add: base_inv_def links_ok_def link_ok_def startable_def)
  ultimately have b': "base_inv ?D ?r"
    using b new by (auto simp: base_inv_def links_ready_def all_more_def fresh_def)
  have eq: "r_step r (R_register i c transient) = (if r_want_up r
      then link_call i (\<lambda>c. setState (c\<lparr>c_seq := r_seq r\<rparr>) L_going_up) (?r\<lparr>r_all_running := False\<rparr>) else (?r, []))"
    using assms(2) by (simp add: registerLink_def Let_def c1_def)
  have aw: "awake (?r\<lparr>r_all_running := False\<rparr>)" using assms(1) by (simp add: r_inv_def awake_def)
  show ?thesis
  proof (cases "r_want_up r")
    case True
    have "map_of (r_links ?r) i = Some c1" using assms(2) by (simp add: map_add_def)
    moreover have "r_seq r > 1" using started_seq [OF b True] .
    ultimately have "fine ?D (?r\<lparr>r_all_running := False\<rparr>)
        (link_call i (\<lambda>c. setState (c\<lparr>c_seq := r_seq r\<rparr>) L_going_up) (?r\<lparr>r_all_running := False\<rparr>))"
      using b' new by (intro link_call_up [where c = c1]) simp_all
    moreover from this have "blocked r \<Longrightarrow> blocked (fst (link_call i (\<lambda>c. setState (c\<lparr>c_seq := r_seq r\<rparr>) L_going_up)
        (?r\<lparr>r_all_running := False\<rparr>)))"
      by (rule fine_blocked) (use new in \<open>simp add: blocked_def all_more_def\<close>)
    ultimately show ?thesis
      unfolding drv_after_def eq using True fine_inv [OF _ aw] by (simp add: fine_def)
  next
    case False
    with b' aw new show ?thesis
      unfolding drv_after_def eq by (simp add: r_inv_def awake_def blocked_def all_more_def)
  qed
qed

lemma unregister_inv: "r_inv D r \<Longrightarrow> r_inv D (snd (unregisterLink i r))"
proof -
  assume r: "r_inv D r"
  let ?ls = "filter (\<lambda>(j, c). j \<noteq> i) (r_links r)"
  have d: "distinct (map fst ?ls)" using r by (simp add: r_inv_def base_inv_def distinct_map_filter)
  have o: "one_owner ?ls" using r by (auto simp: r_inv_def base_inv_def one_owner_def)
  have f: "list_all P ?ls" if "list_all P (r_links r)" for P using that by (auto simp: list_all_iff)
  show ?thesis
    using r d o f by (simp add: unregisterLink_def r_inv_def base_inv_def awake_def fresh_def links_ok_def
        links_ready_def all_more_def)
qed

lemma step_inv:
  assumes "r_inv D r" and "allowed D r e"
  shows "r_inv (drv_after D r e) (fst (r_step r e)) \<and> harmless r (snd (r_step r e))"
proof (cases e)
  case (R_recv i l)
  with assms recv_inv [of D r l i] show ?thesis by (simp add: drv_after_def harmless_def)
next
  case (R_link i e')
  with link_event_inv [of D r i e'] assms show ?thesis by (simp add: calm_quiet del: r_step.simps allowed.simps)
next
  case (R_trigger ready now)
  with trigger_cb_inv [OF assms(1), of ready now] assms(1) show ?thesis by (simp add: drv_after_def harmless_def)
next
  case R_state_trigger
  with state_trigger_safe [OF assms(1)] assms(1) show ?thesis by (simp add: drv_after_def harmless_def safe_def)
next
  case R_start
  with Router_start_inv [OF assms(1)] assms(2) show ?thesis by (simp add: drv_after_def calm_quiet)
next
  case R_stop
  with Router_stop_inv [OF assms(1)] show ?thesis by (simp add: drv_after_def calm_quiet)
next
  case R_start_timer
  with Router_stop_inv [of D "r\<lparr>r_start_timer := False\<rparr>"] assms(1) show ?thesis
    by (simp add: drv_after_def start_timer_cb_def calm_quiet)
next
  case (R_register i c transient)
  with register_inv [of D r i c transient] assms show ?thesis by (simp add: calm_quiet del: r_step.simps allowed.simps)
next
  case (R_unregister i)
  with unregister_inv [OF assms(1)] show ?thesis by (simp add: drv_after_def harmless_def)
next
  case R_mtrigger
  have "foldl tell D (collect (\<lambda>b. map (\<lambda>cb. Monitor cb b) cbs) bs) = D" for cbs bs
  proof (induction bs)
    case (Cons b bs)
    have "foldl tell D (map (\<lambda>cb. Monitor cb b) cbs) = D" for cbs by (induction cbs) simp_all
    with Cons show ?case by simp
  qed simp
  with R_mtrigger assms(1) show ?thesis
    by (auto simp: drv_after_def mtrigger_cb_def harmless_def r_inv_def base_inv_def awake_def fresh_def collect_def)
qed (use assms(1) in \<open>auto simp: drv_after_def harmless_def r_inv_def base_inv_def awake_def fresh_def queue_L_Busmonitor_def
  get_client_addr_def release_client_addr_def registerBusmonitor_def registerVBusmonitor_def
  deregisterBusmonitor_def deregisterVBusmonitor_def Let_def split: option.split\<close>)

lemma new_inv: "r_inv D (Router_new addr start len force_broadcast timeout)"
  by (simp add: Router_new_def r_inv_def base_inv_def awake_def links_ok_def one_owner_def links_ready_def
      all_more_def fresh_def)

lemma reach_inv: "router_reach r D \<Longrightarrow> r_inv D r"
  by (induction rule: router_reach.induct) (simp_all add: new_inv step_inv del: r_step.simps allowed.simps)

section \<open>A router that waits for nobody\<close>

lemma stop_blocked: "r_inv D r \<Longrightarrow> blocked r \<Longrightarrow> blocked (fst (Router_stop r))"
  using stop_links_fine [OF stopping, of D r] started_seq [of D r]
  by (cases "r_want_up r") (auto simp: r_inv_def blocked_def Router_stop_def)

lemma state_trigger_blocked:
  assumes "r_inv D r" and "blocked r" and "r_is_started (fst (state_trigger_cb r))"
  shows "blocked (fst (state_trigger_cb r))"
proof -
  define x1 where "x1 = drain_changes (r\<lparr>r_state_trigger := False\<rparr>)"
  define cs where "cs = map snd (r_links (fst x1))"
  define x2 where "x2 = each_link check_link (map fst (r_links (fst x1))) (fst x1)"
  define r3 where "r3 = set_running (length (filter counts_up cs))
    (length (filter (counts_going (r_want_up (fst x1))) cs)) (length (filter counts_down cs)) (fst x2)"
  define x3 where "x3 = stop_if_down (length (filter counts_down cs)) r3"
  have eq: "fst (state_trigger_cb r) = fst (report_running (r_some_running r) (r_all_running r) (fst x3))"
    by (simp add: state_trigger_cb_def Let_def x3_def r3_def x2_def cs_def x1_def)
  let ?r = "r\<lparr>r_state_trigger := False\<rparr>"
  have s1: "safe D ?r x1" using drain_changes_safe [of D ?r] assms(1) by (simp add: x1_def)
  have "blocked (fst x1)"
    using fine_blocked [OF recheck_all [of D ?r recheck_link "r_linkChanges r"]] assms(1,2)
    by (simp add: x1_def drain_changes_def case_prod_beta blocked_def)
  moreover have f2: "fine (foldl tell D (snd x1)) (fst x1) x2"
    unfolding x2_def using s1 by (intro recheck_all) (simp_all add: safe_def)
  ultimately have "blocked (fst x2)" by (rule fine_blocked [rotated])
  then have b3: "blocked r3" by (simp add: r3_def set_running_def blocked_def)
  have "r_inv (foldl tell (foldl tell D (snd x1)) (snd x2)) r3"
    using fine_safe [OF f2] s1 unfolding r3_def by (intro set_running_inv) (simp add: safe_def r_inv_def)
  with b3 stop_blocked [of _ "r3\<lparr>r_exitcode := 1\<rparr>"] have "blocked (fst x3)"
    by (auto simp: x3_def stop_if_down_def blocked_def)
  moreover have "\<not> r_is_started (fst (RouterHigh_stopped r'))" if "r_inv D' r'" for D' r'
  proof (cases "r_want_up r'")
    case True
    have "base_inv D' (r'\<lparr>r_is_started := False, r_want_up := False\<rparr>)" "r_seq r' > 1"
      using that True started_seq [of D' r'] by (auto simp: r_inv_def base_inv_def fresh_def)
    with True stop_links_fine(5) [of D' "r'\<lparr>r_is_started := False\<rparr>"] show ?thesis
      by (simp add: RouterHigh_stopped_def Router_stopped_def)
  qed (simp add: RouterHigh_stopped_def Router_stopped_def)
  moreover have "\<exists>D'. r_inv D' (fst x3)"
    using stop_if_down_safe \<open>r_inv (foldl tell (foldl tell D (snd x1)) (snd x2)) r3\<close>
    by (auto simp: x3_def safe_def)
  ultimately show ?thesis
    using assms(3) unfolding eq
    by (auto simp: report_running_def RouterHigh_started_def blocked_def split: if_splits)
qed

lemma recv_blocked: "blocked r \<Longrightarrow> blocked (Router_recv_L_Data l i r)"
proof (cases "map_of (r_links r) i")
  case (Some c)
  assume b: "blocked r"
  have q: "blocked (queue_L_Data x r') = blocked r'" for x r'
    by (simp add: queue_L_Data_def blocked_def)
  have "all_more (set_link i (link_addAddress c a) (r_links r))" for a
    using b list_all_set_link [OF _ Some, of c_send_more "link_addAddress c a"]
    by (simp add: blocked_def all_more_def link_addAddress_def)
  then have "blocked (r\<lparr>r_links := set_link i (link_addAddress c a) (r_links r)\<rparr>)" for a
    using b by (simp add: blocked_def)
  with b show ?thesis by (simp add: Router_recv_L_Data_def Some Let_def q)
qed (simp add: Router_recv_L_Data_def)

lemma trigger_blocked:
  "blocked r \<Longrightarrow> collect sent_to (snd (trigger_cb ready now r)) = [] \<and> blocked (fst (trigger_cb ready now r))"
  by (cases "r_buf r") (simp_all add: trigger_cb_def blocked_def)

lemma blocked_step:
  assumes "r_inv D r" and "blocked r" and "allowed D r e"
  shows "collect sent_to (snd (r_step r e)) = [] \<and>
    (r_is_started (fst (r_step r e)) \<longrightarrow> blocked (fst (r_step r e)))"
proof (cases e)
  case (R_recv i l)
  with assms recv_blocked show ?thesis by simp
next
  case (R_link i e')
  with link_event_inv [of D r i e'] assms show ?thesis
    by (simp add: calm_sends del: r_step.simps allowed.simps)
next
  case (R_trigger ready now)
  with trigger_blocked [OF assms(2)] assms(2) show ?thesis by simp
next
  case R_state_trigger
  with state_trigger_safe [OF assms(1)] state_trigger_blocked [OF assms(1,2)] assms(2) show ?thesis
    by (simp add: safe_def)
next
  case R_start
  with assms show ?thesis by (simp add: r_inv_def base_inv_def fresh_def blocked_def)
next
  case R_stop
  with Router_stop_inv [OF assms(1)] stop_blocked [OF assms(1,2)] show ?thesis by (simp add: calm_sends)
next
  case R_start_timer
  with Router_stop_inv [of D "r\<lparr>r_start_timer := False\<rparr>"] stop_blocked [of D "r\<lparr>r_start_timer := False\<rparr>"] assms
  show ?thesis by (simp add: start_timer_cb_def calm_sends) (simp add: blocked_def)
next
  case (R_register i c transient)
  with register_inv [of D r i c transient] assms show ?thesis
    by (simp add: calm_sends del: r_step.simps allowed.simps)
next
  case R_mtrigger
  with assms(2) show ?thesis by (auto simp: mtrigger_cb_def blocked_def collect_def)
next
  case (R_unregister i)
  with assms(2) show ?thesis by (auto simp: unregisterLink_def blocked_def all_more_def list_all_iff)
qed (use assms(2) in \<open>auto simp: blocked_def queue_L_Busmonitor_def
  get_client_addr_def release_client_addr_def registerBusmonitor_def registerVBusmonitor_def
  deregisterBusmonitor_def deregisterVBusmonitor_def Let_def split: option.split\<close>)

text \<open>Runs in which the environment behaves, and those in which the router is never reset.\<close>

fun behaves :: "(nat \<Rightarrow> drv_state) \<Rightarrow> Router \<Rightarrow> r_event list \<Rightarrow> bool" where
  "behaves D r [] = True"
| "behaves D r (e # es) = (allowed D r e \<and> behaves (drv_after D r e) (fst (r_step r e)) es)"

fun stays_started :: "Router \<Rightarrow> r_event list \<Rightarrow> bool" where
  "stays_started r [] = True"
| "stays_started r (e # es) = (r_is_started (fst (r_step r e)) \<and> stays_started (fst (r_step r e)) es)"

fun drv_run :: "(nat \<Rightarrow> drv_state) \<Rightarrow> Router \<Rightarrow> r_event list \<Rightarrow> nat \<Rightarrow> drv_state" where
  "drv_run D r [] = D"
| "drv_run D r (e # es) = drv_run (drv_after D r e) (fst (r_step r e)) es"

lemma reach_run:
  "router_reach r D \<Longrightarrow> behaves D r es \<Longrightarrow> router_reach (fst (run_events r_step r es)) (drv_run D r es)"
proof (induction es arbitrary: r D)
  case (Cons e es)
  then have "router_reach (fst (r_step r e)) (drv_after D r e)" by (intro router_event) simp_all
  with Cons show ?case unfolding run_events_Cons by (simp del: r_step.simps allowed.simps)
qed simp

lemma blocked_run:
  assumes "r_inv D r" and "blocked r" and "behaves D r es" and "stays_started r es"
  shows "collect sent_to (snd (run_events r_step r es)) = []"
  using assms
proof (induction es arbitrary: r D)
  case (Cons e es)
  then have e: "allowed D r e" "r_is_started (fst (r_step r e))" by simp_all
  note b = blocked_step [OF Cons.prems(1,2) e(1)]
  have "collect sent_to (snd (run_events r_step (fst (r_step r e)) es)) = []"
    using Cons.prems b e(2) step_inv [OF Cons.prems(1) e(1)]
    by (intro Cons.IH [of "drv_after D r e"]) (simp_all del: r_step.simps allowed.simps)
  with b show ?case unfolding run_events_Cons by (simp del: r_step.simps)
qed simp

text \<open>
  A history of two links: a telegram arrives on the second and is handed to the first, whose driver then
  fails, and is restarted.  Its first seven events end with the telegram in the queue.
\<close>

definition stall_telegram :: l_data_pdu where
  "stall_telegram = L_Data_new\<lparr>l_AddrType := GroupAddress, l_source := 0x1205, l_dest := 0x0a03, l_hopcount := 6,
     l_data := [0x00, 0x81]\<rparr>"

definition stall_history :: "r_event list" where
  "stall_history =
     [R_register 1 (LinkConnect_new (BusDriver (\<lambda>a. False)) 5 3) False,
      R_register 2 (LinkConnect_new (BusDriver (\<lambda>a. False)) 0 0) False,
      R_start, R_link 1 Ev_started, R_link 2 Ev_started, R_state_trigger,
      R_recv 2 stall_telegram, R_trigger (\<lambda>i. False) 0,
      R_link 1 Ev_errored, R_state_trigger, R_link 1 Ev_stopped, R_link 1 Ev_timer, R_link 1 Ev_started,
      R_state_trigger]"

lemmas stall_eval = stall_history_def stall_telegram_def Router_new_def LinkConnect_new_def L_Data_new_def
  registerLink_def link_call_def set_link_def Router_start_def start_links_def start_link_def link_defs
  state_trigger_cb_def drain_changes_def recheck_link_def check_link_def set_running_def stop_if_down_def
  report_running_def counts_up_def counts_going_def counts_down_def RouterHigh_started_def Router_started_def
  linkStateChanged_def drv_after_def disjoint_addresses_def link_hasAddress_def
  Router_recv_L_Data_def set_source_def Router_hasAddress_def in_client_block_def link_addAddress_def queue_L_Data_def
  trigger_cb_def monitor_copies_def route_def hop_down_def L_Data_ToPacket_def with_checksum_def xor_bytes_def
  Router_send_L_Data_def dest_accepts_def group_accepts_def deliver_one_def hand_over_def link_checkGroupAddress_def
  Router_send_Next_def links_ready_def prune_ignore_def encodable_def

lemma behaves_append: "behaves D r (es @ es') \<Longrightarrow> behaves D r es"
  by (induction es arbitrary: D r) (simp_all del: allowed.simps r_step.simps)

abbreviation new_router :: Router where
  "new_router \<equiv> Router_new 0x1001 0x10f0 4 False 0"

lemma stall_behaves: "behaves (\<lambda>i. D_off) new_router stall_history"
  by (simp add: stall_eval)

lemma stall_reach: "\<exists>D. router_reach (fst (run_events r_step new_router (take n stall_history))) D"
  using reach_run [OF router_init behaves_append [of _ _ "take n stall_history" "drop n stall_history"]] stall_behaves
  by (simp only: append_take_drop_id) blast

lemma stall_blocked: "blocked (fst (run_events r_step new_router stall_history)) \<and>
    list_all (\<lambda>(i, c). c_state c = L_up \<and> c_send_more c) (r_links (fst (run_events r_step new_router stall_history)))"
  by (simp add: stall_eval blocked_def all_more_def)

section \<open>Properties\<close>



text \<open>
  \<^bold>\<open>C12\<close>: no wake-up is lost: whenever a telegram waits in the queue of a running router and the router may
  send, its trigger is pending.
\<close>

theorem router_no_lost_wakeup:
  assumes "router_reach r D"
  shows "r_low_send_more r \<and> r_running_signal r \<and> r_buf r \<noteq> [] \<longrightarrow> r_trigger r"
  using reach_inv [OF assms] by (simp add: r_inv_def awake_def)

theorem router_no_lost_wakeup_witness:
  "r_trigger (fst (run_events r_step new_router (take 7 stall_history)))"
proof -
  let ?r = "fst (run_events r_step new_router (take 7 stall_history))"
  obtain D where "router_reach ?r D" using stall_reach by blast
  moreover have "r_low_send_more ?r \<and> r_running_signal ?r \<and> r_buf ?r \<noteq> []" by (simp add: stall_eval)
  ultimately show ?thesis using router_no_lost_wakeup by blast
qed



text \<open>
  A link that fails while the router waits for it blocks the router for good.  Once the router waits
  for a wake-up that no link owes it, it sends nothing any more, whatever telegrams arrive and whatever
  happens to the links, as long as drivers ask for the next telegram only after they were given one and
  the router is not stopped.  Such a state is reached when a driver reports an error instead of asking for
  the next telegram: restarting the link marks it ready without waking the router.
\<close>

theorem router_blocked_by_failed_link:
  assumes "router_reach r D" and "blocked r" and "behaves D r es" and "stays_started r es"
  shows "collect sent_to (snd (run_events r_step r es)) = []"
  by (rule blocked_run [OF reach_inv [OF assms(1)] assms(2-4)])

theorem router_blocked_by_failed_link_witness:
  "\<exists>r. list_all (\<lambda>(i, c). c_state c = L_up \<and> c_send_more c) (r_links r) \<and>
     collect sent_to (snd (run_events r_step r [R_recv 2 stall_telegram, R_trigger (\<lambda>i. True) 5])) = []"
proof -
  let ?r = "fst (run_events r_step new_router stall_history)"
  obtain D where "router_reach ?r D" using stall_reach [of "length stall_history"] by auto
  moreover have b: "blocked ?r" "list_all (\<lambda>(i, c). c_state c = L_up \<and> c_send_more c) (r_links ?r)"
    using stall_blocked by blast+
  moreover have "behaves D ?r [R_recv 2 stall_telegram, R_trigger (\<lambda>i. True) 5]"
    by (simp add: encodable_def stall_telegram_def L_Data_new_def)
  moreover have "stays_started ?r [R_recv 2 stall_telegram, R_trigger (\<lambda>i. True) 5]"
    using recv_blocked [OF b(1)] trigger_blocked [OF recv_blocked [OF b(1)]] by (simp add: blocked_def)
  ultimately show ?thesis using router_blocked_by_failed_link by blast
qed

end
