(* ===== verification/Filters.thy ===== *)
theory Filters
  imports Router_Delivery Complex_Main
begin

text \<open>
  The filters a link can have between the router and its driver: the queue (\<^verbatim>\<open>src/src/backend/fqueue.cpp\<close>),
  the pacer (\<^verbatim>\<open>fpace.cpp\<close>) and the two address translators (\<^verbatim>\<open>nat.cpp\<close>).  A handler returns the calls it
  makes on its neighbours.  Delays are exact fractions of a second instead of floating point numbers.
\<close>

section \<open>Queue\<close>

datatype QSTATE = Q_DOWN | Q_IDLE | Q_BUSY | Q_SENDING

record QueueFilter =
  q_buf :: "l_data_pdu list"
  q_state :: QSTATE
  q_trigger :: bool

definition QueueFilter_new :: QueueFilter where
  "QueueFilter_new = \<lparr>q_buf = [], q_state = Q_DOWN, q_trigger = False\<rparr>"

datatype f_out =
    F_send_L_Data l_data_pdu
  | F_recv_L_Data l_data_pdu
  | F_send_Next
  | F_start
  | F_started
  | F_stopped

definition Queue_started :: "QueueFilter \<Rightarrow> QueueFilter \<times> f_out list" where
  "Queue_started q = (if q_state q = Q_DOWN then q\<lparr>q_state := Q_IDLE\<rparr> else q, [F_started])"

definition Queue_stopped :: "QueueFilter \<Rightarrow> QueueFilter \<times> f_out list" where
  "Queue_stopped q = (q\<lparr>q_buf := [], q_state := Q_DOWN\<rparr>, [F_stopped])"

definition Queue_send_Next :: "QueueFilter \<Rightarrow> QueueFilter" where
  "Queue_send_Next q =
     (case q_state q of
        Q_DOWN \<Rightarrow> q
      | Q_IDLE \<Rightarrow> q
      | Q_BUSY \<Rightarrow> q\<lparr>q_trigger := True, q_state := Q_IDLE\<rparr>
      | Q_SENDING \<Rightarrow> q\<lparr>q_state := Q_IDLE\<rparr>)"

text \<open>
  The loop of \<open>trigger_cb\<close>.  The driver below may ask for the next telegram from inside \<open>send_L_Data\<close>;
  \<open>ready\<close> says for which telegrams it does.
\<close>

fun queue_loop :: "(l_data_pdu \<Rightarrow> bool) \<Rightarrow> l_data_pdu list \<Rightarrow> QueueFilter \<Rightarrow> QueueFilter \<times> f_out list" where
  "queue_loop ready [] q = (q\<lparr>q_buf := []\<rparr>, [])"
| "queue_loop ready (l # ls) q =
     (if q_state q = Q_IDLE
      then let q1 = q\<lparr>q_state := Q_SENDING\<rparr>; q2 = (if ready l then Queue_send_Next q1 else q1)
           in (fst (queue_loop ready ls q2), F_send_L_Data l # snd (queue_loop ready ls q2))
      else (q\<lparr>q_buf := l # ls\<rparr>, []))"

definition Queue_trigger_cb :: "(l_data_pdu \<Rightarrow> bool) \<Rightarrow> QueueFilter \<Rightarrow> QueueFilter \<times> f_out list" where
  "Queue_trigger_cb ready q =
     (let x = queue_loop ready (q_buf q) (q\<lparr>q_trigger := False\<rparr>)
      in (if q_state (fst x) = Q_SENDING then (fst x)\<lparr>q_state := Q_BUSY\<rparr> else fst x, snd x))"

definition Queue_send_L_Data :: "QueueFilter \<Rightarrow> l_data_pdu \<Rightarrow> QueueFilter \<times> f_out list" where
  "Queue_send_L_Data q l =
     (case q_state q of
        Q_DOWN \<Rightarrow> (q, [])
      | Q_IDLE \<Rightarrow> (q\<lparr>q_trigger := True, q_buf := q_buf q @ [l]\<rparr>, [F_send_Next])
      | _ \<Rightarrow> (q\<lparr>q_buf := q_buf q @ [l]\<rparr>, [F_send_Next]))"

datatype q_event =
    Q_start
  | Q_stop
  | Q_next
  | Q_trigger "l_data_pdu \<Rightarrow> bool"
  | Q_send l_data_pdu

fun q_step :: "QueueFilter \<Rightarrow> q_event \<Rightarrow> QueueFilter \<times> f_out list" where
  "q_step q Q_start = Queue_started q"
| "q_step q Q_stop = Queue_stopped q"
| "q_step q Q_next = (Queue_send_Next q, [])"
| "q_step q (Q_trigger ready) = (if q_trigger q then Queue_trigger_cb ready q else (q, []))"
| "q_step q (Q_send l) = Queue_send_L_Data q l"

section \<open>Pacing\<close>

datatype PSTATE = P_DOWN | P_IDLE | P_BUSY

record PaceFilter =
  p_want_next :: bool
  p_delay :: rat
  p_byte_delay :: rat
  p_nr_in :: nat
  p_size_in :: nat
  p_factor_in :: rat
  p_last_len :: nat
  p_state :: PSTATE
  p_timer :: "rat option"

definition Pace_start :: "PaceFilter \<Rightarrow> PaceFilter \<times> f_out list" where
  "Pace_start p = (p\<lparr>p_nr_in := 0, p_size_in := 0\<rparr>, [F_start])"

definition Pace_started :: "PaceFilter \<Rightarrow> PaceFilter \<times> f_out list" where
  "Pace_started p =
     (if p_state p = P_DOWN
      then (p\<lparr>p_state := P_IDLE\<rparr>, (if p_want_next p then [F_send_Next] else []) @ [F_started])
      else (p, [F_started]))"

definition Pace_stopped :: "PaceFilter \<Rightarrow> PaceFilter \<times> f_out list" where
  "Pace_stopped p = (p\<lparr>p_state := P_DOWN, p_want_next := False, p_timer := None\<rparr>, [F_stopped])"

definition Pace_send_Next :: "PaceFilter \<Rightarrow> PaceFilter" where
  "Pace_send_Next p =
     (case p_state p of
        P_DOWN \<Rightarrow> p\<lparr>p_want_next := True\<rparr>
      | P_IDLE \<Rightarrow> p\<lparr>p_state := P_BUSY, p_timer := Some (of_nat (p_last_len p) * p_byte_delay p + p_delay p)\<rparr>
      | P_BUSY \<Rightarrow> p)"

definition Pace_timer_cb :: "PaceFilter \<Rightarrow> PaceFilter \<times> f_out list" where
  "Pace_timer_cb p =
     (if p_state p \<noteq> P_BUSY then (p, [])
      else if p_factor_in p > 0 \<and> p_nr_in p > 0 then
        (p\<lparr>p_timer := Some ((of_nat (p_size_in p) * p_byte_delay p + of_nat (p_nr_in p) * p_delay p) * p_factor_in p),
           p_nr_in := 0, p_size_in := 0\<rparr>, [])
      else (p\<lparr>p_state := P_IDLE\<rparr>, [F_send_Next]))"

definition Pace_send_L_Data :: "PaceFilter \<Rightarrow> l_data_pdu \<Rightarrow> PaceFilter \<times> f_out list" where
  "Pace_send_L_Data p l = (p\<lparr>p_last_len := length (l_data l)\<rparr>, [F_send_L_Data l])"

definition Pace_recv_L_Data :: "PaceFilter \<Rightarrow> l_data_pdu \<Rightarrow> PaceFilter \<times> f_out list" where
  "Pace_recv_L_Data p l =
     (p\<lparr>p_nr_in := p_nr_in p + 1, p_size_in := length (l_data l)\<rparr>, [F_recv_L_Data l])"

datatype p_event = P_start | P_up | P_stop | P_next | P_timer | P_send l_data_pdu | P_recv l_data_pdu

fun p_step :: "PaceFilter \<Rightarrow> p_event \<Rightarrow> PaceFilter \<times> f_out list" where
  "p_step p P_start = Pace_start p"
| "p_step p P_up = Pace_started p"
| "p_step p P_stop = Pace_stopped p"
| "p_step p P_next = (Pace_send_Next p, [])"
| "p_step p P_timer = (if p_timer p = None then (p, []) else Pace_timer_cb (p\<lparr>p_timer := None\<rparr>))"
| "p_step p (P_send l) = Pace_send_L_Data p l"
| "p_step p (P_recv l) = Pace_recv_L_Data p l"

section \<open>Address translation\<close>

record NatL2Filter =
  n_addr :: eibaddr
  n_revaddr :: "(eibaddr \<times> eibaddr) list"

text \<open>The table holds pairs of source and destination.\<close>

fun add_reverse :: "eibaddr \<Rightarrow> eibaddr \<Rightarrow> (eibaddr \<times> eibaddr) list \<Rightarrow> (eibaddr \<times> eibaddr) list" where
  "add_reverse src dest [] = [(src, dest)]"
| "add_reverse src dest ((s, d) # xs) =
     (if d = dest then (src, d) # xs else (s, d) # add_reverse src dest xs)"

definition addReverseAddress :: "NatL2Filter \<Rightarrow> eibaddr \<Rightarrow> eibaddr \<Rightarrow> NatL2Filter" where
  "addReverseAddress n src dest = n\<lparr>n_revaddr := add_reverse src dest (n_revaddr n)\<rparr>"

definition getDestinationAddress :: "NatL2Filter \<Rightarrow> eibaddr \<Rightarrow> eibaddr" where
  "getDestinationAddress n src = (case find (\<lambda>(s, d). d = src) (n_revaddr n) of Some (s, d) \<Rightarrow> s | None \<Rightarrow> 0)"

definition Nat_send_L_Data :: "NatL2Filter \<Rightarrow> l_data_pdu \<Rightarrow> NatL2Filter \<times> f_out list" where
  "Nat_send_L_Data n l =
     (if l_AddrType l = IndividualAddress then addReverseAddress n (l_source l) (l_dest l) else n,
      [F_send_L_Data (l\<lparr>l_source := n_addr n\<rparr>)])"

definition Nat_recv_L_Data :: "NatL2Filter \<Rightarrow> l_data_pdu \<Rightarrow> NatL2Filter \<times> f_out list" where
  "Nat_recv_L_Data n l =
     (if l_source l = n_addr n then (n, [])
      else (n, [F_recv_L_Data (if l_AddrType l = IndividualAddress
                               then l\<lparr>l_dest := getDestinationAddress n (l_source l)\<rparr> else l)]))"

definition Map_send_L_Data :: "NatL2Filter \<Rightarrow> l_data_pdu \<Rightarrow> NatL2Filter \<times> f_out list" where
  "Map_send_L_Data n l =
     (let d = getDestinationAddress n (l_source l)
      in (n, [F_send_L_Data (if l_AddrType l = IndividualAddress
                             then l\<lparr>l_dest := (if d = 0 then n_addr n else d)\<rparr> else l)]))"

definition Map_recv_L_Data :: "NatL2Filter \<Rightarrow> l_data_pdu \<Rightarrow> NatL2Filter \<times> f_out list" where
  "Map_recv_L_Data n l =
     (if l_AddrType l = IndividualAddress then addReverseAddress n (l_source l) (l_dest l) else n,
      [F_recv_L_Data (l\<lparr>l_source := n_addr n\<rparr>)])"

section \<open>The queue keeps order and makes progress\<close>

fun telegrams_down :: "f_out \<Rightarrow> l_data_pdu list" where
  "telegrams_down (F_send_L_Data l) = [l]"
| "telegrams_down _ = []"

fun queue_submits :: "q_event \<Rightarrow> l_data_pdu list" where
  "queue_submits (Q_send l) = [l]"
| "queue_submits _ = []"

fun keeps_up :: "q_event \<Rightarrow> bool" where
  "keeps_up Q_stop = False"
| "keeps_up _ = True"

text \<open>Outside the loop, a queue that may send and has something to send has its trigger pending.\<close>

definition q_inv :: "QueueFilter \<Rightarrow> bool" where
  "q_inv q \<longleftrightarrow> q_state q \<noteq> Q_SENDING \<and> (q_state q = Q_IDLE \<and> q_buf q \<noteq> [] \<longrightarrow> q_trigger q) \<and>
     (q_state q = Q_DOWN \<longrightarrow> q_buf q = [])"

definition q_up :: "QueueFilter \<Rightarrow> bool" where
  "q_up q \<longleftrightarrow> q_inv q \<and> q_state q \<noteq> Q_DOWN"

lemma queue_loop_fifo:
  "ls = collect telegrams_down (snd (queue_loop ready ls q)) @ q_buf (fst (queue_loop ready ls q))"
  by (induction ready ls q rule: queue_loop.induct) (simp_all add: Let_def)

lemma queue_loop_state:
  assumes "q_state q \<in> {Q_IDLE, Q_SENDING, Q_BUSY}"
  shows "q_state (fst (queue_loop ready ls q)) \<in> {Q_IDLE, Q_SENDING, Q_BUSY} \<and>
    (q_state (fst (queue_loop ready ls q)) = Q_IDLE \<longrightarrow> q_buf (fst (queue_loop ready ls q)) = [])"
  using assms
  by (induction ready ls q rule: queue_loop.induct) (auto simp: Let_def Queue_send_Next_def)

lemma queue_loop_down: "q_state q = Q_DOWN \<Longrightarrow> queue_loop ready ls q = (q\<lparr>q_buf := ls\<rparr>, [])"
  by (cases ls) simp_all

lemma queue_step_inv: "q_inv q \<Longrightarrow> q_inv (fst (q_step q e))"
proof (cases e)
  case (Q_trigger ready)
  assume q: "q_inv q"
  show ?thesis
  proof (cases "q_state q = Q_DOWN")
    case True
    with q Q_trigger show ?thesis by (simp add: q_inv_def Queue_trigger_cb_def Let_def queue_loop_down)
  next
    case False
    then have "q_state (q\<lparr>q_trigger := False\<rparr>) \<in> {Q_IDLE, Q_SENDING, Q_BUSY}" by (cases "q_state q") simp_all
    from queue_loop_state [OF this, of ready "q_buf q"] q Q_trigger show ?thesis
      by (auto simp: q_inv_def Queue_trigger_cb_def Let_def)
  qed
qed (auto simp: q_inv_def Queue_started_def Queue_stopped_def Queue_send_Next_def Queue_send_L_Data_def
    split: QSTATE.splits)

lemma queue_step_up:
  assumes "q_up q" and "keeps_up e"
  shows "q_up (fst (q_step q e))"
    and "q_buf q @ queue_submits e = collect telegrams_down (snd (q_step q e)) @ q_buf (fst (q_step q e))"
proof -
  have s: "q_state (q\<lparr>q_trigger := False\<rparr>) \<in> {Q_IDLE, Q_SENDING, Q_BUSY}"
    using assms(1) by (cases "q_state q") (simp_all add: q_up_def q_inv_def)
  have d: "q_state (fst (queue_loop ready (q_buf q) (q\<lparr>q_trigger := False\<rparr>))) \<noteq> Q_DOWN" for ready
    using queue_loop_state [OF s, of ready "q_buf q"] by auto
  have "q_state (fst (q_step q e)) \<noteq> Q_DOWN"
    using assms d
    by (cases e) (auto simp: q_up_def Queue_started_def Queue_send_Next_def Queue_trigger_cb_def
        Queue_send_L_Data_def Let_def split: QSTATE.splits)
  with assms(1) queue_step_inv show "q_up (fst (q_step q e))" by (simp add: q_up_def)
  show "q_buf q @ queue_submits e = collect telegrams_down (snd (q_step q e)) @ q_buf (fst (q_step q e))"
    using assms queue_loop_fifo [of "q_buf q"]
    by (cases e) (auto simp: q_up_def Queue_started_def Queue_send_Next_def Queue_trigger_cb_def
        Queue_send_L_Data_def Let_def split: QSTATE.splits)
qed

interpretation queue: fifo_machine q_step keeps_up q_up "\<lambda>_. True" q_buf queue_submits telegrams_down
  by unfold_locales (simp_all add: queue_step_up)

interpretation queue_any: event_machine q_step "\<lambda>_. True" q_inv "\<lambda>_. True"
  by unfold_locales (simp_all add: queue_step_inv)

text \<open>
  \<^bold>\<open>C25\<close>: the queue filter of a running link neither loses, duplicates nor reorders telegrams: over every
  sequence of events, what was queued and what the router submits is what the driver below receives,
  followed by what is still queued.
\<close>

theorem queue_filter_fifo:
  assumes "q_up q" and "list_all keeps_up es"
  shows "q_buf q @ collect queue_submits es =
    collect telegrams_down (snd (run_events q_step q es)) @ q_buf (fst (run_events q_step q es))"
  by (rule queue.run_fifo [OF assms])

theorem queue_filter_fifo_witness:
  "collect queue_submits [Q_send (L_Data_new\<lparr>l_dest := 1\<rparr>), Q_send (L_Data_new\<lparr>l_dest := 2\<rparr>), Q_trigger (\<lambda>l. False)] =
   collect telegrams_down (snd (run_events q_step (QueueFilter_new\<lparr>q_state := Q_IDLE\<rparr>)
     [Q_send (L_Data_new\<lparr>l_dest := 1\<rparr>), Q_send (L_Data_new\<lparr>l_dest := 2\<rparr>), Q_trigger (\<lambda>l. False)])) @
   q_buf (fst (run_events q_step (QueueFilter_new\<lparr>q_state := Q_IDLE\<rparr>)
     [Q_send (L_Data_new\<lparr>l_dest := 1\<rparr>), Q_send (L_Data_new\<lparr>l_dest := 2\<rparr>), Q_trigger (\<lambda>l. False)]))"
  using queue_filter_fifo [of "QueueFilter_new\<lparr>q_state := Q_IDLE\<rparr>"
      "[Q_send (L_Data_new\<lparr>l_dest := 1\<rparr>), Q_send (L_Data_new\<lparr>l_dest := 2\<rparr>), Q_trigger (\<lambda>l. False)]"]
  by (simp add: QueueFilter_new_def q_up_def q_inv_def)

text \<open>
  \<^bold>\<open>C26\<close>: a queued telegram is not forgotten: after every history of the queue filter, when the link is up and
  telegrams are queued, the first one goes to the driver as soon as the driver asks for the next telegram
  and the pending trigger runs.
\<close>

theorem queue_filter_progress:
  assumes "q = fst (run_events q_step QueueFilter_new es)" and "q_state q \<noteq> Q_DOWN" and "q_buf q = l # ls"
  shows "\<exists>os. snd (run_events q_step q [Q_next, Q_trigger ready]) = F_send_L_Data l # os"
proof -
  have "q_inv q"
    unfolding assms(1) by (rule queue_any.run_inv) (simp_all add: QueueFilter_new_def q_inv_def list_all_iff)
  then have "q_state (Queue_send_Next q) = Q_IDLE \<and> q_trigger (Queue_send_Next q) \<and> q_buf (Queue_send_Next q) = l # ls"
    using assms(2,3) by (cases "q_state q") (simp_all add: q_inv_def Queue_send_Next_def)
  then show ?thesis by (simp add: case_prod_beta Queue_trigger_cb_def Let_def)
qed

theorem queue_filter_progress_witness:
  "\<exists>os. snd (run_events q_step (fst (run_events q_step QueueFilter_new [Q_start, Q_send L_Data_new]))
     [Q_next, Q_trigger (\<lambda>l. False)]) = F_send_L_Data L_Data_new # os"
  by (rule queue_filter_progress [where es = "[Q_start, Q_send L_Data_new]" and ls = "[]"])
    (simp_all add: QueueFilter_new_def Queue_started_def Queue_send_L_Data_def)

section \<open>Pacing\<close>

text \<open>
  When the pacer's timer ends after telegrams were received meanwhile, it waits longer, by a delay
  that counts every one of them but only the bytes of the last one: the size is overwritten where it
  should be added up.
\<close>

theorem pace_counts_last_telegram:
  assumes "p_state p = P_BUSY" and "p_timer p \<noteq> None" and "p_factor_in p > 0" and "p_nr_in p = 0" and "ls \<noteq> []"
  shows "p_timer (fst (run_events p_step p (map P_recv ls @ [P_timer]))) =
    Some ((of_nat (length (l_data (last ls))) * p_byte_delay p + of_nat (length ls) * p_delay p) * p_factor_in p)"
proof -
  have "fst (run_events p_step q (map P_recv ls)) =
      q\<lparr>p_nr_in := p_nr_in q + length ls, p_size_in := length (l_data (last ls))\<rparr>" if "ls \<noteq> []" for q ls
    using that
  proof (induction ls arbitrary: q)
    case (Cons l ls)
    then show ?case by (cases "ls = []") (simp_all add: case_prod_beta Pace_recv_L_Data_def)
  qed simp
  from this [OF assms(5), of p] assms show ?thesis
    by (simp add: run_events_append case_prod_beta Pace_timer_cb_def)
qed

theorem pace_counts_last_telegram_witness:
  "p_timer (fst (run_events p_step \<lparr>p_want_next = False, p_delay = 15, p_byte_delay = 1, p_nr_in = 0, p_size_in = 0,
     p_factor_in = 1, p_last_len = 2, p_state = P_BUSY, p_timer = Some 17\<rparr>
     (map P_recv [L_Data_new\<lparr>l_data := [0, 1, 2]\<rparr>, L_Data_new\<lparr>l_data := [0]\<rparr>] @ [P_timer]))) = Some 31"
  by (subst pace_counts_last_telegram) simp_all

section \<open>Address translation\<close>

lemma get_add_reverse: "getDestinationAddress (addReverseAddress n s d) a = (if a = d then s else getDestinationAddress n a)"
proof -
  have "find (\<lambda>(s, d). d = a) (add_reverse s d xs) =
      (if a = d then Some (s, d) else find (\<lambda>(s, d). d = a) xs)" for xs
    by (induction xs) auto
  then show ?thesis by (simp add: getDestinationAddress_def addReverseAddress_def)
qed

lemma addReverseAddress_addr [simp]: "n_addr (addReverseAddress n s d) = n_addr n"
  by (simp add: addReverseAddress_def)

definition nat_sends :: "NatL2Filter \<Rightarrow> l_data_pdu list \<Rightarrow> NatL2Filter" where
  "nat_sends n ls = foldl (\<lambda>n l. fst (Nat_send_L_Data n l)) n ls"

lemma nat_sends_other:
  "list_all (\<lambda>l. l_AddrType l = IndividualAddress \<longrightarrow> l_dest l \<noteq> a) ls \<Longrightarrow>
   getDestinationAddress (nat_sends n ls) a = getDestinationAddress n a \<and> n_addr (nat_sends n ls) = n_addr n"
  by (induction ls arbitrary: n)
    (auto simp: nat_sends_def Nat_send_L_Data_def get_add_reverse)



end
