(* ===== verification/Tunnel.thy ===== *)
theory Tunnel
  imports Eibnetip Emi
begin

text \<open>
  The tunnel client \<^verbatim>\<open>src/src/backend/eibnettunnel.cpp\<close>: the driver that connects to a remote
  KNXnet/IP server.  A handler returns the new state and the calls the code makes, in order: packets
  given to the socket, calls on the link above, a failed assertion or the use of a deleted socket.
  What the resolver, the routing table and the socket creation return is an argument of \<open>Tunnel_start\<close>.
\<close>

section \<open>State\<close>

text \<open>
  A timer is the flag that it runs, an asynchronous watcher has a flag that it is started and one that
  a signal is pending.  \<open>u_sock\<close> says that the socket object exists.
\<close>

record EIBNetIPTunnel =
  u_caddr :: sockaddr_in
  u_daddr :: sockaddr_in
  u_saddr :: sockaddr_in
  u_out :: carray
  u_NAT :: bool
  u_monitor :: bool
  u_port :: u16
  u_sport :: u16
  u_srcip :: bool
  u_dataport :: u16
  u_channel :: int
  u_mod :: nat
  u_rno :: nat
  u_sno :: nat
  u_heartbeat :: nat
  u_heartbeat_time :: nat
  u_heartbeat_limit :: nat
  u_retry :: nat
  u_timeout :: bool
  u_conntimeout :: bool
  u_trigger_on :: bool
  u_trigger :: bool
  u_support_busmonitor :: bool
  u_sock :: bool
  u_recvaddr :: sockaddr_in
  u_recvaddr2 :: sockaddr_in
  u_recvall :: byte

definition Tunnel_new :: "bool \<Rightarrow> u16 \<Rightarrow> u16 \<Rightarrow> bool \<Rightarrow> u16 \<Rightarrow> nat \<Rightarrow> nat \<Rightarrow> EIBNetIPTunnel" where
  "Tunnel_new monitor port sport srcip dataport hb_time hb_limit =
     \<lparr>u_caddr = sockaddr_zero, u_daddr = sockaddr_zero, u_saddr = sockaddr_zero, u_out = [], u_NAT = False,
      u_monitor = monitor, u_port = port, u_sport = sport, u_srcip = srcip, u_dataport = dataport,
      u_channel = -1, u_mod = 0, u_rno = 0, u_sno = 0, u_heartbeat = 0, u_heartbeat_time = hb_time,
      u_heartbeat_limit = hb_limit, u_retry = 0, u_timeout = False, u_conntimeout = False,
      u_trigger_on = False, u_trigger = False, u_support_busmonitor = False, u_sock = False,
      u_recvaddr = sockaddr_zero, u_recvaddr2 = sockaddr_zero, u_recvall = 0\<rparr>"

datatype u_call =
    U_send EIBNetIPPacket sockaddr_in
  | U_recv_L_Data l_data_pdu
  | U_recv_L_Busmonitor "l_busmonitor_pdu option"
  | U_setAddress eibaddr
  | U_started
  | U_stopped
  | U_errored
  | U_send_Next
  | U_abort
  | U_null_socket

type_synonym u_result = "EIBNetIPTunnel \<times> u_call list"

text \<open>\<open>sock->Send (p, a)\<close>, and \<open>trigger.send()\<close>, which has no effect on a stopped watcher.\<close>

definition sock_Send :: "EIBNetIPTunnel \<Rightarrow> EIBNetIPPacket \<Rightarrow> sockaddr_in \<Rightarrow> u_call" where
  "sock_Send t p a = (if u_sock t then U_send p a else U_null_socket)"

definition signal :: "EIBNetIPTunnel \<Rightarrow> EIBNetIPTunnel" where
  "signal t = t\<lparr>u_trigger := u_trigger_on t\<rparr>"

section \<open>Starting and stopping\<close>

definition is_stopped :: "EIBNetIPTunnel \<Rightarrow> EIBNetIPTunnel" where
  "is_stopped t = t\<lparr>u_timeout := False, u_conntimeout := False, u_trigger_on := False, u_trigger := False,
     u_sock := False\<rparr>"

definition restart :: "EIBNetIPTunnel \<Rightarrow> u_result" where
  "restart t =
     (if u_mod t = 0 then (t, [])
      else (t\<lparr>u_recvall := 0, u_mod := 0, u_conntimeout := True\<rparr>,
            if u_channel t \<noteq> -1
            then [sock_Send t (DisconnectRequest_ToPacket \<lparr>dreq_caddr = u_saddr t,
                     dreq_channel = word_of_int (u_channel t), dreq_nat = False\<rparr>) (u_caddr t)]
            else []))"

definition Tunnel_stop :: "EIBNetIPTunnel \<Rightarrow> u_result" where
  "Tunnel_stop t = (let x = restart t in (is_stopped (fst x), snd x @ [U_stopped]))"

definition get_creq :: "EIBNetIPTunnel \<Rightarrow> EIBnet_ConnectRequest" where
  "get_creq t = \<lparr>creq_caddr = u_saddr t, creq_daddr = u_saddr t, creq_CRI = [0x04, 0x02, 0x00],
     creq_nat = (sin_addr (u_saddr t) = 0)\<rparr>"

text \<open>
  \<open>host\<close> is the result of looking up the server, \<open>source\<close> the local address of the socket with its
  port (\<open>None\<close> when the lookup or the creation of the socket fails), \<open>nat_host\<close> the result of looking
  up the configured external address, if there is one.
\<close>

definition start_failed :: "EIBNetIPTunnel \<Rightarrow> u_result" where
  "start_failed t = (is_stopped t, [U_stopped])"

definition start_connect :: "EIBNetIPTunnel \<Rightarrow> u_result" where
  "start_connect t =
     (let t1 = t\<lparr>u_recvaddr := u_caddr t, u_recvall := 0, u_support_busmonitor := True\<rparr>
      in (t1\<lparr>u_conntimeout := True, u_out := []\<rparr>,
          [sock_Send t1 (ConnectRequest_ToPacket (get_creq t1)) (u_caddr t1)]))"

definition Tunnel_start ::
  "sockaddr_in option \<Rightarrow> sockaddr_in option \<Rightarrow> sockaddr_in option \<Rightarrow> EIBNetIPTunnel \<Rightarrow> u_result" where
  "Tunnel_start host source nat_host t0 =
     (let t = t0\<lparr>u_trigger_on := True, u_trigger := u_trigger t0 \<and> u_trigger_on t0, u_sock := False\<rparr>
      in case host of
           None \<Rightarrow> start_failed t
         | Some h \<Rightarrow>
             let t1 = t\<lparr>u_caddr := h\<lparr>sin_port := u_port t\<rparr>\<rparr>
             in case source of
                  None \<Rightarrow> start_failed t1
                | Some raddr \<Rightarrow>
                    let t2 = t1\<lparr>u_NAT := False, u_sock := True\<rparr>
                    in if u_srcip t2
                       then (case nat_host of
                               None \<Rightarrow> start_failed t2
                             | Some n \<Rightarrow>
                                 start_connect (t2\<lparr>u_saddr := n\<lparr>sin_port := u_sport t\<rparr>, u_NAT := True\<rparr>))
                       else start_connect (t2\<lparr>u_saddr := raddr\<rparr>))"

definition error_cb :: "EIBNetIPTunnel \<Rightarrow> u_result" where
  "error_cb t = (t, [U_errored])"

section \<open>Sending\<close>

definition Tunnel_send_L_Data :: "EIBNetIPTunnel \<Rightarrow> l_data_pdu \<Rightarrow> u_result" where
  "Tunnel_send_L_Data t l =
     (if u_out t \<noteq> [] then (t, [U_abort])
      else case L_Data_ToCEMI 0x11 l of
             None \<Rightarrow> (t, [U_abort])
           | Some c \<Rightarrow> (signal (t\<lparr>u_out := c\<rparr>), []))"

definition Tunnel_trigger_cb :: "EIBNetIPTunnel \<Rightarrow> u_result" where
  "Tunnel_trigger_cb t0 =
     (let t = t0\<lparr>u_trigger := False\<rparr>
      in if u_mod t \<noteq> 1 \<or> u_out t = [] then (t, [])
         else (t\<lparr>u_mod := 2, u_timeout := True\<rparr>,
               [sock_Send t (TunnelRequest_ToPacket \<lparr>treq_channel = word_of_int (u_channel t),
                   treq_seqno = of_nat (u_sno t), treq_CEMI = u_out t\<rparr>) (u_daddr t)]))"

text \<open>The timers are one-shot: the callback finds them stopped.\<close>

definition Tunnel_timeout_cb :: "EIBNetIPTunnel \<Rightarrow> u_result" where
  "Tunnel_timeout_cb t0 =
     (let t = t0\<lparr>u_timeout := False\<rparr>
      in if u_mod t \<noteq> 2 then (t, [])
         else
           let x = (if u_retry t > 3 then restart (t\<lparr>u_retry := u_retry t + 1, u_out := []\<rparr>)
                    else (t\<lparr>u_retry := u_retry t + 1\<rparr>, []))
           in (signal ((fst x)\<lparr>u_mod := 1\<rparr>), snd x))"

definition conntimeout_cb :: "EIBNetIPTunnel \<Rightarrow> u_result" where
  "conntimeout_cb t0 =
     (let t = t0\<lparr>u_conntimeout := False\<rparr>
      in if u_mod t \<noteq> 0
         then if u_heartbeat t < u_heartbeat_limit t
              then (t\<lparr>u_heartbeat := u_heartbeat t + 1, u_conntimeout := (u_heartbeat_time t \<noteq> 0)\<rparr>,
                    [sock_Send t (ConnectionStateRequest_ToPacket \<lparr>csreq_caddr = u_saddr t,
                        csreq_channel = word_of_int (u_channel t),
                        csreq_nat = (sin_addr (u_saddr t) = 0)\<rparr>) (u_caddr t)])
              else restart t
         else (is_stopped t, [U_errored]))"

section \<open>Receiving\<close>

text \<open>The branches of \<open>read_cb\<close>.\<close>

definition recv_CONNECTION_RESPONSE :: "EIBNetIPTunnel \<Rightarrow> EIBNetIPPacket \<Rightarrow> u_result" where
  "recv_CONNECTION_RESPONSE t p =
     (if u_mod t \<noteq> 0 then (t, [])
      else case parseEIBnet_ConnectResponse p of
        None \<Rightarrow> (t, [])
      | Some r \<Rightarrow>
          if cres_status r \<noteq> 0
          then if cres_status r = 0x23 \<and> u_support_busmonitor t \<and> u_monitor t then restart t else (t, [])
          else if length (cres_CRD r) \<noteq> 3 then (t, [])
          else
            let a = be16 (cres_CRD r ! 1) (cres_CRD r ! 2);
                d0 = cres_daddr r;
                d = (if \<not> cres_nat r \<and> u_NAT t
                     then \<lparr>sin_addr = sin_addr (u_caddr t),
                           sin_port = (if u_dataport t \<noteq> 0 then u_dataport t else sin_port d0)\<rparr>
                     else d0)
            in (signal (t\<lparr>u_daddr := d, u_channel := uint (cres_channel r), u_mod := 1, u_sno := 0, u_rno := 0,
                   u_recvaddr2 := d, u_recvall := 3,
                   u_conntimeout := (u_heartbeat_time t \<noteq> 0 \<or> u_conntimeout t), u_heartbeat := 0\<rparr>),
                [U_setAddress a, U_started]))"

definition tunnel_ack :: "EIBNetIPTunnel \<Rightarrow> byte \<Rightarrow> u_call" where
  "tunnel_ack t n = sock_Send t (TunnelACK_ToPacket \<lparr>tack_channel = word_of_int (u_channel t),
     tack_seqno = n, tack_status = 0\<rparr>) (u_daddr t)"

text \<open>
  What becomes of the cEMI frame of an accepted request.  \<open>now\<close> is the time stamp of a bus monitor
  frame.  An L\_Data frame that does not fit a bus frame aborts in \<open>ToPacket\<close>.
\<close>

definition recv_CEMI :: "nat \<times> nat \<Rightarrow> EIBNetIPTunnel \<Rightarrow> carray \<Rightarrow> u_result" where
  "recv_CEMI now t c =
     (if c ! 0 = 0x2E then (if u_mod t = 3 then signal (t\<lparr>u_mod := 1\<rparr>) else t, [])
      else if c ! 0 = 0x2B then (t, [U_recv_L_Busmonitor (CEMI_to_Busmonitor (fst now) (snd now) c)])
      else if c ! 0 \<noteq> 0x29 then (t, [])
      else case CEMI_to_L_Data c of
             None \<Rightarrow> (t, [])
           | Some l \<Rightarrow>
               if \<not> u_monitor t then (t, [U_recv_L_Data l])
               else case L_Data_ToPacket l of
                      None \<Rightarrow> (t, [U_abort])
                    | Some d \<Rightarrow>
                        (t, [U_recv_L_Busmonitor (Some ((L_Busmonitor_new (fst now) (snd now))\<lparr>b_pdu := d\<rparr>))]))"

definition recv_TUNNEL_REQUEST :: "nat \<times> nat \<Rightarrow> EIBNetIPTunnel \<Rightarrow> EIBNetIPPacket \<Rightarrow> u_result" where
  "recv_TUNNEL_REQUEST now t p =
     (if u_mod t = 0 then (t, [])
      else case parseEIBnet_TunnelRequest p of
        None \<Rightarrow> (t, [])
      | Some r \<Rightarrow>
          if uint (treq_channel r) \<noteq> u_channel t then (t, [])
          else if (unat (treq_seqno r) + 1) mod 256 = u_rno t
          then (t\<lparr>u_recvall := 0\<rparr>, [tunnel_ack t (treq_seqno r)])
          else if unat (treq_seqno r) \<noteq> u_rno t
          then if unat (treq_seqno r) \<ge> u_rno t + 5 then restart t else (t, [])
          else
            let t1 = t\<lparr>u_rno := (if u_rno t + 1 > 0xff then 0 else u_rno t + 1)\<rparr>;
                x = recv_CEMI now t1 (treq_CEMI r)
            in (fst x, tunnel_ack t1 (treq_seqno r) # snd x))"

definition recv_TUNNEL_RESPONSE :: "EIBNetIPTunnel \<Rightarrow> EIBNetIPPacket \<Rightarrow> u_result" where
  "recv_TUNNEL_RESPONSE t p =
     (if u_mod t = 0 then (t, [])
      else case parseEIBnet_TunnelACK p of
        None \<Rightarrow> (t, [])
      | Some r \<Rightarrow>
          if uint (tack_channel r) \<noteq> u_channel t then (t, [])
          else if unat (tack_seqno r) \<noteq> u_sno t then (t, [])
          else if tack_status r \<noteq> 0 then (t, [])
          else if u_mod t = 2
          then (signal (t\<lparr>u_sno := (if u_sno t + 1 > 0xff then 0 else u_sno t + 1), u_out := [],
                   u_mod := 1, u_retry := 0\<rparr>), [U_send_Next])
          else (t, []))"

definition recv_CONNECTIONSTATE_RESPONSE :: "EIBNetIPTunnel \<Rightarrow> EIBNetIPPacket \<Rightarrow> u_result" where
  "recv_CONNECTIONSTATE_RESPONSE t p =
     (case parseEIBnet_ConnectionStateResponse p of
        None \<Rightarrow> (t, [])
      | Some r \<Rightarrow>
          if uint (csres_channel r) \<noteq> u_channel t then (t, [])
          else if csres_status r = 0 then (t\<lparr>u_heartbeat := 0\<rparr>, [])
          else if csres_status r = 0x21 then restart t
          else (t, [U_errored]))"

definition recv_DISCONNECT_REQUEST :: "EIBNetIPTunnel \<Rightarrow> EIBNetIPPacket \<Rightarrow> u_result" where
  "recv_DISCONNECT_REQUEST t p =
     (if u_mod t = 0 then (t, [])
      else case parseEIBnet_DisconnectRequest p of
        None \<Rightarrow> (t, [])
      | Some r \<Rightarrow>
          if uint (dreq_channel r) \<noteq> u_channel t then (t, [])
          else (t\<lparr>u_recvall := 0, u_mod := 0, u_conntimeout := True\<rparr>,
                [sock_Send t (DisconnectResponse_ToPacket \<lparr>dres_channel = word_of_int (u_channel t),
                   dres_status = 0\<rparr>) (u_caddr t)]))"

definition recv_DISCONNECT_RESPONSE :: "EIBNetIPTunnel \<Rightarrow> EIBNetIPPacket \<Rightarrow> u_result" where
  "recv_DISCONNECT_RESPONSE t p =
     (if u_mod t = 0 then (t, [])
      else case parseEIBnet_DisconnectResponse p of
        None \<Rightarrow> (t, [])
      | Some r \<Rightarrow>
          if uint (dres_channel r) \<noteq> u_channel t then (t, [])
          else let x = restart (t\<lparr>u_mod := 0, u_recvall := 0\<rparr>)
               in ((fst x)\<lparr>u_conntimeout := True\<rparr>, snd x))"

definition read_cb :: "nat \<times> nat \<Rightarrow> EIBNetIPTunnel \<Rightarrow> EIBNetIPPacket \<Rightarrow> u_result" where
  "read_cb now t p =
     (if ip_service p = CONNECTION_RESPONSE then recv_CONNECTION_RESPONSE t p
      else if ip_service p = TUNNEL_REQUEST then recv_TUNNEL_REQUEST now t p
      else if ip_service p = TUNNEL_RESPONSE then recv_TUNNEL_RESPONSE t p
      else if ip_service p = CONNECTIONSTATE_RESPONSE then recv_CONNECTIONSTATE_RESPONSE t p
      else if ip_service p = DISCONNECT_REQUEST then recv_DISCONNECT_REQUEST t p
      else if ip_service p = DISCONNECT_RESPONSE then recv_DISCONNECT_RESPONSE t p
      else (t, []))"

section \<open>Events\<close>

text \<open>
  What can happen to the driver.  The event loop calls a callback only while its timer runs or its
  watcher is signalled, and the socket delivers packets only while it exists.
\<close>

datatype u_event =
    U_start "sockaddr_in option" "sockaddr_in option" "sockaddr_in option"
  | U_stop
  | U_send_data l_data_pdu
  | U_packet "nat \<times> nat" EIBNetIPPacket
  | U_sock_error
  | U_trigger
  | U_timeout
  | U_conntimeout

fun u_step :: "EIBNetIPTunnel \<Rightarrow> u_event \<Rightarrow> u_result" where
  "u_step t (U_start host source nat_host) = Tunnel_start host source nat_host t"
| "u_step t U_stop = Tunnel_stop t"
| "u_step t (U_send_data l) = Tunnel_send_L_Data t l"
| "u_step t (U_packet now p) = (if u_sock t then read_cb now t p else (t, []))"
| "u_step t U_sock_error = (if u_sock t then error_cb t else (t, []))"
| "u_step t U_trigger = (if u_trigger t then Tunnel_trigger_cb t else (t, []))"
| "u_step t U_timeout = (if u_timeout t then Tunnel_timeout_cb t else (t, []))"
| "u_step t U_conntimeout = (if u_conntimeout t then conntimeout_cb t else (t, []))"

end
