(* ===== verification/Ipserver.thy ===== *)
theory Ipserver
  imports Eibnetip Emi Router
begin

text \<open>
  The KNXnet/IP server \<^verbatim>\<open>src/src/libserver/eibnetserver.cpp\<close> with its tunnel connections, and the routing
  driver \<^verbatim>\<open>src/src/backend/eibnetrouter.cpp\<close>.  A handler of a connection returns the new state and the
  calls the code makes, in order; the server applies those that concern it or the router.  The answer
  of \<open>GetSourceAddress\<close>, a question to the routing table of the system, is an argument.
\<close>

section \<open>Connections\<close>

datatype ConnType = CT_NONE | CT_STANDARD | CT_BUSMONITOR | CT_CONFIG

record ConnState =
  k_addr :: eibaddr
  k_channel :: byte
  k_sno :: byte
  k_rno :: byte
  k_retries :: nat
  k_type :: ConnType
  k_no :: int
  k_nat :: bool
  k_timeout :: bool
  k_sendtimeout :: bool
  k_trigger_on :: bool
  k_send_trigger :: bool
  k_do_send_next :: bool
  k_out :: "carray list"
  k_daddr :: sockaddr_in
  k_caddr :: sockaddr_in

text \<open>
  The calls of a connection: a packet sent, a telegram from the client, the request for the next
  telegram, the parts of \<open>stop\<close>, a failed assertion, and the first element of an empty queue.
\<close>

datatype k_call =
    K_send EIBNetIPPacket sockaddr_in
  | K_recv_L_Data l_data_pdu
  | K_send_Next
  | K_deregisterVBusmonitor
  | K_drop_connection
  | K_release_client_addr eibaddr
  | K_stopped
  | K_abort
  | K_empty_queue

type_synonym k_result = "ConnState \<times> k_call list"

text \<open>The object as \<open>addClient\<close> leaves it.\<close>

definition ConnState_new :: "ConnType \<Rightarrow> EIBnet_ConnectRequest \<Rightarrow> eibaddr \<Rightarrow> byte \<Rightarrow> ConnState" where
  "ConnState_new type r1 addr ch =
     \<lparr>k_addr = addr, k_channel = ch, k_sno = 0, k_rno = 0, k_retries = 0, k_type = type, k_no = 1,
      k_nat = creq_nat r1, k_timeout = True, k_sendtimeout = False, k_trigger_on = True,
      k_send_trigger = False, k_do_send_next = False, k_out = [], k_daddr = creq_daddr r1,
      k_caddr = creq_caddr r1\<rparr>"

text \<open>
  \<open>out.put (c); if (!retries) send_trigger.send();\<close>, where a signal to a stopped watcher is lost, and
  \<open>reset_timer\<close>, which restarts a running timer.
\<close>

definition send_signal :: "ConnState \<Rightarrow> ConnState" where
  "send_signal k = k\<lparr>k_send_trigger := k_trigger_on k\<rparr>"

definition out_put :: "carray \<Rightarrow> ConnState \<Rightarrow> ConnState" where
  "out_put c k =
     (let k1 = k\<lparr>k_out := k_out k @ [c]\<rparr> in if k_retries k1 = 0 then send_signal k1 else k1)"

definition Conn_send_L_Busmonitor :: "ConnState \<Rightarrow> l_busmonitor_pdu \<Rightarrow> k_result" where
  "Conn_send_L_Busmonitor k b =
     (if k_type k = CT_BUSMONITOR
      then (out_put (Busmonitor_to_CEMI 0x2B b (k_no k)) (k\<lparr>k_no := k_no k + 1\<rparr>), [])
      else (k, []))"

definition Conn_send_L_Data :: "ConnState \<Rightarrow> l_data_pdu \<Rightarrow> k_result" where
  "Conn_send_L_Data k l =
     (if k_type k = CT_STANDARD
      then if k_do_send_next k then (k, [K_abort])
           else case L_Data_ToCEMI 0x29 l of
                  None \<Rightarrow> (k\<lparr>k_do_send_next := True\<rparr>, [K_abort])
                | Some c \<Rightarrow> (out_put c (k\<lparr>k_do_send_next := True\<rparr>), [])
      else (k, []))"

definition Conn_stop :: "ConnState \<Rightarrow> k_result" where
  "Conn_stop k =
     (k\<lparr>k_timeout := False, k_sendtimeout := False, k_trigger_on := False, k_send_trigger := False,
        k_retries := 0, k_addr := 0\<rparr>,
      (if k_type k = CT_BUSMONITOR then [K_deregisterVBusmonitor] else []) @
      [K_drop_connection] @
      (if k_addr k \<noteq> 0 then [K_release_client_addr (k_addr k)] else []) @
      [K_stopped])"

definition sendtimeout_cb :: "ConnState \<Rightarrow> k_result" where
  "sendtimeout_cb k0 =
     (let k = k0\<lparr>k_sendtimeout := False, k_retries := k_retries k0 + 1\<rparr>
      in if k_retries k \<le> 2 then (send_signal k, [])
         else case k_out k of
                [] \<Rightarrow> (k, [K_empty_queue])
              | c # cs \<Rightarrow> Conn_stop (k\<lparr>k_out := cs\<rparr>))"

definition out_packet :: "ConnState \<Rightarrow> carray \<Rightarrow> EIBNetIPPacket" where
  "out_packet k c =
     (if k_type k = CT_CONFIG
      then ConfigRequest_ToPacket \<lparr>cfreq_channel = k_channel k, cfreq_seqno = k_sno k, cfreq_CEMI = c\<rparr>
      else TunnelRequest_ToPacket \<lparr>treq_channel = k_channel k, treq_seqno = k_sno k, treq_CEMI = c\<rparr>)"

definition send_trigger_cb :: "ConnState \<Rightarrow> k_result" where
  "send_trigger_cb k0 =
     (let k = k0\<lparr>k_send_trigger := False\<rparr>
      in case k_out k of
           [] \<Rightarrow> (k, [])
         | c # cs \<Rightarrow>
             (k\<lparr>k_retries := k_retries k + 1, k_sendtimeout := True\<rparr>, [K_send (out_packet k c) (k_daddr k)]))"

definition Conn_timeout_cb :: "(sockaddr_in \<Rightarrow> sockaddr_in option) \<Rightarrow> u16 \<Rightarrow> ConnState \<Rightarrow> k_result" where
  "Conn_timeout_cb source Port k0 =
     (let k = k0\<lparr>k_timeout := False\<rparr>;
          x = Conn_stop k
      in (fst x,
          (if k_channel k > 0
           then (case source (k_caddr k) of
                   None \<Rightarrow> []
                 | Some a \<Rightarrow> [K_send (DisconnectRequest_ToPacket \<lparr>dreq_caddr = a\<lparr>sin_port := Port\<rparr>,
                     dreq_channel = k_channel k, dreq_nat = k_nat k\<rparr>) (k_caddr k)])
           else []) @ snd x))"

section \<open>Tunnelling\<close>

definition tunnel_ACK :: "ConnState \<Rightarrow> EIBnet_TunnelRequest \<Rightarrow> byte \<Rightarrow> k_call" where
  "tunnel_ACK k r1 status =
     K_send (TunnelACK_ToPacket \<lparr>tack_channel = treq_channel r1, tack_seqno = treq_seqno r1,
       tack_status = status\<rparr>) (k_daddr k)"

text \<open>
  The cEMI frame of a request in sequence: the new state, the calls, and the status of the answer.  A
  request (0x11) is confirmed to the client before it is passed on.  \<open>None\<close> is the assertion of the
  confirmation's encoder.
\<close>

definition tunnel_CEMI :: "ConnState \<Rightarrow> carray \<Rightarrow> (ConnState \<times> k_call list \<times> byte) option" where
  "tunnel_CEMI k c =
     (if k_type k = CT_STANDARD
      then (case CEMI_to_L_Data c of
              Some l \<Rightarrow>
                let l' = (if l_source l = 0 then l\<lparr>l_source := k_addr k\<rparr> else l);
                    up = (if c ! 0 = 0x11 \<or> c ! 0 = 0x29 then [K_recv_L_Data l'] else [])
                in if c ! 0 = 0x11
                   then (case L_Data_ToCEMI 0x2E l of
                           None \<Rightarrow> None
                         | Some con \<Rightarrow> Some (out_put con k, up, 0))
                   else Some (k, up, 0)
            | None \<Rightarrow> Some (k, [], 0x29))
      else Some (k, [], 0x29))"

definition tunnel_request :: "ConnState \<Rightarrow> EIBnet_TunnelRequest \<Rightarrow> k_result" where
  "tunnel_request k r1 =
     (if k_rno k = treq_seqno r1 + 1 then (k, [tunnel_ACK k r1 0])
      else if k_rno k \<noteq> treq_seqno r1 then (k, [])
      else case tunnel_CEMI k (treq_CEMI r1) of
             None \<Rightarrow> (k, [K_abort])
           | Some (k1, up, status) \<Rightarrow>
               (k1\<lparr>k_rno := k_rno k1 + 1\<rparr>, up @ [tunnel_ACK k r1 status]))"

definition next_out :: "ConnState \<Rightarrow> k_result" where
  "next_out k =
     (if k_out k \<noteq> [] then (send_signal k, [])
      else if k_do_send_next k then (k\<lparr>k_do_send_next := False\<rparr>, [K_send_Next])
      else (k, []))"

definition tunnel_response :: "ConnState \<Rightarrow> EIBnet_TunnelACK \<Rightarrow> k_result" where
  "tunnel_response k r1 =
     (if k_sno k \<noteq> tack_seqno r1 then (k, [])
      else if tack_status r1 \<noteq> 0 then (k, [])
      else if k_retries k = 0 then (k, [])
      else if k_type k \<noteq> CT_STANDARD \<and> k_type k \<noteq> CT_BUSMONITOR then (k, [])
      else case k_out k of
             [] \<Rightarrow> (k, [K_empty_queue])
           | c # cs \<Rightarrow>
               next_out (k\<lparr>k_sno := k_sno k + 1, k_out := cs, k_sendtimeout := False, k_retries := 0\<rparr>))"

section \<open>Device configuration\<close>

definition config_ACK :: "ConnState \<Rightarrow> EIBnet_ConfigRequest \<Rightarrow> byte \<Rightarrow> k_call" where
  "config_ACK k r1 status =
     K_send (ConfigACK_ToPacket \<lparr>cfack_channel = cfreq_channel r1, cfack_seqno = cfreq_seqno r1,
       cfack_status = status\<rparr>) (k_daddr k)"

text \<open>
  The answer to M\_PropRead.req.  The start index is \<open>(c[5] & 0x0f) | c[6]\<close>, which has no bits above
  the lowest eight.
\<close>

definition prop_response :: "carray \<Rightarrow> carray" where
  "prop_response c =
     (let obj = be16 (c ! 1) (c ! 2);
          found = (obj = 0 \<and> c ! 3 = 0 \<and> c ! 4 = 0);
          count = (if found then drop_bit 4 (c ! 5) AND 0x0f else 0);
          start = (if found then 0 else (c ! 5 AND 0x0f) OR c ! 6);
          res = (if found then [0, 0] else [0])
      in [0xFB, c ! 1, c ! 2, c ! 3, c ! 4, push_bit 4 count, start] @ res)"

definition config_request :: "ConnState \<Rightarrow> EIBnet_ConfigRequest \<Rightarrow> k_result" where
  "config_request k r1 =
     (let c = cfreq_CEMI r1
      in if k_rno k = cfreq_seqno r1 + 1 then (k, [config_ACK k r1 0])
         else if k_rno k \<noteq> cfreq_seqno r1 then (k, [])
         else
           let ok = (k_type k = CT_CONFIG \<and> length c > 1);
               k1 = (if ok \<and> c ! 0 = 0xFC \<and> length c = 7 then out_put (prop_response c) k else k);
               status = (if \<not> ok then 0x29 else if c ! 0 = 0xFC \<and> length c = 7 then 0 else 0x26)
           in (k1\<lparr>k_rno := k_rno k1 + 1\<rparr>, [config_ACK k r1 status]))"

definition config_response :: "ConnState \<Rightarrow> EIBnet_ConfigACK \<Rightarrow> k_result" where
  "config_response k r1 =
     (if k_sno k \<noteq> cfack_seqno r1 then (k, [])
      else if cfack_status r1 \<noteq> 0 then (k, [])
      else if k_retries k = 0 then (k, [])
      else if k_type k \<noteq> CT_CONFIG then (k, [])
      else case k_out k of
             [] \<Rightarrow> (k, [K_empty_queue])
           | c # cs \<Rightarrow>
               next_out (k\<lparr>k_sno := k_sno k + 1, k_sendtimeout := False, k_out := cs, k_retries := 0\<rparr>))"

text \<open>
  What can happen to a connection.  The event loop calls a callback only while its timer runs or its
  watcher is signalled.
\<close>

datatype k_event =
    K_send_data l_data_pdu
  | K_send_monitor l_busmonitor_pdu
  | K_tunnel_request EIBnet_TunnelRequest
  | K_tunnel_response EIBnet_TunnelACK
  | K_config_request EIBnet_ConfigRequest
  | K_config_response EIBnet_ConfigACK
  | K_trigger
  | K_sendtimeout
  | K_timeout "sockaddr_in \<Rightarrow> sockaddr_in option" u16
  | K_stop

fun k_step :: "ConnState \<Rightarrow> k_event \<Rightarrow> k_result" where
  "k_step k (K_send_data l) = Conn_send_L_Data k l"
| "k_step k (K_send_monitor b) = Conn_send_L_Busmonitor k b"
| "k_step k (K_tunnel_request r) = tunnel_request k r"
| "k_step k (K_tunnel_response r) = tunnel_response k r"
| "k_step k (K_config_request r) = config_request k r"
| "k_step k (K_config_response r) = config_response k r"
| "k_step k K_trigger = (if k_send_trigger k then send_trigger_cb k else (k, []))"
| "k_step k K_sendtimeout = (if k_sendtimeout k then sendtimeout_cb k else (k, []))"
| "k_step k (K_timeout source port) = (if k_timeout k then Conn_timeout_cb source port k else (k, []))"
| "k_step k K_stop = Conn_stop k"

section \<open>The server\<close>

text \<open>
  Connections and their links are objects: each has a number, and \<open>s_next\<close> is the number of the next
  one.  The link of a connection is registered with the router under the number of the connection.
\<close>

record EIBnetServer =
  s_tunnel :: bool
  s_route :: bool
  s_discover :: bool
  s_Port :: u16
  s_maddr :: sockaddr_in
  s_servername :: carray
  s_connections :: "(nat \<times> ConnState) list"
  s_drop_q :: "nat list"
  s_drop_on :: bool
  s_drop_trigger :: bool
  s_sock :: bool
  s_mcast :: "nat option"
  s_next :: nat

text \<open>
  The calls of the server: packets, calls on the links above its connections and above the routing
  driver, calls of the router on drivers (\<open>S_router\<close>), and the failures of a connection.
\<close>

datatype s_call =
    S_send EIBNetIPPacket sockaddr_in
  | S_recv_L_Data nat l_data_pdu
  | S_send_Next nat
  | S_stopped nat
  | S_mcast_recv l_data_pdu
  | S_mcast_send_Next
  | S_mcast_stop nat
  | S_server_started
  | S_server_stopped
  | S_router r_out
  | S_abort nat
  | S_empty_queue nat

type_synonym s_world = "EIBnetServer \<times> Router"
type_synonym s_result = "s_world \<times> s_call list"

definition drop_connection :: "nat \<Rightarrow> EIBnetServer \<Rightarrow> EIBnetServer" where
  "drop_connection i s = s\<lparr>s_drop_q := s_drop_q s @ [i], s_drop_trigger := s_drop_on s\<rparr>"

fun conn_calls :: "nat \<Rightarrow> k_call list \<Rightarrow> s_world \<Rightarrow> s_result" where
  "conn_calls i [] w = (w, [])"
| "conn_calls i (c # cs) (s, r) =
     (case c of
        K_send p a \<Rightarrow> apsnd (Cons (S_send p a)) (conn_calls i cs (s, r))
      | K_recv_L_Data l \<Rightarrow> apsnd (Cons (S_recv_L_Data i l)) (conn_calls i cs (s, r))
      | K_send_Next \<Rightarrow> apsnd (Cons (S_send_Next i)) (conn_calls i cs (s, r))
      | K_deregisterVBusmonitor \<Rightarrow> conn_calls i cs (s, snd (deregisterVBusmonitor i r))
      | K_drop_connection \<Rightarrow> conn_calls i cs (drop_connection i s, r)
      | K_release_client_addr a \<Rightarrow> conn_calls i cs (s, release_client_addr a r)
      | K_stopped \<Rightarrow> apsnd (Cons (S_stopped i)) (conn_calls i cs (s, r))
      | K_abort \<Rightarrow> apsnd (Cons (S_abort i)) (conn_calls i cs (s, r))
      | K_empty_queue \<Rightarrow> apsnd (Cons (S_empty_queue i)) (conn_calls i cs (s, r)))"

definition set_conn :: "nat \<Rightarrow> ConnState \<Rightarrow> EIBnetServer \<Rightarrow> EIBnetServer" where
  "set_conn i k s = s\<lparr>s_connections := map (\<lambda>(j, d). if j = i then (j, k) else (j, d)) (s_connections s)\<rparr>"

text \<open>Something happens to connection \<open>i\<close>.\<close>

definition conn_step :: "nat \<Rightarrow> k_event \<Rightarrow> s_world \<Rightarrow> s_result" where
  "conn_step i e w =
     (case map_of (s_connections (fst w)) i of
        None \<Rightarrow> (w, [])
      | Some k \<Rightarrow>
          let x = k_step k e in conn_calls i (snd x) (set_conn i (fst x) (fst w), snd w))"

definition by_channel :: "EIBnetServer \<Rightarrow> byte \<Rightarrow> nat option" where
  "by_channel s ch = map_option fst (find (\<lambda>(i, k). k_channel k = ch) (s_connections s))"

subsection \<open>New connections\<close>

function free_id :: "nat list \<Rightarrow> nat \<Rightarrow> nat" where
  "free_id used n = (if n \<in> set used then free_id used (n + 1) else n)"
  by pat_completeness auto
termination
proof (relation "measure (\<lambda>(used, n). card {c \<in> set used. n \<le> c})")
  fix used :: "nat list" and n :: nat
  assume "n \<in> set used"
  then have "n \<in> {c \<in> set used. n \<le> c} - {c \<in> set used. n + 1 \<le> c}" by simp
  then have "{c \<in> set used. n + 1 \<le> c} \<subset> {c \<in> set used. n \<le> c}" by fastforce
  then show "((used, n + 1), (used, n)) \<in> measure (\<lambda>(used, n). card {c \<in> set used. n \<le> c})"
    by (simp add: psubset_card_mono)
qed simp

declare free_id.simps [simp del]

text \<open>
  \<open>setup\<close> is the link that \<open>conn->setup ()\<close> configures from the \<open>tunnel\<close> section, or \<open>None\<close> when it
  fails.  The result is the channel, or -1.
\<close>

definition addClient ::
  "ConnType \<Rightarrow> EIBnet_ConnectRequest \<Rightarrow> eibaddr \<Rightarrow> LinkConnect option \<Rightarrow> s_world \<Rightarrow> int \<times> s_result" where
  "addClient type r1 addr setup w =
     (let s = fst w; r = snd w;
          id = free_id (map (unat \<circ> k_channel \<circ> snd) (s_connections s)) 1;
          i = s_next s
      in if id > 0xff then (int id, (w, []))
         else case setup of
                None \<Rightarrow> (-1, ((s\<lparr>s_next := i + 1\<rparr>, r), []))
              | Some c \<Rightarrow>
                  let k = ConnState_new type r1 addr (of_nat id);
                      r1 = (if type = CT_BUSMONITOR then snd (registerVBusmonitor i r) else r);
                      x = registerLink i (link_addAddress c addr) True r1
                  in if \<not> fst x then (-1, ((s\<lparr>s_next := i + 1\<rparr>, fst (snd x)), map S_router (snd (snd x))))
                     else (int id, ((s\<lparr>s_next := i + 1, s_connections := s_connections s @ [(i, k)]\<rparr>,
                             fst (snd x)), map S_router (snd (snd x)))))"

text \<open>
  The answer to a connection request: channel, status and connection data, the new state and the calls
  made meanwhile.
\<close>

definition connect_tunnel ::
  "EIBnet_ConnectRequest \<Rightarrow> LinkConnect option \<Rightarrow> s_world \<Rightarrow> (byte \<times> byte \<times> carray) \<times> s_result" where
  "connect_tunnel r1 setup w =
     (let s = fst w;
          a = (if s_tunnel s then fst (get_client_addr (snd w)) else 0);
          r = (if s_tunnel s then snd (get_client_addr (snd w)) else snd w);
          crd = [0x04, hi8 a, lo8 a]
      in if \<not> s_tunnel s then ((0, 0x22, crd), ((s, r), []))
         else if a = 0 then ((0, 0x24, crd), ((s, r), []))
         else if creq_CRI r1 ! 1 = 0x02 \<or> creq_CRI r1 ! 1 = 0x80
         then let x = addClient (if creq_CRI r1 ! 1 = 0x80 then CT_BUSMONITOR else CT_STANDARD) r1 a setup (s, r)
              in (if fst x \<le> 0xff then (word_of_int (fst x), 0, crd) else (0, 0x22, crd), snd x)
         else ((0, 0x29, crd), ((s, r), [])))"

definition connect_config ::
  "EIBnet_ConnectRequest \<Rightarrow> LinkConnect option \<Rightarrow> s_world \<Rightarrow> (byte \<times> byte \<times> carray) \<times> s_result" where
  "connect_config r1 setup w =
     (let x = addClient CT_CONFIG r1 0 setup w
      in (if fst x \<le> 0xff then (word_of_int (fst x), 0, [0x03]) else (0, 0x22, [0x03]), snd x))"

definition handle_connect ::
  "(sockaddr_in \<Rightarrow> sockaddr_in option) \<Rightarrow> LinkConnect option \<Rightarrow> EIBnet_ConnectRequest \<Rightarrow> s_world \<Rightarrow> s_result" where
  "handle_connect source setup r1 w =
     (let cri = creq_CRI r1;
          x = (if length cri = 3 \<and> cri ! 0 = 4 then connect_tunnel r1 setup w
               else if length cri = 1 \<and> cri ! 0 = 3 then connect_config r1 setup w
               else ((0, 0x22, []), (w, [])))
      in (fst (snd x), snd (snd x) @
          (case source (creq_caddr r1) of
             None \<Rightarrow> []
           | Some a \<Rightarrow> [S_send (ConnectResponse_ToPacket \<lparr>cres_channel = fst (fst x),
               cres_status = fst (snd (fst x)), cres_daddr = a\<lparr>sin_port := s_Port (fst w)\<rparr>,
               cres_nat = creq_nat r1, cres_CRD = snd (snd (fst x))\<rparr>) (creq_caddr r1)])))"

subsection \<open>Packets\<close>

text \<open>
  The description of the server.  \<open>mac\<close> is the hardware address that the handler reads from the
  system; the server's name is cut or padded with zero bytes to 30 bytes.
\<close>

definition server_device ::
  "EIBnetServer \<Rightarrow> Router \<Rightarrow> carray \<Rightarrow> carray \<Rightarrow> DIB_service_Entry list \<Rightarrow> EIBnet_Device" where
  "server_device s r mac serial services =
     \<lparr>KNXmedium = 2, devicestatus = 0, individual_addr = r_addr r, installid = 0, dev_serial = serial,
      dev_services = services,
      multicastaddr = map (\<lambda>n. byte_at n (sin_addr (s_maddr s))) [24, 16, 8, 0], dev_MAC = mac,
      dev_name = take 30 (s_servername s @ replicate 30 0)\<rparr>"

definition service_entries :: "byte list \<Rightarrow> DIB_service_Entry list" where
  "service_entries fs = map (\<lambda>f. \<lparr>family = f, version = 1\<rparr>) fs"

definition handle_search ::
  "(sockaddr_in \<Rightarrow> sockaddr_in option) \<Rightarrow> carray \<Rightarrow> EIBnet_SearchRequest \<Rightarrow> s_world \<Rightarrow> s_result" where
  "handle_search source mac r1 w =
     (let s = fst w
      in if \<not> s_discover s then (w, [])
         else case source (srchq_caddr r1) of
                None \<Rightarrow> (w, [])
              | Some a \<Rightarrow>
                  (w, [S_send (SearchResponse_ToPacket
                    \<lparr>srchr_device = server_device s (snd w) mac [1, 2, 3, 4, 5, 6]
                       (service_entries ([2] @ (if s_tunnel s then [4] else []) @ (if s_route s then [5] else []))),
                     srchr_caddr = a\<lparr>sin_port := s_Port s\<rparr>, srchr_nat = False\<rparr>) (srchq_caddr r1)]))"

definition handle_description :: "carray \<Rightarrow> EIBnet_DescriptionRequest \<Rightarrow> s_world \<Rightarrow> s_result" where
  "handle_description mac r1 w =
     (let s = fst w
      in if \<not> s_discover s then (w, [])
         else (w, [S_send (DescriptionResponse_ToPacket
           \<lparr>descr_device = server_device s (snd w) mac [0, 0, 0, 0, 0, 0]
              (service_entries ([2, 3] @ (if s_tunnel s then [4] else []) @ (if s_route s then [5] else []))),
            descr_optional = []\<rparr>)
           (descq_caddr r1)]))"

definition handle_routing :: "EIBNetIPPacket \<Rightarrow> s_world \<Rightarrow> s_result" where
  "handle_routing p w =
     (if length (ip_data p) < 2 \<or> ip_data p ! 0 \<noteq> 0x29 then (w, [])
      else case CEMI_to_L_Data (ip_data p) of
             None \<Rightarrow> (w, [])
           | Some c \<Rightarrow> (w, if s_route (fst w) then [S_mcast_recv c] else []))"

definition handle_connectionstate :: "EIBnet_ConnectionStateRequest \<Rightarrow> s_world \<Rightarrow> s_result" where
  "handle_connectionstate r1 w =
     (w, [S_send (ConnectionStateResponse_ToPacket \<lparr>csres_channel = csreq_channel r1,
        csres_status = (if by_channel (fst w) (csreq_channel r1) = None then 0x21 else 0)\<rparr>) (csreq_caddr r1)])"

definition handle_disconnect :: "EIBnet_DisconnectRequest \<Rightarrow> s_world \<Rightarrow> s_result" where
  "handle_disconnect r1 w =
     (let x = (case by_channel (fst w) (dreq_channel r1) of
                 None \<Rightarrow> (w, [])
               | Some i \<Rightarrow> conn_step i K_stop w)
      in (fst x, snd x @
          [S_send (DisconnectResponse_ToPacket \<lparr>dres_channel = dreq_channel r1,
             dres_status = (if by_channel (fst w) (dreq_channel r1) = None then 0x21 else 0)\<rparr>) (dreq_caddr r1)]))"

definition to_channel :: "byte \<Rightarrow> k_event \<Rightarrow> s_world \<Rightarrow> s_result" where
  "to_channel ch e w =
     (case by_channel (fst w) ch of None \<Rightarrow> (w, []) | Some i \<Rightarrow> conn_step i e w)"

text \<open>The result of a handler whose request has been parsed.\<close>

definition when_parsed :: "'a option \<Rightarrow> ('a \<Rightarrow> s_world \<Rightarrow> s_result) \<Rightarrow> s_world \<Rightarrow> s_result" where
  "when_parsed r f w = (case r of None \<Rightarrow> (w, []) | Some x \<Rightarrow> f x w)"

text \<open>What the handler learns from the system while it runs.\<close>

record s_env =
  e_source :: "sockaddr_in \<Rightarrow> sockaddr_in option"
  e_mac :: carray
  e_setup :: "LinkConnect option"

definition handle_packet :: "s_env \<Rightarrow> EIBNetIPPacket \<Rightarrow> s_world \<Rightarrow> s_result" where
  "handle_packet v p w =
     (if ip_service p = SEARCH_REQUEST
      then when_parsed (parseEIBnet_SearchRequest p) (handle_search (e_source v) (e_mac v)) w
      else if ip_service p = DESCRIPTION_REQUEST
      then when_parsed (parseEIBnet_DescriptionRequest p) (handle_description (e_mac v)) w
      else if ip_service p = ROUTING_INDICATION then handle_routing p w
      else if ip_service p = CONNECTIONSTATE_REQUEST
      then when_parsed (parseEIBnet_ConnectionStateRequest p) handle_connectionstate w
      else if ip_service p = DISCONNECT_REQUEST
      then when_parsed (parseEIBnet_DisconnectRequest p) handle_disconnect w
      else if ip_service p = CONNECTION_REQUEST
      then when_parsed (parseEIBnet_ConnectRequest p) (handle_connect (e_source v) (e_setup v)) w
      else if ip_service p = TUNNEL_REQUEST
      then when_parsed (parseEIBnet_TunnelRequest p)
             (\<lambda>r1 w. if s_tunnel (fst w) then to_channel (treq_channel r1) (K_tunnel_request r1) w else (w, [])) w
      else if ip_service p = TUNNEL_RESPONSE
      then when_parsed (parseEIBnet_TunnelACK p)
             (\<lambda>r1 w. if s_tunnel (fst w) then to_channel (tack_channel r1) (K_tunnel_response r1) w else (w, [])) w
      else if ip_service p = DEVICE_CONFIGURATION_REQUEST
      then when_parsed (parseEIBnet_ConfigRequest p) (\<lambda>r1. to_channel (cfreq_channel r1) (K_config_request r1)) w
      else if ip_service p = DEVICE_CONFIGURATION_ACK
      then when_parsed (parseEIBnet_ConfigACK p) (\<lambda>r1. to_channel (cfack_channel r1) (K_config_response r1)) w
      else (w, []))"

subsection \<open>Closing connections\<close>

fun drop_loop :: "nat list \<Rightarrow> s_world \<Rightarrow> s_world" where
  "drop_loop [] w = w"
| "drop_loop (i # is) (s, r) =
     (if map_of (s_connections s) i = None then drop_loop is (s, r)
      else drop_loop is (s\<lparr>s_connections := filter (\<lambda>(j, k). j \<noteq> i) (s_connections s)\<rparr>,
                         snd (unregisterLink i r)))"

definition drop_trigger_cb :: "s_world \<Rightarrow> s_world" where
  "drop_trigger_cb w = drop_loop (s_drop_q (fst w)) ((fst w)\<lparr>s_drop_q := [], s_drop_trigger := False\<rparr>, snd w)"

fun stop_conns :: "nat list \<Rightarrow> s_world \<Rightarrow> s_result" where
  "stop_conns [] w = (w, [])"
| "stop_conns (i # is) w =
     (let x = conn_step i K_stop w; y = stop_conns is (fst x) in (fst y, snd x @ snd y))"

definition stop_mcast :: "s_world \<Rightarrow> s_result" where
  "stop_mcast w =
     (case s_mcast (fst w) of
        None \<Rightarrow> (w, [])
      | Some m \<Rightarrow>
          (((fst w)\<lparr>s_mcast := None\<rparr>, if s_route (fst w) then snd (unregisterLink m (snd w)) else snd w),
           [S_mcast_stop m]))"

definition EIBnetServer_stop :: "s_world \<Rightarrow> s_result" where
  "EIBnetServer_stop w =
     (let s = (fst w)\<lparr>s_drop_on := False, s_drop_trigger := False\<rparr>;
          x = stop_conns (rev (map fst (s_connections s))) (s, snd w);
          y = stop_mcast (fst x)
      in (((fst (fst y))\<lparr>s_sock := False\<rparr>, snd (fst y)), snd x @ snd y @ [S_server_stopped]))"

subsection \<open>Opening the server\<close>

text \<open>
  The constructor, and the configuration as \<open>setup\<close> leaves it: tunnelling needs client addresses, and
  \<open>checked\<close> says whether the router accepts the stacks of the configured sections.
\<close>

definition EIBnetServer_new :: EIBnetServer where
  "EIBnetServer_new =
     \<lparr>s_tunnel = False, s_route = False, s_discover = False, s_Port = 0xffff,
      s_maddr = sockaddr_zero, s_servername = [], s_connections = [], s_drop_q = [],
      s_drop_on = True, s_drop_trigger = False, s_sock = False, s_mcast = None, s_next = 0\<rparr>"

definition EIBnetServer_setup ::
  "bool \<Rightarrow> bool \<Rightarrow> bool \<Rightarrow> carray \<Rightarrow> bool \<Rightarrow> bool \<Rightarrow> Router \<Rightarrow> EIBnetServer \<Rightarrow> EIBnetServer \<times> bool" where
  "EIBnetServer_setup tunnel routing discover name tunnel_checked route_checked r s =
     (s\<lparr>s_route := routing, s_tunnel := tunnel, s_discover := discover, s_servername := name\<rparr>,
      (tunnel \<longrightarrow> hasClientAddrs r \<and> tunnel_checked) \<and> (routing \<longrightarrow> route_checked))"

text \<open>
  \<open>port\<close> is the port of the server's socket, or \<open>None\<close> when it cannot be opened; \<open>mcast\<close> is the multicast
  address with the link of the routing driver, or \<open>None\<close> when the driver cannot be set up.  The watcher
  for closed connections, which \<open>stop\<close> stops, is not started again.
\<close>

definition EIBnetServer_start :: "u16 option \<Rightarrow> (sockaddr_in \<times> LinkConnect) option \<Rightarrow> s_world \<Rightarrow> s_result" where
  "EIBnetServer_start port mcast w =
     (case port of
        None \<Rightarrow> (((fst w)\<lparr>s_sock := False\<rparr>, snd w), [S_server_stopped])
      | Some n \<Rightarrow>
          let i = s_next (fst w);
              s = (fst w)\<lparr>s_Port := n, s_next := i + 1\<rparr>;
              failed = s\<lparr>s_mcast := None, s_sock := False\<rparr>
          in case mcast of
               None \<Rightarrow> ((failed, snd w), [S_server_stopped])
             | Some (a, c) \<Rightarrow>
                 let x = (if s_route s then registerLink i c False (snd w) else (True, (snd w, [])))
                 in if fst x
                    then ((s\<lparr>s_maddr := a, s_mcast := Some i, s_sock := True\<rparr>, fst (snd x)),
                          map S_router (snd (snd x)) @ [S_server_started])
                    else ((failed, fst (snd x)), map S_router (snd (snd x)) @ [S_server_stopped]))"

text \<open>
  The events of the server: packets, what happens to its connections, the removal of dead ones, and the
  start, which its link calls only while it is down, and the stop.
\<close>

datatype s_event =
    S_packet s_env EIBNetIPPacket
  | S_conn nat k_event
  | S_drop
  | S_start "u16 option" "(sockaddr_in \<times> LinkConnect) option"
  | S_stop

fun s_step :: "s_world \<Rightarrow> s_event \<Rightarrow> s_result" where
  "s_step w (S_packet v p) = (if s_sock (fst w) then handle_packet v p w else (w, []))"
| "s_step w (S_conn i e) = conn_step i e w"
| "s_step w S_drop = (if s_drop_trigger (fst w) then (drop_trigger_cb w, []) else (w, []))"
| "s_step w (S_start port mcast) = (if s_sock (fst w) then (w, []) else EIBnetServer_start port mcast w)"
| "s_step w S_stop = EIBnetServer_stop w"

section \<open>Routing\<close>

text \<open>
  \<open>EIBnetDriver::send_L_Data\<close> of the server, and the driver \<open>EIBNetIPRouter\<close>, which shares the packet
  format: its state is whether its socket exists, the multicast address, and the monitor option.
\<close>

definition EIBnetDriver_send_L_Data :: "EIBnetServer \<Rightarrow> l_data_pdu \<Rightarrow> s_call list option" where
  "EIBnetDriver_send_L_Data s l =
     (if s_route s
      then (case L_Data_ToCEMI 0x29 l of
              None \<Rightarrow> None
            | Some c \<Rightarrow> Some ((if s_sock s then [S_send (ip_packet ROUTING_INDICATION c) (s_maddr s)] else []) @ [S_mcast_send_Next]))
      else Some [S_mcast_send_Next])"

record EIBNetIPRouter =
  ir_sock :: bool
  ir_sendaddr :: sockaddr_in
  ir_monitor :: bool

datatype ir_call =
    IR_send EIBNetIPPacket sockaddr_in
  | IR_recv_L_Data l_data_pdu
  | IR_recv_L_Busmonitor l_busmonitor_pdu
  | IR_send_Next
  | IR_started
  | IR_stopped
  | IR_abort
  | IR_null_socket

text \<open>\<open>addr\<close> is the multicast address, or \<open>None\<close> when one of the steps of opening the socket fails.\<close>

definition IPRouter_start :: "sockaddr_in option \<Rightarrow> EIBNetIPRouter \<Rightarrow> EIBNetIPRouter \<times> ir_call list" where
  "IPRouter_start addr t =
     (case addr of
        None \<Rightarrow> (t\<lparr>ir_sock := False\<rparr>, [IR_stopped])
      | Some a \<Rightarrow> (t\<lparr>ir_sock := True, ir_sendaddr := a\<rparr>, [IR_started]))"

definition IPRouter_stop :: "EIBNetIPRouter \<Rightarrow> EIBNetIPRouter \<times> ir_call list" where
  "IPRouter_stop t = (t\<lparr>ir_sock := False\<rparr>, [IR_stopped])"

definition IPRouter_send_L_Data :: "EIBNetIPRouter \<Rightarrow> l_data_pdu \<Rightarrow> ir_call list" where
  "IPRouter_send_L_Data t l =
     (case L_Data_ToCEMI 0x29 l of
        None \<Rightarrow> [IR_abort]
      | Some c \<Rightarrow>
          if ir_sock t then [IR_send (ip_packet ROUTING_INDICATION c) (ir_sendaddr t), IR_send_Next]
          else [IR_null_socket])"

definition IPRouter_read_cb :: "nat \<times> nat \<Rightarrow> EIBNetIPRouter \<Rightarrow> EIBNetIPPacket \<Rightarrow> ir_call list" where
  "IPRouter_read_cb now t p =
     (if ip_service p \<noteq> ROUTING_INDICATION then []
      else if length (ip_data p) < 2 \<or> ip_data p ! 0 \<noteq> 0x29 then []
      else case CEMI_to_L_Data (ip_data p) of
             None \<Rightarrow> []
           | Some l \<Rightarrow>
               if \<not> ir_monitor t then [IR_recv_L_Data l]
               else case L_Data_ToPacket l of
                      None \<Rightarrow> [IR_abort]
                    | Some d \<Rightarrow> [IR_recv_L_Busmonitor ((L_Busmonitor_new (fst now) (snd now))\<lparr>b_pdu := d\<rparr>)])"

end
