(* ===== verification/Stop_And_Wait.thy ===== *)
theory Stop_And_Wait
  imports Prelude "HOL-Library.Sublist"
begin

text \<open>
  A sender and a receiver of a stop-and-wait protocol with one-byte sequence numbers, joined by two
  channels that keep the order of packets but lose and repeat them.  The locale states what the two
  sides promise; it is interpreted on both directions of a KNXnet/IP tunnel.
\<close>

section \<open>The system\<close>

text \<open>
  The two sides: what an event does to the sender and which data packets it sends, which messages
  the event submits, what the sender does with an acknowledgement, what the receiver does with a data
  packet (its acknowledgements and what it passes on), and what other events do to the receiver.  The
  two predicates say which events do not end the connection.
\<close>

record ('s, 'a, 'r, 'b, 'd, 'k, 'm, 'o) protocol =
  p_send :: "'s \<Rightarrow> 'a \<Rightarrow> 's \<times> 'd list"
  p_new :: "'s \<Rightarrow> 'a \<Rightarrow> 'm list"
  p_send_ok :: "'s \<Rightarrow> 'a \<Rightarrow> bool"
  p_ack :: "'s \<Rightarrow> 'k \<Rightarrow> 's"
  p_data :: "'r \<Rightarrow> 'd \<Rightarrow> 'r \<times> 'k list \<times> 'o list"
  p_recv :: "'r \<Rightarrow> 'b \<Rightarrow> 'r"
  p_recv_ok :: "'r \<Rightarrow> 'b \<Rightarrow> bool"

record ('s, 'r, 'd, 'k, 'm, 'o) net =
  n_s :: 's
  n_r :: 'r
  n_data :: "'d list"
  n_acks :: "'k list"
  n_new :: "'m list"
  n_got :: "'o list"

definition net_start :: "'s \<Rightarrow> 'r \<Rightarrow> ('s, 'r, 'd, 'k, 'm, 'o) net" where
  "net_start s r = \<lparr>n_s = s, n_r = r, n_data = [], n_acks = [], n_new = [], n_got = []\<rparr>"

datatype ('a, 'b) net_event =
    At_sender 'a
  | At_receiver 'b
  | Data_arrives
  | Data_repeated
  | Data_lost nat
  | Ack_arrives
  | Ack_repeated
  | Ack_lost nat

definition receive ::
  "('s, 'a, 'r, 'b, 'd, 'k, 'm, 'o) protocol \<Rightarrow> 'd \<Rightarrow> ('s, 'r, 'd, 'k, 'm, 'o) net \<Rightarrow>
   ('s, 'r, 'd, 'k, 'm, 'o) net" where
  "receive P d N =
     (case p_data P (n_r N) d of
        (r, ks, os) \<Rightarrow> N\<lparr>n_r := r, n_acks := n_acks N @ ks, n_got := n_got N @ os\<rparr>)"

definition without :: "nat \<Rightarrow> 'x list \<Rightarrow> 'x list" where
  "without i xs = take i xs @ drop (Suc i) xs"

fun net_step ::
  "('s, 'a, 'r, 'b, 'd, 'k, 'm, 'o) protocol \<Rightarrow> ('s, 'r, 'd, 'k, 'm, 'o) net \<Rightarrow> ('a, 'b) net_event \<Rightarrow>
   ('s, 'r, 'd, 'k, 'm, 'o) net" where
  "net_step P N (At_sender a) =
     N\<lparr>n_s := fst (p_send P (n_s N) a), n_data := n_data N @ snd (p_send P (n_s N) a),
       n_new := n_new N @ p_new P (n_s N) a\<rparr>"
| "net_step P N (At_receiver b) = N\<lparr>n_r := p_recv P (n_r N) b\<rparr>"
| "net_step P N Data_arrives =
     (case n_data N of [] \<Rightarrow> N | d # ds \<Rightarrow> receive P d (N\<lparr>n_data := ds\<rparr>))"
| "net_step P N Data_repeated = (case n_data N of [] \<Rightarrow> N | d # ds \<Rightarrow> receive P d N)"
| "net_step P N (Data_lost i) = N\<lparr>n_data := without i (n_data N)\<rparr>"
| "net_step P N Ack_arrives =
     (case n_acks N of [] \<Rightarrow> N | k # ks \<Rightarrow> N\<lparr>n_s := p_ack P (n_s N) k, n_acks := ks\<rparr>)"
| "net_step P N Ack_repeated =
     (case n_acks N of [] \<Rightarrow> N | k # ks \<Rightarrow> N\<lparr>n_s := p_ack P (n_s N) k\<rparr>)"
| "net_step P N (Ack_lost i) = N\<lparr>n_acks := without i (n_acks N)\<rparr>"

fun event_ok ::
  "('s, 'a, 'r, 'b, 'd, 'k, 'm, 'o) protocol \<Rightarrow> ('s, 'r, 'd, 'k, 'm, 'o) net \<Rightarrow> ('a, 'b) net_event \<Rightarrow> bool" where
  "event_ok P N (At_sender a) = p_send_ok P (n_s N) a"
| "event_ok P N (At_receiver b) = p_recv_ok P (n_r N) b"
| "event_ok P N _ = True"

fun net_ok ::
  "('s, 'a, 'r, 'b, 'd, 'k, 'm, 'o) protocol \<Rightarrow> ('s, 'r, 'd, 'k, 'm, 'o) net \<Rightarrow> ('a, 'b) net_event list \<Rightarrow> bool" where
  "net_ok P N [] = True"
| "net_ok P N (e # es) = (event_ok P N e \<and> net_ok P (net_step P N e) es)"

fun net_run ::
  "('s, 'a, 'r, 'b, 'd, 'k, 'm, 'o) protocol \<Rightarrow> ('s, 'r, 'd, 'k, 'm, 'o) net \<Rightarrow> ('a, 'b) net_event list \<Rightarrow>
   ('s, 'r, 'd, 'k, 'm, 'o) net" where
  "net_run P N [] = N"
| "net_run P N (e # es) = net_run P (net_step P N e) es"

fun at_sender :: "('a \<Rightarrow> 'o list) \<Rightarrow> ('a, 'b) net_event \<Rightarrow> 'o list" where
  "at_sender items (At_sender a) = items a"
| "at_sender items _ = []"

lemma set_without: "set (without i xs) \<subseteq> set xs"
  by (auto simp: without_def dest: in_set_takeD in_set_dropD)

lemma map_without: "map f (without i xs) = without i (map f xs)"
  by (simp add: without_def take_map drop_map)

lemma sorted_without: "sorted xs \<Longrightarrow> sorted (without i xs)"
proof (induction i arbitrary: xs)
  case 0
  then show ?case by (cases xs) (simp_all add: without_def)
next
  case (Suc i)
  show ?case
  proof (cases xs)
    case (Cons x ys)
    with Suc.prems Suc.IH [of ys] show ?thesis
      using set_without [of i ys] by (auto simp: without_def)
  qed (simp add: without_def)
qed

lemma sorted_const: "sorted (map (\<lambda>_. k) xs)"
  by (induction xs) auto

section \<open>What the sides promise\<close>

locale stop_and_wait =
  fixes P :: "('s, 'a, 'r, 'b, 'd, 'k, 'm, 'o) protocol"
    and s_inv :: "'s \<Rightarrow> bool" and seqno :: "'s \<Rightarrow> byte" and pending :: "'s \<Rightarrow> 'm list"
    and r_inv :: "'r \<Rightarrow> bool" and expects :: "'r \<Rightarrow> byte"
    and packet :: "byte \<Rightarrow> 'm \<Rightarrow> 'd" and ack_no :: "'k \<Rightarrow> byte"
    and good :: "'m \<Rightarrow> bool" and up :: "'m \<Rightarrow> 'o list"
  assumes send_inv: "s_inv s \<Longrightarrow> p_send_ok P s a \<Longrightarrow> s_inv (fst (p_send P s a))"
    and send_seqno: "s_inv s \<Longrightarrow> p_send_ok P s a \<Longrightarrow> seqno (fst (p_send P s a)) = seqno s"
    and send_pending: "s_inv s \<Longrightarrow> p_send_ok P s a \<Longrightarrow> pending (fst (p_send P s a)) = pending s @ p_new P s a"
    and send_packets: "s_inv s \<Longrightarrow> p_send_ok P s a \<Longrightarrow> snd (p_send P s a) = [] \<or>
      pending s \<noteq> [] \<and> snd (p_send P s a) = [packet (seqno s) (hd (pending s))]"
    and send_new: "s_inv s \<Longrightarrow> p_send_ok P s a \<Longrightarrow> list_all good (p_new P s a)"
    and ack_inv: "s_inv s \<Longrightarrow> s_inv (p_ack P s k)"
    and ack_effect: "s_inv s \<Longrightarrow> seqno (p_ack P s k) = seqno s \<and> pending (p_ack P s k) = pending s \<or>
      ack_no k = seqno s \<and> pending s \<noteq> [] \<and> seqno (p_ack P s k) = seqno s + 1 \<and>
      pending (p_ack P s k) = tl (pending s)"
    and data_next: "r_inv r \<Longrightarrow> good m \<Longrightarrow> p_data P r (packet (expects r) m) = (r', ks, os) \<Longrightarrow>
      r_inv r' \<and> expects r' = expects r + 1 \<and> (\<forall>k\<in>set ks. ack_no k = expects r) \<and> os = up m"
    and data_again: "r_inv r \<Longrightarrow> good m \<Longrightarrow> p_data P r (packet (expects r - 1) m) = (r', ks, os) \<Longrightarrow>
      r_inv r' \<and> expects r' = expects r \<and> (\<forall>k\<in>set ks. ack_no k = expects r - 1) \<and> os = []"
    and recv_inv: "r_inv r \<Longrightarrow> p_recv_ok P r b \<Longrightarrow> r_inv (p_recv P r b)"
    and recv_expects: "r_inv r \<Longrightarrow> p_recv_ok P r b \<Longrightarrow> expects (p_recv P r b) = expects r"
begin

text \<open>
  The numbers of the messages: \<open>i\<close> are acknowledged, \<open>j\<close> delivered; \<open>dt\<close> and \<open>kt\<close> are the numbers of
  the data packets and acknowledgements under way.
\<close>

definition numbers :: "('s, 'r, 'd, 'k, 'm, 'o) net \<Rightarrow> nat \<Rightarrow> nat \<Rightarrow> nat list \<Rightarrow> nat list \<Rightarrow> bool" where
  "numbers N i j dt kt \<longleftrightarrow>
     s_inv (n_s N) \<and> r_inv (n_r N) \<and> list_all good (n_new N) \<and>
     i \<le> j \<and> j \<le> i + 1 \<and> j \<le> length (n_new N) \<and>
     pending (n_s N) = drop i (n_new N) \<and> seqno (n_s N) = of_nat i \<and> expects (n_r N) = of_nat j \<and>
     n_got N = concat (map up (take j (n_new N))) \<and>
     n_data N = map (\<lambda>k. packet (of_nat k) (n_new N ! k)) dt \<and> sorted dt \<and>
     (\<forall>k\<in>set dt. k \<le> i \<and> k < length (n_new N) \<and> j \<le> k + 1) \<and>
     map ack_no (n_acks N) = map of_nat kt \<and> sorted kt \<and> (\<forall>k\<in>set kt. k < j \<and> i \<le> k + 1)"

definition in_step :: "('s, 'r, 'd, 'k, 'm, 'o) net \<Rightarrow> bool" where
  "in_step N \<longleftrightarrow> (\<exists>i j dt kt. numbers N i j dt kt)"

lemma in_stepI: "numbers N i j dt kt \<Longrightarrow> in_step N"
  by (auto simp: in_step_def)

lemma start_in_step:
  "s_inv s \<Longrightarrow> r_inv r \<Longrightarrow> pending s = [] \<Longrightarrow> seqno s = 0 \<Longrightarrow> expects r = 0 \<Longrightarrow> in_step (net_start s r)"
  by (rule in_stepI [of _ 0 0 "[]" "[]"]) (simp add: numbers_def net_start_def)

lemma sender_in_step:
  assumes n: "numbers N i j dt kt" and ok: "p_send_ok P (n_s N) a"
  shows "in_step (net_step P N (At_sender a))"
proof -
  let ?s = "n_s N" and ?new = "p_new P (n_s N) a"
  have s: "s_inv ?s" "pending ?s = drop i (n_new N)" "seqno ?s = of_nat i" "i \<le> length (n_new N)"
    using n by (auto simp: numbers_def)
  have data: "map (\<lambda>k. packet (of_nat k) ((n_new N @ ?new) ! k)) dt = n_data N"
    using n by (auto simp: numbers_def nth_append)
  from send_packets [OF s(1) ok] show ?thesis
  proof
    assume "snd (p_send P ?s a) = []"
    then show ?thesis
      using n data s send_inv [OF s(1) ok] send_seqno [OF s(1) ok] send_pending [OF s(1) ok] send_new [OF s(1) ok]
      by (intro in_stepI [of _ i j dt kt]) (auto simp: numbers_def)
  next
    assume sent: "pending ?s \<noteq> [] \<and> snd (p_send P ?s a) = [packet (seqno ?s) (hd (pending ?s))]"
    then have i: "i < length (n_new N)" "hd (pending ?s) = n_new N ! i"
      using s by (auto simp: hd_drop_conv_nth)
    show ?thesis
      using n data s sent i send_inv [OF s(1) ok] send_seqno [OF s(1) ok] send_pending [OF s(1) ok] send_new [OF s(1) ok]
      by (intro in_stepI [of _ i j "dt @ [i]" kt]) (auto simp: numbers_def sorted_append nth_append)
  qed
qed

text \<open>
  A data packet with number \<open>k\<close> arrives; \<open>N'\<close> is the system with or without the packet still under way.
\<close>

lemma receive_in_step:
  assumes n: "numbers N i j dt kt" and d: "d = packet (of_nat k) (n_new N ! k)"
    and k: "k \<le> i" "k < length (n_new N)" "j \<le> k + 1" "\<forall>x\<in>set dt. k \<le> x"
  shows "in_step (receive P d N)"
proof -
  obtain r' ks os where x: "p_data P (n_r N) d = (r', ks, os)" by (cases "p_data P (n_r N) d") auto
  have r: "r_inv (n_r N)" "expects (n_r N) = of_nat j" and good: "good (n_new N ! k)"
    using n k by (auto simp: numbers_def list_all_length)
  have acks: "map ack_no ks = map of_nat (map (\<lambda>_. k) ks)" if "\<forall>x\<in>set ks. ack_no x = of_nat k"
    using that by simp
  show ?thesis
  proof (cases "k + 1 = j")
    case True
    then have "of_nat k = expects (n_r N) - 1" using r by (auto simp flip: True)
    with x d data_again [OF r(1) good] have
      "r_inv r'" "expects r' = of_nat j" "\<forall>x\<in>set ks. ack_no x = of_nat k" "os = []"
      using r by metis+
    then show ?thesis
      using n k True x acks
      by (intro in_stepI [of _ i j dt "kt @ map (\<lambda>_. k) ks"])
        (auto simp: numbers_def receive_def sorted_append sorted_const)
  next
    case False
    with n k have kj: "k = j" "i = j" by (auto simp: numbers_def)
    with x d data_next [OF r(1) good] have
      "r_inv r'" "expects r' = of_nat j + 1" "\<forall>x\<in>set ks. ack_no x = of_nat k" "os = up (n_new N ! k)"
      using r by metis+
    then show ?thesis
      using n k kj x acks
      by (intro in_stepI [of _ i "Suc j" dt "kt @ map (\<lambda>_. k) ks"])
        (auto simp: numbers_def receive_def sorted_append sorted_const
          take_Suc_conv_app_nth add.commute)
  qed
qed

lemma data_in_step:
  assumes n: "numbers N i j dt kt"
  shows "in_step (net_step P N Data_arrives)" "in_step (net_step P N Data_repeated)"
proof -
  show "in_step (net_step P N Data_arrives)"
  proof (cases dt)
    case Nil
    with n show ?thesis by (intro in_stepI [of _ i j dt kt]) (auto simp: numbers_def)
  next
    case (Cons k ks)
    have "numbers (N\<lparr>n_data := tl (n_data N)\<rparr>) i j ks kt"
      using n Cons by (auto simp: numbers_def)
    from receive_in_step [OF this, of "packet (of_nat k) (n_new N ! k)" k] n Cons show ?thesis
      by (auto simp: numbers_def)
  qed
  show "in_step (net_step P N Data_repeated)"
  proof (cases dt)
    case Nil
    with n show ?thesis by (intro in_stepI [of _ i j dt kt]) (auto simp: numbers_def)
  next
    case (Cons k ks)
    from receive_in_step [OF n, of "packet (of_nat k) (n_new N ! k)" k] n Cons show ?thesis
      by (auto simp: numbers_def)
  qed
qed

lemma ack_in_step:
  assumes n: "numbers N i j dt (k # kt)" and a: "ack_no a = of_nat k"
    and N': "numbers (N\<lparr>n_acks := as\<rparr>) i j dt kt'" "\<forall>x\<in>set kt'. k \<le> x"
  shows "in_step (N\<lparr>n_s := p_ack P (n_s N) a, n_acks := as\<rparr>)"
proof -
  have s: "s_inv (n_s N)" "seqno (n_s N) = of_nat i" using n by (auto simp: numbers_def)
  from ack_effect [OF s(1), of a] show ?thesis
  proof
    assume "seqno (p_ack P (n_s N) a) = seqno (n_s N) \<and> pending (p_ack P (n_s N) a) = pending (n_s N)"
    then show ?thesis
      using N' ack_inv [OF s(1), of a] by (intro in_stepI [of _ i j dt kt']) (auto simp: numbers_def)
  next
    assume acked: "ack_no a = seqno (n_s N) \<and> pending (n_s N) \<noteq> [] \<and>
      seqno (p_ack P (n_s N) a) = seqno (n_s N) + 1 \<and> pending (p_ack P (n_s N) a) = tl (pending (n_s N))"
    have "k = i"
    proof (rule ccontr)
      assume "k \<noteq> i"
      with n have "i = Suc k" by (auto simp: numbers_def)
      with acked a s show False by simp
    qed
    then show ?thesis
      using n N' acked ack_inv [OF s(1), of a]
      by (intro in_stepI [of _ "Suc i" j dt kt']) (auto simp: numbers_def drop_Suc tl_drop add.commute)
  qed
qed

lemma acks_in_step:
  assumes n: "numbers N i j dt kt"
  shows "in_step (net_step P N Ack_arrives)" "in_step (net_step P N Ack_repeated)"
proof -
  have len: "length (n_acks N) = length kt"
    using n by (auto simp: numbers_def dest: map_eq_imp_length_eq)
  show "in_step (net_step P N Ack_arrives)"
  proof (cases "n_acks N")
    case Nil
    with n show ?thesis by (intro in_stepI [of _ i j dt kt]) auto
  next
    case (Cons a as)
    with len obtain k kt' where kt: "kt = k # kt'" by (cases kt) auto
    with n Cons have "numbers (N\<lparr>n_acks := as\<rparr>) i j dt kt'" "ack_no a = of_nat k" "\<forall>x\<in>set kt'. k \<le> x"
      by (auto simp: numbers_def)
    from ack_in_step [OF n [unfolded kt] this(2) this(1,3)] show ?thesis by (simp add: Cons)
  qed
  show "in_step (net_step P N Ack_repeated)"
  proof (cases "n_acks N")
    case Nil
    with n show ?thesis by (intro in_stepI [of _ i j dt kt]) auto
  next
    case (Cons a as)
    with len obtain k kt' where kt: "kt = k # kt'" by (cases kt) auto
    with n Cons have "numbers (N\<lparr>n_acks := n_acks N\<rparr>) i j dt kt" "ack_no a = of_nat k" "\<forall>x\<in>set kt. k \<le> x"
      by (auto simp: numbers_def)
    from ack_in_step [OF n [unfolded kt] this(2) this(1,3)] Cons show ?thesis by (cases N) simp
  qed
qed

lemma lost_in_step:
  assumes n: "numbers N i j dt kt"
  shows "in_step (net_step P N (Data_lost x))" "in_step (net_step P N (Ack_lost x))"
proof -
  show "in_step (net_step P N (Data_lost x))"
    using n set_without [of x dt]
    by (intro in_stepI [of _ i j "without x dt" kt]) (auto simp: numbers_def map_without sorted_without)
  show "in_step (net_step P N (Ack_lost x))"
    using n set_without [of x kt]
    by (intro in_stepI [of _ i j dt "without x kt"]) (auto simp: numbers_def map_without sorted_without)
qed

lemma step_in_step: "in_step N \<Longrightarrow> event_ok P N e \<Longrightarrow> in_step (net_step P N e)"
proof -
  assume "in_step N" "event_ok P N e"
  then obtain i j dt kt where n: "numbers N i j dt kt" and ok: "event_ok P N e" by (auto simp: in_step_def)
  show ?thesis
  proof (cases e)
    case (At_sender a)
    with sender_in_step [OF n, of a] ok show ?thesis by simp
  next
    case (At_receiver b)
    with n ok show ?thesis
      by (intro in_stepI [of _ i j dt kt]) (auto simp: numbers_def recv_inv recv_expects)
  qed (use data_in_step [OF n] acks_in_step [OF n] lost_in_step [OF n] in simp_all)
qed

lemma run_in_step: "in_step N \<Longrightarrow> net_ok P N es \<Longrightarrow> in_step (net_run P N es)"
  by (induction es arbitrary: N) (simp_all add: step_in_step)

text \<open>
  Exactly once and in order: of the messages submitted, the first \<open>k\<close> have been acknowledged, and the
  receiver has passed on exactly these, and at most the one that waits for its acknowledgement.
\<close>

lemma in_step_delivery:
  assumes "in_step N"
  shows "\<exists>k \<le> length (n_new N). pending (n_s N) = drop k (n_new N) \<and>
    (n_got N = concat (map up (take k (n_new N))) \<or>
     k < length (n_new N) \<and> n_got N = concat (map up (take (k + 1) (n_new N))))"
proof -
  from assms obtain i j dt kt where n: "numbers N i j dt kt" by (auto simp: in_step_def)
  then have "j = i \<or> j = i + 1" by (auto simp: numbers_def)
  with n show ?thesis by (intro exI [of _ i]) (auto simp: numbers_def)
qed

lemma in_step_sides: "in_step N \<Longrightarrow> s_inv (n_s N) \<and> r_inv (n_r N)"
  by (auto simp: in_step_def numbers_def)

end

text \<open>
  \<open>items a\<close> is what the receiver is to pass on for the messages that event \<open>a\<close> submits.
\<close>

locale stop_and_wait_items = stop_and_wait P s_inv seqno pending r_inv expects packet ack_no good up
  for P :: "('s, 'a, 'r, 'b, 'd, 'k, 'm, 'o) protocol"
    and s_inv seqno pending r_inv expects packet ack_no good up +
  fixes items :: "'a \<Rightarrow> 'o list"
  assumes send_items: "s_inv s \<Longrightarrow> p_send_ok P s a \<Longrightarrow> concat (map up (p_new P s a)) = items a"
begin

lemma step_items:
  assumes "in_step N" "event_ok P N e"
  shows "concat (map up (n_new (net_step P N e))) = concat (map up (n_new N)) @ at_sender items e"
  using assms in_step_sides [OF assms(1)]
  by (cases e) (auto simp: send_items receive_def split: list.split prod.split)

lemma run_items:
  "in_step N \<Longrightarrow> net_ok P N es \<Longrightarrow>
   concat (map up (n_new (net_run P N es))) = concat (map up (n_new N)) @ collect (at_sender items) es"
  by (induction es arbitrary: N) (simp_all add: step_items step_in_step)

lemma delivery:
  assumes "s_inv s" "r_inv r" "pending s = []" "seqno s = 0" "expects r = 0"
    and "net_ok P (net_start s r) es"
  shows "prefix (n_got (net_run P (net_start s r) es)) (collect (at_sender items) es)"
    "pending (n_s (net_run P (net_start s r) es)) = [] \<Longrightarrow>
     n_got (net_run P (net_start s r) es) = collect (at_sender items) es"
proof -
  let ?N = "net_run P (net_start s r) es"
  have start: "in_step (net_start s r)" using assms by (intro start_in_step)
  have items: "collect (at_sender items) es = concat (map up (n_new ?N))"
    using run_items [OF start assms(6)] by (simp add: net_start_def)
  obtain k where k: "pending (n_s ?N) = drop k (n_new ?N)" "k \<le> length (n_new ?N)"
    "n_got ?N = concat (map up (take k (n_new ?N))) \<or>
     k < length (n_new ?N) \<and> n_got ?N = concat (map up (take (k + 1) (n_new ?N)))"
    using in_step_delivery [OF run_in_step [OF start assms(6)]] by auto
  have "prefix (concat (map up (take n (n_new ?N)))) (concat (map up (n_new ?N)))" for n
    by (metis append_take_drop_id concat_append map_append prefixI)
  with k(3) show "prefix (n_got ?N) (collect (at_sender items) es)" unfolding items by metis
  show "n_got ?N = collect (at_sender items) es" if "pending (n_s ?N) = []"
    using that k items by auto
qed

end

end
