(* ===== verification/Tunnel_Props.thy ===== *)
theory Tunnel_Props
  imports Tunnel Ipserver Stop_And_Wait Eibnetip_Props Filters "HOL-Library.Sublist"
begin

text \<open>
  A tunnel as a whole: the client of \<open>Tunnel\<close> and a connection of the server of \<open>Ipserver\<close> exchange
  telegrams over a network that loses and repeats packets.  Both directions are instances of the
  stop-and-wait protocol of \<open>Stop_And_Wait\<close>.
\<close>

unbundle bit_operations_syntax

section \<open>Packets\<close>

lemma parse_TunnelRequest [simp]:
  "2 \<le> length (treq_CEMI r) \<Longrightarrow> parseEIBnet_TunnelRequest (TunnelRequest_ToPacket r) = Some r"
  by (simp add: parseEIBnet_TunnelRequest_def TunnelRequest_ToPacket_def ip_packet_def)

lemma parse_TunnelACK [simp]: "parseEIBnet_TunnelACK (TunnelACK_ToPacket r) = Some r"
  by (simp add: parseEIBnet_TunnelACK_def TunnelACK_ToPacket_def ip_packet_def)

lemma packet_services [simp]:
  "ip_service (TunnelRequest_ToPacket q) = TUNNEL_REQUEST" "ip_service (TunnelACK_ToPacket a) = TUNNEL_RESPONSE"
  "ip_service (DisconnectRequest_ToPacket d) = DISCONNECT_REQUEST"
  "ip_service (DisconnectResponse_ToPacket e) = DISCONNECT_RESPONSE"
  "ip_service (ConnectionStateRequest_ToPacket c) = CONNECTIONSTATE_REQUEST"
  "ip_service (ConfigRequest_ToPacket f) = DEVICE_CONFIGURATION_REQUEST"
  "ip_service (ConfigACK_ToPacket g) = DEVICE_CONFIGURATION_ACK"
  by (simp_all add: TunnelRequest_ToPacket_def TunnelACK_ToPacket_def DisconnectRequest_ToPacket_def
      DisconnectResponse_ToPacket_def ConnectionStateRequest_ToPacket_def ConfigRequest_ToPacket_def
      ConfigACK_ToPacket_def ip_packet_def)

lemma parse_service_None [simp]:
  "ip_service p \<noteq> TUNNEL_RESPONSE \<Longrightarrow> parseEIBnet_TunnelACK p = None"
  "ip_service p \<noteq> TUNNEL_REQUEST \<Longrightarrow> parseEIBnet_TunnelRequest p = None"
  by (simp_all add: parseEIBnet_TunnelACK_def parseEIBnet_TunnelRequest_def)

text \<open>The telegrams that fit a cEMI frame, and how such a telegram looks at the other end.\<close>

definition sendable :: "l_data_pdu \<Rightarrow> bool" where
  "sendable l \<longleftrightarrow> wf_l_data l \<and> length (l_data l) < 0xff"

definition as_received :: "byte \<Rightarrow> l_data_pdu \<Rightarrow> l_data_pdu" where
  "as_received code l = l\<lparr>l_prio := prio_swap (l_prio l), l_repeated := l_repeated l \<and> code = 0x29\<rparr>"

lemma sendable_as_received [simp]: "sendable (as_received code l) = sendable l"
  by (simp add: sendable_def as_received_def wf_l_data_def)

lemma sendable_CEMI:
  assumes "sendable l"
  obtains c where "L_Data_ToCEMI code l = Some c" "CEMI_to_L_Data c = Some (as_received code l)"
    "c ! 0 = code" "10 \<le> length c"
proof -
  obtain c where c: "L_Data_ToCEMI code l = Some c" "CEMI_to_L_Data c = Some (as_received code l)"
    using cemi_round_trip [of l code] assms by (auto simp: sendable_def as_received_def)
  then have "c ! 0 = code" "10 \<le> length c"
    by (auto simp: L_Data_ToCEMI_def Let_def split: if_splits)
  with c that show thesis by blast
qed

section \<open>The packets a side sends\<close>

definition with_service :: "u16 \<Rightarrow> EIBNetIPPacket \<Rightarrow> EIBNetIPPacket list" where
  "with_service s p = (if ip_service p = s then [p] else [])"

fun k_sends :: "u16 \<Rightarrow> k_call \<Rightarrow> EIBNetIPPacket list" where
  "k_sends s (K_send p a) = with_service s p"
| "k_sends s _ = []"

fun u_sends :: "u16 \<Rightarrow> u_call \<Rightarrow> EIBNetIPPacket list" where
  "u_sends s (U_send p a) = with_service s p"
| "u_sends s _ = []"

fun k_telegrams :: "k_call \<Rightarrow> l_data_pdu list" where
  "k_telegrams (K_recv_L_Data l) = [l]"
| "k_telegrams _ = []"

fun u_telegrams :: "u_call \<Rightarrow> l_data_pdu list" where
  "u_telegrams (U_recv_L_Data l) = [l]"
| "u_telegrams _ = []"

section \<open>From the server to the client\<close>

text \<open>
  The frames a connection queues on an event: the telegrams of the router and the confirmations of the
  client's own requests.
\<close>

fun k_frames :: "ConnState \<Rightarrow> k_event \<Rightarrow> carray list" where
  "k_frames k (K_send_data l) = [the (L_Data_ToCEMI 0x29 l)]"
| "k_frames k (K_tunnel_request r) =
     (if k_rno k = treq_seqno r \<and> treq_CEMI r ! 0 = 0x11
      then (case CEMI_to_L_Data (treq_CEMI r) of None \<Rightarrow> [] | Some l \<Rightarrow> [the (L_Data_ToCEMI 0x2E l)])
      else [])"
| "k_frames k _ = []"

text \<open>
  The events of a connection that lives on: the router sends the next telegram only when it was asked
  to, the first repetition has not been given up, and neither side closes the connection.
  Acknowledgements come from the client alone.
\<close>

fun k_goes_on :: "ConnState \<Rightarrow> k_event \<Rightarrow> bool" where
  "k_goes_on k (K_send_data l) = (\<not> k_do_send_next k \<and> sendable l)"
| "k_goes_on k (K_tunnel_request r) = (tunnel_CEMI k (treq_CEMI r) \<noteq> None)"
| "k_goes_on k (K_tunnel_response r) = False"
| "k_goes_on k K_sendtimeout = (k_retries k \<le> 1)"
| "k_goes_on k (K_timeout source port) = False"
| "k_goes_on k K_stop = False"
| "k_goes_on k _ = True"

text \<open>
  The events of a client that stays connected: no request to start or to stop, and none that makes it
  leave the connected state.  Requests come from the server alone.
\<close>

fun u_goes_on :: "EIBNetIPTunnel \<Rightarrow> u_event \<Rightarrow> bool" where
  "u_goes_on t (U_start a b c) = False"
| "u_goes_on t U_stop = False"
| "u_goes_on t (U_packet now p) = (ip_service p \<noteq> TUNNEL_REQUEST \<and> u_mod (fst (read_cb now t p)) \<noteq> 0)"
| "u_goes_on t e = (u_mod (fst (u_step t e)) \<noteq> 0)"

definition down_link :: "nat \<times> nat \<Rightarrow>
    (ConnState, k_event, EIBNetIPTunnel, u_event, EIBNetIPPacket, EIBNetIPPacket, carray, l_data_pdu) protocol" where
  "down_link now =
     \<lparr>p_send = (\<lambda>k e. (fst (k_step k e), collect (k_sends TUNNEL_REQUEST) (snd (k_step k e)))),
      p_new = k_frames,
      p_send_ok = k_goes_on,
      p_ack = (\<lambda>k p. case parseEIBnet_TunnelACK p of
                       None \<Rightarrow> k
                     | Some r \<Rightarrow> if tack_channel r = k_channel k then fst (k_step k (K_tunnel_response r)) else k),
      p_data = (\<lambda>t p. let x = u_step t (U_packet now p)
                      in (fst x, collect (u_sends TUNNEL_RESPONSE) (snd x), collect u_telegrams (snd x))),
      p_recv = (\<lambda>t e. fst (u_step t e)),
      p_recv_ok = u_goes_on\<rparr>"

definition open_conn :: "byte \<Rightarrow> eibaddr \<Rightarrow> ConnState \<Rightarrow> bool" where
  "open_conn ch a k \<longleftrightarrow>
     k_type k = CT_STANDARD \<and> k_channel k = ch \<and> k_addr k = a \<and> list_all (\<lambda>c. 2 \<le> length c) (k_out k) \<and>
     (k_retries k > 0 \<or> k_sendtimeout k \<longrightarrow> k_out k \<noteq> [])"

definition open_client :: "byte \<Rightarrow> EIBNetIPTunnel \<Rightarrow> bool" where
  "open_client ch t \<longleftrightarrow>
     u_mod t \<in> {1, 2} \<and> u_sock t \<and> u_channel t = uint ch \<and> u_rno t < 256 \<and> u_sno t < 256 \<and> \<not> u_monitor t \<and>
     (u_mod t = 2 \<longrightarrow> u_out t \<noteq> [])"

text \<open>What the client passes on of a frame.\<close>

definition down_telegrams :: "carray \<Rightarrow> l_data_pdu list" where
  "down_telegrams c =
     (if c ! 0 = 0x29 then (case CEMI_to_L_Data c of None \<Rightarrow> [] | Some l \<Rightarrow> [l]) else [])"

definition tunnel_packet :: "byte \<Rightarrow> byte \<Rightarrow> carray \<Rightarrow> EIBNetIPPacket" where
  "tunnel_packet ch n c = TunnelRequest_ToPacket \<lparr>treq_channel = ch, treq_seqno = n, treq_CEMI = c\<rparr>"

definition ack_number :: "EIBNetIPPacket \<Rightarrow> byte" where
  "ack_number p = (case parseEIBnet_TunnelACK p of None \<Rightarrow> 0 | Some r \<Rightarrow> tack_seqno r)"

lemmas conn_defs = out_put_def send_signal_def Conn_send_L_Data_def Conn_send_L_Busmonitor_def
  tunnel_request_def tunnel_ACK_def tunnel_response_def next_out_def config_request_def config_ACK_def
  config_response_def send_trigger_cb_def sendtimeout_cb_def out_packet_def

text \<open>The conditions \<open>stop_and_wait\<close> makes on the sending connection.\<close>

lemma length_ToCEMI: "L_Data_ToCEMI code l = Some c \<Longrightarrow> 10 \<le> length c"
  by (auto simp: L_Data_ToCEMI_def Let_def split: if_splits)

lemma ToCEMI_head: "L_Data_ToCEMI code l = Some c \<Longrightarrow> c ! 0 = code"
  by (auto simp: L_Data_ToCEMI_def Let_def split: if_splits)

lemma tunnel_CEMI_cases:
  assumes "tunnel_CEMI k c = Some (k', up, status)" "k_type k = CT_STANDARD"
  obtains (request) l con where "c ! 0 = 0x11" "CEMI_to_L_Data c = Some l" "L_Data_ToCEMI 0x2E l = Some con"
      "10 \<le> length con" "con ! 0 = 0x2E" "k' = out_put con k"
  | (other) "c ! 0 \<noteq> 0x11 \<or> CEMI_to_L_Data c = None" "k' = k"
  using assms that
  by (auto simp: tunnel_CEMI_def Let_def length_ToCEMI ToCEMI_head split: option.splits if_splits)

lemma out_put_fields [simp]:
  "k_out (out_put c k) = k_out k @ [c]" "k_sno (out_put c k) = k_sno k" "k_rno (out_put c k) = k_rno k"
  "k_type (out_put c k) = k_type k" "k_channel (out_put c k) = k_channel k" "k_addr (out_put c k) = k_addr k"
  "k_retries (out_put c k) = k_retries k" "k_sendtimeout (out_put c k) = k_sendtimeout k"
  "k_daddr (out_put c k) = k_daddr k" "k_do_send_next (out_put c k) = k_do_send_next k"
  by (simp_all add: out_put_def send_signal_def Let_def)

lemma send_signal_fields [simp]:
  "k_out (send_signal k) = k_out k" "k_sno (send_signal k) = k_sno k" "k_rno (send_signal k) = k_rno k"
  "k_type (send_signal k) = k_type k" "k_channel (send_signal k) = k_channel k" "k_addr (send_signal k) = k_addr k"
  "k_retries (send_signal k) = k_retries k" "k_sendtimeout (send_signal k) = k_sendtimeout k"
  "k_daddr (send_signal k) = k_daddr k" "k_do_send_next (send_signal k) = k_do_send_next k"
  by (simp_all add: send_signal_def)

lemma tunnel_request_conn:
  assumes "open_conn ch a k" "tunnel_CEMI k (treq_CEMI r) \<noteq> None"
  shows "open_conn ch a (fst (tunnel_request k r))" "k_sno (fst (tunnel_request k r)) = k_sno k"
    "k_out (fst (tunnel_request k r)) = k_out k @ k_frames k (K_tunnel_request r)"
    "collect (k_sends TUNNEL_REQUEST) (snd (tunnel_request k r)) = []"
    "list_all (\<lambda>c. 2 \<le> length c) (k_frames k (K_tunnel_request r))"
proof -
  from assms(2) obtain k' up status where x: "tunnel_CEMI k (treq_CEMI r) = Some (k', up, status)"
    by (cases "tunnel_CEMI k (treq_CEMI r)") auto
  have k: "k_type k = CT_STANDARD" using assms(1) by (simp add: open_conn_def)
  have up: "collect (k_sends TUNNEL_REQUEST) up = []"
    using x by (auto simp: tunnel_CEMI_def Let_def split: option.splits if_splits)
  show "open_conn ch a (fst (tunnel_request k r))" "k_sno (fst (tunnel_request k r)) = k_sno k"
    "k_out (fst (tunnel_request k r)) = k_out k @ k_frames k (K_tunnel_request r)"
    "collect (k_sends TUNNEL_REQUEST) (snd (tunnel_request k r)) = []"
    "list_all (\<lambda>c. 2 \<le> length c) (k_frames k (K_tunnel_request r))"
    using assms(1) x up
    by (cases rule: tunnel_CEMI_cases [OF x k]; auto simp: tunnel_request_def tunnel_ACK_def open_conn_def with_service_def)+
qed

lemma conn_sends:
  assumes "open_conn ch a k" "k_goes_on k e"
  shows "open_conn ch a (fst (k_step k e))" "k_sno (fst (k_step k e)) = k_sno k"
    "k_out (fst (k_step k e)) = k_out k @ k_frames k e"
    "collect (k_sends TUNNEL_REQUEST) (snd (k_step k e)) = [] \<or> k_out k \<noteq> [] \<and>
       collect (k_sends TUNNEL_REQUEST) (snd (k_step k e)) = [tunnel_packet ch (k_sno k) (hd (k_out k))]"
    "list_all (\<lambda>c. 2 \<le> length c) (k_frames k e)"
proof -
  have *: "open_conn ch a (fst (k_step k e)) \<and> k_sno (fst (k_step k e)) = k_sno k \<and>
    k_out (fst (k_step k e)) = k_out k @ k_frames k e \<and>
    (collect (k_sends TUNNEL_REQUEST) (snd (k_step k e)) = [] \<or> k_out k \<noteq> [] \<and>
       collect (k_sends TUNNEL_REQUEST) (snd (k_step k e)) = [tunnel_packet ch (k_sno k) (hd (k_out k))]) \<and>
    list_all (\<lambda>c. 2 \<le> length c) (k_frames k e)"
  proof (cases e)
    case (K_send_data l)
    with assms obtain c where "L_Data_ToCEMI 0x29 l = Some c" "10 \<le> length c"
      by (auto elim: sendable_CEMI)
    with assms K_send_data show ?thesis
      by (auto simp: Conn_send_L_Data_def open_conn_def)
  next
    case (K_tunnel_request r)
    with tunnel_request_conn [OF assms(1), of r] assms(2) show ?thesis by simp
  next
    case K_trigger
    with assms show ?thesis
      by (auto simp: send_trigger_cb_def out_packet_def open_conn_def with_service_def tunnel_packet_def Let_def
          split: list.splits)
  qed (use assms in \<open>auto simp: Conn_send_L_Busmonitor_def config_request_def config_ACK_def
      config_response_def sendtimeout_cb_def open_conn_def with_service_def Let_def split: list.splits\<close>)
  then show "open_conn ch a (fst (k_step k e))" "k_sno (fst (k_step k e)) = k_sno k"
    "k_out (fst (k_step k e)) = k_out k @ k_frames k e"
    "collect (k_sends TUNNEL_REQUEST) (snd (k_step k e)) = [] \<or> k_out k \<noteq> [] \<and>
       collect (k_sends TUNNEL_REQUEST) (snd (k_step k e)) = [tunnel_packet ch (k_sno k) (hd (k_out k))]"
    "list_all (\<lambda>c. 2 \<le> length c) (k_frames k e)"
    by blast+
qed

lemma conn_acked:
  assumes "open_conn ch a k"
  shows "open_conn ch a (fst (tunnel_response k r))"
    "k_sno (fst (tunnel_response k r)) = k_sno k \<and> k_out (fst (tunnel_response k r)) = k_out k \<or>
     tack_seqno r = k_sno k \<and> k_out k \<noteq> [] \<and> k_sno (fst (tunnel_response k r)) = k_sno k + 1 \<and>
     k_out (fst (tunnel_response k r)) = tl (k_out k)"
  using assms by (auto simp: tunnel_response_def next_out_def open_conn_def split: list.splits)

section \<open>The client as receiver\<close>

lemma seqno_unat: "n < 256 \<Longrightarrow> unat (of_nat n :: byte) = n"
  by (rule unat_of_nat_byte)

lemma seqno_of_unat: "unat n = m \<Longrightarrow> n = of_nat m" for n :: byte
  by auto

lemma seqno_before:
  assumes "n < 256"
  shows "(unat (of_nat n - 1 :: byte) + 1) mod 256 = n"
proof -
  have "unat (of_nat n - 1 + 1 :: byte) = (unat (of_nat n - 1 :: byte) + 1) mod 256"
    by (simp only: unat_word_ariths) simp
  with assms show ?thesis by (simp add: seqno_unat)
qed

lemma seqno_next: "n < 256 \<Longrightarrow> of_nat (if n + 1 > 0xff then 0 else n + 1) = (of_nat n + 1 :: byte)"
proof (cases "n = 255")
  case True
  then show ?thesis by simp
qed simp

lemma signal_fields [simp]:
  "u_mod (signal t) = u_mod t" "u_sock (signal t) = u_sock t" "u_channel (signal t) = u_channel t"
  "u_rno (signal t) = u_rno t" "u_sno (signal t) = u_sno t" "u_monitor (signal t) = u_monitor t"
  "u_out (signal t) = u_out t" "u_retry (signal t) = u_retry t" "u_recvall (signal t) = u_recvall t"
  "u_trigger_on (signal t) = u_trigger_on t" "u_conntimeout (signal t) = u_conntimeout t"
  "u_timeout (signal t) = u_timeout t" "u_daddr (signal t) = u_daddr t"
  by (simp_all add: signal_def)

lemma client_CEMI:
  assumes "open_client ch t"
  shows "fst (recv_CEMI now t c) = t" "collect u_telegrams (snd (recv_CEMI now t c)) = down_telegrams c"
    "collect (u_sends s) (snd (recv_CEMI now t c)) = []"
  using assms by (auto simp: recv_CEMI_def open_client_def down_telegrams_def split: option.splits)

lemma client_next:
  fixes now :: "nat \<times> nat"
  assumes t: "open_client ch t" and c: "2 \<le> length c"
  defines "x \<equiv> u_step t (U_packet now (tunnel_packet ch (of_nat (u_rno t)) c))"
  shows "open_client ch (fst x)" "of_nat (u_rno (fst x)) = (of_nat (u_rno t) + 1 :: byte)"
    "collect (u_sends TUNNEL_RESPONSE) (snd x) =
       [TunnelACK_ToPacket \<lparr>tack_channel = ch, tack_seqno = of_nat (u_rno t), tack_status = 0\<rparr>]"
    "collect u_telegrams (snd x) = down_telegrams c"
proof -
  let ?t = "t\<lparr>u_rno := (if u_rno t + 1 > 0xff then 0 else u_rno t + 1)\<rparr>"
  have r: "u_rno t < 256" "u_mod t \<noteq> 0" "u_sock t" "u_channel t = uint ch" using t by (auto simp: open_client_def)
  then have "(u_rno t + 1) mod 256 \<noteq> u_rno t" by (cases "u_rno t = 255") simp_all
  with r c have x: "x = (fst (recv_CEMI now ?t c),
      tunnel_ack ?t (of_nat (u_rno t)) # snd (recv_CEMI now ?t c))"
    by (simp add: x_def read_cb_def recv_TUNNEL_REQUEST_def tunnel_packet_def seqno_unat Let_def)
  have o: "open_client ch ?t" using t by (auto simp: open_client_def)
  show "open_client ch (fst x)" "of_nat (u_rno (fst x)) = (of_nat (u_rno t) + 1 :: byte)"
    using o seqno_next [OF r(1)] client_CEMI(1) [OF o] by (auto simp: x)
  show "collect (u_sends TUNNEL_RESPONSE) (snd x) =
       [TunnelACK_ToPacket \<lparr>tack_channel = ch, tack_seqno = of_nat (u_rno t), tack_status = 0\<rparr>]"
    "collect u_telegrams (snd x) = down_telegrams c"
    using client_CEMI(2,3) [OF o] r by (simp_all add: x tunnel_ack_def sock_Send_def with_service_def)
qed

lemma client_again:
  fixes now :: "nat \<times> nat"
  assumes t: "open_client ch t" and c: "2 \<le> length c"
  defines "x \<equiv> u_step t (U_packet now (tunnel_packet ch (of_nat (u_rno t) - 1) c))"
  shows "open_client ch (fst x)" "u_rno (fst x) = u_rno t"
    "collect (u_sends TUNNEL_RESPONSE) (snd x) =
       [TunnelACK_ToPacket \<lparr>tack_channel = ch, tack_seqno = of_nat (u_rno t) - 1, tack_status = 0\<rparr>]"
    "collect u_telegrams (snd x) = []"
proof -
  have r: "u_rno t < 256" "u_mod t \<noteq> 0" "u_sock t" "u_channel t = uint ch" using t by (auto simp: open_client_def)
  with c seqno_before [OF r(1)] have x: "x = (t\<lparr>u_recvall := 0\<rparr>, [tunnel_ack t (of_nat (u_rno t) - 1)])"
    by (simp add: x_def read_cb_def recv_TUNNEL_REQUEST_def tunnel_packet_def)
  show "open_client ch (fst x)" "u_rno (fst x) = u_rno t"
    "collect (u_sends TUNNEL_RESPONSE) (snd x) =
       [TunnelACK_ToPacket \<lparr>tack_channel = ch, tack_seqno = of_nat (u_rno t) - 1, tack_status = 0\<rparr>]"
    "collect u_telegrams (snd x) = []"
    using t r by (simp_all add: x open_client_def tunnel_ack_def sock_Send_def with_service_def)
qed

lemma restart_mod [simp]: "u_mod (fst (restart t)) = 0"
  by (simp add: restart_def)

lemma client_connected [simp]:
  assumes "u_mod t \<noteq> 0"
  shows "recv_CONNECTION_RESPONSE t p = (t, [])"
  using assms by (simp add: recv_CONNECTION_RESPONSE_def)

lemma recv_TUNNEL_RESPONSE_stays:
  "open_client ch t \<Longrightarrow> open_client ch (fst (recv_TUNNEL_RESPONSE t p)) \<and> u_rno (fst (recv_TUNNEL_RESPONSE t p)) = u_rno t"
  by (auto simp: recv_TUNNEL_RESPONSE_def open_client_def split: option.split)

lemma recv_CONNECTIONSTATE_RESPONSE_stays:
  "open_client ch t \<Longrightarrow> u_mod (fst (recv_CONNECTIONSTATE_RESPONSE t p)) \<noteq> 0 \<Longrightarrow>
   open_client ch (fst (recv_CONNECTIONSTATE_RESPONSE t p)) \<and> u_rno (fst (recv_CONNECTIONSTATE_RESPONSE t p)) = u_rno t"
  by (cases "parseEIBnet_ConnectionStateResponse p")
    (auto simp: recv_CONNECTIONSTATE_RESPONSE_def open_client_def)

lemma recv_DISCONNECT_stays:
  "u_mod (fst (recv_DISCONNECT_REQUEST t p)) = 0 \<or> fst (recv_DISCONNECT_REQUEST t p) = t"
  "u_mod (fst (recv_DISCONNECT_RESPONSE t p)) = 0 \<or> fst (recv_DISCONNECT_RESPONSE t p) = t"
proof -
  show "u_mod (fst (recv_DISCONNECT_REQUEST t p)) = 0 \<or> fst (recv_DISCONNECT_REQUEST t p) = t"
    by (cases "parseEIBnet_DisconnectRequest p") (simp_all add: recv_DISCONNECT_REQUEST_def)
  show "u_mod (fst (recv_DISCONNECT_RESPONSE t p)) = 0 \<or> fst (recv_DISCONNECT_RESPONSE t p) = t"
    by (cases "parseEIBnet_DisconnectResponse p") (simp_all add: recv_DISCONNECT_RESPONSE_def restart_def)
qed

lemma client_read_stays:
  assumes t: "open_client ch t" and p: "ip_service p \<noteq> TUNNEL_REQUEST" "u_mod (fst (read_cb now t p)) \<noteq> 0"
  shows "open_client ch (fst (read_cb now t p)) \<and> u_rno (fst (read_cb now t p)) = u_rno t"
proof -
  have "u_mod t \<noteq> 0" using t by (auto simp: open_client_def)
  with p show ?thesis
    using t recv_TUNNEL_RESPONSE_stays [OF t, of p] recv_CONNECTIONSTATE_RESPONSE_stays [OF t, of p]
      recv_DISCONNECT_stays [of t p]
    by (auto simp: read_cb_def)
qed

lemma client_stays:
  assumes t: "open_client ch t" and e: "u_goes_on t e"
  shows "open_client ch (fst (u_step t e))" "u_rno (fst (u_step t e)) = u_rno t"
proof -
  have sock: "u_sock t" using t by (simp add: open_client_def)
  have "open_client ch (fst (u_step t e)) \<and> u_rno (fst (u_step t e)) = u_rno t"
  proof (cases e)
    case (U_packet now p)
    with client_read_stays [OF t, of p now] e sock show ?thesis by simp
  next
    case (U_send_data l)
    with t show ?thesis
      by (auto simp: Tunnel_send_L_Data_def open_client_def split: option.splits)
  next
    case U_trigger
    with t show ?thesis by (auto simp: Tunnel_trigger_cb_def open_client_def Let_def)
  next
    case U_timeout
    with t show ?thesis by (auto simp: Tunnel_timeout_cb_def restart_def open_client_def Let_def)
  next
    case U_conntimeout
    with t e show ?thesis
      by (auto simp: conntimeout_cb_def open_client_def Let_def split: if_splits)
  qed (use t e in \<open>auto simp: error_cb_def\<close>)
  then show "open_client ch (fst (u_step t e))" "u_rno (fst (u_step t e)) = u_rno t" by auto
qed

text \<open>The telegrams of the router, as the client is to pass them on; confirmations are not passed on.\<close>

fun handed_over :: "k_event \<Rightarrow> l_data_pdu list" where
  "handed_over (K_send_data l) = [as_received 0x29 l]"
| "handed_over _ = []"

lemma confirmation_frames:
  assumes "open_conn ch a k" "tunnel_CEMI k (treq_CEMI r) \<noteq> None"
  shows "concat (map down_telegrams (k_frames k (K_tunnel_request r))) = []"
proof -
  obtain x where x: "tunnel_CEMI k (treq_CEMI r) = Some (fst x, fst (snd x), snd (snd x))"
    using assms(2) by (cases "tunnel_CEMI k (treq_CEMI r)") auto
  have "k_type k = CT_STANDARD" using assms(1) by (simp add: open_conn_def)
  with x show ?thesis
  proof (cases rule: tunnel_CEMI_cases)
    case (request l con)
    then have "down_telegrams con = []" by (simp add: down_telegrams_def)
    moreover have "k_frames k (K_tunnel_request r) = [] \<or> k_frames k (K_tunnel_request r) = [con]"
      using request(2,3) by simp
    ultimately show ?thesis by (elim disjE) (simp_all only: list.map concat.simps append_Nil2)
  next
    case other
    then have "k_frames k (K_tunnel_request r) = []" by auto
    then show ?thesis by (simp only: list.map concat.simps)
  qed
qed

lemma down_frames:
  assumes "open_conn ch a k" "k_goes_on k e"
  shows "concat (map down_telegrams (k_frames k e)) = handed_over e"
proof (cases e)
  case (K_send_data l)
  with assms obtain c where "L_Data_ToCEMI 0x29 l = Some c" "CEMI_to_L_Data c = Some (as_received 0x29 l)" "c ! 0 = 0x29"
    by (auto elim: sendable_CEMI)
  with K_send_data show ?thesis by (simp add: down_telegrams_def)
next
  case (K_tunnel_request r)
  have "concat (map down_telegrams (k_frames k (K_tunnel_request r))) = []"
    by (rule confirmation_frames [OF assms(1)]) (use assms(2) K_tunnel_request in simp)
  then show ?thesis by (simp only: K_tunnel_request handed_over.simps)
qed simp_all

interpretation down: stop_and_wait_items "down_link now" "open_conn ch a" k_sno k_out
    "open_client ch" "\<lambda>t. of_nat (u_rno t)" "tunnel_packet ch" ack_number "\<lambda>c. 2 \<le> length c" down_telegrams
    handed_over
  for now :: "nat \<times> nat" and ch :: byte and a :: eibaddr
proof (unfold_locales, goal_cases)
  case (1 k e)
  with conn_sends(1) [of ch a k e] show ?case by (simp add: down_link_def)
next
  case (2 k e)
  with conn_sends(2) [of ch a k e] show ?case by (simp add: down_link_def)
next
  case (3 k e)
  with conn_sends(3) [of ch a k e] show ?case by (simp add: down_link_def)
next
  case (4 k e)
  with conn_sends(4) [of ch a k e] show ?case by (simp add: down_link_def)
next
  case (5 k e)
  with conn_sends(5) [of ch a k e] show ?case by (simp add: down_link_def)
next
  case (6 k p)
  with conn_acked(1) [of ch a k] show ?case by (simp add: down_link_def split: option.split)
next
  case (7 k p)
  with conn_acked(2) [of ch a k] show ?case by (simp add: down_link_def ack_number_def split: option.split)
next
  case (8 t c t' ks ls)
  then show ?case
    using client_next [of ch t c now] by (auto simp: down_link_def ack_number_def Let_def)
next
  case (9 t c t' ks ls)
  then show ?case
    using client_again [of ch t c now] by (auto simp: down_link_def ack_number_def Let_def)
next
  case (10 t e)
  with client_stays(1) [of ch t e] show ?case by (simp add: down_link_def)
next
  case (11 t e)
  with client_stays(2) [of ch t e] show ?case by (simp add: down_link_def)
next
  case (12 k e)
  with down_frames [of ch a k e] show ?case by (simp add: down_link_def)
qed

section \<open>From the client to the server\<close>

fun u_frames :: "EIBNetIPTunnel \<Rightarrow> u_event \<Rightarrow> carray list" where
  "u_frames t (U_send_data l) = [the (L_Data_ToCEMI 0x11 l)]"
| "u_frames t _ = []"

text \<open>
  The events of a client that keeps its connection and has not given up the telegram it sends; the
  link above sends the next telegram only when the last one is gone.  Acknowledgements come from the
  server alone.
\<close>

fun u_keeps_sending :: "EIBNetIPTunnel \<Rightarrow> u_event \<Rightarrow> bool" where
  "u_keeps_sending t (U_start a b c) = False"
| "u_keeps_sending t U_stop = False"
| "u_keeps_sending t (U_send_data l) = (u_out t = [] \<and> sendable l)"
| "u_keeps_sending t (U_packet now p) = (ip_service p \<noteq> TUNNEL_RESPONSE \<and> u_mod (fst (read_cb now t p)) \<noteq> 0)"
| "u_keeps_sending t U_timeout = (u_mod t = 2 \<longrightarrow> u_retry t \<le> 3)"
| "u_keeps_sending t U_conntimeout = (u_heartbeat t < u_heartbeat_limit t)"
| "u_keeps_sending t _ = True"

text \<open>The events of a connection that lives on; requests come from the client alone.\<close>

fun k_keeps_open :: "ConnState \<Rightarrow> k_event \<Rightarrow> bool" where
  "k_keeps_open k (K_tunnel_request r) = False"
| "k_keeps_open k (K_config_request r) = False"
| "k_keeps_open k (K_tunnel_response r) = True"
| "k_keeps_open k e = k_goes_on k e"

definition up_link :: "nat \<times> nat \<Rightarrow>
    (EIBNetIPTunnel, u_event, ConnState, k_event, EIBNetIPPacket, EIBNetIPPacket, carray, l_data_pdu) protocol" where
  "up_link now =
     \<lparr>p_send = (\<lambda>t e. (fst (u_step t e), collect (u_sends TUNNEL_REQUEST) (snd (u_step t e)))),
      p_new = u_frames,
      p_send_ok = u_keeps_sending,
      p_ack = (\<lambda>t p. if ip_service p = TUNNEL_RESPONSE then fst (u_step t (U_packet now p)) else t),
      p_data = (\<lambda>k p. case parseEIBnet_TunnelRequest p of
                        None \<Rightarrow> (k, [], [])
                      | Some r \<Rightarrow>
                          if treq_channel r = k_channel k
                          then let x = k_step k (K_tunnel_request r)
                               in (fst x, collect (k_sends TUNNEL_RESPONSE) (snd x), collect k_telegrams (snd x))
                          else (k, [], [])),
      p_recv = (\<lambda>k e. fst (k_step k e)),
      p_recv_ok = k_keeps_open\<rparr>"

definition u_pending :: "EIBNetIPTunnel \<Rightarrow> carray list" where
  "u_pending t = (if u_out t = [] then [] else [u_out t])"

definition client_frame :: "carray \<Rightarrow> bool" where
  "client_frame c \<longleftrightarrow> (\<exists>l. sendable l \<and> L_Data_ToCEMI 0x11 l = Some c)"

text \<open>A telegram from a client gets the address of the connection, unless it has one of its own.\<close>

definition from_client :: "eibaddr \<Rightarrow> l_data_pdu \<Rightarrow> l_data_pdu" where
  "from_client a l = (if l_source l = 0 then l\<lparr>l_source := a\<rparr> else l)"

definition up_telegrams :: "eibaddr \<Rightarrow> carray \<Rightarrow> l_data_pdu list" where
  "up_telegrams a c = (case CEMI_to_L_Data c of None \<Rightarrow> [] | Some l \<Rightarrow> [from_client a l])"

fun submitted_up :: "eibaddr \<Rightarrow> u_event \<Rightarrow> l_data_pdu list" where
  "submitted_up a (U_send_data l) = [from_client a (as_received 0x11 l)]"
| "submitted_up a _ = []"

lemma client_frameE:
  assumes "client_frame c"
  obtains l con where "CEMI_to_L_Data c = Some l" "L_Data_ToCEMI 0x2E l = Some con" "c ! 0 = 0x11"
    "10 \<le> length c" "10 \<le> length con"
proof -
  from assms obtain l0 where l0: "sendable l0" "L_Data_ToCEMI 0x11 l0 = Some c" by (auto simp: client_frame_def)
  then have c: "CEMI_to_L_Data c = Some (as_received 0x11 l0)" "c ! 0 = 0x11" "10 \<le> length c"
    by (auto elim!: sendable_CEMI [where code = "0x11"])
  obtain con where "L_Data_ToCEMI 0x2E (as_received 0x11 l0) = Some con" "10 \<le> length con"
    using l0(1) sendable_CEMI [of "as_received 0x11 l0" "0x2E"] sendable_as_received by blast
  with c that show thesis by blast
qed

lemma conn_next:
  assumes k: "open_conn ch a k" and c: "client_frame c"
  defines "x \<equiv> tunnel_request k \<lparr>treq_channel = ch, treq_seqno = k_rno k, treq_CEMI = c\<rparr>"
  shows "open_conn ch a (fst x)" "k_rno (fst x) = k_rno k + 1"
    "collect (k_sends TUNNEL_RESPONSE) (snd x) =
       [TunnelACK_ToPacket \<lparr>tack_channel = ch, tack_seqno = k_rno k, tack_status = 0\<rparr>]"
    "collect k_telegrams (snd x) = up_telegrams a c"
proof -
  obtain l con where l: "CEMI_to_L_Data c = Some l" "L_Data_ToCEMI 0x2E l = Some con" "c ! 0 = 0x11"
      "10 \<le> length c" "10 \<le> length con"
    using c by (rule client_frameE)
  have "k_type k = CT_STANDARD" "k_addr k = a" using k by (simp_all add: open_conn_def)
  with l have t: "tunnel_CEMI k c = Some (out_put con k, [K_recv_L_Data (from_client a l)], 0)"
    by (simp add: tunnel_CEMI_def from_client_def)
  then show "open_conn ch a (fst x)" "k_rno (fst x) = k_rno k + 1"
    "collect (k_sends TUNNEL_RESPONSE) (snd x) =
       [TunnelACK_ToPacket \<lparr>tack_channel = ch, tack_seqno = k_rno k, tack_status = 0\<rparr>]"
    "collect k_telegrams (snd x) = up_telegrams a c"
    using k l by (auto simp: x_def tunnel_request_def tunnel_ACK_def open_conn_def with_service_def up_telegrams_def)
qed

lemma conn_again:
  fixes c :: carray
  assumes "k_channel k = ch"
  defines "x \<equiv> tunnel_request k \<lparr>treq_channel = ch, treq_seqno = k_rno k - 1, treq_CEMI = c\<rparr>"
  shows "fst x = k" "collect k_telegrams (snd x) = []"
    "collect (k_sends TUNNEL_RESPONSE) (snd x) =
       [TunnelACK_ToPacket \<lparr>tack_channel = ch, tack_seqno = k_rno k - 1, tack_status = 0\<rparr>]"
  using assms by (simp_all add: x_def tunnel_request_def tunnel_ACK_def with_service_def)

lemma conn_stays:
  assumes k: "open_conn ch a k" and e: "k_keeps_open k e"
  shows "open_conn ch a (fst (k_step k e))" "k_rno (fst (k_step k e)) = k_rno k"
proof -
  show "open_conn ch a (fst (k_step k e))"
  proof (cases "\<exists>r. e = K_tunnel_response r")
    case True
    with conn_acked(1) [OF k] show ?thesis by auto
  next
    case False
    with e have "k_goes_on k e" by (cases e) auto
    with k show ?thesis by (rule conn_sends(1))
  qed
  show "k_rno (fst (k_step k e)) = k_rno k"
    using e k by (cases e) (auto simp: Conn_send_L_Data_def Conn_send_L_Busmonitor_def tunnel_response_def
      next_out_def config_response_def sendtimeout_cb_def send_trigger_cb_def Let_def open_conn_def
      split: option.split list.split)
qed

lemma restart_requests [simp]: "collect (u_sends TUNNEL_REQUEST) (snd (restart t)) = []"
  by (simp add: restart_def sock_Send_def with_service_def)

lemma recv_request_keeps:
  assumes t: "open_client ch t" and m: "u_mod (fst (recv_TUNNEL_REQUEST now t p)) \<noteq> 0"
  shows "open_client ch (fst (recv_TUNNEL_REQUEST now t p)) \<and>
    u_sno (fst (recv_TUNNEL_REQUEST now t p)) = u_sno t \<and> u_out (fst (recv_TUNNEL_REQUEST now t p)) = u_out t \<and>
    collect (u_sends TUNNEL_REQUEST) (snd (recv_TUNNEL_REQUEST now t p)) = []"
proof (cases "parseEIBnet_TunnelRequest p")
  case None
  with t show ?thesis by (simp add: recv_TUNNEL_REQUEST_def)
next
  case (Some r)
  let ?t = "t\<lparr>u_rno := (if u_rno t + 1 > 0xff then 0 else u_rno t + 1)\<rparr>"
  have "open_client ch ?t" "open_client ch (t\<lparr>u_recvall := 0\<rparr>)" using t by (auto simp: open_client_def)
  with client_CEMI(1) [OF this(1), of now "treq_CEMI r"] client_CEMI(3) [OF this(1), of TUNNEL_REQUEST now "treq_CEMI r"]
    Some t m show ?thesis
    by (auto simp: recv_TUNNEL_REQUEST_def tunnel_ack_def sock_Send_def with_service_def Let_def simp del: One_nat_def
        split: if_split_asm)
qed

lemma recv_other_keeps:
  assumes t: "open_client ch t" and m: "u_mod (fst (recv_CONNECTIONSTATE_RESPONSE t p)) \<noteq> 0"
  shows "u_sno (fst (recv_CONNECTIONSTATE_RESPONSE t p)) = u_sno t \<and>
    u_out (fst (recv_CONNECTIONSTATE_RESPONSE t p)) = u_out t \<and>
    collect (u_sends TUNNEL_REQUEST) (snd (recv_CONNECTIONSTATE_RESPONSE t p)) = []"
  using m by (cases "parseEIBnet_ConnectionStateResponse p") (auto simp: recv_CONNECTIONSTATE_RESPONSE_def)

lemma disconnect_requests [simp]:
  "collect (u_sends TUNNEL_REQUEST) (snd (recv_DISCONNECT_REQUEST t p)) = []"
  "collect (u_sends TUNNEL_REQUEST) (snd (recv_DISCONNECT_RESPONSE t p)) = []"
  by (simp_all add: recv_DISCONNECT_REQUEST_def recv_DISCONNECT_RESPONSE_def sock_Send_def with_service_def Let_def
      split: option.split)

lemma client_read_keeps:
  assumes t: "open_client ch t" and p: "ip_service p \<noteq> TUNNEL_RESPONSE" "u_mod (fst (read_cb now t p)) \<noteq> 0"
  shows "open_client ch (fst (read_cb now t p)) \<and> u_sno (fst (read_cb now t p)) = u_sno t \<and>
    u_out (fst (read_cb now t p)) = u_out t \<and> collect (u_sends TUNNEL_REQUEST) (snd (read_cb now t p)) = []"
proof -
  have "u_mod t \<noteq> 0" using t by (auto simp: open_client_def)
  with p show ?thesis
    using t recv_CONNECTIONSTATE_RESPONSE_stays [OF t, of p] recv_other_keeps [OF t, of p]
      recv_DISCONNECT_stays [of t p] recv_request_keeps [OF t, of now p]
    by (auto simp: read_cb_def)
qed

lemma client_sends:
  assumes t: "open_client ch t" and e: "u_keeps_sending t e"
  shows "open_client ch (fst (u_step t e))" "u_sno (fst (u_step t e)) = u_sno t"
    "u_pending (fst (u_step t e)) = u_pending t @ u_frames t e"
    "collect (u_sends TUNNEL_REQUEST) (snd (u_step t e)) = [] \<or> u_pending t \<noteq> [] \<and>
       collect (u_sends TUNNEL_REQUEST) (snd (u_step t e)) = [tunnel_packet ch (of_nat (u_sno t)) (hd (u_pending t))]"
    "list_all client_frame (u_frames t e)"
proof -
  have sock: "u_sock t" using t by (simp add: open_client_def)
  have *: "open_client ch (fst (u_step t e)) \<and> u_sno (fst (u_step t e)) = u_sno t \<and>
    u_pending (fst (u_step t e)) = u_pending t @ u_frames t e \<and>
    (collect (u_sends TUNNEL_REQUEST) (snd (u_step t e)) = [] \<or> u_pending t \<noteq> [] \<and>
       collect (u_sends TUNNEL_REQUEST) (snd (u_step t e)) = [tunnel_packet ch (of_nat (u_sno t)) (hd (u_pending t))]) \<and>
    list_all client_frame (u_frames t e)"
  proof (cases e)
    case (U_packet now p)
    with client_read_keeps [OF t, of p now] e sock show ?thesis by (auto simp: u_pending_def)
  next
    case (U_send_data l)
    with e obtain c where "L_Data_ToCEMI 0x11 l = Some c" "10 \<le> length c" "sendable l"
      by (auto elim!: sendable_CEMI [where code = "0x11"])
    with t e U_send_data show ?thesis
      by (auto simp: Tunnel_send_L_Data_def open_client_def u_pending_def client_frame_def)
  next
    case U_trigger
    with t show ?thesis
      by (auto simp: Tunnel_trigger_cb_def open_client_def Let_def u_pending_def sock_Send_def with_service_def tunnel_packet_def)
  next
    case U_timeout
    with t e show ?thesis by (auto simp: Tunnel_timeout_cb_def open_client_def Let_def u_pending_def)
  next
    case U_conntimeout
    with t e show ?thesis
      by (auto simp: conntimeout_cb_def open_client_def Let_def u_pending_def sock_Send_def with_service_def)
  qed (use t e in \<open>auto simp: error_cb_def\<close>)
  then show "open_client ch (fst (u_step t e))" "u_sno (fst (u_step t e)) = u_sno t"
    "u_pending (fst (u_step t e)) = u_pending t @ u_frames t e"
    "collect (u_sends TUNNEL_REQUEST) (snd (u_step t e)) = [] \<or> u_pending t \<noteq> [] \<and>
       collect (u_sends TUNNEL_REQUEST) (snd (u_step t e)) = [tunnel_packet ch (of_nat (u_sno t)) (hd (u_pending t))]"
    "list_all client_frame (u_frames t e)"
    by blast+
qed

lemma client_acked:
  fixes p :: EIBNetIPPacket
  assumes t: "open_client ch t"
  defines "t' \<equiv> fst (recv_TUNNEL_RESPONSE t p)"
  shows "of_nat (u_sno t') = (of_nat (u_sno t) :: byte) \<and> u_pending t' = u_pending t \<or>
    ack_number p = of_nat (u_sno t) \<and> u_pending t \<noteq> [] \<and> of_nat (u_sno t') = (of_nat (u_sno t) + 1 :: byte) \<and>
    u_pending t' = tl (u_pending t)"
proof (cases "parseEIBnet_TunnelACK p")
  case None
  with t show ?thesis by (simp add: t'_def recv_TUNNEL_RESPONSE_def)
next
  case (Some r)
  have "u_sno t < 256" using t by (simp add: open_client_def)
  from seqno_next [OF this] Some t show ?thesis
    by (auto simp: t'_def recv_TUNNEL_RESPONSE_def open_client_def u_pending_def ack_number_def
        simp del: One_nat_def intro: seqno_of_unat)
qed

lemma up_frames:
  assumes "u_keeps_sending t e"
  shows "concat (map (up_telegrams a) (u_frames t e)) = submitted_up a e"
proof (cases e)
  case (U_send_data l)
  with assms obtain c where "L_Data_ToCEMI 0x11 l = Some c" "CEMI_to_L_Data c = Some (as_received 0x11 l)"
    by (auto elim!: sendable_CEMI [where code = "0x11"])
  with U_send_data show ?thesis by (simp add: up_telegrams_def)
qed simp_all

interpretation up: stop_and_wait_items "up_link now" "open_client ch" "\<lambda>t. of_nat (u_sno t)" u_pending
    "open_conn ch a" k_rno "tunnel_packet ch" ack_number client_frame "up_telegrams a" "submitted_up a"
  for now :: "nat \<times> nat" and ch :: byte and a :: eibaddr
proof (unfold_locales, goal_cases)
  case (1 t e)
  with client_sends(1) [of ch t e] show ?case by (simp add: up_link_def)
next
  case (2 t e)
  with client_sends(2) [of ch t e] show ?case by (simp add: up_link_def)
next
  case (3 t e)
  with client_sends(3) [of ch t e] show ?case by (simp add: up_link_def)
next
  case (4 t e)
  with client_sends(4) [of ch t e] show ?case by (simp add: up_link_def)
next
  case (5 t e)
  with client_sends(5) [of ch t e] show ?case by (simp add: up_link_def)
next
  case (6 t p)
  with recv_TUNNEL_RESPONSE_stays [of ch t p] show ?case by (simp add: up_link_def read_cb_def)
next
  case (7 t p)
  with client_acked [of ch t p] show ?case by (auto simp: up_link_def read_cb_def open_client_def)
next
  case (8 k c k' ks ls)
  then have "k_channel k = ch" "2 \<le> length c" by (auto simp: open_conn_def elim!: client_frameE)
  with 8(3) have "k' = fst (tunnel_request k \<lparr>treq_channel = ch, treq_seqno = k_rno k, treq_CEMI = c\<rparr>)"
    "ks = collect (k_sends TUNNEL_RESPONSE) (snd (tunnel_request k \<lparr>treq_channel = ch, treq_seqno = k_rno k, treq_CEMI = c\<rparr>))"
    "ls = collect k_telegrams (snd (tunnel_request k \<lparr>treq_channel = ch, treq_seqno = k_rno k, treq_CEMI = c\<rparr>))"
    by (auto simp: up_link_def tunnel_packet_def Let_def)
  with conn_next [OF 8(1,2)] show ?case by (simp add: ack_number_def)
next
  case (9 k c k' ks ls)
  then have "k_channel k = ch" "2 \<le> length c" by (auto simp: open_conn_def elim!: client_frameE)
  with 9(3) have "k' = fst (tunnel_request k \<lparr>treq_channel = ch, treq_seqno = k_rno k - 1, treq_CEMI = c\<rparr>)"
    "ks = collect (k_sends TUNNEL_RESPONSE) (snd (tunnel_request k \<lparr>treq_channel = ch, treq_seqno = k_rno k - 1, treq_CEMI = c\<rparr>))"
    "ls = collect k_telegrams (snd (tunnel_request k \<lparr>treq_channel = ch, treq_seqno = k_rno k - 1, treq_CEMI = c\<rparr>))"
    by (auto simp: up_link_def tunnel_packet_def Let_def)
  with conn_again [OF \<open>k_channel k = ch\<close>, of c] 9(1) show ?case by (simp add: ack_number_def)
next
  case (10 k e)
  with conn_stays(1) [of ch a k e] show ?case by (simp add: up_link_def)
next
  case (11 k e)
  with conn_stays(2) [of ch a k e] show ?case by (simp add: up_link_def)
next
  case (12 t e)
  with up_frames [of t e a] show ?case by (simp add: up_link_def)
qed

end
