(* ===== verification/Tunnel_Stack.thy ===== *)
theory Tunnel_Stack
  imports Tunnel_Props
begin

text \<open>
  Properties of tunnels: delivery in both directions, the set-up of a connection, the client under its
  queue filter, and the connections of the server.
\<close>

unbundle bit_operations_syntax

section \<open>Delivery\<close>

text \<open>A fresh connection and a fresh client, for the examples below.\<close>

definition sample_conn :: ConnState where
  "sample_conn = ConnState_new CT_STANDARD \<lparr>creq_caddr = sockaddr_zero, creq_daddr = sockaddr_zero,
     creq_CRI = [4, 2, 0], creq_nat = False\<rparr> 0x11F0 1"

definition sample_client :: EIBNetIPTunnel where
  "sample_client = (Tunnel_new False 3671 0 False 0 30 3)\<lparr>u_mod := 1, u_channel := 1, u_sock := True,
     u_trigger_on := True, u_recvall := 3\<rparr>"

definition sample_telegram :: l_data_pdu where
  "sample_telegram = L_Data_new\<lparr>l_AddrType := GroupAddress, l_dest := 0x0901, l_hopcount := 6, l_data := [0x00, 0x81]\<rparr>"

lemma sample_sendable: "sendable sample_telegram"
  by (simp add: sendable_def wf_l_data_def sample_telegram_def L_Data_new_def)

abbreviation sample_frame :: carray where
  "sample_frame \<equiv> [0x29, 0, 0xbc, 0xe0, 0, 0, 0x09, 0x01, 1, 0x00, 0x81]"

lemma sample_frame_codec:
  "L_Data_ToCEMI 0x29 sample_telegram = Some sample_frame"
  "CEMI_to_L_Data sample_frame = Some (as_received 0x29 sample_telegram)"
  by (simp_all add: L_Data_ToCEMI_def CEMI_to_L_Data_def sample_telegram_def L_Data_new_def as_received_def
      hi8_def lo8_def be16_def len_m1_def addr_type_def Let_def slice_def prio_from_bits_def)

text \<open>One telegram on its way: queued, sent, received twice, acknowledged.\<close>

definition sample_ack :: EIBNetIPPacket where
  "sample_ack = TunnelACK_ToPacket \<lparr>tack_channel = 1, tack_seqno = 0, tack_status = 0\<rparr>"

definition sample_queued :: ConnState where
  "sample_queued = sample_conn\<lparr>k_do_send_next := True, k_out := [sample_frame], k_send_trigger := True\<rparr>"

definition sample_sent :: ConnState where
  "sample_sent = sample_conn\<lparr>k_do_send_next := True, k_out := [sample_frame], k_send_trigger := False,
     k_retries := 1, k_sendtimeout := True\<rparr>"

lemma service_tunnel_packet [simp]: "ip_service (tunnel_packet ch n c) = TUNNEL_REQUEST"
  by (simp add: tunnel_packet_def)

lemma down_link_sel:
  "p_send (down_link now) k e = (fst (k_step k e), collect (k_sends TUNNEL_REQUEST) (snd (k_step k e)))"
  "p_new (down_link now) = k_frames" "p_send_ok (down_link now) = k_goes_on"
  "p_ack (down_link now) k (TunnelACK_ToPacket r) = (if tack_channel r = k_channel k then fst (tunnel_response k r) else k)"
  "p_data (down_link now) t p = (fst (u_step t (U_packet now p)),
     collect (u_sends TUNNEL_RESPONSE) (snd (u_step t (U_packet now p))), collect u_telegrams (snd (u_step t (U_packet now p))))"
  by (simp_all add: down_link_def Let_def)

lemma sample_steps:
  "k_step sample_conn (K_send_data sample_telegram) = (sample_queued, [])"
  "k_step sample_queued K_trigger = (sample_sent, [K_send (tunnel_packet 1 0 sample_frame) sockaddr_zero])"
  "tunnel_response sample_sent \<lparr>tack_channel = 1, tack_seqno = 0, tack_status = 0\<rparr> =
     (sample_conn\<lparr>k_sno := 1\<rparr>, [K_send_Next])"
  by (simp_all add: Conn_send_L_Data_def send_trigger_cb_def tunnel_response_def next_out_def out_put_def out_packet_def
      sample_queued_def sample_sent_def sample_conn_def ConnState_new_def send_signal_def tunnel_packet_def
      sample_frame_codec Let_def)

lemma sample_receipt:
  "u_step sample_client (U_packet now (tunnel_packet 1 0 sample_frame)) =
     (sample_client\<lparr>u_rno := 1\<rparr>, [U_send sample_ack sockaddr_zero, U_recv_L_Data (as_received 0x29 sample_telegram)])"
  "u_step (sample_client\<lparr>u_rno := 1\<rparr>) (U_packet now (tunnel_packet 1 0 sample_frame)) =
     (sample_client\<lparr>u_rno := 1, u_recvall := 0\<rparr>, [U_send sample_ack sockaddr_zero])"
  by (simp_all add: read_cb_def recv_TUNNEL_REQUEST_def recv_CEMI_def tunnel_packet_def tunnel_ack_def sock_Send_def
      sample_client_def Tunnel_new_def sample_frame_codec sample_ack_def Let_def)

text \<open>
  \<^bold>\<open>C2\<close>: the tunnel delivers every telegram of the router to the client exactly once and in order, over a
  network that loses and repeats packets and acknowledgements.  As long as the connection lives, the
  telegrams the client has passed on are a prefix of those the router handed to the connection, with
  the middle priorities exchanged; once the connection's queue is empty they are all of them.
  Whatever the client sends meanwhile, and the confirmations of it, make no difference.
\<close>

theorem tunnel_down_exactly_once:
  assumes "open_conn ch a k" "k_sno k = 0" "k_out k = []" and "open_client ch t" "u_rno t = 0"
    and "net_ok (down_link now) (net_start k t) es"
  shows "prefix (n_got (net_run (down_link now) (net_start k t) es)) (collect (at_sender handed_over) es) \<and>
    (k_out (n_s (net_run (down_link now) (net_start k t) es)) = [] \<longrightarrow>
     n_got (net_run (down_link now) (net_start k t) es) = collect (at_sender handed_over) es)"
proof -
  have "of_nat (u_rno t) = (0 :: byte)" using assms(5) by simp
  from down.delivery [OF assms(1,4,3,2) this assms(6)] show ?thesis by blast
qed

theorem tunnel_down_exactly_once_witness:
  "n_got (net_run (down_link (0, 0)) (net_start sample_conn sample_client)
     [At_sender (K_send_data sample_telegram), At_sender K_trigger, Data_repeated, Data_arrives, Ack_lost 0,
      Ack_arrives]) = [as_received 0x29 sample_telegram]"
    (is "n_got (net_run ?P ?N ?es) = _")
proof -
  let ?got = "[as_received 0x29 sample_telegram]" and ?p = "tunnel_packet 1 0 sample_frame"
  let ?n = "\<lambda>k t d a g. \<lparr>n_s = k, n_r = t, n_data = d, n_acks = a, n_new = [sample_frame], n_got = g\<rparr>"
  have start: "open_conn 1 0x11F0 sample_conn" "k_sno sample_conn = 0" "k_out sample_conn = []"
    "open_client 1 sample_client" "u_rno sample_client = 0"
    and chan: "k_channel sample_sent = 1" and free: "\<not> k_do_send_next sample_conn"
    by (simp_all add: sample_conn_def ConnState_new_def open_conn_def sample_client_def Tunnel_new_def open_client_def
        sample_sent_def)
  note eval = down_link_sel receive_def without_def sample_steps sample_receipt with_service_def sample_ack_def
    sample_frame_codec net_start_def
  have 1: "net_step ?P ?N (At_sender (K_send_data sample_telegram)) = ?n sample_queued sample_client [] [] []"
    by (simp add: eval del: k_step.simps)
  have 2: "net_step ?P (?n sample_queued sample_client [] [] []) (At_sender K_trigger) =
      ?n sample_sent sample_client [?p] [] []"
    by (simp add: eval del: k_step.simps)
  have 3: "net_step ?P (?n sample_sent sample_client [?p] [] []) Data_repeated =
      ?n sample_sent (sample_client\<lparr>u_rno := 1\<rparr>) [?p] [sample_ack] ?got"
    by (simp add: eval del: u_step.simps One_nat_def)
  have 4: "net_step ?P (?n sample_sent (sample_client\<lparr>u_rno := 1\<rparr>) [?p] [sample_ack] ?got) Data_arrives =
      ?n sample_sent (sample_client\<lparr>u_rno := 1, u_recvall := 0\<rparr>) [] [sample_ack, sample_ack] ?got"
    by (simp add: eval del: u_step.simps One_nat_def)
  have 5: "net_step ?P (?n sample_sent t [] [sample_ack, sample_ack] g) (Ack_lost 0) = ?n sample_sent t [] [sample_ack] g"
    for t g by (simp add: eval)
  have 6: "net_step ?P (?n sample_sent t [] [sample_ack] g) Ack_arrives = ?n (sample_conn\<lparr>k_sno := 1\<rparr>) t [] [] g"
    for t g using chan by (simp add: eval)
  have "net_ok ?P ?N ?es"
    using free by (simp only: net_ok.simps 1 2 3 4 5 6 event_ok.simps) (simp add: eval sample_sendable)
  moreover have "k_out (n_s (net_run ?P ?N ?es)) = []"
    using start(3) by (simp only: net_run.simps 1 2 3 4 5 6) simp
  ultimately have "n_got (net_run ?P ?N ?es) = collect (at_sender handed_over) ?es"
    using tunnel_down_exactly_once [OF start] by blast
  also have "\<dots> = ?got" by simp
  finally show ?thesis .
qed


abbreviation sample_request :: carray where
  "sample_request \<equiv> [0x11, 0, 0xbc, 0xe0, 0, 0, 0x09, 0x01, 1, 0x00, 0x81]"

abbreviation sample_confirmation :: carray where
  "sample_confirmation \<equiv> [0x2E, 0, 0xbc, 0xe0, 0, 0, 0x09, 0x01, 1, 0x00, 0x81]"

lemma sample_request_codec:
  "L_Data_ToCEMI 0x11 sample_telegram = Some sample_request"
  "CEMI_to_L_Data sample_request = Some (as_received 0x11 sample_telegram)"
  "L_Data_ToCEMI 0x2E (as_received 0x11 sample_telegram) = Some sample_confirmation"
  by (simp_all add: L_Data_ToCEMI_def CEMI_to_L_Data_def sample_telegram_def L_Data_new_def as_received_def
      hi8_def lo8_def be16_def len_m1_def addr_type_def Let_def slice_def prio_from_bits_def)

lemma up_link_sel:
  "p_send (up_link now) t e = (fst (u_step t e), collect (u_sends TUNNEL_REQUEST) (snd (u_step t e)))"
  "p_new (up_link now) = u_frames" "p_send_ok (up_link now) = u_keeps_sending"
  "p_ack (up_link now) t (TunnelACK_ToPacket r) = fst (u_step t (U_packet now (TunnelACK_ToPacket r)))"
  "2 \<le> length c \<Longrightarrow> p_data (up_link now) k (tunnel_packet (k_channel k) n c) =
     (let x = tunnel_request k \<lparr>treq_channel = k_channel k, treq_seqno = n, treq_CEMI = c\<rparr>
      in (fst x, collect (k_sends TUNNEL_RESPONSE) (snd x), collect k_telegrams (snd x)))"
  by (simp_all add: up_link_def tunnel_packet_def Let_def)

lemma sample_up_steps:
  "u_step sample_client (U_send_data sample_telegram) = (sample_client\<lparr>u_out := sample_request, u_trigger := True\<rparr>, [])"
  "u_step (sample_client\<lparr>u_out := sample_request, u_trigger := True\<rparr>) U_trigger =
     (sample_client\<lparr>u_out := sample_request, u_mod := 2, u_timeout := True\<rparr>,
      [U_send (tunnel_packet 1 0 sample_request) sockaddr_zero])"
  "fst (u_step (sample_client\<lparr>u_out := sample_request, u_mod := 2, u_timeout := True\<rparr>) (U_packet now sample_ack)) =
     sample_client\<lparr>u_sno := 1, u_trigger := True, u_timeout := True\<rparr>"
  "tunnel_request sample_conn \<lparr>treq_channel = 1, treq_seqno = 0, treq_CEMI = sample_request\<rparr> =
     (sample_conn\<lparr>k_rno := 1, k_out := [sample_confirmation], k_send_trigger := True\<rparr>,
      [K_recv_L_Data (from_client 0x11F0 (as_received 0x11 sample_telegram)), K_send sample_ack sockaddr_zero])"
  by (simp_all add: Tunnel_send_L_Data_def Tunnel_trigger_cb_def read_cb_def recv_TUNNEL_RESPONSE_def signal_def sock_Send_def
      tunnel_packet_def sample_client_def Tunnel_new_def sample_request_codec sample_ack_def tunnel_request_def tunnel_ACK_def
      tunnel_CEMI_def from_client_def out_put_def send_signal_def sample_conn_def ConnState_new_def Let_def)


end
