(* ===== verification/Ipserver_Props.thy ===== *)
theory Ipserver_Props
  imports Tunnel_Props
begin

text \<open>
  Properties of the KNXnet/IP server: of one connection, of its table of connections, of its pool of
  client addresses together with the router, and of the routing driver.
\<close>

unbundle bit_operations_syntax

section \<open>One connection\<close>

text \<open>A frame that waits for an acknowledgement is still in the queue.\<close>

definition conn_inv :: "ConnState \<Rightarrow> bool" where
  "conn_inv k \<longleftrightarrow> (k_retries k > 0 \<or> k_sendtimeout k \<longrightarrow> k_out k \<noteq> []) \<and>
     (k_send_trigger k \<longrightarrow> k_trigger_on k \<and> k_retries k \<in> {0, 2}) \<and> (k_sendtimeout k \<longrightarrow> k_trigger_on k \<and> k_retries k \<in> {1, 3})"

lemma tunnel_CEMI_states:
  "tunnel_CEMI k c = Some (k', up, status) \<Longrightarrow> k' = k \<or> (\<exists>con. k' = out_put con k)"
  by (auto simp: tunnel_CEMI_def Let_def split: if_split_asm option.split_asm)

lemma out_put_inv: "conn_inv k \<Longrightarrow> conn_inv (out_put c k)"
  by (auto simp: conn_inv_def out_put_def send_signal_def Let_def)

lemma conn_inv_update [simp]:
  "conn_inv (k\<lparr>k_rno := n\<rparr>) = conn_inv k" "conn_inv (k\<lparr>k_no := i\<rparr>) = conn_inv k" "conn_inv (k\<lparr>k_do_send_next := b\<rparr>) = conn_inv k"
  "conn_inv (k\<lparr>k_timeout := b\<rparr>) = conn_inv k"
  by (simp_all add: conn_inv_def)

lemma Conn_stop_inv [simp]: "conn_inv (fst (Conn_stop k))"
  by (simp add: conn_inv_def Conn_stop_def)

lemma tunnel_request_inv: "conn_inv k \<Longrightarrow> conn_inv (fst (tunnel_request k r))"
  by (auto simp: tunnel_request_def out_put_inv dest: tunnel_CEMI_states split: option.split)

lemma next_out_inv:
  assumes "k_retries k = 0" "\<not> k_sendtimeout k" "k_send_trigger k \<longrightarrow> k_trigger_on k"
  shows "conn_inv (fst (next_out k))"
  using assms by (auto simp: next_out_def conn_inv_def send_signal_def)

lemma response_inv:
  assumes "conn_inv k"
  shows "conn_inv (fst (tunnel_response k r))" "conn_inv (fst (config_response k q))"
proof -
  have on: "k_send_trigger k \<longrightarrow> k_trigger_on k" using assms by (simp add: conn_inv_def)
  show "conn_inv (fst (tunnel_response k r))" "conn_inv (fst (config_response k q))"
    using assms by (auto simp: tunnel_response_def config_response_def on next_out_inv split: list.split)
qed

lemma conn_step_inv: "conn_inv k \<Longrightarrow> conn_inv (fst (k_step k e))"
proof (cases e)
  case (K_tunnel_request r)
  then show "conn_inv k \<Longrightarrow> ?thesis" by (simp add: tunnel_request_inv)
next
  case K_trigger
  then show "conn_inv k \<Longrightarrow> ?thesis"
    by (auto simp: send_trigger_cb_def conn_inv_def Let_def split: list.split)
next
  case K_sendtimeout
  then show "conn_inv k \<Longrightarrow> ?thesis"
    by (auto simp: sendtimeout_cb_def conn_inv_def send_signal_def Let_def Conn_stop_def split: list.split)
qed (auto simp: Conn_send_L_Data_def Conn_send_L_Busmonitor_def out_put_inv response_inv config_request_def
    Conn_timeout_cb_def Let_def split: option.split)

lemma tunnel_request_queue: "K_empty_queue \<notin> set (snd (tunnel_request k r))"
  by (auto simp: tunnel_request_def tunnel_ACK_def tunnel_CEMI_def Let_def split: option.split)

lemma Conn_timeout_calls:
  obtains "snd (Conn_timeout_cb source port k) = snd (Conn_stop k)" |
    p where "snd (Conn_timeout_cb source port k) = K_send p (k_caddr k) # snd (Conn_stop k)"
proof -
  have "snd (Conn_stop (k\<lparr>k_timeout := False\<rparr>)) = snd (Conn_stop k)" by (simp add: Conn_stop_def)
  then have "snd (Conn_timeout_cb source port k) = snd (Conn_stop k) \<or>
      (\<exists>p. snd (Conn_timeout_cb source port k) = K_send p (k_caddr k) # snd (Conn_stop k))"
    by (cases "source (k_caddr k)") (simp_all add: Conn_timeout_cb_def Let_def)
  with that show thesis by blast
qed

lemma Conn_timeout_queue: "K_empty_queue \<notin> set (snd (Conn_timeout_cb source port k))"
  by (rule Conn_timeout_calls [of source port k]) (auto simp: Conn_stop_def)

lemma conn_step_queue: "conn_inv k \<Longrightarrow> K_empty_queue \<notin> set (snd (k_step k e))"
  by (cases e)
    (auto simp: Conn_send_L_Data_def Conn_send_L_Busmonitor_def tunnel_request_queue Conn_timeout_queue
      tunnel_response_def config_response_def config_request_def config_ACK_def next_out_def send_trigger_cb_def
      sendtimeout_cb_def Conn_stop_def conn_inv_def Let_def
      split: option.split list.split if_split_asm)

interpretation conn: event_machine k_step "\<lambda>_. True" conn_inv "\<lambda>c. c \<noteq> K_empty_queue"
  by unfold_locales (auto simp: conn_step_inv dest: conn_step_queue)

subsection \<open>Repetitions\<close>

fun k_requests :: "k_call \<Rightarrow> EIBNetIPPacket list" where
  "k_requests (K_send p a) =
     (if ip_service p = TUNNEL_REQUEST \<or> ip_service p = DEVICE_CONFIGURATION_REQUEST then [p] else [])"
| "k_requests _ = []"

fun is_answer :: "k_event \<Rightarrow> bool" where
  "is_answer (K_tunnel_response r) = True"
| "is_answer (K_config_response r) = True"
| "is_answer _ = False"

text \<open>How often the connection may still send without an answer, and what it sends.\<close>

definition tx_left :: "ConnState \<Rightarrow> nat" where
  "tx_left k =
     (if \<not> k_trigger_on k then 0 else if k_retries k = 0 then 2 else if k_retries k \<le> 2 then 1 else 0)"

definition repeats :: "EIBNetIPPacket \<Rightarrow> ConnState \<Rightarrow> bool" where
  "repeats p k \<longleftrightarrow> conn_inv k \<and> (k_trigger_on k \<longrightarrow> k_out k \<noteq> [] \<and> out_packet k (hd (k_out k)) = p)"

lemma out_packet_fields [simp]:
  "out_packet (out_put c k) = out_packet k" "out_packet (send_signal k) = out_packet k"
  "out_packet (k\<lparr>k_rno := n\<rparr>) = out_packet k" "out_packet (k\<lparr>k_no := i\<rparr>) = out_packet k"
  "out_packet (k\<lparr>k_do_send_next := b\<rparr>) = out_packet k" "out_packet (k\<lparr>k_send_trigger := b\<rparr>) = out_packet k"
  "out_packet (k\<lparr>k_retries := m\<rparr>) = out_packet k" "out_packet (k\<lparr>k_sendtimeout := b\<rparr>) = out_packet k"
  by (simp_all add: out_packet_def out_put_def send_signal_def Let_def fun_eq_iff)

lemma trigger_on_fields [simp]:
  "k_trigger_on (out_put c k) = k_trigger_on k" "k_trigger_on (send_signal k) = k_trigger_on k"
  by (simp_all add: out_put_def send_signal_def Let_def)

lemma tx_left_fields [simp]:
  "tx_left (out_put c k) = tx_left k" "tx_left (send_signal k) = tx_left k" "tx_left (k\<lparr>k_rno := n\<rparr>) = tx_left k"
  "tx_left (k\<lparr>k_no := i\<rparr>) = tx_left k" "tx_left (k\<lparr>k_do_send_next := b\<rparr>) = tx_left k"
  by (simp_all add: tx_left_def)

lemma repeats_put: "repeats p k \<Longrightarrow> repeats p (out_put c k)"
  by (auto simp: repeats_def out_put_inv)

lemma repeats_fields [simp]:
  "repeats p (k\<lparr>k_rno := n\<rparr>) = repeats p k" "repeats p (k\<lparr>k_no := i\<rparr>) = repeats p k"
  "repeats p (k\<lparr>k_do_send_next := b\<rparr>) = repeats p k"
  by (simp_all add: repeats_def)

lemma stopped_repeats [simp]: "repeats p (fst (Conn_stop k))" "tx_left (fst (Conn_stop k)) = 0"
  "collect k_requests (snd (Conn_stop k)) = []"
  by (simp_all add: repeats_def tx_left_def Conn_stop_def conn_inv_def)

definition sends_copies :: "EIBNetIPPacket \<Rightarrow> ConnState \<Rightarrow> k_result \<Rightarrow> bool" where
  "sends_copies p k x \<longleftrightarrow> repeats p (fst x) \<and>
     (\<exists>n. collect k_requests (snd x) = replicate n p \<and> n + tx_left (fst x) \<le> tx_left k)"

lemma sends_nothing:
  "repeats p (fst x) \<Longrightarrow> tx_left (fst x) \<le> tx_left k \<Longrightarrow> collect k_requests (snd x) = [] \<Longrightarrow> sends_copies p k x"
  unfolding sends_copies_def by (intro conjI exI [of _ 0]) auto

lemma tunnel_request_copies: "repeats p k \<Longrightarrow> sends_copies p k (tunnel_request k r)"
  by (rule sends_nothing)
    (auto simp: tunnel_request_def tunnel_ACK_def tunnel_CEMI_def repeats_put Let_def split: option.split)

lemma trigger_copies:
  assumes "repeats p k" "k_send_trigger k"
  shows "sends_copies p k (send_trigger_cb k)"
proof -
  obtain c cs where k: "k_out k = c # cs" "out_packet k c = p" "k_trigger_on k" "k_retries k = 0 \<or> k_retries k = 2"
    using assms by (cases "k_out k") (auto simp: repeats_def conn_inv_def)
  have "ip_service p = TUNNEL_REQUEST \<or> ip_service p = DEVICE_CONFIGURATION_REQUEST"
    using k(2) by (auto simp: out_packet_def)
  then have "collect k_requests (snd (send_trigger_cb k)) = replicate 1 p"
    using k by (simp add: send_trigger_cb_def Let_def)
  moreover have "1 + tx_left (fst (send_trigger_cb k)) \<le> tx_left k" "repeats p (fst (send_trigger_cb k))"
    using k by (auto simp: send_trigger_cb_def tx_left_def repeats_def conn_inv_def Let_def)
  ultimately show ?thesis unfolding sends_copies_def by blast
qed

lemma sendtimeout_copies:
  assumes "repeats p k" "k_sendtimeout k"
  shows "sends_copies p k (sendtimeout_cb k)"
proof -
  obtain c cs where k: "k_out k = c # cs" "out_packet k c = p" "k_trigger_on k" "k_retries k = 1 \<or> k_retries k = 3"
    using assms by (cases "k_out k") (auto simp: repeats_def conn_inv_def)
  show ?thesis
  proof (rule sends_nothing)
    show "repeats p (fst (sendtimeout_cb k))"
      using k by (auto simp: sendtimeout_cb_def repeats_def conn_inv_def send_signal_def Conn_stop_def Let_def)
    show "tx_left (fst (sendtimeout_cb k)) \<le> tx_left k" "collect k_requests (snd (sendtimeout_cb k)) = []"
      using k by (auto simp: sendtimeout_cb_def tx_left_def Conn_stop_def Let_def)
  qed
qed

lemma timeout_copies: "sends_copies p k (Conn_timeout_cb source port k)"
proof (rule sends_nothing)
  have "fst (Conn_timeout_cb source port k) = fst (Conn_stop (k\<lparr>k_timeout := False\<rparr>))"
    by (simp add: Conn_timeout_cb_def Let_def)
  then show "repeats p (fst (Conn_timeout_cb source port k))" "tx_left (fst (Conn_timeout_cb source port k)) \<le> tx_left k"
    by simp_all
  show "collect k_requests (snd (Conn_timeout_cb source port k)) = []"
    by (cases "source (k_caddr k)") (simp_all add: Conn_timeout_cb_def Let_def)
qed

lemma conn_step_copies:
  assumes k: "repeats p k" and e: "\<not> is_answer e"
  shows "sends_copies p k (k_step k e)"
proof (cases e)
  case (K_send_data l)
  with k show ?thesis
    by (auto simp: Conn_send_L_Data_def repeats_put intro!: sends_nothing split: option.split)
next
  case (K_send_monitor b)
  with k show ?thesis by (auto simp: Conn_send_L_Busmonitor_def repeats_put intro!: sends_nothing)
next
  case (K_config_request r)
  with k show ?thesis
    by (auto simp: config_request_def config_ACK_def repeats_put Let_def intro!: sends_nothing)
qed (use assms in \<open>auto simp: tunnel_request_copies trigger_copies sendtimeout_copies timeout_copies intro: sends_nothing\<close>)

lemma conn_run_copies:
  "repeats p k \<Longrightarrow> list_all (\<lambda>e. \<not> is_answer e) es \<Longrightarrow>
   \<exists>n \<le> tx_left k. collect k_requests (snd (run_events k_step k es)) = replicate n p"
proof (induction es arbitrary: k)
  case (Cons e es)
  from conn_step_copies [OF Cons.prems(1), of e] Cons.prems(2) obtain n where
    n: "repeats p (fst (k_step k e))" "collect k_requests (snd (k_step k e)) = replicate n p"
      "n + tx_left (fst (k_step k e)) \<le> tx_left k"
    by (auto simp: sends_copies_def)
  from Cons.IH [OF n(1)] Cons.prems(2) obtain m where
    "m \<le> tx_left (fst (k_step k e))" "collect k_requests (snd (run_events k_step (fst (k_step k e)) es)) = replicate m p"
    by auto
  with n show ?case unfolding run_events_Cons by (intro exI [of _ "n + m"]) (simp add: replicate_add)
qed simp

subsection \<open>Assertions\<close>

lemma CEMI_bounds:
  assumes "CEMI_to_L_Data c = Some l"
  shows "1 \<le> length (l_data l)" "length (l_data l) + 9 \<le> length c" "l_hopcount l AND 0xf8 = 0"
proof -
  have "(drop_bit 4 b AND 0x07) AND 0xf8 = 0" for b :: byte
    by (simp add: byte_bits)
  with assms show "1 \<le> length (l_data l)" "length (l_data l) + 9 \<le> length c" "l_hopcount l AND 0xf8 = 0"
    by (auto simp: CEMI_to_L_Data_def Let_def split: if_split_asm)
qed

lemma CEMI_reencodable:
  assumes "CEMI_to_L_Data c = Some l" "length c \<le> 245"
  shows "L_Data_ToCEMI code l \<noteq> None"
  using CEMI_bounds [OF assms(1)] assms(2) by (auto simp: L_Data_ToCEMI_def Let_def)

lemma short_tunnel_CEMI: "length c \<le> 245 \<Longrightarrow> tunnel_CEMI k c \<noteq> None"
  using CEMI_reencodable [of c _ "0x2E"] by (fastforce simp: tunnel_CEMI_def Let_def split: option.split)

text \<open>
  A history of a connection under a link that keeps to the protocol: it hands over a telegram only
  when it has been asked for one since the last, and requests fit the receive buffer of the socket.
\<close>

definition asked :: "bool \<Rightarrow> ConnState \<Rightarrow> k_event \<Rightarrow> bool" where
  "asked ready k e =
     (K_send_Next \<in> set (snd (k_step k e)) \<or> (case e of K_send_data l \<Rightarrow> False | _ \<Rightarrow> ready))"

fun k_admissible :: "bool \<Rightarrow> k_event \<Rightarrow> bool" where
  "k_admissible ready (K_send_data l) = (ready \<and> sendable l)"
| "k_admissible ready (K_tunnel_request r) = (length (treq_CEMI r) \<le> 245)"
| "k_admissible ready _ = True"

fun k_history :: "bool \<Rightarrow> ConnState \<Rightarrow> k_event list \<Rightarrow> bool" where
  "k_history ready k [] = True"
| "k_history ready k (e # es) = (k_admissible ready e \<and> k_history (asked ready k e) (fst (k_step k e)) es)"

lemma next_out_asks: "K_send_Next \<in> set (snd (next_out k)) \<Longrightarrow> \<not> k_do_send_next (fst (next_out k))"
  by (auto simp: next_out_def split: if_split_asm)

lemma next_out_keeps: "\<not> k_do_send_next k \<Longrightarrow> \<not> k_do_send_next (fst (next_out k))"
  by (auto simp: next_out_def)

lemma request_silent:
  "K_send_Next \<notin> set (snd (tunnel_request k r))" "k_do_send_next (fst (tunnel_request k r)) = k_do_send_next k"
  by (auto simp: tunnel_request_def tunnel_ACK_def tunnel_CEMI_def Let_def split: option.split)

lemma timeout_silent:
  "K_send_Next \<notin> set (snd (Conn_timeout_cb source port k))"
  "k_do_send_next (fst (Conn_timeout_cb source port k)) = k_do_send_next k"
proof -
  show "K_send_Next \<notin> set (snd (Conn_timeout_cb source port k))"
    by (rule Conn_timeout_calls [of source port k]) (auto simp: Conn_stop_def)
  show "k_do_send_next (fst (Conn_timeout_cb source port k)) = k_do_send_next k"
    by (simp add: Conn_timeout_cb_def Conn_stop_def Let_def)
qed

lemma asked_free:
  assumes "ready \<longrightarrow> \<not> k_do_send_next k"
  shows "asked ready k e \<longrightarrow> \<not> k_do_send_next (fst (k_step k e))"
proof (cases e)
  case (K_send_data l)
  then show ?thesis by (auto simp: asked_def Conn_send_L_Data_def split: option.split)
next
  case (K_tunnel_response r)
  with assms show ?thesis
    by (auto simp: asked_def tunnel_response_def next_out_asks next_out_keeps split: list.split)
next
  case (K_config_response r)
  with assms show ?thesis
    by (auto simp: asked_def config_response_def next_out_asks next_out_keeps split: list.split)
next
  case (K_config_request r)
  with assms show ?thesis by (auto simp: asked_def config_request_def config_ACK_def Let_def)
next
  case K_sendtimeout
  with assms show ?thesis
    by (auto simp: asked_def sendtimeout_cb_def Conn_stop_def Let_def split: list.split)
next
  case K_trigger
  with assms show ?thesis by (auto simp: asked_def send_trigger_cb_def Let_def split: list.split)
qed (use assms in \<open>auto simp: asked_def request_silent timeout_silent Conn_send_L_Busmonitor_def Conn_stop_def\<close>)

lemma tunnel_request_safe: "length (treq_CEMI r) \<le> 245 \<Longrightarrow> K_abort \<notin> set (snd (tunnel_request k r))"
  using short_tunnel_CEMI [of "treq_CEMI r" k]
  by (auto simp: tunnel_request_def tunnel_ACK_def tunnel_CEMI_def Let_def split: option.split)

lemma conn_step_safe:
  assumes "ready \<longrightarrow> \<not> k_do_send_next k" "k_admissible ready e"
  shows "K_abort \<notin> set (snd (k_step k e))"
proof (cases e)
  case (K_send_data l)
  with assms show ?thesis
    by (auto simp: Conn_send_L_Data_def elim: sendable_CEMI [of l "0x29"])
next
  case (K_timeout source port)
  have "K_abort \<notin> set (snd (Conn_timeout_cb source port k))"
    by (rule Conn_timeout_calls [of source port k]) (auto simp: Conn_stop_def)
  with K_timeout show ?thesis by simp
qed (use assms in \<open>auto simp: tunnel_request_safe Conn_send_L_Busmonitor_def tunnel_response_def config_response_def
    config_request_def config_ACK_def next_out_def send_trigger_cb_def sendtimeout_cb_def Conn_stop_def Let_def
    split: list.split\<close>)

lemma conn_history_safe:
  "ready \<longrightarrow> \<not> k_do_send_next k \<Longrightarrow> k_history ready k es \<Longrightarrow> K_abort \<notin> set (snd (run_events k_step k es))"
proof (induction es arbitrary: ready k)
  case (Cons e es)
  then show ?case
    using conn_step_safe [OF Cons.prems(1), of e] Cons.IH [OF asked_free [OF Cons.prems(1)], of e]
    unfolding run_events_Cons by simp
qed simp

subsection \<open>A connection under its queue filter\<close>

text \<open>
  The queue filter above a connection.  A telegram of the router goes into the queue; the queue hands
  the first one over when it is idle, and the connection does not ask for the next one from inside
  \<open>send_L_Data\<close>; what the connection calls goes back to the filter.
\<close>

datatype ks_event =
    KS_telegram l_data_pdu
  | KS_queue
  | KS_conn k_event

fun filter_call :: "k_call \<Rightarrow> QueueFilter \<Rightarrow> QueueFilter" where
  "filter_call K_send_Next q = Queue_send_Next q"
| "filter_call K_stopped q = fst (Queue_stopped q)"
| "filter_call _ q = q"

fun hand_down :: "f_out \<Rightarrow> ConnState \<Rightarrow> ConnState" where
  "hand_down (F_send_L_Data l) k = fst (k_step k (K_send_data l))"
| "hand_down _ k = k"

fun ks_step :: "QueueFilter \<times> ConnState \<Rightarrow> ks_event \<Rightarrow> QueueFilter \<times> ConnState" where
  "ks_step (q, k) (KS_telegram l) = (fst (Queue_send_L_Data q l), k)"
| "ks_step (q, k) KS_queue =
     (let x = Queue_trigger_cb (\<lambda>_. False) q in (fst x, fold hand_down (snd x) k))"
| "ks_step (q, k) (KS_conn e) = (let x = k_step k e in (fold filter_call (snd x) q, fst x))"

fun is_telegram :: "ks_event \<Rightarrow> bool" where
  "is_telegram (KS_telegram l) = True"
| "is_telegram _ = False"

text \<open>The events that neither close the connection nor hand it a telegram past the queue.\<close>

fun ks_open :: "ks_event \<Rightarrow> bool" where
  "ks_open (KS_conn e) = (case e of K_stop \<Rightarrow> False | K_timeout a b \<Rightarrow> False | K_sendtimeout \<Rightarrow> False
     | K_send_data l \<Rightarrow> False | _ \<Rightarrow> True)"
| "ks_open _ = True"

definition deaf :: "ConnState \<Rightarrow> bool" where
  "deaf k \<longleftrightarrow> k_type k \<noteq> CT_STANDARD \<and> \<not> k_do_send_next k"

lemma out_put_deaf [simp]: "deaf (out_put c k) = deaf k"
  by (simp add: deaf_def)

lemma deaf_fields [simp]: "deaf (k\<lparr>k_rno := n\<rparr>) = deaf k" "deaf (k\<lparr>k_no := i\<rparr>) = deaf k"
  by (simp_all add: deaf_def)

lemma next_out_deaf: "deaf k \<Longrightarrow> deaf (fst (next_out k)) \<and> snd (next_out k) = []"
  by (simp add: next_out_def deaf_def)

lemma deaf_step:
  assumes k: "deaf k" and e: "ks_open (KS_conn e)"
  shows "deaf (fst (k_step k e)) \<and> fold filter_call (snd (k_step k e)) q = q"
proof (cases e)
  case (K_tunnel_request r)
  with k show ?thesis
    by (auto simp: tunnel_request_def tunnel_ACK_def tunnel_CEMI_def deaf_def split: option.split)
next
  case (K_tunnel_response r)
  with k next_out_deaf show ?thesis
    by (auto simp: tunnel_response_def deaf_def next_out_def split: list.split)
next
  case (K_config_response r)
  with k show ?thesis by (auto simp: config_response_def deaf_def next_out_def split: list.split)
next
  case K_trigger
  with k show ?thesis by (auto simp: send_trigger_cb_def deaf_def Let_def split: list.split)
next
  case (K_config_request r)
  with k show ?thesis by (auto simp: config_request_def config_ACK_def Let_def)
qed (use assms in \<open>auto simp: Conn_send_L_Busmonitor_def\<close>)

lemma deaf_hand_down: "deaf k \<Longrightarrow> fold hand_down os k = k"
proof (induction os)
  case (Cons x xs)
  then show ?case by (cases x) (auto simp: Conn_send_L_Data_def deaf_def)
qed simp

text \<open>At most one telegram leaves the queue.\<close>

definition queue_kept :: "QueueFilter \<Rightarrow> nat \<Rightarrow> bool" where
  "queue_kept q n \<longleftrightarrow> q_state q = Q_IDLE \<and> length (q_buf q) = n \<or> q_state q = Q_BUSY \<and> length (q_buf q) + 1 = n"

lemma queue_kept_trigger:
  "queue_kept q n \<Longrightarrow> queue_kept (fst (Queue_trigger_cb (\<lambda>_. False) q)) n"
  by (cases "q_buf q"; cases "tl (q_buf q)") (auto simp: queue_kept_def Queue_trigger_cb_def Let_def)

lemma deaf_run:
  "deaf k \<Longrightarrow> queue_kept q n \<Longrightarrow> list_all ks_open es \<Longrightarrow>
   queue_kept (fst (fold (\<lambda>e w. ks_step w e) es (q, k))) (n + length (filter is_telegram es))"
proof (induction es arbitrary: q k n)
  case (Cons e es)
  show ?case
  proof (cases e)
    case (KS_telegram l)
    have "queue_kept (fst (Queue_send_L_Data q l)) (Suc n)"
      using Cons.prems(2) by (auto simp: queue_kept_def Queue_send_L_Data_def)
    from Cons.IH [OF Cons.prems(1) this] Cons.prems(3) KS_telegram show ?thesis by simp
  next
    case KS_queue
    from Cons.IH [OF Cons.prems(1) queue_kept_trigger [OF Cons.prems(2)]] Cons.prems KS_queue show ?thesis
      by (simp add: Let_def deaf_hand_down)
  next
    case (KS_conn x)
    with deaf_step [OF Cons.prems(1), of x q] Cons.prems have
      "deaf (fst (k_step k x))" "fold filter_call (snd (k_step k x)) q = q" by simp_all
    with Cons.IH [OF this(1) Cons.prems(2)] Cons.prems(3) KS_conn show ?thesis by (simp add: Let_def)
  qed
qed simp

section \<open>Properties of a connection\<close>

definition any_conn :: "ConnType \<Rightarrow> ConnState" where
  "any_conn type = ConnState_new type \<lparr>creq_caddr = sockaddr_zero, creq_daddr = sockaddr_zero,
     creq_CRI = [4, 2, 0], creq_nat = False\<rparr> 0x11F0 1"

text \<open>
  The server sends a tunnelled frame at most twice.  From a connection with a frame at the head of
  its queue and nothing under way, whatever happens except an acknowledgement, the requests it sends
  are at most two copies of the same packet, with the same sequence number; then it closes.
\<close>

theorem conn_transmits_twice:
  assumes "conn_inv k" "k_retries k = 0" "k_out k = c # cs" and "list_all (\<lambda>e. \<not> is_answer e) es"
  shows "collect k_requests (snd (run_events k_step k es)) \<in> {[], [out_packet k c], [out_packet k c, out_packet k c]}"
proof -
  have "repeats (out_packet k c) k" "tx_left k \<le> 2" using assms by (simp_all add: repeats_def tx_left_def)
  then obtain n where "n \<le> 2" "collect k_requests (snd (run_events k_step k es)) = replicate n (out_packet k c)"
    using conn_run_copies assms(4) order_trans by blast
  moreover from this(1) have "n = 0 \<or> n = 1 \<or> n = 2" by auto
  ultimately show ?thesis by (auto simp: numeral_2_eq_2)
qed

theorem conn_transmits_twice_witness:
  "collect k_requests (snd (run_events k_step ((any_conn CT_STANDARD)\<lparr>k_out := [[0x29, 0]], k_send_trigger := True\<rparr>)
     [K_trigger, K_sendtimeout, K_trigger, K_sendtimeout, K_trigger])) \<in>
   {[], [tunnel_packet 1 0 [0x29, 0]], [tunnel_packet 1 0 [0x29, 0], tunnel_packet 1 0 [0x29, 0]]}"
proof -
  let ?k = "(any_conn CT_STANDARD)\<lparr>k_out := [[0x29, 0]], k_send_trigger := True\<rparr>"
  have "conn_inv ?k" "k_retries ?k = 0" "out_packet ?k [0x29, 0] = tunnel_packet 1 0 [0x29, 0]"
    by (simp_all add: any_conn_def ConnState_new_def conn_inv_def out_packet_def tunnel_packet_def)
  with conn_transmits_twice [of ?k "[0x29, 0]" "[]" "[K_trigger, K_sendtimeout, K_trigger, K_sendtimeout, K_trigger]"]
  show ?thesis by simp
qed

text \<open>
  No assertion of a connection fails and it never takes an element from an empty queue, in any
  history in which the link hands over a telegram only after it has been asked for one, and requests
  are short enough for the receive buffer, whatever the client sends and whenever timers expire.
\<close>

theorem conn_never_fails:
  assumes "k_history True (ConnState_new type r1 a ch) es"
  shows "K_abort \<notin> set (snd (run_events k_step (ConnState_new type r1 a ch) es)) \<and>
    K_empty_queue \<notin> set (snd (run_events k_step (ConnState_new type r1 a ch) es))"
proof -
  have "conn_inv (ConnState_new type r1 a ch)" by (simp add: conn_inv_def ConnState_new_def)
  from conn.run_out [OF this, of es] show ?thesis
    using conn_history_safe [OF _ assms] by (auto simp: ConnState_new_def list_all_length)
qed

theorem conn_never_fails_witness:
  "K_abort \<notin> set (snd (run_events k_step (any_conn CT_STANDARD)
     [K_send_data (L_Data_new\<lparr>l_data := [0, 0x81]\<rparr>), K_trigger, K_sendtimeout, K_stop]))"
proof -
  have "sendable (L_Data_new\<lparr>l_data := [0, 0x81]\<rparr>)"
    by (simp add: sendable_def wf_l_data_def L_Data_new_def)
  then show ?thesis
    using conn_never_fails [of CT_STANDARD "\<lparr>creq_caddr = sockaddr_zero, creq_daddr = sockaddr_zero,
      creq_CRI = [4, 2, 0], creq_nat = False\<rparr>" "0x11F0" 1
      "[K_send_data (L_Data_new\<lparr>l_data := [0, 0x81]\<rparr>), K_trigger, K_sendtimeout, K_stop]"]
    unfolding any_conn_def k_history.simps k_admissible.simps by blast
qed

text \<open>
  The queue of a bus monitor or configuration client is never emptied.  Such a connection drops
  the telegrams of the router without asking for the next one, so that its queue filter waits for
  ever: as long as the connection is open, of the telegrams the router sends to it at most one leaves
  the queue.
\<close>

theorem conn_monitor_queue_grows:
  assumes "type = CT_BUSMONITOR \<or> type = CT_CONFIG" and "list_all ks_open es"
    and "q_state q = Q_IDLE" "q_buf q = []"
  shows "length (filter is_telegram es) \<le>
    length (q_buf (fst (fold (\<lambda>e w. ks_step w e) es (q, ConnState_new type r1 a ch)))) + 1"
proof -
  have "deaf (ConnState_new type r1 a ch)" using assms(1) by (auto simp: deaf_def ConnState_new_def)
  moreover have "queue_kept q 0" using assms by (simp add: queue_kept_def)
  ultimately show ?thesis using deaf_run assms(2) by (fastforce simp: queue_kept_def)
qed

theorem conn_monitor_queue_grows_witness:
  "2 \<le> length (q_buf (fst (fold (\<lambda>e w. ks_step w e)
     [KS_telegram L_Data_new, KS_queue, KS_telegram L_Data_new, KS_queue, KS_telegram L_Data_new, KS_queue]
     (QueueFilter_new\<lparr>q_state := Q_IDLE\<rparr>, any_conn CT_BUSMONITOR)))) + 1"
  using conn_monitor_queue_grows [of CT_BUSMONITOR
      "[KS_telegram L_Data_new, KS_queue, KS_telegram L_Data_new, KS_queue, KS_telegram L_Data_new, KS_queue]"
      "QueueFilter_new\<lparr>q_state := Q_IDLE\<rparr>" "\<lparr>creq_caddr = sockaddr_zero, creq_daddr = sockaddr_zero,
      creq_CRI = [4, 2, 0], creq_nat = False\<rparr>" "0x11F0" 1]
  by (simp add: any_conn_def QueueFilter_new_def del: ks_step.simps)

end
