(* ===== verification/Ipserver_Table.thy ===== *)
theory Ipserver_Table
  imports Ipserver_Props
begin

text \<open>
  The server as a whole: the table of connections with its channel numbers, the set-up of a connection
  between the tunnel client and the server, and the pool of client addresses.
\<close>

unbundle bit_operations_syntax

section \<open>The table of connections\<close>

definition srv_inv :: "s_world \<Rightarrow> bool" where
  "srv_inv w \<longleftrightarrow>
     distinct (map fst (s_connections (fst w))) \<and> (\<forall>i\<in>set (map fst (s_connections (fst w))). i < s_next (fst w)) \<and>
     distinct (map (k_channel \<circ> snd) (s_connections (fst w))) \<and>
     (\<forall>(i, k)\<in>set (s_connections (fst w)). k_channel k \<noteq> 0 \<and> conn_inv k)"

lemma next_out_channel [simp]: "k_channel (fst (next_out k)) = k_channel k"
  by (simp add: next_out_def)

lemma Conn_stop_channel [simp]: "k_channel (fst (Conn_stop k)) = k_channel k"
  by (simp add: Conn_stop_def)

lemma tunnel_request_channel [simp]: "k_channel (fst (tunnel_request k r)) = k_channel k"
  by (auto simp: tunnel_request_def dest: tunnel_CEMI_states split: option.split)

lemma k_step_channel [simp]: "k_channel (fst (k_step k e)) = k_channel k"
proof (cases e)
  case (K_timeout source port)
  then show ?thesis by (simp add: Conn_timeout_cb_def Let_def)
qed (auto simp: Conn_send_L_Data_def Conn_send_L_Busmonitor_def tunnel_response_def config_response_def
    config_request_def send_trigger_cb_def sendtimeout_cb_def Let_def split: option.split list.split)

text \<open>The calls of a connection leave the table alone.\<close>

lemma conn_calls_table:
  "s_connections (fst (fst (conn_calls i cs w))) = s_connections (fst w)"
  "s_next (fst (fst (conn_calls i cs w))) = s_next (fst w)"
  "S_empty_queue j \<in> set (snd (conn_calls i cs w)) \<Longrightarrow> K_empty_queue \<in> set cs"
proof -
  have "s_connections (fst (fst (conn_calls i cs w))) = s_connections (fst w) \<and>
    s_next (fst (fst (conn_calls i cs w))) = s_next (fst w) \<and>
    (S_empty_queue j \<in> set (snd (conn_calls i cs w)) \<longrightarrow> K_empty_queue \<in> set cs)"
  proof (induction i cs w rule: conn_calls.induct)
    case (2 i c cs s r)
    then show ?case by (cases c) (auto simp: drop_connection_def)
  qed simp
  then show "s_connections (fst (fst (conn_calls i cs w))) = s_connections (fst w)"
    "s_next (fst (fst (conn_calls i cs w))) = s_next (fst w)"
    "S_empty_queue j \<in> set (snd (conn_calls i cs w)) \<Longrightarrow> K_empty_queue \<in> set cs"
    by blast+
qed

lemma set_conn_ids [simp]: "map fst (s_connections (set_conn i k s)) = map fst (s_connections s)"
  by (simp add: set_conn_def case_prod_beta comp_def)

lemma set_conn_channels:
  assumes "map_of (s_connections s) i = Some k0" "k_channel k = k_channel k0" "distinct (map fst (s_connections s))"
  shows "map (k_channel \<circ> snd) (s_connections (set_conn i k s)) = map (k_channel \<circ> snd) (s_connections s)"
  using assms by (auto simp: set_conn_def case_prod_beta dest!: map_of_SomeD dest: eq_key_imp_eq_value)

lemma set_conn_elems: "(j, d) \<in> set (s_connections (set_conn i k s)) \<Longrightarrow> d = k \<or> (j, d) \<in> set (s_connections s)"
  by (auto simp: set_conn_def case_prod_beta split: if_splits)

lemma conn_step_srv:
  assumes w: "srv_inv w"
  shows "srv_inv (fst (conn_step i e w))" "S_empty_queue j \<notin> set (snd (conn_step i e w))"
    "map (k_channel \<circ> snd) (s_connections (fst (fst (conn_step i e w)))) = map (k_channel \<circ> snd) (s_connections (fst w))"
proof -
  have "srv_inv (fst (conn_step i e w)) \<and> S_empty_queue j \<notin> set (snd (conn_step i e w)) \<and>
    map (k_channel \<circ> snd) (s_connections (fst (fst (conn_step i e w)))) = map (k_channel \<circ> snd) (s_connections (fst w))"
  proof (cases "map_of (s_connections (fst w)) i")
    case None
    with w show ?thesis by (simp add: conn_step_def)
  next
    case (Some k)
    let ?k = "fst (k_step k e)" and ?s = "set_conn i (fst (k_step k e)) (fst w)"
    have k: "conn_inv k" "k_channel k \<noteq> 0" using w map_of_SomeD [OF Some] by (auto simp: srv_inv_def)
    have chan: "map (k_channel \<circ> snd) (s_connections ?s) = map (k_channel \<circ> snd) (s_connections (fst w))"
      using w by (intro set_conn_channels [OF Some]) (simp_all add: srv_inv_def)
    have el: "\<forall>(j, d)\<in>set (s_connections ?s). k_channel d \<noteq> 0 \<and> conn_inv d"
      using w k conn_step_inv [OF k(1), of e] by (auto simp: srv_inv_def dest!: set_conn_elems)
    have next_id: "s_next ?s = s_next (fst w)" by (simp add: set_conn_def)
    have "srv_inv (?s, snd w)" using w chan el next_id unfolding srv_inv_def by simp
    moreover have x: "conn_step i e w = conn_calls i (snd (k_step k e)) (?s, snd w)"
      by (simp add: conn_step_def Some Let_def)
    ultimately have "srv_inv (fst (conn_step i e w))"
      unfolding srv_inv_def x conn_calls_table by simp
    moreover have "S_empty_queue j \<notin> set (snd (conn_step i e w))"
      unfolding x using conn_calls_table(3) conn_step_queue [OF k(1)] by blast
    moreover have "map (k_channel \<circ> snd) (s_connections (fst (fst (conn_step i e w)))) =
        map (k_channel \<circ> snd) (s_connections (fst w))"
      unfolding x conn_calls_table using chan by simp
    ultimately show ?thesis by blast
  qed
  then show "srv_inv (fst (conn_step i e w))" "S_empty_queue j \<notin> set (snd (conn_step i e w))"
    "map (k_channel \<circ> snd) (s_connections (fst (fst (conn_step i e w)))) = map (k_channel \<circ> snd) (s_connections (fst w))"
    by blast+
qed

subsection \<open>Channel numbers\<close>

lemma free_id_spec: "free_id used n \<notin> set used \<and> n \<le> free_id used n"
proof (induction used n rule: free_id.induct)
  case (1 used n)
  show ?case
  proof (cases "n \<in> set used")
    case True
    with 1 show ?thesis by (subst (1 2) free_id.simps) auto
  next
    case False
    then show ?thesis by (subst (1 2) free_id.simps) auto
  qed
qed

lemma free_id_bound: "free_id used n \<le> n + card {c \<in> set used. n \<le> c}"
proof (induction used n rule: free_id.induct)
  case (1 used n)
  show ?case
  proof (cases "n \<in> set used")
    case True
    then have "{c \<in> set used. n \<le> c} = insert n {c \<in> set used. n + 1 \<le> c}" by auto
    then have "card {c \<in> set used. n \<le> c} = Suc (card {c \<in> set used. n + 1 \<le> c})" by simp
    with 1 [OF True] True show ?thesis by (subst free_id.simps) simp
  next
    case False
    then show ?thesis by (subst free_id.simps) simp
  qed
qed

lemma free_id_channel:
  assumes "length used < 255"
  shows "1 \<le> free_id used 1" "free_id used 1 \<le> 255"
proof -
  show "1 \<le> free_id used 1" using free_id_spec by blast
  have "card {c \<in> set used. 1 \<le> c} \<le> card (set used)" by (intro card_mono) auto
  also have "\<dots> \<le> length used" by (rule card_length)
  finally show "free_id used 1 \<le> 255" using free_id_bound [of used 1] assms by simp
qed

abbreviation channels :: "s_world \<Rightarrow> nat list" where
  "channels w \<equiv> map (unat \<circ> k_channel \<circ> snd) (s_connections (fst w))"

lemma addClient_srv:
  assumes w: "srv_inv w"
  shows "srv_inv (fst (snd (addClient type r1 a setup w)))" "S_empty_queue j \<notin> set (snd (snd (addClient type r1 a setup w)))"
proof -
  let ?s = "fst w" and ?id = "free_id (channels w) 1"
  let ?k = "ConnState_new type r1 a (of_nat ?id)"
  have old: "srv_inv (?s\<lparr>s_next := s_next ?s + 1\<rparr>, r)" for r
    using w by (auto simp: srv_inv_def less_SucI)
  have new: "srv_inv (?s\<lparr>s_next := s_next ?s + 1, s_connections := s_connections ?s @ [(s_next ?s, ?k)]\<rparr>, r)"
    if "?id \<le> 255" for r
  proof -
    have id: "?id \<notin> set (channels w)" "1 \<le> ?id" using free_id_spec by blast+
    have u: "unat (of_nat ?id :: byte) = ?id" using that by (intro unat_of_nat_byte) simp
    have "of_nat ?id \<notin> set (map (k_channel \<circ> snd) (s_connections ?s))"
    proof
      assume "of_nat ?id \<in> set (map (k_channel \<circ> snd) (s_connections ?s))"
      then have "unat (of_nat ?id :: byte) \<in> set (channels w)" by (force simp: comp_def)
      with id u show False by simp
    qed
    moreover have "of_nat ?id \<noteq> (0 :: byte)" using id(2) u by (metis not_one_le_zero unat_0)
    moreover have "conn_inv ?k" "k_channel ?k = of_nat ?id" by (simp_all add: conn_inv_def ConnState_new_def)
    ultimately show ?thesis
      using old [of r] w by (fastforce simp: srv_inv_def)
  qed
  show "srv_inv (fst (snd (addClient type r1 a setup w)))"
    using w old new by (auto simp: addClient_def Let_def comp_def split: option.split)
  show "S_empty_queue j \<notin> set (snd (snd (addClient type r1 a setup w)))"
    by (auto simp: addClient_def Let_def split: option.split)
qed

subsection \<open>The handlers\<close>

text \<open>
  A relation between the state before a handler and its result that holds for the handler's parts holds
  for every packet.
\<close>

locale server_frame =
  fixes K :: "s_world \<Rightarrow> s_result \<Rightarrow> bool"
  assumes stay: "K w ((fst w, r), [])"
    and answer: "K w x \<Longrightarrow> K w (fst x, snd x @ [S_send p a])"
    and multicast: "K w (w, [S_mcast_recv l])"
    and connection: "K w (conn_step i e w)"
    and client: "K w (snd (addClient type r1 n link (fst w, r)))"
begin

lemma same: "K w (w, [])"
  using stay [of w "snd w"] by simp

lemma send_only: "K w (w, [S_send p a])"
  using answer [OF same] by simp

lemma connect: "K w (snd (connect_tunnel r1 link w))" "K w (snd (connect_config r1 link w))"
  using client [where w = w and r = "snd w"]
  by (simp_all add: connect_tunnel_def connect_config_def Let_def client stay same)

lemma connect_request: "K w (handle_connect source link r1 w)"
proof -
  let ?x = "if length (creq_CRI r1) = 3 \<and> creq_CRI r1 ! 0 = 4 then connect_tunnel r1 link w
    else if length (creq_CRI r1) = 1 \<and> creq_CRI r1 ! 0 = 3 then connect_config r1 link w
    else ((0, 0x22, []), (w, []))"
  have "K w (snd ?x)" using connect same by (simp del: length_greater_0_conv)
  then show ?thesis
    unfolding handle_connect_def Let_def
    by (cases "source (creq_caddr r1)") (simp_all only: option.case append_Nil2 prod.collapse answer)
qed

lemma disconnect_request: "K w (handle_disconnect r1 w)"
  unfolding handle_disconnect_def Let_def
  by (intro answer) (simp add: same connection split: option.split)

lemma channel: "K w (to_channel ch e w)"
  by (simp add: to_channel_def same connection split: option.split)

lemma answers:
  "K w (handle_search source mac r2 w)" "K w (handle_description mac r3 w)"
  "K w (handle_routing p w)" "K w (handle_connectionstate r4 w)"
  by (simp_all add: handle_search_def handle_description_def handle_routing_def
      handle_connectionstate_def Let_def same send_only multicast split: option.split)

lemma parsed: "(\<And>x. K w (f x w)) \<Longrightarrow> K w (when_parsed r f w)"
  by (simp add: when_parsed_def same split: option.split)

lemma packet: "K w (handle_packet v p w)"
  by (simp add: handle_packet_def parsed connect_request disconnect_request channel answers same)

end

definition srv_keeps :: "s_world \<Rightarrow> s_result \<Rightarrow> bool" where
  "srv_keeps w x \<longleftrightarrow> (srv_inv w \<longrightarrow> srv_inv (fst x) \<and> (\<forall>j. S_empty_queue j \<notin> set (snd x)))"

lemma srv_inv_router: "srv_inv (s, r) \<longleftrightarrow> srv_inv (s, r')"
  by (simp add: srv_inv_def)

lemma srv_inv_fields [simp]:
  "srv_inv (s\<lparr>s_drop_q := q\<rparr>, r) = srv_inv (s, r)" "srv_inv (s\<lparr>s_drop_trigger := b\<rparr>, r) = srv_inv (s, r)"
  "srv_inv (s\<lparr>s_drop_on := b\<rparr>, r) = srv_inv (s, r)" "srv_inv (s\<lparr>s_sock := b\<rparr>, r) = srv_inv (s, r)"
  "srv_inv (s\<lparr>s_mcast := m\<rparr>, r) = srv_inv (s, r)"
  by (simp_all add: srv_inv_def)

interpretation table: server_frame srv_keeps
proof (unfold_locales, goal_cases)
  case (1 w r)
  then show ?case using srv_inv_router [of "fst w" "snd w" r] by (simp add: srv_keeps_def)
next
  case (5 w type r1 n link r)
  then show ?case
    using addClient_srv [of "(fst w, r)"] srv_inv_router [of "fst w" r "snd w"] by (auto simp: srv_keeps_def)
qed (auto simp: srv_keeps_def dest: conn_step_srv)

lemma srv_inv_filter: "srv_inv (s, r) \<Longrightarrow> srv_inv (s\<lparr>s_connections := filter P (s_connections s)\<rparr>, r)"
  by (auto simp: srv_inv_def distinct_map intro: inj_on_subset)

lemma drop_loop_inv: "srv_inv w \<Longrightarrow> srv_inv (drop_loop is w)"
proof (induction "is" w rule: drop_loop.induct)
  case (2 i "is" s r)
  from srv_inv_filter [OF 2(3)]
  have "srv_inv (s\<lparr>s_connections := filter (\<lambda>(j, k). j \<noteq> i) (s_connections s)\<rparr>, snd (unregisterLink i r))"
    using srv_inv_router by blast
  with 2 show ?case by simp
qed simp

lemma stop_conns_keeps: "srv_keeps w (stop_conns is w)"
proof (induction "is" w rule: stop_conns.induct)
  case (2 i "is" w)
  with table.connection [of w i K_stop] show ?case by (auto simp: srv_keeps_def Let_def)
qed (simp add: table.same)

lemma stop_mcast_keeps: "srv_keeps w (stop_mcast w)"
  using srv_inv_router [of "fst w" "snd w"]
  by (auto simp: stop_mcast_def srv_keeps_def split: option.split)

lemma EIBnetServer_stop_keeps: "srv_keeps w (EIBnetServer_stop w)"
proof -
  let ?s = "(fst w)\<lparr>s_drop_on := False, s_drop_trigger := False\<rparr>"
  let ?x = "stop_conns (rev (map fst (s_connections ?s))) (?s, snd w)"
  have "srv_keeps (?s, snd w) ?x" "srv_keeps (fst ?x) (stop_mcast (fst ?x))"
    by (rule stop_conns_keeps, rule stop_mcast_keeps)
  moreover have "srv_inv (?s, snd w) = srv_inv w" by simp
  ultimately show ?thesis
    unfolding srv_keeps_def EIBnetServer_stop_def Let_def by (auto simp del: stop_conns.simps)
qed

lemma EIBnetServer_start_keeps: "srv_keeps w (EIBnetServer_start port mcast w)"
proof -
  have "srv_inv (s\<lparr>s_maddr := a\<rparr>, r) = srv_inv (s, r)" for s a r
    by (simp add: srv_inv_def)
  moreover have "srv_inv (s\<lparr>s_Port := n, s_next := Suc (s_next s)\<rparr>, r)" if "srv_inv (s, r')" for s r r' n
    using that by (auto simp: srv_inv_def less_SucI)
  ultimately show ?thesis
    by (cases w) (auto simp: srv_keeps_def EIBnetServer_start_def Let_def split: option.split)
qed

lemma s_step_keeps: "srv_keeps w (s_step w e)"
proof (cases e)
  case S_drop
  then show ?thesis
    by (simp add: srv_keeps_def drop_trigger_cb_def drop_loop_inv)
qed (simp_all add: table.packet table.same table.connection EIBnetServer_start_keeps EIBnetServer_stop_keeps)

interpretation srv: event_machine s_step "\<lambda>_. True" srv_inv "\<lambda>c. \<forall>j. c \<noteq> S_empty_queue j"
  using s_step_keeps by unfold_locales (auto simp: srv_keeps_def)

lemma by_channel_finds:
  assumes "srv_inv w" "(i, k) \<in> set (s_connections (fst w))"
  shows "by_channel (fst w) (k_channel k) = Some i" "map_of (s_connections (fst w)) i = Some k"
proof -
  show "map_of (s_connections (fst w)) i = Some k"
    using assms by (simp add: srv_inv_def)
  have "distinct (map (k_channel \<circ> snd) cs) \<Longrightarrow> (i, k) \<in> set cs \<Longrightarrow>
      find (\<lambda>(i, d). k_channel d = k_channel k) cs = Some (i, k)" for cs
    by (induction cs) force+
  with assms show "by_channel (fst w) (k_channel k) = Some i" by (simp add: srv_inv_def by_channel_def)
qed

text \<open>
  \<^bold>\<open>C21\<close>: whatever packets arrive, whatever the router does with its connections, and whenever they time
  out or are closed, the channel numbers of the server's connections are distinct and not 0, a channel
  number leads to the connection that has it, and no connection ever takes an element from an empty
  queue.
\<close>

theorem server_channels_unique:
  "let x = run_events s_step (fst (EIBnetServer_setup tunnel routing discover name tc rc r EIBnetServer_new), r) es;
       cs = s_connections (fst (fst x))
   in distinct (map (k_channel \<circ> snd) cs) \<and>
      list_all (\<lambda>(i, k). k_channel k \<noteq> 0 \<and> by_channel (fst (fst x)) (k_channel k) = Some i) cs \<and>
      (\<forall>j. S_empty_queue j \<notin> set (snd x))"
proof -
  let ?s = "fst (EIBnetServer_setup tunnel routing discover name tc rc r EIBnetServer_new)"
  have "srv_inv (?s, r)" by (simp add: srv_inv_def EIBnetServer_setup_def EIBnetServer_new_def)
  then have "srv_inv (fst (run_events s_step (?s, r) es))" "\<And>j. S_empty_queue j \<notin> set (snd (run_events s_step (?s, r) es))"
    using srv.run_inv [of "(?s, r)" es] srv.run_out [of "(?s, r)" es] by (auto simp: list_all_iff)
  then show ?thesis using by_channel_finds by (fastforce simp: srv_inv_def Let_def list_all_iff)
qed

subsection \<open>After a restart\<close>

text \<open>A server whose watcher for closed connections is stopped: no connection leaves the table.\<close>

definition deaf_to_drops :: "EIBnetServer \<Rightarrow> bool" where
  "deaf_to_drops s \<longleftrightarrow> \<not> s_drop_on s \<and> \<not> s_drop_trigger s"

definition never_drops :: "s_world \<Rightarrow> s_result \<Rightarrow> bool" where
  "never_drops w x \<longleftrightarrow> (deaf_to_drops (fst w) \<longrightarrow> deaf_to_drops (fst (fst x)) \<and>
     set (map fst (s_connections (fst w))) \<subseteq> set (map fst (s_connections (fst (fst x)))))"

lemma conn_calls_deaf: "deaf_to_drops (fst w) \<Longrightarrow> deaf_to_drops (fst (fst (conn_calls i cs w)))"
proof (induction i cs w rule: conn_calls.induct)
  case (2 i c cs s r)
  then show ?case by (cases c) (simp_all add: deaf_to_drops_def drop_connection_def)
qed simp

lemma conn_step_never_drops: "never_drops w (conn_step i e w)"
proof -
  have "deaf_to_drops (set_conn i k (fst w)) = deaf_to_drops (fst w)" for k
    by (simp add: deaf_to_drops_def set_conn_def)
  then show ?thesis
    using conn_calls_deaf
    by (auto simp: never_drops_def conn_step_def Let_def conn_calls_table simp flip: set_map split: option.split)
qed

interpretation stopped: server_frame never_drops
proof (unfold_locales, goal_cases)
  case (5 w type r1 n link r)
  then show ?case
    by (auto simp: never_drops_def deaf_to_drops_def addClient_def Let_def split: option.split)
next
  case (4 w i e)
  show ?case by (rule conn_step_never_drops)
qed (simp_all add: never_drops_def)

lemma never_drops_trans: "never_drops w x \<Longrightarrow> never_drops (fst x) y \<Longrightarrow> never_drops w (fst y, cs)"
  by (auto simp: never_drops_def)

lemma stop_conns_never_drops: "never_drops w (stop_conns is w)"
proof (induction "is" w rule: stop_conns.induct)
  case (2 i "is" w)
  with never_drops_trans [OF stopped.connection [of w i K_stop]] show ?case by (simp add: Let_def)
qed (simp add: stopped.same)

lemma stop_never_drops:
  "deaf_to_drops (fst (fst (EIBnetServer_stop w))) \<and>
   set (map fst (s_connections (fst w))) \<subseteq> set (map fst (s_connections (fst (fst (EIBnetServer_stop w)))))"
proof -
  let ?s = "(fst w)\<lparr>s_drop_on := False, s_drop_trigger := False\<rparr>"
  let ?x = "stop_conns (rev (map fst (s_connections ?s))) (?s, snd w)"
  have "never_drops (?s, snd w) ?x" "never_drops (fst ?x) (stop_mcast (fst ?x))"
    by (rule stop_conns_never_drops) (simp add: stop_mcast_def never_drops_def deaf_to_drops_def split: option.split)
  then show ?thesis
    unfolding never_drops_def deaf_to_drops_def EIBnetServer_stop_def Let_def by auto
qed

lemma s_step_never_drops: "never_drops w (s_step w e)"
proof (cases e)
  case S_drop
  then show ?thesis by (simp add: never_drops_def deaf_to_drops_def)
next
  case S_stop
  then show ?thesis using stop_never_drops by (simp add: never_drops_def)
next
  case (S_start port mcast)
  then show ?thesis
    by (auto simp: never_drops_def deaf_to_drops_def EIBnetServer_start_def Let_def split: option.split)
qed (simp_all add: stopped.packet stopped.same stopped.connection)

lemma run_never_drops: "never_drops w (run_events s_step w es)"
proof (induction es arbitrary: w)
  case (Cons e es)
  show ?case unfolding run_events_Cons
    using never_drops_trans [OF s_step_never_drops Cons] by (simp add: case_prod_beta Let_def)
qed (simp add: stopped.same)

text \<open>
  \<open>stop\<close> stops the watcher that removes closed connections and \<open>start\<close> does not start it again.  A
  connection that exists when the server is stopped therefore stays in the table whatever follows,
  restarts included: its channel number and its link are never freed.
\<close>

theorem server_restart_keeps_dead:
  "set (map fst (s_connections (fst w)))
     \<subseteq> set (map fst (s_connections (fst (fst (run_events s_step w (S_stop # es))))))"
proof -
  have "fst (run_events s_step w (S_stop # es)) = fst (run_events s_step (fst (EIBnetServer_stop w)) es)"
    unfolding run_events_Cons by simp
  then show ?thesis
    using stop_never_drops [of w] run_never_drops [of "fst (EIBnetServer_stop w)" es]
    by (auto simp: never_drops_def)
qed

section \<open>The pool of client addresses\<close>

text \<open>The addresses of the block that a client could get.\<close>

definition free_addrs :: "Router \<Rightarrow> nat set" where
  "free_addrs r = {pos. pos < r_client_len r \<and> client_free r pos}"

lemma finite_free_addrs [simp]: "finite (free_addrs r)"
  by (simp add: free_addrs_def)

lemma card_free_addrs: "card (free_addrs r) \<le> r_client_len r"
proof -
  have "card (free_addrs r) \<le> card {..<r_client_len r}"
    by (intro card_mono) (auto simp: free_addrs_def)
  then show ?thesis by simp
qed

text \<open>The parts of the router that an allocation does not touch.\<close>

definition pool_ok :: "Router \<Rightarrow> bool" where
  "pool_ok r \<longleftrightarrow> length (r_client_addrs r) = r_client_len r \<and> 0 < r_client_len r"

lemma take_client_addr:
  assumes "pool_ok r"
  shows "pool_ok (snd (get_client_addr r))" "r_client_len (snd (get_client_addr r)) = r_client_len r"
    "card (free_addrs (snd (get_client_addr r))) = card (free_addrs r) - 1"
    "free_addrs r = {} \<Longrightarrow> get_client_addr r = (0, r)"
proof -
  let ?scan = "find (client_free r) (map (\<lambda>i. (r_client_pos r + i) mod r_client_len r) [1..<r_client_len r + 1])"
  have len: "r_client_len r > 0" "length (r_client_addrs r) = r_client_len r" using assms by (simp_all add: pool_ok_def)
  have "pool_ok (snd (get_client_addr r)) \<and> r_client_len (snd (get_client_addr r)) = r_client_len r \<and>
    card (free_addrs (snd (get_client_addr r))) = card (free_addrs r) - 1 \<and> (free_addrs r = {} \<longrightarrow> get_client_addr r = (0, r))"
  proof (cases ?scan)
    case None
    then have "free_addrs r = {}" using find_scan(1) [OF len(1)] by (auto simp: free_addrs_def)
    with None assms show ?thesis by (simp add: get_client_addr_def)
  next
    case (Some pos)
    then have pos: "pos < r_client_len r" "client_free r pos" using find_scan(2) [OF len(1)] by blast+
    let ?r = "snd (get_client_addr r)"
    have r: "?r = r\<lparr>r_client_pos := pos, r_client_addrs := (r_client_addrs r)[pos := True]\<rparr>"
      using Some by (simp add: get_client_addr_def)
    have "free_addrs ?r = free_addrs r - {pos}"
      using pos len by (auto simp: free_addrs_def r client_free_def Router_hasAddress_def Let_def nth_list_update)
    moreover have "pos \<in> free_addrs r" using pos by (simp add: free_addrs_def)
    ultimately show ?thesis using assms r by (auto simp: pool_ok_def card_Diff_singleton)
  qed
  then show "pool_ok (snd (get_client_addr r))" "r_client_len (snd (get_client_addr r)) = r_client_len r"
    "card (free_addrs (snd (get_client_addr r))) = card (free_addrs r) - 1"
    "free_addrs r = {} \<Longrightarrow> get_client_addr r = (0, r)" by blast+
qed

text \<open>Requests for a tunnel, and those among them that ask for a layer the server does not have.\<close>

definition tunnel_requested :: "EIBNetIPPacket \<Rightarrow> EIBnet_ConnectRequest \<Rightarrow> bool" where
  "tunnel_requested p r1 \<longleftrightarrow> ip_service p = CONNECTION_REQUEST \<and> parseEIBnet_ConnectRequest p = Some r1 \<and>
     length (creq_CRI r1) = 3 \<and> creq_CRI r1 ! 0 = 4"

definition unknown_layer :: "EIBNetIPPacket \<Rightarrow> bool" where
  "unknown_layer p \<longleftrightarrow> (case parseEIBnet_ConnectRequest p of
     None \<Rightarrow> False
   | Some r1 \<Rightarrow> tunnel_requested p r1 \<and> creq_CRI r1 ! 1 \<noteq> 0x02 \<and> creq_CRI r1 ! 1 \<noteq> 0x80)"

definition no_more_connections :: "s_env \<Rightarrow> EIBnetServer \<Rightarrow> EIBnet_ConnectRequest \<Rightarrow> s_call list" where
  "no_more_connections v s r1 =
     (case e_source v (creq_caddr r1) of
        None \<Rightarrow> []
      | Some a \<Rightarrow> [S_send (ConnectResponse_ToPacket \<lparr>cres_channel = 0, cres_status = 0x24,
          cres_daddr = a\<lparr>sin_port := s_Port s\<rparr>, cres_nat = creq_nat r1, cres_CRD = [4, 0, 0]\<rparr>) (creq_caddr r1)])"

lemma hi8_lo8_0 [simp]: "hi8 0 = 0" "lo8 0 = 0"
  by (simp_all add: hi8_def lo8_def)

lemma tunnel_request_handled:
  "tunnel_requested p r1 \<Longrightarrow> handle_packet v p w = handle_connect (e_source v) (e_setup v) r1 w"
  by (simp add: handle_packet_def tunnel_requested_def when_parsed_def)

lemma unknown_layer_step:
  assumes "unknown_layer p" "s_sock s" "s_tunnel s"
  shows "fst (s_step (s, r) (S_packet v p)) = (s, snd (get_client_addr r))"
proof -
  obtain r1 where r1: "tunnel_requested p r1" "creq_CRI r1 ! 1 \<noteq> 0x02" "creq_CRI r1 ! 1 \<noteq> 0x80"
    using assms(1) by (auto simp: unknown_layer_def split: option.splits)
  then show ?thesis
    using assms(2,3) tunnel_request_handled [OF r1(1)]
    by (simp add: handle_connect_def connect_tunnel_def tunnel_requested_def Let_def)
qed

lemma unknown_layer_run:
  assumes "list_all (\<lambda>(v, p). unknown_layer p) reqs" "s_sock s" "s_tunnel s" "pool_ok r"
  shows "\<exists>r'. fst (run_events s_step (s, r) (map (\<lambda>(v, p). S_packet v p) reqs)) = (s, r') \<and>
    pool_ok r' \<and> r_client_len r' = r_client_len r \<and> card (free_addrs r') = card (free_addrs r) - length reqs"
  using assms
proof (induction reqs arbitrary: r)
  case (Cons vp reqs)
  let ?r = "snd (get_client_addr r)"
  obtain v p where vp: "vp = (v, p)" by force
  have step: "fst (s_step (s, r) (S_packet v p)) = (s, ?r)"
    using Cons.prems vp by (intro unknown_layer_step) simp_all
  have r: "pool_ok ?r" "r_client_len ?r = r_client_len r" "card (free_addrs ?r) = card (free_addrs r) - 1"
    using take_client_addr [OF Cons.prems(4)] by blast+
  obtain r' where "fst (run_events s_step (s, ?r) (map (\<lambda>(v, p). S_packet v p) reqs)) = (s, r')" "pool_ok r'"
    "r_client_len r' = r_client_len ?r" "card (free_addrs r') = card (free_addrs ?r) - length reqs"
    using Cons.IH [OF _ Cons.prems(2,3) r(1)] Cons.prems(1) by auto
  with r step show ?case
    by (intro exI [of _ r']) (simp add: vp run_events_Cons del: s_step.simps run_events.simps)
qed simp

text \<open>
  \<^bold>\<open>C38\<close>: a request for a tunnel takes an address from the pool before the server looks at the layer, and
  an unknown layer is refused without giving the address back.  As many such requests as the pool has
  addresses open no connection, and from then on every request for a tunnel is refused with \<open>no more
  connections\<close>.
\<close>

theorem rejected_connects_exhaust_pool:
  assumes "s_sock s" and "s_tunnel s" and "pool_ok r"
    and "list_all (\<lambda>(v, p). unknown_layer p) reqs" and "r_client_len r \<le> length reqs"
    and "tunnel_requested p r1"
  shows "let w = fst (run_events s_step (s, r) (map (\<lambda>(v, p). S_packet v p) reqs))
    in s_connections (fst w) = s_connections s \<and>
       s_step w (S_packet v p) = (w, no_more_connections v s r1)"
proof -
  obtain r' where r': "fst (run_events s_step (s, r) (map (\<lambda>(v, p). S_packet v p) reqs)) = (s, r')"
    "pool_ok r'" "card (free_addrs r') = card (free_addrs r) - length reqs"
    using unknown_layer_run [OF assms(4,1,2,3)] by blast
  with card_free_addrs [of r] assms(5) have "free_addrs r' = {}" by simp
  from take_client_addr(4) [OF r'(2) this] have "get_client_addr r' = (0, r')" .
  then have "s_step (s, r') (S_packet v p) = ((s, r'), no_more_connections v s r1)"
    using assms(1,2,6) tunnel_request_handled [OF assms(6)]
    by (simp add: handle_connect_def connect_tunnel_def no_more_connections_def tunnel_requested_def
        hi8_lo8_0 Let_def split: option.split)
  then show ?thesis by (simp add: r'(1) Let_def del: s_step.simps)
qed

definition sample_connect :: "byte \<Rightarrow> EIBnet_ConnectRequest" where
  "sample_connect layer = \<lparr>creq_caddr = sockaddr_zero, creq_daddr = sockaddr_zero, creq_CRI = [4, layer, 0], creq_nat = True\<rparr>"

definition sample_server :: EIBnetServer where
  "sample_server = EIBnetServer_new\<lparr>s_sock := True, s_tunnel := True\<rparr>"

definition sample_env :: s_env where
  "sample_env = \<lparr>e_source = (\<lambda>a. Some a), e_mac = [], e_setup = None\<rparr>"

lemma of_option_single: "of_option f x = [z] \<longleftrightarrow> (\<exists>y. x = Some y \<and> f y = z)"
  by (cases x) auto

lemma sample_connect_parsed:
  "parseEIBnet_ConnectRequest (ConnectRequest_ToPacket (sample_connect layer)) = Some (sample_connect layer)"
proof -
  let ?r = "sample_connect layer"
  have "ConnectRequest_ToPacket ?r\<lparr>ip_src := sockaddr_zero\<rparr> = ConnectRequest_ToPacket ?r"
    by (simp add: ConnectRequest_ToPacket_def ip_packet_def)
  moreover have "received sockaddr_zero (Msg_ConnectRequest ?r) = Msg_ConnectRequest ?r"
    by (simp add: sample_connect_def endpoint_def hidden_def sockaddr_zero_def)
  ultimately show ?thesis
    using ConnectRequest_trip [of ?r sockaddr_zero]
    by (simp add: sample_connect_def of_option_single)
qed

lemma sample_connect_requested: "tunnel_requested (ConnectRequest_ToPacket (sample_connect layer)) (sample_connect layer)"
  by (simp add: tunnel_requested_def sample_connect_parsed)
    (simp add: sample_connect_def ConnectRequest_ToPacket_def ip_packet_def)

theorem rejected_connects_exhaust_pool_witness:
  "let p = ConnectRequest_ToPacket (sample_connect 7);
       w = fst (run_events s_step (sample_server, Router_new 0x1001 0x10f0 2 False 0)
         (map (\<lambda>(v, p). S_packet v p) [(sample_env, p), (sample_env, p)]))
   in s_step w (S_packet sample_env (ConnectRequest_ToPacket (sample_connect 2))) =
        (w, no_more_connections sample_env sample_server (sample_connect 2))"
proof -
  let ?p = "ConnectRequest_ToPacket (sample_connect 7)" and ?r = "Router_new 0x1001 0x10f0 2 False 0"
  have "unknown_layer ?p"
    using sample_connect_requested [of 7] by (simp add: unknown_layer_def sample_connect_parsed) (simp add: sample_connect_def)
  moreover have "pool_ok ?r" by (simp add: pool_ok_def Router_new_def)
  moreover have "r_client_len ?r \<le> length [(sample_env, ?p), (sample_env, ?p)]" by (simp add: Router_new_def)
  ultimately show ?thesis
    using rejected_connects_exhaust_pool [of sample_server ?r "[(sample_env, ?p), (sample_env, ?p)]"
        "ConnectRequest_ToPacket (sample_connect 2)" "sample_connect 2" sample_env]
      sample_connect_requested [of 2]
    unfolding Let_def by (simp add: sample_server_def)
qed

end
