(* ===== verification/Tunnel_Setup.thy ===== *)
theory Tunnel_Setup
  imports Ipserver_Table
begin

text \<open>
  Setting up a tunnel: the client's request, the server's work and answer, and the state both sides
  are in afterwards, which is the one the delivery theorems of tunnelling start from.
\<close>

section \<open>The client's request\<close>

definition started_client :: "sockaddr_in \<Rightarrow> sockaddr_in \<Rightarrow> EIBNetIPTunnel \<Rightarrow> EIBNetIPTunnel" where
  "started_client h own t = fst (Tunnel_start (Some h) (Some own) None t)"

lemma client_request:
  assumes "\<not> u_srcip t"
  shows "snd (Tunnel_start (Some h) (Some own) None t) =
      [U_send (ConnectRequest_ToPacket (get_creq (started_client h own t))) (h\<lparr>sin_port := u_port t\<rparr>)]"
    and "u_saddr (started_client h own t) = own" "u_sock (started_client h own t)"
    "u_monitor (started_client h own t) = u_monitor t" "u_mod (started_client h own t) = u_mod t"
    "u_out (started_client h own t) = []"
  using assms
  by (simp_all add: started_client_def Tunnel_start_def start_connect_def sock_Send_def get_creq_def Let_def)

lemma client_request_parsed:
  obtains r1 where "tunnel_requested (ConnectRequest_ToPacket (get_creq t)\<lparr>ip_src := src\<rparr>) r1"
    "creq_CRI r1 = [4, 2, 0]"
    "creq_caddr r1 = endpoint src (u_saddr t) (sin_addr (u_saddr t) = 0)" "creq_daddr r1 = creq_caddr r1"
proof -
  let ?p = "ConnectRequest_ToPacket (get_creq t)\<lparr>ip_src := src\<rparr>"
  have "of_option Msg_ConnectRequest (parseEIBnet_ConnectRequest ?p) = [received src (Msg_ConnectRequest (get_creq t))]"
    by (rule ConnectRequest_trip) (simp add: get_creq_def)
  then obtain r1 where r1: "parseEIBnet_ConnectRequest ?p = Some r1"
    "Msg_ConnectRequest r1 = received src (Msg_ConnectRequest (get_creq t))"
    unfolding of_option_single by blast
  moreover have "ip_service ?p = CONNECTION_REQUEST" by (simp add: ConnectRequest_ToPacket_def ip_packet_def)
  ultimately show ?thesis by (intro that [of r1]) (simp_all add: tunnel_requested_def get_creq_def)
qed

section \<open>The server's answer\<close>

definition server_answer :: "s_env \<Rightarrow> EIBnetServer \<Rightarrow> EIBnet_ConnectRequest \<Rightarrow> byte \<Rightarrow> eibaddr \<Rightarrow> EIBnet_ConnectResponse" where
  "server_answer v s r1 ch a =
     \<lparr>cres_channel = ch, cres_status = 0,
      cres_daddr = (the (e_source v (creq_caddr r1)))\<lparr>sin_port := s_Port s\<rparr>,
      cres_nat = creq_nat r1, cres_CRD = [4, hi8 a, lo8 a]\<rparr>"

text \<open>A server that can take one more client.\<close>

definition can_accept :: "s_env \<Rightarrow> EIBnetServer \<Rightarrow> Router \<Rightarrow> bool" where
  "can_accept v s r \<longleftrightarrow> s_sock s \<and> s_tunnel s \<and> e_setup v \<noteq> None \<and> srv_inv (s, r) \<and> length (s_connections s) < 255 \<and>
     map_of (r_links r) (s_next s) = None \<and> pool_ok r \<and> 0 < unat (r_client_start r) \<and>
     unat (r_client_start r) + r_client_len r \<le> 65536 \<and> free_addrs r \<noteq> {}"

lemma free_client_addr:
  assumes "pool_ok r" "0 < unat (r_client_start r)" "unat (r_client_start r) + r_client_len r \<le> 65536" "free_addrs r \<noteq> {}"
  shows "fst (get_client_addr r) \<noteq> 0"
    "r_links (snd (get_client_addr r)) = r_links r" "r_want_up (snd (get_client_addr r)) = r_want_up r"
    "\<not> fst (Router_hasAddress r (fst (get_client_addr r)) None)"
proof -
  let ?scan = "find (client_free r) (map (\<lambda>i. (r_client_pos r + i) mod r_client_len r) [1..<r_client_len r + 1])"
  have len: "r_client_len r > 0" using assms(1) by (simp add: pool_ok_def)
  obtain pos where Some: "?scan = Some pos"
    using find_scan(1) [OF len] assms(4) by (cases ?scan) (auto simp: free_addrs_def)
  then have pos: "pos < r_client_len r" "client_free r pos" using find_scan(2) [OF len] by blast+
  have "unat (r_client_start r + of_nat pos) = unat (r_client_start r) + pos"
    by (rule client_address_pos [OF assms(3) pos(1)])
  then have "r_client_start r + of_nat pos \<noteq> 0" using assms(2) by (metis add_is_0 less_irrefl unat_0)
  with Some pos show "fst (get_client_addr r) \<noteq> 0"
    "r_links (snd (get_client_addr r)) = r_links r" "r_want_up (snd (get_client_addr r)) = r_want_up r"
    "\<not> fst (Router_hasAddress r (fst (get_client_addr r)) None)"
    by (simp_all add: get_client_addr_def client_free_def Let_def)
qed

lemma connect_accepted:
  fixes ch :: byte
  assumes "can_accept v s r" "tunnel_requested p r1" "creq_CRI r1 = [4, 2, 0]" "e_source v (creq_caddr r1) \<noteq> None"
  defines "a \<equiv> fst (get_client_addr r)"
    and "ch \<equiv> of_nat (free_id (map (unat \<circ> k_channel \<circ> snd) (s_connections s)) 1)"
    and "y \<equiv> s_step (s, r) (S_packet v p)"
  shows "s_connections (fst (fst y)) = s_connections s @ [(s_next s, ConnState_new CT_STANDARD r1 a ch)]"
    "S_send (ConnectResponse_ToPacket (server_answer v s r1 ch a)) (creq_caddr r1) \<in> set (snd y)"
proof -
  let ?id = "free_id (map (unat \<circ> k_channel \<circ> snd) (s_connections s)) 1" and ?r = "snd (get_client_addr r)"
  have s: "s_sock s" "s_tunnel s" "length (s_connections s) < 255" "map_of (r_links r) (s_next s) = None"
    using assms(1) by (simp_all add: can_accept_def)
  obtain c where c: "e_setup v = Some c" using assms(1) by (auto simp: can_accept_def)
  obtain own where own: "e_source v (creq_caddr r1) = Some own" using assms(4) by auto
  have a: "a \<noteq> 0" "r_links ?r = r_links r"
    using assms(1) free_client_addr unfolding a_def can_accept_def by blast+
  have id: "?id \<le> 255" using s(3) free_id_channel(2) by simp
  then have word: "word_of_int (int ?id) = ch" by (simp add: ch_def)
  let ?reg = "registerLink (s_next s) (link_addAddress c a) True ?r"
  have reg: "fst ?reg" using s(4) a(2) by (simp add: registerLink_def Let_def)
  have add: "addClient CT_STANDARD r1 a (Some c) (s, ?r) =
      (int ?id, ((s\<lparr>s_next := s_next s + 1,
         s_connections := s_connections s @ [(s_next s, ConnState_new CT_STANDARD r1 a ch)]\<rparr>, fst (snd ?reg)),
       map S_router (snd (snd ?reg))))"
    using id reg by (simp add: addClient_def Let_def ch_def)
  have y: "y = handle_connect (e_source v) (e_setup v) r1 (s, r)"
    using s(1) tunnel_request_handled [OF assms(2)] by (simp add: y_def)
  have "connect_tunnel r1 (Some c) (s, r) = ((ch, 0, [4, hi8 a, lo8 a]), snd (addClient CT_STANDARD r1 a (Some c) (s, ?r)))"
    using s(2) a(1) assms(3) id word by (simp add: connect_tunnel_def Let_def add a_def [symmetric])
  then have "y = (fst (snd (addClient CT_STANDARD r1 a (Some c) (s, ?r))),
      snd (snd (addClient CT_STANDARD r1 a (Some c) (s, ?r))) @
      [S_send (ConnectResponse_ToPacket (server_answer v s r1 ch a)) (creq_caddr r1)])"
    by (simp add: y handle_connect_def Let_def assms(3) c own server_answer_def)
  then show "s_connections (fst (fst y)) = s_connections s @ [(s_next s, ConnState_new CT_STANDARD r1 a ch)]"
    "S_send (ConnectResponse_ToPacket (server_answer v s r1 ch a)) (creq_caddr r1) \<in> set (snd y)"
    by (simp_all add: add)
qed

section \<open>The client's reaction\<close>

lemma client_connects:
  fixes ch :: byte and a :: eibaddr and src :: sockaddr_in and now v s r1
  assumes "u_sock t" "u_mod t = 0" "\<not> u_monitor t"
  defines "z \<equiv> u_step t (U_packet now (ConnectResponse_ToPacket (server_answer v s r1 ch a)\<lparr>ip_src := src\<rparr>))"
  shows "snd z = [U_setAddress a, U_started]" "open_client ch (fst z)" "u_sno (fst z) = 0" "u_rno (fst z) = 0"
    "u_out (fst z) = u_out t"
proof -
  let ?p = "ConnectResponse_ToPacket (server_answer v s r1 ch a)\<lparr>ip_src := src\<rparr>"
  have "of_option Msg_ConnectResponse (parseEIBnet_ConnectResponse ?p) = [received src (Msg_ConnectResponse (server_answer v s r1 ch a))]"
    by (rule ConnectResponse_trip) (simp add: server_answer_def)
  then obtain r where r: "parseEIBnet_ConnectResponse ?p = Some r"
    "Msg_ConnectResponse r = received src (Msg_ConnectResponse (server_answer v s r1 ch a))"
    unfolding of_option_single by blast
  then have f: "cres_status r = 0" "cres_CRD r = [4, hi8 a, lo8 a]" "cres_channel r = ch"
    by (simp_all add: server_answer_def)
  have sv: "ip_service ?p = CONNECTION_RESPONSE" by (simp add: ConnectResponse_ToPacket_def ip_packet_def)
  have "z = recv_CONNECTION_RESPONSE t ?p" using assms(1) by (simp add: z_def read_cb_def sv)
  then show "snd z = [U_setAddress a, U_started]" "open_client ch (fst z)" "u_sno (fst z) = 0" "u_rno (fst z) = 0"
    "u_out (fst z) = u_out t"
    using assms(1-3) f
    by (simp_all add: recv_CONNECTION_RESPONSE_def r(1) Let_def signal_def open_client_def)
qed


lemma sample_can_accept:
  "can_accept (sample_env\<lparr>e_setup := Some c\<rparr>) sample_server (Router_new 0x1001 0x10f0 2 False 0)"
proof -
  let ?r = "Router_new 0x1001 0x10f0 2 False 0"
  have "1 \<in> free_addrs ?r"
    by (simp add: free_addrs_def client_free_def Router_hasAddress_def Router_new_def Let_def)
  then show ?thesis
    by (auto simp: can_accept_def sample_server_def sample_env_def EIBnetServer_new_def srv_inv_def pool_ok_def Router_new_def)
qed


end
