(* ===== verification/Ft12.thy ===== *)
theory Ft12
  imports Prelude
begin

text \<open>
  The FT1.2 protocol on a serial line or a TCP connection, class \<open>FT12wrap\<close> of
  \<^verbatim>\<open>src/src/backend/ft12.cpp\<close>.  A handler returns the new state and the calls the code makes, in order:
  bytes for the driver below, data for the driver above and the request for more.  A call upwards may
  come back with \<open>send_Data\<close>; that touches only the send buffer and the trigger, which the reader does
  not look at again, so it is the same as a later event.  (A \<open>stop\<close> that comes back in this way is
  followed by the restart of the reader's timer when the buffer is not empty; the model stops it.)
\<close>

section \<open>State\<close>

text \<open>A timer is the flag that it runs; the trigger has a flag that it is started and one that it is signalled.\<close>

record FT12wrap =
  f_sendflag :: bool
  f_recvflag :: bool
  f_out :: carray
  f_akt :: carray
  f_last :: carray
  f_repeatcount :: int
  f_send_wait :: bool
  f_next_free :: bool
  f_in_reader :: bool
  f_trigger_on :: bool
  f_trigger :: bool
  f_timer :: bool
  f_sendtimer :: bool

datatype f_call =
    F_write carray
  | F_recv carray
  | F_send_Next
  | F_iface_start
  | F_iface_stop
  | F_abort

type_synonym f_result = "FT12wrap \<times> f_call list"

text \<open>The object before its first \<open>start\<close>; the flags without an initialiser get their value there.\<close>

definition FT12wrap_new :: FT12wrap where
  "FT12wrap_new = \<lparr>f_sendflag = False, f_recvflag = False, f_out = [], f_akt = [], f_last = [], f_repeatcount = 0,
     f_send_wait = False, f_next_free = True, f_in_reader = False, f_trigger_on = False, f_trigger = False,
     f_timer = False, f_sendtimer = False\<rparr>"

definition FT12_start :: "FT12wrap \<Rightarrow> f_result" where
  "FT12_start s =
     (s\<lparr>f_trigger_on := True, f_sendflag := False, f_recvflag := False, f_next_free := True, f_send_wait := False,
        f_in_reader := False, f_repeatcount := 0\<rparr>, [F_iface_start])"

definition FT12_stop :: "FT12wrap \<Rightarrow> f_result" where
  "FT12_stop s =
     (s\<lparr>f_timer := False, f_sendtimer := False, f_trigger_on := False, f_trigger := False\<rparr>, [F_iface_stop])"

section \<open>Sending\<close>

definition f_signal :: "FT12wrap \<Rightarrow> FT12wrap" where
  "f_signal s = s\<lparr>f_trigger := f_trigger_on s\<rparr>"

text \<open>A frame with control byte \<open>ctl\<close>: the length twice, and the sum of the control byte and the data.\<close>

definition ft12_frame :: "byte \<Rightarrow> carray \<Rightarrow> carray" where
  "ft12_frame ctl l =
     [0x68, of_nat (length l + 1), of_nat (length l + 1), 0x68, ctl] @ l @ [foldl (+) ctl l, 0x16]"

definition FT12_do_send_Local :: "nat \<Rightarrow> FT12wrap \<Rightarrow> carray \<Rightarrow> f_result" where
  "FT12_do_send_Local raw s l =
     (if f_out s \<noteq> [] then (s, [])
      else if raw = 0
      then let s1 = s\<lparr>f_out := ft12_frame (if f_sendflag s then 0x53 else 0x73) l, f_sendflag := \<not> f_sendflag s\<rparr>
           in (if f_send_wait s1 then s1 else f_signal s1, [])
      else if raw = 1
      then let s1 = s\<lparr>f_out := l\<rparr> in (if f_send_wait s1 then s1 else f_signal s1, [])
      else (s, [F_abort]))"

definition FT12_send_Data :: "FT12wrap \<Rightarrow> carray \<Rightarrow> f_result" where
  "FT12_send_Data s l = FT12_do_send_Local 0 s l"

definition FT12_sendReset :: "FT12wrap \<Rightarrow> f_result" where
  "FT12_sendReset s = FT12_do_send_Local 1 s [0x10, 0x40, 0x40, 0x16]"

definition FT12_sendtimer_cb :: "FT12wrap \<Rightarrow> f_result" where
  "FT12_sendtimer_cb s = (f_signal (s\<lparr>f_sendtimer := False, f_send_wait := False\<rparr>), [])"

text \<open>The callback starts the timer of the reader, not \<open>sendtimer\<close>.\<close>

definition FT12_trigger_cb :: "FT12wrap \<Rightarrow> f_result" where
  "FT12_trigger_cb s0 =
     (let s = s0\<lparr>f_trigger := False\<rparr>
      in if f_send_wait s \<or> \<not> f_next_free s then (s, [])
         else if f_out s = [] then (s, [])
         else (s\<lparr>f_repeatcount := f_repeatcount s + 1, f_send_wait := True, f_timer := True\<rparr>, [F_write (f_out s)]))"

section \<open>Receiving\<close>

definition FT12_do__send_Next :: "FT12wrap \<Rightarrow> f_result" where
  "FT12_do__send_Next s = (s\<lparr>f_out := [], f_sendtimer := False\<rparr>, [F_send_Next])"

text \<open>\<open>akt.deletepart (0, n)\<close>.\<close>

definition f_delete :: "nat \<Rightarrow> FT12wrap \<Rightarrow> FT12wrap" where
  "f_delete n s = s\<lparr>f_akt := drop n (f_akt s)\<rparr>"

text \<open>
  A frame of fixed length and a frame of variable length at the start of the buffer: whether the loop
  goes on, the new state and the calls.
\<close>

definition read_fixed :: "FT12wrap \<Rightarrow> bool \<times> f_result" where
  "read_fixed s =
     (let a = f_akt s
      in if length a < 4 then (False, (s, []))
         else if a ! 1 = a ! 2 \<and> a ! 3 = 0x16
         then let flip = (a ! 1 = 0xF3 \<and> \<not> f_recvflag s) \<or> (a ! 1 = 0xD3 \<and> f_recvflag s)
              in (True, (f_delete 4 (s\<lparr>f_recvflag := (f_recvflag s \<noteq> flip)\<rparr>),
                    F_write [0xE5] # (if a ! 1 AND 0x0f = 0 then [F_recv [0xA0]] else [])))
         else (True, (f_delete 1 s, [])))"

definition accept_frame :: "FT12wrap \<Rightarrow> f_result" where
  "accept_frame s =
     (let a = f_akt s; c = slice 5 (unat (a ! 1) - 1) a
      in if a ! 4 = (if f_recvflag s then 0xF3 else 0xD3)
         then (if c \<noteq> f_last s then s\<lparr>f_recvflag := \<not> f_recvflag s\<rparr> else s, [])
         else if a ! 4 = (if f_recvflag s then 0xD3 else 0xF3)
         then (s\<lparr>f_recvflag := \<not> f_recvflag s, f_last := c\<rparr>, [F_recv c])
         else (s, []))"

definition read_variable :: "bool \<Rightarrow> FT12wrap \<Rightarrow> bool \<times> f_result" where
  "read_variable is_timeout s =
     (let a = f_akt s
      in if length a < 7 then (False, (s, []))
         else if a ! 1 \<noteq> a ! 2 \<or> a ! 3 \<noteq> 0x68
         then if \<not> is_timeout then (False, (f_delete 1 s, [])) else (True, (f_delete 2 s, []))
         else if length a < unat (a ! 1) + 6 then (False, (s, []))
         else let len = unat (a ! 1) + 6
              in if a ! (unat (a ! 1) + 4) \<noteq> foldl (+) 0 (slice 4 (unat (a ! 1)) a) \<or> a ! (unat (a ! 1) + 5) \<noteq> 0x16
                 then (True, (f_delete len s, []))
                 else let x = accept_frame s in (True, (f_delete len (fst x), F_write [0xE5] # snd x)))"

definition read_one :: "bool \<Rightarrow> FT12wrap \<Rightarrow> bool \<times> f_result" where
  "read_one is_timeout s =
     (if f_akt s ! 0 = 0xE5 \<and> f_send_wait s
      then let x = FT12_do__send_Next ((f_delete 1 s)\<lparr>f_send_wait := False\<rparr>)
           in (True, ((fst x)\<lparr>f_repeatcount := 0\<rparr>, snd x))
      else if f_akt s ! 0 = 0xE5 then (True, (f_delete 1 s, []))
      else if f_akt s ! 0 = 0x10 then read_fixed s
      else if f_akt s ! 0 = 0x68 then read_variable is_timeout s
      else (True, (f_delete 1 s, [])))"

lemma read_one_shrinks:
  assumes "f_akt s \<noteq> []" "fst (read_one is_timeout s)"
  shows "length (f_akt (fst (snd (read_one is_timeout s)))) < length (f_akt s)"
proof -
  have d: "length (f_akt (f_delete (Suc n) s')) < length (f_akt s)" if "f_akt s' = f_akt s" for n s'
    using assms(1) that by (simp add: f_delete_def)
  have "length (f_akt (fst (snd (read_fixed s)))) < length (f_akt s)" if "fst (read_fixed s)"
    using that d [of _ 3] d [of _ 0] by (auto simp: read_fixed_def Let_def numeral_eq_Suc split: if_splits)
  moreover have "f_akt (fst (accept_frame s)) = f_akt s" by (simp add: accept_frame_def Let_def)
  then have "length (f_akt (fst (snd (read_variable is_timeout s)))) < length (f_akt s)"
    if "fst (read_variable is_timeout s)"
    using that d [of _ 1] d [of _ "unat (f_akt s ! 1) + 5"]
    by (auto simp: read_variable_def Let_def numeral_eq_Suc split: if_splits)
  ultimately show ?thesis
    using assms by (auto simp: read_one_def FT12_do__send_Next_def f_delete_def Let_def split: if_splits)
qed

function read_loop :: "bool \<Rightarrow> FT12wrap \<Rightarrow> f_result" where
  "read_loop is_timeout s =
     (if f_akt s = [] \<or> \<not> f_next_free s then (s, [])
      else let x = read_one is_timeout s
           in if fst x
              then let y = read_loop is_timeout (fst (snd x)) in (fst y, snd (snd x) @ snd y)
              else snd x)"
  by pat_completeness auto
termination
  by (relation "measure (\<lambda>(b, s). length (f_akt s))") (auto dest: read_one_shrinks)

declare read_loop.simps [simp del]

definition process_read :: "bool \<Rightarrow> FT12wrap \<Rightarrow> f_result" where
  "process_read is_timeout s =
     (if f_in_reader s then (s, [])
      else let x = read_loop is_timeout (s\<lparr>f_in_reader := True, f_timer := False\<rparr>)
           in ((fst x)\<lparr>f_in_reader := False, f_timer := (f_akt (fst x) \<noteq> [])\<rparr>, snd x))"

definition FT12_recv_Data :: "FT12wrap \<Rightarrow> carray \<Rightarrow> f_result" where
  "FT12_recv_Data s c = process_read False (s\<lparr>f_akt := f_akt s @ c\<rparr>)"

definition FT12_timer_cb :: "FT12wrap \<Rightarrow> f_result" where
  "FT12_timer_cb s = process_read True (s\<lparr>f_timer := False\<rparr>)"

text \<open>The driver below is ready for more.\<close>

definition FT12_do_send_Next :: "FT12wrap \<Rightarrow> f_result" where
  "FT12_do_send_Next s0 =
     (let s = s0\<lparr>f_next_free := True\<rparr>;
          x = (if f_akt s \<noteq> [] then process_read False s else (s, []))
      in if f_akt s \<noteq> [] \<and> \<not> f_next_free (fst x) then x
         else if f_send_wait (fst x) then (f_signal ((fst x)\<lparr>f_send_wait := False\<rparr>), snd x)
         else x)"

section \<open>Events\<close>

datatype f_event =
    FE_start
  | FE_stop
  | FE_bytes carray
  | FE_timer
  | FE_sendtimer
  | FE_trigger
  | FE_send carray
  | FE_local nat carray
  | FE_reset
  | FE_next

fun f_step :: "FT12wrap \<Rightarrow> f_event \<Rightarrow> f_result" where
  "f_step s FE_start = FT12_start s"
| "f_step s FE_stop = FT12_stop s"
| "f_step s (FE_bytes c) = FT12_recv_Data s c"
| "f_step s FE_timer = (if f_timer s then FT12_timer_cb s else (s, []))"
| "f_step s FE_sendtimer = (if f_sendtimer s then FT12_sendtimer_cb s else (s, []))"
| "f_step s FE_trigger = (if f_trigger s then FT12_trigger_cb s else (s, []))"
| "f_step s (FE_send l) = FT12_send_Data s l"
| "f_step s (FE_local raw l) = FT12_do_send_Local raw s l"
| "f_step s FE_reset = FT12_sendReset s"
| "f_step s FE_next = FT12_do_send_Next s"

end
