(* ===== verification/Emi_Driver.thy ===== *)
theory Emi_Driver
  imports Emi Ft12
begin

text \<open>
  The EMI drivers: \<open>EMI_Common\<close> (\<^verbatim>\<open>src/src/libserver/emi_common.cpp\<close>) with its subclasses for EMI1, EMI2
  and cEMI (\<^verbatim>\<open>emi1.cpp\<close>, \<^verbatim>\<open>emi2.cpp\<close>, \<^verbatim>\<open>cemi.cpp\<close> and the one in \<^verbatim>\<open>ft12.cpp\<close>), the part of
  \<^verbatim>\<open>lowlevel.cpp\<close> they inherit, and the stack of such a driver on \<open>FT12wrap\<close>.  A handler returns the new
  state and the calls on the driver below and on the one above, in order.
\<close>

section \<open>State\<close>

text \<open>The subclass; \<open>FT12CEMI\<close> is the cEMI driver with the command of FT1.2 devices.\<close>

datatype EMIVer = vEMI1 | vEMI2 | vCEMI | vFT12CEMI

datatype E_state = E_idle | E_timed_out | E_wait | E_wait_confirm

datatype done_next = N_bad | N_up | N_want_close | N_want_leave | N_down | N_open | N_enter | N_reset

text \<open>
  \<open>m_after_reset\<close> is \<open>reset_ack_wait\<close> of EMI2 and \<open>after_reset\<close> of cEMI.  \<open>m_beyond\<close> are the bytes behind
  the array in \<open>EMI1Driver::cmdOpen\<close>, which takes \<open>sizeof (t)\<close> bytes, the size of a shared pointer, from
  an array of five.
\<close>

record EMI_Common =
  m_version :: EMIVer
  m_beyond :: carray
  m_state :: E_state
  m_monitor :: bool
  m_out :: carray
  m_retries :: nat
  m_max_retries :: nat
  m_timeout :: bool
  m_is_local :: bool
  m_local_timeout :: bool
  m_next :: done_next
  m_wait_confirm_low :: bool
  m_after_reset :: bool
  m_reset_timer :: bool

definition EMI_new :: "EMIVer \<Rightarrow> carray \<Rightarrow> bool \<Rightarrow> nat \<Rightarrow> EMI_Common" where
  "EMI_new ver beyond monitor max_retries =
     \<lparr>m_version = ver, m_beyond = beyond, m_state = E_idle, m_monitor = monitor, m_out = [], m_retries = 0,
      m_max_retries = max_retries, m_timeout = False, m_is_local = False, m_local_timeout = False, m_next = N_bad,
      m_wait_confirm_low = False, m_after_reset = False, m_reset_timer = False\<rparr>"

text \<open>Calls on the driver below, calls on the one above, a failed assertion, and a timer without a callback.\<close>

datatype m_call =
    M_send carray
  | M_local nat carray
  | M_sendReset
  | M_iface_start
  | M_iface_stop
  | M_started
  | M_stopped
  | M_errored
  | M_send_Next
  | M_recv_L_Data l_data_pdu
  | M_recv_L_Busmonitor l_busmonitor_pdu
  | M_abort
  | M_no_callback

type_synonym m_result = "EMI_Common \<times> m_call list"

definition is_CEMI :: "EMI_Common \<Rightarrow> bool" where
  "is_CEMI m \<longleftrightarrow> m_version m = vCEMI \<or> m_version m = vFT12CEMI"

section \<open>Local commands\<close>

text \<open>\<open>send_Local (d, 1)\<close>: the raw level is used up by \<open>LowLevelFilter::do_send_Local\<close>.\<close>

definition send_Local :: "carray \<Rightarrow> EMI_Common \<Rightarrow> m_result" where
  "send_Local d m =
     (if m_is_local m then (m, [M_abort])
      else (m\<lparr>m_is_local := True, m_local_timeout := True\<rparr>, [M_local 0 d]))"

definition emi2_reset_layer :: carray where
  "emi2_reset_layer = [0xa9, 0x1E, 0x12, 0x34, 0x56, 0x78, 0x9a]"

definition emi1_reset_layer :: carray where
  "emi1_reset_layer = [0x46, 0x01, 0x00, 0x60, 0xc0]"

definition cmdOpen :: "EMI_Common \<Rightarrow> m_result" where
  "cmdOpen m =
     (case m_version m of
        vEMI1 \<Rightarrow> send_Local ([0x46, 0x01, 0x01, 0x16, 0x00] @ m_beyond m) (m\<lparr>m_next := N_open\<rparr>)
      | vEMI2 \<Rightarrow> send_Local emi2_reset_layer (m\<lparr>m_next := N_open\<rparr>)
      | vCEMI \<Rightarrow> (m, [M_started])
      | vFT12CEMI \<Rightarrow> send_Local [0xF6, 0x00, 0x08, 0x01, 0x34, 0x10, 0x01, 0x00] (m\<lparr>m_next := N_up\<rparr>))"

definition cmdClose :: "EMI_Common \<Rightarrow> m_result" where
  "cmdClose m =
     (if is_CEMI m then (m, [M_stopped])
      else if m_wait_confirm_low m then (m\<lparr>m_next := N_want_close\<rparr>, [])
      else send_Local (if m_version m = vEMI1 then emi1_reset_layer else emi2_reset_layer) (m\<lparr>m_next := N_down\<rparr>))"

definition cmdEnterMonitor :: "EMI_Common \<Rightarrow> m_result" where
  "cmdEnterMonitor m =
     (if is_CEMI m then (m, [M_errored, M_stopped])
      else if m_version m = vEMI1 then send_Local [0x46, 0x01, 0x00, 0x60, 0x90] (m\<lparr>m_next := N_up\<rparr>)
      else send_Local emi2_reset_layer (m\<lparr>m_next := N_enter\<rparr>))"

definition cmdLeaveMonitor :: "EMI_Common \<Rightarrow> m_result" where
  "cmdLeaveMonitor m =
     (if is_CEMI m then (m, [M_errored, M_stopped])
      else if m_version m = vEMI1 then send_Local emi1_reset_layer (m\<lparr>m_next := N_down\<rparr>)
      else if m_wait_confirm_low m then (m\<lparr>m_next := N_want_leave\<rparr>, [])
      else send_Local emi2_reset_layer (m\<lparr>m_next := N_down\<rparr>))"

section \<open>Starting and stopping\<close>

definition EMI_start :: "EMI_Common \<Rightarrow> m_result" where
  "EMI_start m = (m\<lparr>m_state := E_idle\<rparr>, [M_iface_start])"

definition EMI_Common_started :: "EMI_Common \<Rightarrow> m_result" where
  "EMI_Common_started m = (if m_monitor m then cmdEnterMonitor m else cmdOpen m)"

definition EMI_started :: "EMI_Common \<Rightarrow> m_result" where
  "EMI_started m =
     (if m_version m = vEMI1 then EMI_Common_started m
      else (m\<lparr>m_after_reset := True, m_reset_timer := True\<rparr>, [M_sendReset]))"

definition EMI_stop :: "EMI_Common \<Rightarrow> m_result" where
  "EMI_stop m = (if m_monitor m then cmdLeaveMonitor m else cmdClose m)"

definition sendLocal_done_cb :: "bool \<Rightarrow> EMI_Common \<Rightarrow> m_result" where
  "sendLocal_done_cb success m =
     (if \<not> success \<or> m_next m = N_bad then (m, [M_errored, M_stopped])
      else case m_next m of
             N_down \<Rightarrow> (m, [if is_CEMI m then M_stopped else M_iface_stop])
           | N_up \<Rightarrow> (m, [M_started])
           | N_open \<Rightarrow>
               (case m_version m of
                  vEMI1 \<Rightarrow> send_Local [0x46, 0x01, 0x00, 0x60, 0x12] (m\<lparr>m_next := N_up\<rparr>)
                | vEMI2 \<Rightarrow> send_Local [0xa9, 0x00, 0x18, 0x34, 0x56, 0x78, 0x0a] (m\<lparr>m_next := N_up\<rparr>)
                | _ \<Rightarrow> (m, []))
           | N_enter \<Rightarrow>
               if m_version m = vEMI2
               then send_Local [0xa9, 0x90, 0x18, 0x34, 0x45, 0x67, 0x8a] (m\<lparr>m_next := N_up\<rparr>)
               else (m, [])
           | N_reset \<Rightarrow> if is_CEMI m then EMI_Common_started m else (m, [])
           | _ \<Rightarrow> (m, []))"

definition local_timeout_cb :: "EMI_Common \<Rightarrow> m_result" where
  "local_timeout_cb m = sendLocal_done_cb False (m\<lparr>m_local_timeout := False, m_is_local := False\<rparr>)"

text \<open>The callback of \<open>reset_timer\<close> is set by the constructor of \<open>CEMIDriver\<close> but not by that of \<open>EMI2Driver\<close>.\<close>

definition reset_timer_cb :: "EMI_Common \<Rightarrow> m_result" where
  "reset_timer_cb m =
     (m\<lparr>m_reset_timer := False\<rparr>, if is_CEMI m then [M_errored] else [M_no_callback])"

section \<open>Telegrams\<close>

definition maxPacketLen :: "EMI_Common \<Rightarrow> nat" where
  "maxPacketLen m = (if is_CEMI m then 50 else 0x10)"

definition lData2EMI :: "EMI_Common \<Rightarrow> byte \<Rightarrow> l_data_pdu \<Rightarrow> carray option" where
  "lData2EMI m code l = (if is_CEMI m then L_Data_ToCEMI code l else Some (L_Data_ToEMI code l))"

definition EMI2lData :: "EMI_Common \<Rightarrow> carray \<Rightarrow> l_data_pdu option" where
  "EMI2lData m c = (if is_CEMI m then CEMI_to_L_Data c else EMI_to_L_Data c)"

text \<open>\<open>getIndTypes\<close>: confirmation, data and bus monitor.\<close>

definition getIndTypes :: "EMI_Common \<Rightarrow> byte \<times> byte \<times> byte" where
  "getIndTypes m = (if m_version m = vEMI1 then (0x4E, 0x49, 0x49) else (0x2E, 0x29, 0x2B))"

definition EMI_send_Data :: "carray \<Rightarrow> EMI_Common \<Rightarrow> m_result" where
  "EMI_send_Data pdu m = (m\<lparr>m_state := E_wait, m_timeout := True\<rparr>, [M_send pdu])"

definition EMI_send_L_Data :: "EMI_Common \<Rightarrow> l_data_pdu \<Rightarrow> m_result" where
  "EMI_send_L_Data m l =
     (if m_state m \<noteq> E_idle then (m, [])
      else if l_data l = [] then (m, [M_abort])
      else if length (l_data l) > maxPacketLen m then (m, [M_send_Next])
      else case lData2EMI m 0x11 l of
             None \<Rightarrow> (m, [M_abort])
           | Some pdu \<Rightarrow> EMI_send_Data pdu (m\<lparr>m_out := pdu, m_retries := 0\<rparr>))"

definition EMI_Common_do_send_Next :: "EMI_Common \<Rightarrow> m_result" where
  "EMI_Common_do_send_Next m =
     (if m_state m = E_wait then (m\<lparr>m_state := E_wait_confirm\<rparr>, [])
      else if m_state m = E_idle then (m, [M_send_Next])
      else (m, []))"

definition EMI_do_send_Next :: "EMI_Common \<Rightarrow> m_result" where
  "EMI_do_send_Next m =
     (if m_version m \<noteq> vEMI1 \<and> m_after_reset m
      then EMI_Common_started (m\<lparr>m_after_reset := False, m_reset_timer := False\<rparr>)
      else if \<not> is_CEMI m \<and> m_next m = N_want_close then cmdClose (m\<lparr>m_wait_confirm_low := False\<rparr>)
      else if m_version m = vEMI2 \<and> m_next m = N_want_leave then cmdLeaveMonitor (m\<lparr>m_wait_confirm_low := False\<rparr>)
      else EMI_Common_do_send_Next m)"

text \<open>\<open>LowLevelIface::send_Next\<close>.\<close>

definition EMI_send_Next :: "EMI_Common \<Rightarrow> m_result" where
  "EMI_send_Next m =
     (if m_is_local m then sendLocal_done_cb True (m\<lparr>m_local_timeout := False, m_is_local := False\<rparr>)
      else EMI_do_send_Next m)"

definition EMI_timeout_cb :: "EMI_Common \<Rightarrow> m_result" where
  "EMI_timeout_cb m0 =
     (let m = m0\<lparr>m_timeout := False\<rparr>
      in case m_state m of
           E_idle \<Rightarrow> (m, [])
         | E_timed_out \<Rightarrow> (m, [])
         | E_wait \<Rightarrow> (m\<lparr>m_state := E_timed_out\<rparr>, [M_errored])
         | E_wait_confirm \<Rightarrow>
             let m1 = m\<lparr>m_retries := m_retries m + 1\<rparr>
             in if m_retries m1 \<le> m_max_retries m1 then EMI_send_Data (m_out m1) m1
                else (m1\<lparr>m_state := E_idle\<rparr>, [M_send_Next]))"

definition EMI_recv_Data :: "EMI_Common \<Rightarrow> carray \<Rightarrow> m_result" where
  "EMI_recv_Data m c =
     (let ind = getIndTypes m
      in if c \<noteq> [] \<and> c ! 0 = 0xA0 then (m, [M_errored])
         else if c \<noteq> [] \<and> c ! 0 = fst ind
         then if m_state m = E_wait_confirm then (m\<lparr>m_state := E_idle, m_timeout := False\<rparr>, [M_send_Next]) else (m, [])
         else if c \<noteq> [] \<and> c ! 0 = fst (snd ind) \<and> \<not> m_monitor m
         then (m, case EMI2lData m c of None \<Rightarrow> [] | Some l \<Rightarrow> [M_recv_L_Data l])
         else if length c > 4 \<and> c ! 0 = snd (snd ind) \<and> m_monitor m
         then (m, [M_recv_L_Busmonitor \<lparr>b_pdu = drop 4 c, b_status = c ! 1,
                b_timestamp = push_bit 24 (ucast (c ! 2)) OR push_bit 16 (ucast (c ! 3))\<rparr>])
         else (m, []))"

datatype m_event =
    ME_start
  | ME_started
  | ME_stop
  | ME_send l_data_pdu
  | ME_next
  | ME_recv carray
  | ME_timeout
  | ME_local_timeout
  | ME_reset_timer

fun m_step :: "EMI_Common \<Rightarrow> m_event \<Rightarrow> m_result" where
  "m_step m ME_start = EMI_start m"
| "m_step m ME_started = EMI_started m"
| "m_step m ME_stop = EMI_stop m"
| "m_step m (ME_send l) = EMI_send_L_Data m l"
| "m_step m ME_next = EMI_send_Next m"
| "m_step m (ME_recv c) = EMI_recv_Data m c"
| "m_step m ME_timeout = (if m_timeout m then EMI_timeout_cb m else (m, []))"
| "m_step m ME_local_timeout = (if m_local_timeout m then local_timeout_cb m else (m, []))"
| "m_step m ME_reset_timer = (if m_reset_timer m then reset_timer_cb m else (m, []))"

section \<open>The stack\<close>

text \<open>
  An EMI driver above \<open>FT12wrap\<close>.  The calls of one go to the other in order; what is left are the bytes
  for the line, opening and closing it, and the calls on the link above.
\<close>

datatype x_call =
    X_write carray
  | X_open
  | X_close
  | X_up m_call
  | X_abort

type_synonym x_state = "EMI_Common \<times> FT12wrap"
type_synonym x_result = "x_state \<times> x_call list"

text \<open>A call of the EMI driver, as an event of \<open>FT12wrap\<close> when it goes down.\<close>

fun down_event :: "m_call \<Rightarrow> f_event option" where
  "down_event (M_send c) = Some (FE_send c)"
| "down_event (M_local raw c) = Some (FE_local raw c)"
| "down_event M_sendReset = Some FE_reset"
| "down_event M_iface_start = Some FE_start"
| "down_event M_iface_stop = Some FE_stop"
| "down_event _ = None"

text \<open>What \<open>FT12wrap\<close> calls while it handles a call from above: the line is opened or closed.\<close>

fun line_call :: "f_call \<Rightarrow> x_call list" where
  "line_call (F_write c) = [X_write c]"
| "line_call F_iface_start = [X_open]"
| "line_call F_iface_stop = [X_close]"
| "line_call F_abort = [X_abort]"
| "line_call _ = []"

fun emi_calls :: "m_call list \<Rightarrow> FT12wrap \<Rightarrow> FT12wrap \<times> x_call list" where
  "emi_calls [] s = (s, [])"
| "emi_calls (c # cs) s =
     (case down_event c of
        None \<Rightarrow> apsnd (Cons (X_up c)) (emi_calls cs s)
      | Some e \<Rightarrow>
          let x = f_step s e; y = emi_calls cs (fst x) in (fst y, collect line_call (snd x) @ snd y))"

definition emi_event :: "m_event \<Rightarrow> x_state \<Rightarrow> x_result" where
  "emi_event e w =
     (let x = m_step (fst w) e; y = emi_calls (snd x) (snd w) in ((fst x, fst y), snd y))"

fun ft12_calls :: "f_call list \<Rightarrow> x_state \<Rightarrow> x_result" where
  "ft12_calls [] w = (w, [])"
| "ft12_calls (c # cs) w =
     (let x = (case c of
                 F_recv d \<Rightarrow> emi_event (ME_recv d) w
               | F_send_Next \<Rightarrow> emi_event ME_next w
               | _ \<Rightarrow> (w, line_call c));
          y = ft12_calls cs (fst x)
      in (fst y, snd x @ snd y))"

datatype x_event = XE_emi m_event | XE_ft12 f_event

text \<open>
  What happens to the stack from outside: calls of the link, the line that has been opened, and the
  timers of the EMI driver; bytes, timers and the trigger of \<open>FT12wrap\<close>.
\<close>

fun from_outside :: "x_event \<Rightarrow> bool" where
  "from_outside (XE_emi ME_next) = False"
| "from_outside (XE_emi (ME_recv c)) = False"
| "from_outside (XE_emi e) = True"
| "from_outside (XE_ft12 (FE_bytes c)) = True"
| "from_outside (XE_ft12 FE_timer) = True"
| "from_outside (XE_ft12 FE_sendtimer) = True"
| "from_outside (XE_ft12 FE_trigger) = True"
| "from_outside (XE_ft12 e) = False"

fun x_step :: "x_state \<Rightarrow> x_event \<Rightarrow> x_result" where
  "x_step w (XE_emi e) = emi_event e w"
| "x_step w (XE_ft12 e) =
     (let x = f_step (snd w) e in ft12_calls (snd x) (fst w, fst x))"

end
