(* ===== verification/Ft12_Props.thy ===== *)
theory Ft12_Props
  imports Ft12 "HOL-Library.Sublist"
begin

text \<open>
  The FT1.2 reader against a specification on whole frames, and what follows from it: in which cases the
  data of the device arrive exactly once, and in which they are lost.
\<close>

section \<open>The stream as the device sends it\<close>

text \<open>The device sends acknowledgements, and frames with its frame count bit.\<close>

datatype ft12_item = Ft_ack | Ft_data bool carray

definition device_ctl :: "bool \<Rightarrow> byte" where
  "device_ctl f = (if f then 0xD3 else 0xF3)"

primrec item_bytes :: "ft12_item \<Rightarrow> carray" where
  "item_bytes Ft_ack = [0xE5]"
| "item_bytes (Ft_data f c) = ft12_frame (device_ctl f) c"

primrec wf_item :: "ft12_item \<Rightarrow> bool" where
  "wf_item Ft_ack = True"
| "wf_item (Ft_data f c) = (length c \<le> 254)"

text \<open>The receiver on whole frames: the expected bit and the data accepted last.\<close>

fun receiver :: "bool \<times> carray \<Rightarrow> ft12_item \<Rightarrow> (bool \<times> carray) \<times> carray list" where
  "receiver (r, l) Ft_ack = ((r, l), [])"
| "receiver (r, l) (Ft_data f c) =
     (if f = r then ((\<not> r, c), [c]) else if c \<noteq> l then ((\<not> r, l), []) else ((r, l), []))"

abbreviation rv :: "FT12wrap \<Rightarrow> bool \<times> carray" where
  "rv s \<equiv> (f_recvflag s, f_last s)"

fun f_delivered :: "f_call \<Rightarrow> carray list" where
  "f_delivered (F_recv c) = [c]"
| "f_delivered _ = []"

fun f_acks :: "f_call \<Rightarrow> unit list" where
  "f_acks (F_write c) = (if c = [0xE5] then [()] else [])"
| "f_acks _ = []"

primrec item_acks :: "ft12_item \<Rightarrow> unit list" where
  "item_acks Ft_ack = []"
| "item_acks (Ft_data f c) = [()]"

section \<open>The reader on a buffer\<close>

lemma unat_frame_len: "length c \<le> 254 \<Longrightarrow> unat (of_nat (length c + 1) :: byte) = length c + 1"
  by (simp only: unat_of_nat) simp

lemma frame_fields:
  assumes "length c \<le> 254"
  defines "n \<equiv> (of_nat (length c + 1) :: byte)"
  shows "(ft12_frame ctl c @ rest) ! 0 = 0x68" "(ft12_frame ctl c @ rest) ! 1 = n" "(ft12_frame ctl c @ rest) ! 2 = n"
    "(ft12_frame ctl c @ rest) ! 3 = 0x68" "(ft12_frame ctl c @ rest) ! 4 = ctl"
    "(ft12_frame ctl c @ rest) ! (unat n + 4) = foldl (+) ctl c" "(ft12_frame ctl c @ rest) ! (unat n + 5) = 0x16"
    "slice 4 (unat n) (ft12_frame ctl c @ rest) = ctl # c" "slice 5 (unat n - 1) (ft12_frame ctl c @ rest) = c"
    "length (ft12_frame ctl c @ rest) = length c + 7 + length rest" "drop (unat n + 6) (ft12_frame ctl c @ rest) = rest"
proof -
  have n: "unat n = length c + 1" unfolding n_def by (rule unat_frame_len [OF assms(1)])
  show "(ft12_frame ctl c @ rest) ! 0 = 0x68" "(ft12_frame ctl c @ rest) ! 1 = n" "(ft12_frame ctl c @ rest) ! 2 = n"
    "(ft12_frame ctl c @ rest) ! 3 = 0x68" "(ft12_frame ctl c @ rest) ! 4 = ctl"
    "length (ft12_frame ctl c @ rest) = length c + 7 + length rest"
    by (simp_all add: ft12_frame_def n_def)
  have f: "ft12_frame ctl c @ rest = [0x68, n, n, 0x68] @ (ctl # c) @ [foldl (+) ctl c, 0x16] @ rest"
    by (simp add: ft12_frame_def n_def)
  show "(ft12_frame ctl c @ rest) ! (unat n + 4) = foldl (+) ctl c" "(ft12_frame ctl c @ rest) ! (unat n + 5) = 0x16"
    "slice 4 (unat n) (ft12_frame ctl c @ rest) = ctl # c" "slice 5 (unat n - 1) (ft12_frame ctl c @ rest) = c"
    "drop (unat n + 6) (ft12_frame ctl c @ rest) = rest"
    unfolding f by (simp_all add: n slice_def nth_append add.commute [of 7] del: append.simps)
qed

lemma accept_frame_receiver:
  assumes "f_akt s = ft12_frame (device_ctl f) c @ rest" "length c \<le> 254"
  shows "rv (fst (accept_frame s)) = fst (receiver (rv s) (Ft_data f c))"
    "collect f_delivered (snd (accept_frame s)) = snd (receiver (rv s) (Ft_data f c))"
    "collect f_acks (snd (accept_frame s)) = []"
    "f_akt (fst (accept_frame s)) = f_akt s" "f_next_free (fst (accept_frame s)) = f_next_free s"
    "f_in_reader (fst (accept_frame s)) = f_in_reader s" "f_out (fst (accept_frame s)) = f_out s"
proof -
  note fields = frame_fields(2,5,9) [OF assms(2), of "device_ctl f" rest]
  have ctl: "(device_ctl f = (if f_recvflag s then 0xF3 else 0xD3)) = (f \<noteq> f_recvflag s)"
    "(device_ctl f = (if f_recvflag s then 0xD3 else 0xF3)) = (f = f_recvflag s)"
    by (simp_all add: device_ctl_def)
  have x: "accept_frame s =
      (if f \<noteq> f_recvflag s then (if c \<noteq> f_last s then s\<lparr>f_recvflag := \<not> f_recvflag s\<rparr> else s, [])
       else (s\<lparr>f_recvflag := \<not> f_recvflag s, f_last := c\<rparr>, [F_recv c]))"
    unfolding accept_frame_def Let_def assms(1) fields ctl by simp
  show "rv (fst (accept_frame s)) = fst (receiver (rv s) (Ft_data f c))"
    "collect f_delivered (snd (accept_frame s)) = snd (receiver (rv s) (Ft_data f c))"
    "collect f_acks (snd (accept_frame s)) = []"
    "f_akt (fst (accept_frame s)) = f_akt s" "f_next_free (fst (accept_frame s)) = f_next_free s"
    "f_in_reader (fst (accept_frame s)) = f_in_reader s" "f_out (fst (accept_frame s)) = f_out s"
    unfolding x by simp_all
qed

text \<open>The reader consumes a whole item, and waits on a part of one.\<close>

definition consumes :: "FT12wrap \<Rightarrow> ft12_item list \<Rightarrow> carray \<Rightarrow> f_result \<Rightarrow> bool" where
  "consumes s is rest x \<longleftrightarrow>
     f_akt (fst x) = rest \<and> rv (fst x) = fst (run_events receiver (rv s) is) \<and>
     collect f_delivered (snd x) = snd (run_events receiver (rv s) is) \<and>
     collect f_acks (snd x) = collect item_acks is \<and>
     f_next_free (fst x) = f_next_free s \<and> f_in_reader (fst x) = f_in_reader s \<and>
     (f_out (fst x) = f_out s \<or> f_out (fst x) = [])"

lemma read_one_item:
  assumes "wf_item i" "f_akt s = item_bytes i @ rest"
  shows "fst (read_one b s)" "consumes s [i] rest (snd (read_one b s))"
proof -
  have "fst (read_one b s) \<and> consumes s [i] rest (snd (read_one b s))"
  proof (cases i)
    case Ft_ack
    then show ?thesis
      using assms by (simp add: consumes_def read_one_def FT12_do__send_Next_def f_delete_def Let_def)
  next
    case (Ft_data f c)
    then have c: "length c \<le> 254" and akt: "f_akt s = ft12_frame (device_ctl f) c @ rest" using assms by simp_all
    note fields = frame_fields [OF c, of "device_ctl f" rest]
    have "read_one b s = read_variable b s" by (simp add: read_one_def akt fields(1))
    also have "\<dots> = (True, (f_delete (length c + 7) (fst (accept_frame s)), F_write [0xE5] # snd (accept_frame s)))"
      unfolding read_variable_def Let_def akt fields(2-4,6-8,10) unfolding unat_frame_len [OF c] by (simp add: add.commute)
    finally have one: "read_one b s = \<dots>" .
    have rest: "drop (length c + 7) (ft12_frame (device_ctl f) c @ rest) = rest" using fields(11) unat_frame_len [OF c] by (simp add: add.commute del: of_nat_add of_nat_1)
    show ?thesis
      using accept_frame_receiver [OF akt c] rest
      by (simp add: one consumes_def f_delete_def akt Ft_data case_prod_beta)
  qed
  then show "fst (read_one b s)" "consumes s [i] rest (snd (read_one b s))" by blast+
qed

lemma nth_strict_prefix: "strict_prefix y x \<Longrightarrow> i < length y \<Longrightarrow> y ! i = x ! i"
  by (auto simp: strict_prefix_def prefix_def nth_append)

lemma read_one_part:
  assumes "wf_item i" "f_akt s = y" "y \<noteq> []" "strict_prefix y (item_bytes i)"
  shows "read_one b s = (False, (s, []))"
proof (cases i)
  case Ft_ack
  with assms show ?thesis by (cases y) (auto simp: strict_prefix_def prefix_Cons)
next
  case (Ft_data f c)
  then have c: "length c \<le> 254" and pre: "strict_prefix y (ft12_frame (device_ctl f) c)" using assms by simp_all
  note fields = frame_fields [OF c, of "device_ctl f" "[]", unfolded append_Nil2]
  have len: "length y < length c + 7" using pre fields(10) prefix_length_less [OF pre] by simp
  have y0: "y ! 0 = 0x68" using nth_strict_prefix [OF pre, of 0] assms(3) fields(1) by simp
  show ?thesis
  proof (cases "length y < 7")
    case True
    with y0 show ?thesis by (simp add: read_one_def read_variable_def assms(2))
  next
    case False
    then have "y ! 1 = of_nat (length c + 1)" "y ! 2 = of_nat (length c + 1)" "y ! 3 = 0x68"
      using nth_strict_prefix [OF pre, of 1] nth_strict_prefix [OF pre, of 2] nth_strict_prefix [OF pre, of 3] fields
      by simp_all
    moreover have "\<not> length c + 1 + 6 \<le> length y" using len by simp
    ultimately show ?thesis
      using y0 False unat_frame_len [OF c] by (simp add: read_one_def read_variable_def assms(2) Let_def)
  qed
qed

text \<open>What may be left in the buffer when \<open>is\<close> is still to come.\<close>

definition part_of :: "carray \<Rightarrow> ft12_item list \<Rightarrow> bool" where
  "part_of y is \<longleftrightarrow> y = [] \<or> (\<exists>i is'. is = i # is' \<and> strict_prefix y (item_bytes i))"

lemma consumes_Cons:
  assumes "consumes s [i] r x" "consumes (fst x) is r' y"
  shows "consumes s (i # is) r' (fst y, snd x @ snd y)"
  using assms by (auto simp: consumes_def case_prod_beta run_events_Cons)

lemma read_loop_items:
  assumes "list_all wf_item is" "f_akt s = concat (map item_bytes is) @ y" "part_of y js" "list_all wf_item js" "f_next_free s"
  shows "consumes s is y (read_loop b s)"
  using assms
proof (induction "is" arbitrary: s)
  case Nil
  show ?case
  proof (cases "y = []")
    case True
    with Nil show ?thesis by (simp add: read_loop.simps [of b s] consumes_def)
  next
    case False
    then obtain i js' where "js = i # js'" "strict_prefix y (item_bytes i)" using Nil(3) by (auto simp: part_of_def)
    with read_one_part [of i s y b] Nil False have "read_one b s = (False, (s, []))" by simp
    with Nil False show ?thesis by (simp add: read_loop.simps [of b s] consumes_def)
  qed
next
  case (Cons i "is")
  let ?rest = "concat (map item_bytes is) @ y" and ?x = "\<lambda>b. read_one b s"
  have akt: "f_akt s = item_bytes i @ ?rest" using Cons.prems by simp
  have "wf_item i" using Cons.prems by simp
  note one = read_one_item [OF this akt]
  have "item_bytes i \<noteq> []" by (cases i) (simp_all add: ft12_frame_def)
  then have "f_akt s \<noteq> []" using akt by simp
  then have loop: "read_loop b s = (fst (read_loop b (fst (snd (?x b)))), snd (snd (?x b)) @ snd (read_loop b (fst (snd (?x b)))))"
    using one(1) Cons.prems(5) by (subst read_loop.simps) (simp add: Let_def)
  have "consumes (fst (snd (?x b))) is y (read_loop b (fst (snd (?x b))))"
    using one(2) [of b] Cons.prems by (intro Cons.IH) (simp_all add: consumes_def)
  from consumes_Cons [OF one(2) this] show ?case using loop by simp
qed

section \<open>The stream in pieces\<close>

fun f_bytes :: "f_event \<Rightarrow> carray" where
  "f_bytes (FE_bytes c) = c"
| "f_bytes _ = []"

text \<open>The driver stays open, and nobody sends an acknowledgement byte by hand.\<close>

fun f_listens :: "f_event \<Rightarrow> bool" where
  "f_listens FE_start = False"
| "f_listens FE_stop = False"
| "f_listens (FE_local raw l) = (raw \<le> 1 \<and> l \<noteq> [0xE5])"
| "f_listens _ = True"

definition receiving :: "FT12wrap \<Rightarrow> ft12_item list \<Rightarrow> bool" where
  "receiving s is \<longleftrightarrow> f_next_free s \<and> \<not> f_in_reader s \<and> f_out s \<noteq> [0xE5] \<and> part_of (f_akt s) is \<and> list_all wf_item is"

lemma split_items:
  "concat (map item_bytes is) = x @ z \<Longrightarrow>
   \<exists>is1 is2 y. is = is1 @ is2 \<and> x = concat (map item_bytes is1) @ y \<and> part_of y is2"
proof (induction "is" arbitrary: x)
  case Nil
  then show ?case by (intro exI [of _ "[]"]) (simp add: part_of_def)
next
  case (Cons i "is")
  then have "item_bytes i @ concat (map item_bytes is) = x @ z" by simp
  then obtain us where "item_bytes i = x @ us \<and> us @ concat (map item_bytes is) = z \<or>
      item_bytes i @ us = x \<and> concat (map item_bytes is) = us @ z"
    by (auto simp: append_eq_append_conv2)
  then show ?case
  proof (elim disjE conjE)
    assume "item_bytes i = x @ us"
    then have "(if us = [] then x = item_bytes i else strict_prefix x (item_bytes i))"
      by (auto simp: strict_prefix_def)
    then show ?thesis
    proof (cases "us = []")
      case True
      then show ?thesis
        using \<open>item_bytes i = x @ us\<close>
        by (intro exI [of _ "[i]"] exI [of _ "is"] exI [of _ "[]"]) (simp add: part_of_def)
    next
      case False
      then show ?thesis
        using \<open>item_bytes i = x @ us\<close>
        by (intro exI [of _ "[]"] exI [of _ "i # is"] exI [of _ x]) (auto simp: part_of_def strict_prefix_def)
    qed
  next
    assume us: "item_bytes i @ us = x" "concat (map item_bytes is) = us @ z"
    obtain is1 is2 y where "is = is1 @ is2" "us = concat (map item_bytes is1) @ y" "part_of y is2"
      using Cons.IH [OF us(2)] by blast
    with us(1) show ?thesis by (intro exI [of _ "i # is1"] exI [of _ is2] exI [of _ y]) auto
  qed
qed

text \<open>What a step does with the part \<open>is1\<close> of the items that it completes.\<close>

definition digests :: "FT12wrap \<Rightarrow> ft12_item list \<Rightarrow> ft12_item list \<Rightarrow> f_result \<Rightarrow> bool" where
  "digests s is1 is2 x \<longleftrightarrow>
     receiving (fst x) is2 \<and> rv (fst x) = fst (run_events receiver (rv s) is1) \<and>
     collect f_delivered (snd x) = snd (run_events receiver (rv s) is1) \<and>
     collect f_acks (snd x) = collect item_acks is1"

lemma process_read_digests:
  assumes "receiving s is" "concat (map item_bytes is) = f_akt s @ c @ later"
  shows "\<exists>is1 is2. is = is1 @ is2 \<and> digests s is1 is2 (process_read b (s\<lparr>f_akt := f_akt s @ c\<rparr>)) \<and>
    f_akt (fst (process_read b (s\<lparr>f_akt := f_akt s @ c\<rparr>))) @ later = concat (map item_bytes is2)"
proof -
  obtain is1 is2 y where split: "is = is1 @ is2" "f_akt s @ c = concat (map item_bytes is1) @ y" "part_of y is2"
    using split_items [of "is" "f_akt s @ c" later] assms(2) by auto
  let ?s = "s\<lparr>f_akt := f_akt s @ c, f_in_reader := True, f_timer := False\<rparr>"
  define x where "x = read_loop b ?s"
  have x: "consumes ?s is1 y x"
    unfolding x_def using assms(1) split by (intro read_loop_items [where js = is2]) (simp_all add: receiving_def)
  have pr: "process_read b (s\<lparr>f_akt := f_akt s @ c\<rparr>) = ((fst x)\<lparr>f_in_reader := False, f_timer := (f_akt (fst x) \<noteq> [])\<rparr>, snd x)"
    using assms(1) by (simp add: process_read_def receiving_def Let_def x_def)
  have "y @ later = concat (map item_bytes is2)"
  proof -
    have "concat (map item_bytes is1) @ concat (map item_bytes is2) = (f_akt s @ c) @ later"
      using assms(2) split(1) by simp
    then show ?thesis unfolding split(2) by simp
  qed
  then have "f_akt (fst (process_read b (s\<lparr>f_akt := f_akt s @ c\<rparr>))) @ later = concat (map item_bytes is2)"
    using x by (simp add: pr consumes_def)
  moreover have "digests s is1 is2 (process_read b (s\<lparr>f_akt := f_akt s @ c\<rparr>))"
    using x assms(1) split(1,3) unfolding pr digests_def receiving_def consumes_def by auto
  ultimately show ?thesis using split(1) by blast
qed

lemma quiet_digests:
  assumes "receiving s is" "rv (fst x) = rv s" "f_akt (fst x) = f_akt s" "f_next_free (fst x)"
    "\<not> f_in_reader (fst x)" "f_out (fst x) \<noteq> [0xE5]" "collect f_delivered (snd x) = []" "collect f_acks (snd x) = []"
  shows "digests s [] is x"
  using assms by (simp add: digests_def receiving_def)

lemma frame_no_ack: "ft12_frame ctl l \<noteq> [0xE5]"
  by (simp add: ft12_frame_def)

lemma send_Local_quiet:
  assumes "receiving s is" "raw \<le> 1" "raw = 1 \<longrightarrow> l \<noteq> [0xE5]"
  shows "digests s [] is (FT12_do_send_Local raw s l) \<and> f_akt (fst (FT12_do_send_Local raw s l)) = f_akt s"
  using assms frame_no_ack [of _ l]
  by (simp add: digests_def receiving_def FT12_do_send_Local_def f_signal_def Let_def)

lemma quiet_events:
  assumes "receiving s is" "f_listens e" "e \<noteq> FE_timer" "e \<noteq> FE_next" "\<forall>c. e \<noteq> FE_bytes c"
  shows "digests s [] is (f_step s e) \<and> f_akt (fst (f_step s e)) = f_akt s"
proof (cases e)
  case FE_trigger
  then show ?thesis
    using assms(1) by (simp add: digests_def receiving_def FT12_trigger_cb_def Let_def)
next
  case FE_sendtimer
  then show ?thesis
    using assms(1) by (simp add: digests_def receiving_def FT12_sendtimer_cb_def f_signal_def)
qed (use assms send_Local_quiet in \<open>simp_all add: FT12_send_Data_def FT12_sendReset_def\<close>)

lemma f_step_digests:
  assumes "receiving s is" "concat (map item_bytes is) = f_akt s @ f_bytes e @ later" "f_listens e"
  shows "\<exists>is1 is2. is = is1 @ is2 \<and> digests s is1 is2 (f_step s e) \<and>
    f_akt (fst (f_step s e)) @ later = concat (map item_bytes is2)"
proof -
  have r: "f_next_free s" "\<not> f_in_reader s" "f_out s \<noteq> [0xE5]" using assms(1) by (simp_all add: receiving_def)
  have quiet: "?thesis" if "digests s [] is (f_step s e)" "f_akt (fst (f_step s e)) = f_akt s" "f_bytes e = []"
    using that assms(2) by (intro exI [of _ "[]"] exI [of _ "is"]) simp
  have read: "\<exists>is1 is2. is = is1 @ is2 \<and> digests s is1 is2 (process_read b s) \<and>
      f_akt (fst (process_read b s)) @ later = concat (map item_bytes is2)" if "f_bytes e = []" for b
    using process_read_digests [OF assms(1), of "[]" later b] assms(2) that by simp
  consider c where "e = FE_bytes c" | "e = FE_timer" | "e = FE_next"
    | "e \<noteq> FE_timer" "e \<noteq> FE_next" "\<forall>c. e \<noteq> FE_bytes c" by blast
  then show ?thesis
  proof cases
    case (1 c)
    then show ?thesis using process_read_digests [OF assms(1), of c later False] assms(2) by (simp add: FT12_recv_Data_def)
  next
    case FE_timer: 2
    have "process_read True (s\<lparr>f_timer := False\<rparr>) = process_read True s" using r by (simp add: process_read_def)
    then show ?thesis
      using read [of True] quiet quiet_digests [OF assms(1), of "(s, [])"] r FE_timer
      by (cases "f_timer s") (simp_all add: FT12_timer_cb_def)
  next
    case FE_next: 3
    have free: "s\<lparr>f_next_free := True\<rparr> = s" using r by simp
    show ?thesis
    proof (cases "f_akt s = []")
      case True
      then show ?thesis
        using quiet [unfolded FE_next] quiet_digests [OF assms(1), of "FT12_do_send_Next s"] r FE_next
        by (simp add: FT12_do_send_Next_def Let_def f_signal_def)
    next
      case False
      obtain is1 is2 where x: "is = is1 @ is2" "digests s is1 is2 (process_read False s)"
        "f_akt (fst (process_read False s)) @ later = concat (map item_bytes is2)"
        using read [of False] FE_next by auto
      have "digests s is1 is2 (f_step s e)" "f_akt (fst (f_step s e)) @ later = concat (map item_bytes is2)"
        using False x by (simp_all add: FE_next FT12_do_send_Next_def free Let_def digests_def receiving_def f_signal_def)
      with x(1) show ?thesis by blast
    qed
  next
    case 4
    then have "f_bytes e = []" by (cases e) simp_all
    with quiet quiet_events [OF assms(1,3) 4] show ?thesis by blast
  qed
qed

lemma run_digests:
  assumes "receiving s is" "concat (map item_bytes is) = f_akt s @ concat (map f_bytes es)" "list_all f_listens es"
  shows "collect f_delivered (snd (run_events f_step s es)) = snd (run_events receiver (rv s) is) \<and>
    collect f_acks (snd (run_events f_step s es)) = collect item_acks is \<and> f_akt (fst (run_events f_step s es)) = []"
  using assms
proof (induction es arbitrary: s "is")
  case Nil
  have "is = []"
  proof (rule ccontr)
    assume "is \<noteq> []"
    then obtain i is' where i: "is = i # is'" by (cases "is") auto
    have "item_bytes i \<noteq> []" by (cases i) (simp_all add: ft12_frame_def)
    moreover have "f_akt s = [] \<or> strict_prefix (f_akt s) (item_bytes i)"
      using Nil(1) i by (auto simp: receiving_def part_of_def)
    ultimately show False using Nil(2) i by (auto simp: strict_prefix_def prefix_def)
  qed
  with Nil show ?case by simp
next
  case (Cons e es)
  obtain is1 is2 where split: "is = is1 @ is2" and x: "digests s is1 is2 (f_step s e)"
    "f_akt (fst (f_step s e)) @ concat (map f_bytes es) = concat (map item_bytes is2)"
    using f_step_digests [OF Cons.prems(1), of e "concat (map f_bytes es)"] Cons.prems(2,3) by auto
  have "receiving (fst (f_step s e)) is2" using x(1) by (simp add: digests_def)
  from Cons.IH [OF this x(2) [symmetric]] Cons.prems(3)
  have IH: "collect f_delivered (snd (run_events f_step (fst (f_step s e)) es)) = snd (run_events receiver (rv (fst (f_step s e))) is2)"
    "collect f_acks (snd (run_events f_step (fst (f_step s e)) es)) = collect item_acks is2"
    "f_akt (fst (run_events f_step (fst (f_step s e)) es)) = []" by simp_all
  have "snd (run_events receiver (rv s) is) =
      snd (run_events receiver (rv s) is1) @ snd (run_events receiver (fst (run_events receiver (rv s) is1)) is2)"
    unfolding split run_events_append by (simp add: case_prod_beta Let_def)
  then show ?case
    using x(1) IH unfolding run_events_Cons collect_simps digests_def split by simp
qed


lemma started_receiving: "receiving (fst (FT12_start FT12wrap_new)) []"
  by (simp add: receiving_def part_of_def FT12_start_def FT12wrap_new_def)


section \<open>Frames in and out of sequence\<close>

text \<open>Data with the number of times the device repeats each frame, starting with bit \<open>f\<close>.\<close>

fun device_frames :: "bool \<Rightarrow> (carray \<times> nat) list \<Rightarrow> ft12_item list" where
  "device_frames f [] = []"
| "device_frames f ((c, n) # xs) = replicate (Suc n) (Ft_data f c) @ device_frames (\<not> f) xs"

lemma receiver_acks:
  "run_events receiver p (filter (\<lambda>i. i \<noteq> Ft_ack) is) = run_events receiver p is"
proof (induction "is" arbitrary: p)
  case (Cons i "is")
  then show ?case by (cases p; cases i) (simp_all add: case_prod_beta)
qed simp

lemma receiver_repeats: "run_events receiver (\<not> f, c) (replicate n (Ft_data f c)) = ((\<not> f, c), [])"
  by (induction n) simp_all

lemma receiver_frames: "snd (run_events receiver (f, l) (device_frames f xs)) = map fst xs"
proof (induction xs arbitrary: f l)
  case (Cons x xs)
  obtain c n where x: "x = (c, n)" by force
  have "run_events receiver (f, l) (replicate (Suc n) (Ft_data f c)) = ((\<not> f, c), [c])"
    using receiver_repeats [of f c n] by simp
  then show ?case using Cons by (simp add: x run_events_append case_prod_beta del: replicate.simps)
qed simp

lemma receiver_jumps:
  assumes "l \<notin> fst ` set xs" "list_all (\<lambda>x. snd x = 0) xs"
  shows "snd (run_events receiver (\<not> f, l) (device_frames f xs)) = []"
  using assms
proof (induction xs arbitrary: f)
  case (Cons x xs)
  then show ?case using Cons.IH [of "\<not> f"] by (cases x) (auto simp: case_prod_beta)
qed simp

text \<open>
  \<^bold>\<open>C4\<close>: a device that alternates its frame count bit, beginning with the one the driver expects, and
  that repeats frames as often as it likes, has its data delivered exactly once and in order, however
  the bytes are cut and whatever acknowledgements and timers come between.
\<close>

theorem ft12_exactly_once:
  assumes "receiving s []" and "list_all wf_item is" and "list_all f_listens es"
    and "concat (map f_bytes es) = concat (map item_bytes is)"
    and "filter (\<lambda>i. i \<noteq> Ft_ack) is = device_frames (f_recvflag s) xs"
  shows "collect f_delivered (snd (run_events f_step s es)) = map fst xs"
proof -
  have "receiving s is" using assms(1,2) by (auto simp: receiving_def part_of_def)
  then have "collect f_delivered (snd (run_events f_step s es)) = snd (run_events receiver (rv s) is)"
    using run_digests [of s "is" es] assms(1,3,4) by (simp add: receiving_def part_of_def)
  then show ?thesis
    using receiver_acks [of "rv s" "is"] assms(5) receiver_frames [of "f_recvflag s" "f_last s" xs] by simp
qed

theorem ft12_exactly_once_witness:
  "collect f_delivered (snd (run_events f_step (fst (FT12_start FT12wrap_new))
     (map FE_bytes [ft12_frame 0xF3 [7], [0xE5] @ ft12_frame 0xF3 [7], ft12_frame 0xD3 [8]]))) = [[7], [8]]"
proof -
  let ?is = "[Ft_data False [7], Ft_ack, Ft_data False [7], Ft_data True [8]]"
  have "filter (\<lambda>i. i \<noteq> Ft_ack) ?is = device_frames False [([7], 1), ([8], 0)]" by simp
  moreover have "f_recvflag (fst (FT12_start FT12wrap_new)) = False" by (simp add: FT12_start_def FT12wrap_new_def)
  ultimately show ?thesis
    using ft12_exactly_once [OF started_receiving, of ?is
        "map FE_bytes [ft12_frame 0xF3 [7], [0xE5] @ ft12_frame 0xF3 [7], ft12_frame 0xD3 [8]]" "[([7], 1), ([8], 0)]"]
    by (simp add: device_ctl_def)
qed

text \<open>
  When the device begins with the other bit, the branch for a jump in the sequence turns the
  expected bit without passing the data on, so that it expects the wrong bit again for the next frame.
  All data are lost, and all frames are acknowledged, as long as none equals the data accepted last.
\<close>

theorem ft12_sequence_jump_loses_all:
  assumes "receiving s []" and "list_all wf_item is" and "list_all f_listens es"
    and "concat (map f_bytes es) = concat (map item_bytes is)"
    and "filter (\<lambda>i. i \<noteq> Ft_ack) is = device_frames (\<not> f_recvflag s) (map (\<lambda>c. (c, 0)) cs)"
    and "f_last s \<notin> set cs"
  shows "collect f_delivered (snd (run_events f_step s es)) = [] \<and>
    collect f_acks (snd (run_events f_step s es)) = replicate (length cs) ()"
proof -
  have "receiving s is" using assms(1,2) by (auto simp: receiving_def part_of_def)
  then have run: "collect f_delivered (snd (run_events f_step s es)) = snd (run_events receiver (rv s) is)"
    "collect f_acks (snd (run_events f_step s es)) = collect item_acks is"
    using run_digests [of s "is" es] assms(1,3,4) by (simp_all add: receiving_def part_of_def)
  have "collect item_acks is = collect item_acks (filter (\<lambda>i. i \<noteq> Ft_ack) is)"
    by (induction "is") auto
  moreover have "collect item_acks (device_frames f (map (\<lambda>c. (c, 0)) cs)) = replicate (length cs) ()" for f
    by (induction cs arbitrary: f) simp_all
  moreover have "snd (run_events receiver (rv s) (device_frames (\<not> f_recvflag s) (map (\<lambda>c. (c, 0)) cs))) = []"
    using receiver_jumps [of "f_last s" "map (\<lambda>c. (c, 0)) cs" "\<not> f_recvflag s"] assms(6)
    by (simp add: image_image list_all_iff)
  ultimately show ?thesis using run receiver_acks [of "rv s" "is"] assms(5) by simp
qed

theorem ft12_sequence_jump_loses_all_witness:
  "collect f_delivered (snd (run_events f_step (fst (FT12_start FT12wrap_new))
     (map FE_bytes [ft12_frame 0xD3 [7], ft12_frame 0xF3 [8]]))) = []"
  using ft12_sequence_jump_loses_all [OF started_receiving, of "[Ft_data True [7], Ft_data False [8]]"
      "map FE_bytes [ft12_frame 0xD3 [7], ft12_frame 0xF3 [8]]" "[[7], [8]]"]
  by (simp add: device_ctl_def FT12_start_def FT12wrap_new_def del: f_step.simps)

section \<open>A sender that never sends again\<close>

text \<open>
  The send buffer is full and nothing will empty it: no signal is pending, the timer for repetitions
  does not run, and no acknowledgement is expected (or, when \<open>w\<close> holds, none is in the buffer).
\<close>

definition mute :: "bool \<Rightarrow> FT12wrap \<Rightarrow> bool" where
  "mute w s \<longleftrightarrow> f_out s \<noteq> [] \<and> \<not> f_trigger s \<and> \<not> f_sendtimer s \<and> (f_send_wait s \<longrightarrow> w \<and> 0xE5 \<notin> set (f_akt s))"

definition mute_event :: "bool \<Rightarrow> f_event \<Rightarrow> bool" where
  "mute_event w e \<longleftrightarrow> e \<noteq> FE_next \<and> (w \<longrightarrow> 0xE5 \<notin> set (f_bytes e))"

fun only_ack :: "f_call \<Rightarrow> bool" where
  "only_ack (F_write c) = (c = [0xE5])"
| "only_ack F_send_Next = False"
| "only_ack _ = True"

lemma f_delete_mute: "mute w s \<Longrightarrow> mute w (f_delete n s)"
  by (auto simp: mute_def f_delete_def dest: in_set_dropD)

lemma read_one_mute:
  assumes "mute w s" "f_akt s \<noteq> []"
  shows "mute w (fst (snd (read_one b s)))" "list_all only_ack (snd (snd (read_one b s)))"
proof -
  have ack: "f_akt s ! 0 = 0xE5 \<and> f_send_wait s \<longleftrightarrow> False"
    using assms by (cases "f_akt s") (auto simp: mute_def)
  have flag: "mute w (s\<lparr>f_recvflag := r\<rparr>)" "mute w (s\<lparr>f_recvflag := r, f_last := l\<rparr>)" for r l
    using assms by (simp_all add: mute_def)
  have acc: "mute w (fst (accept_frame s))" "list_all only_ack (snd (accept_frame s))"
    using assms flag by (simp_all add: accept_frame_def Let_def)
  have "mute w (fst (snd (read_fixed s))) \<and> list_all only_ack (snd (snd (read_fixed s)))"
    using assms flag by (simp add: read_fixed_def Let_def f_delete_mute)
  moreover have "mute w (fst (snd (read_variable b s))) \<and> list_all only_ack (snd (snd (read_variable b s)))"
    using assms acc by (simp add: read_variable_def Let_def f_delete_mute)
  ultimately show "mute w (fst (snd (read_one b s)))" "list_all only_ack (snd (snd (read_one b s)))"
    using assms f_delete_mute unfolding read_one_def ack by simp_all
qed

lemma read_loop_mute: "mute w s \<Longrightarrow> mute w (fst (read_loop b s)) \<and> list_all only_ack (snd (read_loop b s))"
proof (induction b s rule: read_loop.induct)
  case (1 b s)
  show ?case
  proof (cases "f_akt s = [] \<or> \<not> f_next_free s")
    case True
    with 1(2) show ?thesis by (simp add: read_loop.simps [of b s])
  next
    case False
    with 1 read_one_mute [OF 1(2), of b] show ?thesis
      by (subst (1 2) read_loop.simps) (simp add: Let_def)
  qed
qed

lemma process_read_mute: "mute w s \<Longrightarrow> mute w (fst (process_read b s)) \<and> list_all only_ack (snd (process_read b s))"
  using read_loop_mute [of w "s\<lparr>f_in_reader := True, f_timer := False\<rparr>" b]
  by (simp add: process_read_def Let_def mute_def)

lemma f_step_mute:
  assumes "mute w s" "mute_event w e"
  shows "mute w (fst (f_step s e)) \<and> list_all only_ack (snd (f_step s e))"
proof (cases e)
  case (FE_bytes c)
  have "mute w (s\<lparr>f_akt := f_akt s @ c\<rparr>)" using assms FE_bytes by (auto simp: mute_def mute_event_def)
  with process_read_mute FE_bytes show ?thesis by (simp add: FT12_recv_Data_def)
next
  case FE_timer
  have "mute w (s\<lparr>f_timer := False\<rparr>)" using assms by (simp add: mute_def)
  with process_read_mute FE_timer assms show ?thesis by (simp add: FT12_timer_cb_def)
qed (use assms in \<open>auto simp: mute_def mute_event_def FT12_start_def FT12_stop_def FT12_send_Data_def
    FT12_sendReset_def FT12_do_send_Local_def\<close>)

interpretation silent: event_machine f_step "mute_event w" "mute w" only_ack for w
  using f_step_mute by unfold_locales (auto simp: list_all_iff)

text \<open>
  \<open>start\<close> does not empty the send buffer.  A driver that is stopped before its frame has been
  acknowledged never sends anything but acknowledgements again, and never asks for the next frame, however
  often it is started and whatever arrives; \<open>FE_next\<close> is a call that neither of the drivers below makes.
\<close>

theorem ft12_restart_stalls:
  assumes "f_out s \<noteq> []" and "list_all (\<lambda>e. e \<noteq> FE_next) es"
  shows "list_all only_ack (snd (run_events f_step s (FE_stop # FE_start # es)))"
proof -
  let ?s = "fst (FT12_start (fst (FT12_stop s)))"
  have "mute False ?s" using assms(1) by (simp add: mute_def FT12_start_def FT12_stop_def)
  moreover have "list_all (mute_event False) es" using assms(2) by (simp add: mute_event_def list_all_iff)
  ultimately have "list_all only_ack (snd (run_events f_step ?s es))"
    using silent.run_out [of False ?s es] by (auto simp: list_all_iff)
  moreover have "snd (FT12_stop s) = [F_iface_stop]" "snd (FT12_start s') = [F_iface_start]" for s'
    by (simp_all add: FT12_stop_def FT12_start_def)
  ultimately show ?thesis unfolding run_events_Cons by simp
qed

theorem ft12_restart_stalls_witness:
  "list_all only_ack (snd (run_events f_step (fst (FT12_send_Data (fst (FT12_start FT12wrap_new)) [7]))
     [FE_stop, FE_start, FE_send [8], FE_trigger]))"
  using ft12_restart_stalls [of "fst (FT12_send_Data (fst (FT12_start FT12wrap_new)) [7])" "[FE_send [8], FE_trigger]"]
  by (simp add: FT12_send_Data_def FT12_do_send_Local_def FT12_start_def FT12wrap_new_def f_signal_def ft12_frame_def
      del: f_step.simps run_events.simps)

text \<open>
  The timer for repetitions is never started: sending starts the timer of the reader instead.  When
  the acknowledgement of a frame is lost the frame is not sent again, and no further frame is sent.
\<close>

theorem ft12_no_repetition:
  assumes "f_trigger s" and "f_out s \<noteq> []" and "\<not> f_send_wait s" and "f_next_free s" and "\<not> f_sendtimer s"
    and "0xE5 \<notin> set (f_akt s)"
    and "list_all (\<lambda>e. e \<noteq> FE_next \<and> 0xE5 \<notin> set (f_bytes e)) es"
  shows "\<exists>cs. snd (run_events f_step s (FE_trigger # es)) = F_write (f_out s) # cs \<and> list_all only_ack cs"
proof -
  let ?s = "fst (FT12_trigger_cb s)"
  have step: "f_step s FE_trigger = (?s, [F_write (f_out s)])" "mute True ?s"
    using assms by (simp_all add: FT12_trigger_cb_def Let_def mute_def)
  moreover have "list_all (mute_event True) es" using assms(7) by (simp add: mute_event_def list_all_iff)
  ultimately have "list_all only_ack (snd (run_events f_step ?s es))"
    using silent.run_out [of True ?s es] by (auto simp: list_all_iff)
  with step(1) show ?thesis unfolding run_events_Cons by (simp del: f_step.simps)
qed

theorem ft12_no_repetition_witness:
  "\<exists>cs. snd (run_events f_step (fst (FT12_send_Data (fst (FT12_start FT12wrap_new)) [7]))
     [FE_trigger, FE_timer, FE_sendtimer, FE_trigger]) = F_write (ft12_frame 0x73 [7]) # cs \<and> list_all only_ack cs"
  using ft12_no_repetition [of "fst (FT12_send_Data (fst (FT12_start FT12wrap_new)) [7])" "[FE_timer, FE_sendtimer, FE_trigger]"]
  by (simp add: FT12_send_Data_def FT12_do_send_Local_def FT12_start_def FT12wrap_new_def f_signal_def ft12_frame_def Let_def
      del: f_step.simps run_events.simps)

end
