(* ===== verification/Emi_Driver_Props.thy ===== *)
theory Emi_Driver_Props
  imports Emi_Driver Ft12_Props
begin

text \<open>
  The EMI drivers: what reaches the link of what the device sends, how often a telegram is transmitted,
  and how the drivers are stopped.
\<close>

section \<open>From the line to the link\<close>

text \<open>The telegram of a data indication.\<close>

definition indication :: "EMI_Common \<Rightarrow> carray \<Rightarrow> l_data_pdu list" where
  "indication m c =
     (if c \<noteq> [] \<and> c ! 0 \<noteq> 0xA0 \<and> c ! 0 \<noteq> fst (getIndTypes m) \<and> c ! 0 = fst (snd (getIndTypes m)) \<and> \<not> m_monitor m
      then (case EMI2lData m c of None \<Rightarrow> [] | Some l \<Rightarrow> [l])
      else [])"

fun m_telegrams :: "m_call \<Rightarrow> l_data_pdu list" where
  "m_telegrams (M_recv_L_Data l) = [l]"
| "m_telegrams _ = []"

fun x_telegrams :: "x_call \<Rightarrow> l_data_pdu list" where
  "x_telegrams (X_up c) = m_telegrams c"
| "x_telegrams _ = []"

fun x_bytes :: "x_event \<Rightarrow> carray" where
  "x_bytes (XE_ft12 e) = f_bytes e"
| "x_bytes _ = []"

text \<open>A driver that is not being closed, and the events that leave it open.\<close>

definition stays_open :: "EMI_Common \<Rightarrow> bool" where
  "stays_open m \<longleftrightarrow> m_next m \<notin> {N_down, N_want_close, N_want_leave}"

fun open_event :: "x_event \<Rightarrow> bool" where
  "open_event (XE_emi ME_start) = False"
| "open_event (XE_emi ME_stop) = False"
| "open_event e = from_outside e"

definition same_config :: "EMI_Common \<Rightarrow> EMI_Common \<Rightarrow> bool" where
  "same_config m m' \<longleftrightarrow> m_version m' = m_version m \<and> m_monitor m' = m_monitor m"

lemma same_config_indication: "same_config m m' \<Longrightarrow> indication m' = indication m"
  by (simp add: same_config_def indication_def getIndTypes_def EMI2lData_def is_CEMI_def fun_eq_iff)

lemma same_config_trans: "same_config m m' \<Longrightarrow> same_config m' m'' \<Longrightarrow> same_config m m''"
  by (simp add: same_config_def)

text \<open>A step of the EMI driver that leaves it open, and the telegrams it passes on.\<close>

definition harmless_open :: "m_call \<Rightarrow> bool" where
  "harmless_open c \<longleftrightarrow> (case down_event c of None \<Rightarrow> True | Some e \<Rightarrow> f_listens e)"

definition good_step :: "EMI_Common \<Rightarrow> l_data_pdu list \<Rightarrow> m_result \<Rightarrow> bool" where
  "good_step m ls x \<longleftrightarrow> same_config m (fst x) \<and> stays_open (fst x) \<and> list_all harmless_open (snd x) \<and> collect m_telegrams (snd x) = ls"

lemma send_Local_good:
  assumes "stays_open m'" "same_config m m'" "d \<noteq> [0xE5]"
  shows "good_step m [] (send_Local d m')"
  using assms by (simp add: good_step_def send_Local_def harmless_open_def same_config_def stays_open_def)

lemma EMI_Common_started_good:
  assumes "stays_open m'" "same_config m m'"
  shows "good_step m [] (EMI_Common_started m')"
proof -
  have m: "stays_open (m'\<lparr>m_next := n\<rparr>) = (n \<notin> {N_down, N_want_close, N_want_leave})"
    "same_config m (m'\<lparr>m_next := n\<rparr>) = same_config m m'" for n
    by (simp_all add: stays_open_def same_config_def)
  have "good_step m [] (m', [M_started])" "good_step m [] (m', [M_errored, M_stopped])"
    using assms by (simp_all add: good_step_def harmless_open_def)
  then show ?thesis
    using assms
    by (simp add: EMI_Common_started_def cmdEnterMonitor_def cmdOpen_def send_Local_good m emi2_reset_layer_def split: EMIVer.split)
qed

lemma sendLocal_done_good:
  assumes "stays_open m'" "same_config m m'"
  shows "good_step m [] (sendLocal_done_cb b m')"
proof -
  have m: "stays_open (m'\<lparr>m_next := n\<rparr>) = (n \<notin> {N_down, N_want_close, N_want_leave})"
    "same_config m (m'\<lparr>m_next := n\<rparr>) = same_config m m'" for n
    by (simp_all add: stays_open_def same_config_def)
  have "good_step m [] (m', [M_started])" "good_step m [] (m', [M_errored, M_stopped])" "good_step m [] (m', [])"
    using assms by (simp_all add: good_step_def harmless_open_def)
  moreover have "m_next m' \<noteq> N_down" using assms by (simp add: stays_open_def)
  ultimately show ?thesis
    using assms EMI_Common_started_good [OF assms]
    by (simp add: sendLocal_done_cb_def send_Local_good m split: done_next.split EMIVer.split)
qed

lemma m_step_good:
  assumes "stays_open m" "e \<noteq> ME_start" "e \<noteq> ME_stop"
  shows "good_step m (case e of ME_recv c \<Rightarrow> indication m c | _ \<Rightarrow> []) (m_step m e)"
proof -
  have upd: "stays_open m' \<and> same_config m m'" if "m_next m' = m_next m" "m_version m' = m_version m" "m_monitor m' = m_monitor m" for m'
    using that assms(1) by (simp add: stays_open_def same_config_def)
  have nx: "m_next m \<noteq> N_want_close" "m_next m \<noteq> N_want_leave" using assms(1) by (auto simp: stays_open_def)
  show ?thesis
  proof (cases e)
    case ME_started
    then show ?thesis
      using EMI_Common_started_good [of m m] upd [of m] upd
      by (simp add: EMI_started_def good_step_def harmless_open_def)
  next
    case (ME_send l)
    then show ?thesis
      using upd
      by (simp add: EMI_send_L_Data_def EMI_send_Data_def good_step_def harmless_open_def split: option.split)
  next
    case ME_next
    then show ?thesis
      using upd nx EMI_Common_started_good sendLocal_done_good
      by (simp add: EMI_send_Next_def EMI_do_send_Next_def EMI_Common_do_send_Next_def)
        (simp add: good_step_def harmless_open_def)
  next
    case (ME_recv c)
    then show ?thesis
      using upd
      by (auto simp: EMI_recv_Data_def indication_def good_step_def harmless_open_def Let_def split: option.split)
  next
    case ME_timeout
    then show ?thesis
      using upd
      by (simp add: EMI_timeout_cb_def EMI_send_Data_def good_step_def harmless_open_def Let_def split: E_state.split)
  next
    case ME_local_timeout
    then show ?thesis
      using upd sendLocal_done_good [of _ m False] by (simp add: local_timeout_cb_def) (simp add: good_step_def)
  next
    case ME_reset_timer
    then show ?thesis using upd by (simp add: reset_timer_cb_def good_step_def harmless_open_def)
  qed (use assms in simp_all)
qed

text \<open>Events of \<open>FT12wrap\<close> that come from above: they bring no bytes and pass nothing on.\<close>

definition expands :: "FT12wrap \<Rightarrow> f_event list \<Rightarrow> FT12wrap \<Rightarrow> bool" where
  "expands s fs s' \<longleftrightarrow> list_all f_listens fs \<and> concat (map f_bytes fs) = [] \<and>
     fst (run_events f_step s fs) = s' \<and> collect f_delivered (snd (run_events f_step s fs)) = []"

lemma expands_Nil: "expands s [] s"
  by (simp add: expands_def)

lemma expands_trans: "expands s fs s' \<Longrightarrow> expands s' gs s'' \<Longrightarrow> expands s (fs @ gs) s''"
  by (auto simp: expands_def run_events_append case_prod_beta Let_def)

lemma line_call_telegrams: "collect x_telegrams (collect line_call cs) = []"
proof (induction cs)
  case (Cons c cs)
  then show ?case by (cases c) simp_all
qed simp

lemma down_event_expands:
  assumes "down_event c = Some e" "f_listens e"
  shows "expands s [e] (fst (f_step s e))"
proof -
  have "collect f_delivered (snd (FT12_do_send_Local raw s l)) = []" for raw l
    by (simp add: FT12_do_send_Local_def Let_def)
  then show ?thesis
    using assms by (cases c) (auto simp: expands_def case_prod_beta FT12_send_Data_def FT12_sendReset_def)
qed

lemma emi_calls_expands:
  "list_all harmless_open cs \<Longrightarrow> (\<exists>fs. expands s fs (fst (emi_calls cs s))) \<and>
     collect x_telegrams (snd (emi_calls cs s)) = collect m_telegrams cs"
proof (induction cs arbitrary: s)
  case Nil
  then show ?case using expands_Nil by auto
next
  case (Cons c cs)
  show ?case
  proof (cases "down_event c")
    case None
    with Cons show ?thesis by simp
  next
    case (Some e)
    then have e: "f_listens e" "m_telegrams c = []" using Cons.prems by (cases c; simp add: harmless_open_def)+
    obtain fs where "expands (fst (f_step s e)) fs (fst (emi_calls cs (fst (f_step s e))))"
      using Cons by auto
    from expands_trans [OF down_event_expands [OF Some e(1)] this] Cons e Some
    show ?thesis by (auto simp: Let_def line_call_telegrams simp del: f_step.simps)
  qed
qed

text \<open>A step of the stack in which the FT1.2 part passed \<open>ds\<close> on.\<close>

definition relays :: "EMI_Common \<Rightarrow> FT12wrap \<Rightarrow> carray list \<Rightarrow> x_result \<Rightarrow> bool" where
  "relays m s ds x \<longleftrightarrow> same_config m (fst (fst x)) \<and> stays_open (fst (fst x)) \<and>
     (\<exists>fs. expands s fs (snd (fst x))) \<and> collect x_telegrams (snd x) = collect (indication m) ds"

lemma emi_event_relays:
  assumes "stays_open m" "e \<noteq> ME_start" "e \<noteq> ME_stop"
  shows "relays m s (case e of ME_recv c \<Rightarrow> [c] | _ \<Rightarrow> []) (emi_event e (m, s))"
proof -
  note good = m_step_good [OF assms, unfolded good_step_def]
  have "list_all harmless_open (snd (m_step m e))" using good by blast
  from emi_calls_expands [OF this, of s] good
  show ?thesis by (cases e) (auto simp: relays_def emi_event_def Let_def simp del: m_step.simps)
qed

lemma relays_trans:
  assumes "relays m s ds x" "relays (fst (fst x)) (snd (fst x)) ds' y"
  shows "relays m s (ds @ ds') (fst y, snd x @ snd y)"
proof -
  have "indication (fst (fst x)) = indication m" using assms(1) same_config_indication by (simp add: relays_def)
  with assms show ?thesis
    by (auto simp: relays_def intro: same_config_trans expands_trans)
qed

lemma relays_line: "stays_open m \<Longrightarrow> relays m s [] ((m, s), line_call c)"
  using line_call_telegrams [of "[c]"] expands_Nil by (auto simp: relays_def same_config_def)

lemma ft12_calls_relays:
  "stays_open m \<Longrightarrow> relays m s (collect f_delivered cs) (ft12_calls cs (m, s))"
proof (induction cs arbitrary: m s)
  case Nil
  then show ?case using expands_Nil by (auto simp: relays_def same_config_def)
next
  case (Cons c cs)
  let ?x = "case c of F_recv d \<Rightarrow> emi_event (ME_recv d) (m, s) | F_send_Next \<Rightarrow> emi_event ME_next (m, s)
    | _ \<Rightarrow> ((m, s), line_call c)"
  have x: "relays m s (f_delivered c) ?x"
    using Cons.prems emi_event_relays [of m "ME_recv _" s] emi_event_relays [of m ME_next s] relays_line [of m s c]
    by (cases c) simp_all
  then have "stays_open (fst (fst ?x))" by (simp add: relays_def)
  from relays_trans [OF x Cons.IH [OF this, of "snd (fst ?x)"]] show ?case by (simp add: Let_def)
qed

text \<open>A run of the stack is, for its FT1.2 part, a run with the calls from above as further events.\<close>

lemma run_relays:
  assumes "stays_open m" "list_all open_event es"
  shows "\<exists>fs. list_all f_listens fs \<and> concat (map f_bytes fs) = concat (map x_bytes es) \<and>
    collect x_telegrams (snd (run_events x_step (m, s) es)) =
      collect (indication m) (collect f_delivered (snd (run_events f_step s fs)))"
  using assms
proof (induction es arbitrary: m s)
  case Nil
  show ?case by (intro exI [of _ "[]"]) simp
next
  case (Cons e es)
  obtain m' s' where x: "fst (x_step (m, s) e) = (m', s')" by force
  obtain f fs where first: "list_all f_listens (f @ fs)" "concat (map f_bytes (f @ fs)) = x_bytes e"
    "fst (run_events f_step s (f @ fs)) = s'" "same_config m m'" "stays_open m'"
    "collect x_telegrams (snd (x_step (m, s) e)) = collect (indication m) (collect f_delivered (snd (run_events f_step s (f @ fs))))"
  proof (cases e)
    case (XE_emi a)
    then have "a \<noteq> ME_start" "a \<noteq> ME_stop" "\<forall>c. a \<noteq> ME_recv c" using Cons.prems(2) by auto
    then have "relays m s [] (emi_event a (m, s))"
      using emi_event_relays [OF Cons.prems(1), of a s] by (cases a) simp_all
    then obtain fs where "expands s fs s'" "same_config m m'" "stays_open m'"
      "collect x_telegrams (snd (x_step (m, s) e)) = []"
      using x XE_emi by (auto simp: relays_def)
    then show ?thesis using XE_emi by (intro that [of "[]" fs]) (simp_all add: expands_def)
  next
    case (XE_ft12 a)
    let ?y = "f_step s a"
    have "relays m (fst ?y) (collect f_delivered (snd ?y)) (x_step (m, s) e)"
      using ft12_calls_relays [OF Cons.prems(1)] XE_ft12 by (simp add: Let_def del: f_step.simps)
    then obtain fs where fs: "expands (fst ?y) fs s'" "same_config m m'" "stays_open m'"
      "collect x_telegrams (snd (x_step (m, s) e)) = collect (indication m) (collect f_delivered (snd ?y))"
      using x by (auto simp: relays_def)
    moreover have "f_listens a" using Cons.prems(2) XE_ft12 by (cases a) simp_all
    ultimately show ?thesis
      using XE_ft12 by (intro that [of "[a]" fs]) (simp_all add: expands_def run_events_append case_prod_beta Let_def del: f_step.simps)
  qed
  obtain gs where rest: "list_all f_listens gs" "concat (map f_bytes gs) = concat (map x_bytes es)"
    "collect x_telegrams (snd (run_events x_step (m', s') es)) =
      collect (indication m') (collect f_delivered (snd (run_events f_step s' gs)))"
    using Cons.IH [OF first(5)] Cons.prems(2) by auto
  have run: "snd (run_events f_step s ((f @ fs) @ gs)) = snd (run_events f_step s (f @ fs)) @ snd (run_events f_step s' gs)"
    using first(3) unfolding run_events_append [of f_step s "f @ fs" gs] by (simp add: case_prod_beta Let_def)
  have "collect x_telegrams (snd (run_events x_step (m, s) (e # es))) =
      collect (indication m) (collect f_delivered (snd (run_events f_step s ((f @ fs) @ gs))))"
    unfolding run_events_Cons run x collect_simps first(6) rest(3) same_config_indication [OF first(4)] ..
  then show ?case using first(1,2) rest(1,2) by (intro exI [of _ "(f @ fs) @ gs"]) simp
qed

text \<open>
  \<^bold>\<open>C8\<close>: from the line to the link.  While the driver stays open, a device that sends its frames in
  sequence, repeating them as often as it likes, gets every telegram of a data indication passed to the
  link exactly once and in order: however the bytes are cut into reads, and whatever the link sends, the
  timers do and the device acknowledges in between.
\<close>

theorem ft12_stack_receives:
  assumes "stays_open m" and "receiving s []" and "list_all open_event es"
    and "list_all wf_item is" and "concat (map x_bytes es) = concat (map item_bytes is)"
    and "filter (\<lambda>i. i \<noteq> Ft_ack) is = device_frames (f_recvflag s) xs"
  shows "collect x_telegrams (snd (run_events x_step (m, s) es)) = collect (indication m) (map fst xs)"
proof -
  obtain fs where fs: "list_all f_listens fs" "concat (map f_bytes fs) = concat (map x_bytes es)"
    "collect x_telegrams (snd (run_events x_step (m, s) es)) =
      collect (indication m) (collect f_delivered (snd (run_events f_step s fs)))"
    using run_relays [OF assms(1,3)] by blast
  have "receiving s is" "f_akt s = []" using assms(2,4) by (auto simp: receiving_def part_of_def)
  then have "collect f_delivered (snd (run_events f_step s fs)) = snd (run_events receiver (rv s) is)"
    using run_digests [of s "is" fs] fs(1,2) assms(5) by simp
  also have "\<dots> = map fst xs"
    using receiver_acks [of "rv s" "is"] assms(6) receiver_frames [of "f_recvflag s" "f_last s" xs] by simp
  finally show ?thesis by (simp add: fs(3))
qed

definition sample_indication :: carray where
  "sample_indication = [0x29, 0, 0xBC, 0xE0, 0x11, 0x01, 0x0A, 0x03, 0x01, 0x00, 0x81]"

theorem ft12_stack_receives_witness:
  "collect x_telegrams (snd (run_events x_step (EMI_new vFT12CEMI [] False 3, fst (FT12_start FT12wrap_new))
     [XE_ft12 (FE_bytes (take 5 (ft12_frame 0xF3 sample_indication))),
      XE_ft12 (FE_bytes (drop 5 (ft12_frame 0xF3 sample_indication)))])) =
   collect (indication (EMI_new vFT12CEMI [] False 3)) [sample_indication]"
proof -
  let ?es = "[XE_ft12 (FE_bytes (take 5 (ft12_frame 0xF3 sample_indication))),
      XE_ft12 (FE_bytes (drop 5 (ft12_frame 0xF3 sample_indication)))]"
  have "f_recvflag (fst (FT12_start FT12wrap_new)) = False" by (simp add: FT12_start_def FT12wrap_new_def)
  moreover have "stays_open (EMI_new vFT12CEMI [] False 3)" by (simp add: stays_open_def EMI_new_def)
  ultimately show ?thesis
    using ft12_stack_receives [OF _ started_receiving, of "EMI_new vFT12CEMI [] False 3" ?es "[Ft_data False sample_indication]"
        "[(sample_indication, 0)]"]
    by (simp add: device_ctl_def sample_indication_def del: x_step.simps run_events.simps)
qed

section \<open>Transmissions\<close>

fun m_sends :: "m_call \<Rightarrow> carray list" where
  "m_sends (M_send c) = [c]"
| "m_sends _ = []"

definition waiting_emi :: "EMI_Common \<Rightarrow> bool" where
  "waiting_emi m \<longleftrightarrow> m_state m = E_wait \<or> m_state m = E_wait_confirm"

definition tries_left :: "EMI_Common \<Rightarrow> nat" where
  "tries_left m = (if waiting_emi m then m_max_retries m - m_retries m else 0)"

text \<open>Everything but the telegrams leaves their state alone.\<close>

definition same_sending :: "EMI_Common \<Rightarrow> m_result \<Rightarrow> bool" where
  "same_sending m x \<longleftrightarrow> m_state (fst x) = m_state m \<and> m_out (fst x) = m_out m \<and> m_retries (fst x) = m_retries m \<and>
     m_max_retries (fst x) = m_max_retries m \<and> m_timeout (fst x) = m_timeout m \<and> collect m_sends (snd x) = []"

lemma control_same_sending:
  "same_sending m (EMI_Common_started m)" "same_sending m (cmdClose m)" "same_sending m (cmdLeaveMonitor m)"
  "same_sending m (sendLocal_done_cb b m)"
proof -
  have l: "same_sending m (send_Local d (m\<lparr>m_next := n\<rparr>))" for d n by (simp add: same_sending_def send_Local_def)
  have o: "same_sending m (m, [])" "same_sending m (m, [M_started])" "same_sending m (m, [M_errored, M_stopped])"
    "same_sending m (m, [M_stopped])" "same_sending m (m, [M_iface_stop])" "same_sending m (m\<lparr>m_next := n\<rparr>, [])" for n
    by (simp_all add: same_sending_def)
  show started: "same_sending m (EMI_Common_started m)"
    by (simp add: EMI_Common_started_def cmdEnterMonitor_def cmdOpen_def l o split: EMIVer.split)
  show "same_sending m (cmdClose m)" "same_sending m (cmdLeaveMonitor m)"
    by (simp_all add: cmdClose_def cmdLeaveMonitor_def l o)
  show "same_sending m (sendLocal_done_cb b m)"
    by (simp add: sendLocal_done_cb_def l o started split: done_next.split EMIVer.split)
qed

lemma same_sending_upd:
  assumes "same_sending (m\<lparr>m_local_timeout := a, m_is_local := b\<rparr>) x \<or> same_sending (m\<lparr>m_after_reset := a, m_reset_timer := b\<rparr>) x \<or>
    same_sending (m\<lparr>m_wait_confirm_low := a\<rparr>) x"
  shows "same_sending m x"
  using assms by (auto simp: same_sending_def)

lemma EMI_send_Next_sending:
  "same_sending m (EMI_send_Next m) \<or>
   EMI_send_Next m = (if m_state m = E_wait then (m\<lparr>m_state := E_wait_confirm\<rparr>, []) else if m_state m = E_idle then (m, [M_send_Next]) else (m, []))"
proof -
  have "same_sending m (sendLocal_done_cb True (m\<lparr>m_local_timeout := False, m_is_local := False\<rparr>))"
    "same_sending m (EMI_Common_started (m\<lparr>m_after_reset := False, m_reset_timer := False\<rparr>))"
    "same_sending m (cmdClose (m\<lparr>m_wait_confirm_low := False\<rparr>))" "same_sending m (cmdLeaveMonitor (m\<lparr>m_wait_confirm_low := False\<rparr>))"
    by (rule same_sending_upd, use control_same_sending in blast)+
  then show ?thesis
    by (simp add: EMI_send_Next_def EMI_do_send_Next_def EMI_Common_do_send_Next_def)
qed

lemma other_same_sending:
  "same_sending m (EMI_started m)" "same_sending m (EMI_stop m)" "same_sending m (local_timeout_cb m)"
  "same_sending m (reset_timer_cb m)"
proof -
  show "same_sending m (EMI_started m)" using control_same_sending(1) [of m] by (simp add: EMI_started_def same_sending_def)
  show "same_sending m (EMI_stop m)" using control_same_sending by (simp add: EMI_stop_def)
  show "same_sending m (local_timeout_cb m)" unfolding local_timeout_cb_def using control_same_sending(4) same_sending_upd by blast
  show "same_sending m (reset_timer_cb m)" by (simp add: reset_timer_cb_def same_sending_def)
qed

definition repeats_only :: "EMI_Common \<Rightarrow> m_result \<Rightarrow> bool" where
  "repeats_only m x \<longleftrightarrow> m_out (fst x) = m_out m \<and> m_max_retries (fst x) = m_max_retries m \<and>
     (\<exists>n. collect m_sends (snd x) = replicate n (m_out m) \<and> n + tries_left (fst x) \<le> tries_left m)"

lemma same_sending_repeats: "same_sending m x \<Longrightarrow> repeats_only m x"
  by (auto simp: same_sending_def repeats_only_def tries_left_def waiting_emi_def)

lemma m_step_repeats:
  assumes "\<forall>l. e \<noteq> ME_send l"
  shows "repeats_only m (m_step m e)"
proof (cases e)
  case ME_next
  have "repeats_only m (EMI_send_Next m)"
    using EMI_send_Next_sending [of m]
  proof
    assume "same_sending m (EMI_send_Next m)"
    then show ?thesis by (rule same_sending_repeats)
  next
    assume x: "EMI_send_Next m = (if m_state m = E_wait then (m\<lparr>m_state := E_wait_confirm\<rparr>, [])
      else if m_state m = E_idle then (m, [M_send_Next]) else (m, []))"
    show ?thesis unfolding x by (simp add: repeats_only_def tries_left_def waiting_emi_def)
  qed
  with ME_next show ?thesis by simp
next
  case (ME_recv c)
  then show ?thesis
    by (cases "EMI2lData m c") (simp_all add: EMI_recv_Data_def Let_def repeats_only_def tries_left_def waiting_emi_def)
next
  case ME_timeout
  show ?thesis
  proof (cases "m_timeout m \<and> m_state m = E_wait_confirm \<and> m_retries m + 1 \<le> m_max_retries m")
    case True
    then have "m_step m e = (m\<lparr>m_timeout := True, m_retries := m_retries m + 1, m_state := E_wait\<rparr>, [M_send (m_out m)])"
      by (simp add: ME_timeout EMI_timeout_cb_def EMI_send_Data_def Let_def)
    with True show ?thesis
      by (auto simp: repeats_only_def tries_left_def waiting_emi_def intro!: exI [of _ 1])
  next
    case False
    then show ?thesis
      by (cases "m_state m") (auto simp: ME_timeout EMI_timeout_cb_def Let_def repeats_only_def tries_left_def waiting_emi_def)
  qed
next
  case ME_start
  then show ?thesis by (simp add: EMI_start_def repeats_only_def tries_left_def waiting_emi_def)
next
  case (ME_send l)
  with assms show ?thesis by simp
next
  case ME_started
  then show ?thesis using same_sending_repeats [OF other_same_sending(1)] by simp
next
  case ME_stop
  then show ?thesis using same_sending_repeats [OF other_same_sending(2)] by simp
next
  case ME_local_timeout
  then show ?thesis
    using same_sending_repeats [OF other_same_sending(3)] by (simp add: same_sending_repeats same_sending_def)
next
  case ME_reset_timer
  then show ?thesis
    using same_sending_repeats [OF other_same_sending(4)] by (simp add: same_sending_repeats same_sending_def)
qed

lemma run_repeats: "list_all (\<lambda>e. \<forall>l. e \<noteq> ME_send l) es \<Longrightarrow> repeats_only m (run_events m_step m es)"
proof (induction es arbitrary: m)
  case (Cons e es)
  have "repeats_only m (m_step m e)" "repeats_only (fst (m_step m e)) (run_events m_step (fst (m_step m e)) es)"
    using Cons m_step_repeats by simp_all
  then obtain a b where "m_out (fst (m_step m e)) = m_out m" "collect m_sends (snd (m_step m e)) = replicate a (m_out m)"
    "collect m_sends (snd (run_events m_step (fst (m_step m e)) es)) = replicate b (m_out m)"
    "a + tries_left (fst (m_step m e)) \<le> tries_left m"
    "b + tries_left (fst (run_events m_step (fst (m_step m e)) es)) \<le> tries_left (fst (m_step m e))"
    "m_out (fst (run_events m_step (fst (m_step m e)) es)) = m_out m"
    "m_max_retries (fst (run_events m_step (fst (m_step m e)) es)) = m_max_retries m"
    by (auto simp: repeats_only_def)
  then show ?case
    unfolding repeats_only_def run_events_Cons by (auto simp: replicate_add intro!: exI [of _ "a + b"])
qed (simp add: repeats_only_def exI [of _ 0])

text \<open>
  A telegram that an idle driver accepts is handed to the device at least once and at most
  \<open>send-retries\<close> + 1 times, always as the same packet, whatever the device answers and however the timers
  run, until the next telegram comes.
\<close>

theorem emi_retry_bound:
  assumes "m_state m = E_idle" and "1 \<le> length (l_data l)" and "length (l_data l) \<le> maxPacketLen m"
    and "lData2EMI m 0x11 l = Some pdu" and "list_all (\<lambda>e. \<forall>l. e \<noteq> ME_send l) es"
  shows "\<exists>n. 1 \<le> n \<and> n \<le> m_max_retries m + 1 \<and>
    collect m_sends (snd (run_events m_step m (ME_send l # es))) = replicate n pdu"
proof -
  let ?m = "m\<lparr>m_out := pdu, m_retries := 0, m_state := E_wait, m_timeout := True\<rparr>"
  have step: "m_step m (ME_send l) = (?m, [M_send pdu])"
    using assms(1-4) by (auto simp: EMI_send_L_Data_def EMI_send_Data_def)
  obtain n where "collect m_sends (snd (run_events m_step ?m es)) = replicate n pdu" "n \<le> m_max_retries m"
    using run_repeats [OF assms(5), of ?m] by (auto simp: repeats_only_def tries_left_def waiting_emi_def)
  with step show ?thesis
    unfolding run_events_Cons by (intro exI [of _ "n + 1"]) simp
qed

theorem emi_retry_bound_witness:
  "\<exists>n. 1 \<le> n \<and> n \<le> 4 \<and> collect m_sends (snd (run_events m_step (EMI_new vEMI2 [] False 3)
     [ME_send (L_Data_new\<lparr>l_data := [0, 0x81]\<rparr>), ME_next, ME_timeout, ME_next, ME_timeout])) =
     replicate n (L_Data_ToEMI 0x11 (L_Data_new\<lparr>l_data := [0, 0x81]\<rparr>))"
  using emi_retry_bound [of "EMI_new vEMI2 [] False 3" "L_Data_new\<lparr>l_data := [0, 0x81]\<rparr>"
      "L_Data_ToEMI 0x11 (L_Data_new\<lparr>l_data := [0, 0x81]\<rparr>)" "[ME_next, ME_timeout, ME_next, ME_timeout]"]
  by (simp add: EMI_new_def maxPacketLen_def is_CEMI_def lData2EMI_def del: m_step.simps run_events.simps)

section \<open>Every telegram ends\<close>

definition timed :: "EMI_Common \<Rightarrow> bool" where
  "timed m \<longleftrightarrow> (waiting_emi m \<longrightarrow> m_timeout m)"

lemma same_sending_timed: "same_sending m x \<Longrightarrow> timed m \<Longrightarrow> timed (fst x)"
  by (simp add: same_sending_def timed_def waiting_emi_def)

lemma m_step_timed:
  assumes "timed m"
  shows "timed (fst (m_step m e)) \<and> m_max_retries (fst (m_step m e)) = m_max_retries m"
proof -
  have same: ?thesis if "same_sending m (m_step m e)"
    using that assms same_sending_timed by (simp add: same_sending_def)
  show ?thesis
  proof (cases e)
    case ME_next
    show ?thesis
      using EMI_send_Next_sending [of m]
    proof
      assume "same_sending m (EMI_send_Next m)"
      then show ?thesis using same ME_next by simp
    next
      assume x: "EMI_send_Next m = (if m_state m = E_wait then (m\<lparr>m_state := E_wait_confirm\<rparr>, [])
        else if m_state m = E_idle then (m, [M_send_Next]) else (m, []))"
      show ?thesis using assms by (simp add: ME_next x timed_def waiting_emi_def)
    qed
  next
    case (ME_send l)
    then show ?thesis
      using assms by (simp add: EMI_send_L_Data_def EMI_send_Data_def timed_def waiting_emi_def split: option.split)
  next
    case (ME_recv c)
    then show ?thesis using assms by (simp add: EMI_recv_Data_def Let_def timed_def waiting_emi_def)
  next
    case ME_timeout
    then show ?thesis
      using assms by (cases "m_state m") (simp_all add: EMI_timeout_cb_def EMI_send_Data_def Let_def timed_def waiting_emi_def)
  next
    case ME_start
    then show ?thesis using assms by (simp add: EMI_start_def timed_def waiting_emi_def)
  next
    case ME_local_timeout
    then show ?thesis using same other_same_sending(3) [of m] assms by (cases "m_local_timeout m") simp_all
  next
    case ME_reset_timer
    then show ?thesis using same other_same_sending(4) [of m] assms by (cases "m_reset_timer m") simp_all
  qed (use same other_same_sending in simp_all)
qed

interpretation emi: event_machine m_step "\<lambda>_. True" timed "\<lambda>_. True"
  using m_step_timed by unfold_locales blast+

lemma run_max_retries: "timed m \<Longrightarrow> m_max_retries (fst (run_events m_step m es)) = m_max_retries m"
proof (induction es arbitrary: m)
  case (Cons e es)
  then show ?case unfolding run_events_Cons using m_step_timed [OF Cons.prems, of e] by simp
qed simp

abbreviation ended :: "m_call list \<Rightarrow> bool" where
  "ended cs \<equiv> M_send_Next \<in> set cs \<or> M_errored \<in> set cs"

lemma timeout_round:
  assumes "timed m" "waiting_emi m"
  shows "ended (snd (m_step m ME_timeout)) \<or>
    (let m' = fst (m_step (fst (m_step m ME_timeout)) ME_next)
     in waiting_emi m' \<and> timed m' \<and> m_retries m < m_max_retries m \<and> m_retries m' = m_retries m + 1 \<and> m_max_retries m' = m_max_retries m)"
proof (cases "m_state m = E_wait_confirm \<and> m_retries m < m_max_retries m")
  case True
  let ?m = "m\<lparr>m_timeout := True, m_retries := m_retries m + 1, m_state := E_wait\<rparr>"
  have "fst (m_step m ME_timeout) = ?m"
    using True assms by (simp add: EMI_timeout_cb_def EMI_send_Data_def Let_def timed_def)
  moreover have "timed ?m" "waiting_emi (fst (EMI_send_Next ?m)) \<and> m_retries (fst (EMI_send_Next ?m)) = m_retries ?m"
    using EMI_send_Next_sending [of ?m] by (auto simp: timed_def waiting_emi_def same_sending_def)
  ultimately show ?thesis
    using m_step_timed [of ?m ME_next] True by (simp add: Let_def)
next
  case False
  then show ?thesis
    using assms by (auto simp: EMI_timeout_cb_def Let_def timed_def waiting_emi_def)
qed

lemma rounds_end:
  assumes "timed m" "waiting_emi m" "m_max_retries m - m_retries m \<le> n"
  shows "ended (snd (run_events m_step m (concat (replicate (Suc n) [ME_timeout, ME_next]))))"
  using assms
proof (induction n arbitrary: m)
  case 0
  then show ?case using timeout_round [of m] by (auto simp: run_events_Cons Let_def simp del: run_events.simps m_step.simps)
next
  case (Suc n)
  let ?m = "fst (m_step (fst (m_step m ME_timeout)) ME_next)"
  have "ended (snd (m_step m ME_timeout)) \<or>
      ended (snd (run_events m_step ?m (concat (replicate (Suc n) [ME_timeout, ME_next]))))"
    using timeout_round [OF Suc.prems(1,2)] Suc.IH [of ?m] Suc.prems(3) by (auto simp: Let_def simp del: m_step.simps)
  then show ?case
    by (auto simp: run_events_Cons replicate_Suc [of "Suc n"] simp del: run_events.simps m_step.simps replicate.simps)
qed

text \<open>
  \<^bold>\<open>C30\<close>: no telegram is forgotten.  Whenever the driver waits for the device, its timer runs, and after at
  most \<open>send-retries\<close> + 1 expirations of it, even when the device takes every repetition and never
  confirms, the link above is told to go on or gets an error.
\<close>

theorem emi_telegram_ends:
  assumes "waiting_emi (fst (run_events m_step (EMI_new ver beyond monitor n) es))"
  shows "m_timeout (fst (run_events m_step (EMI_new ver beyond monitor n) es)) \<and>
    ended (snd (run_events m_step (fst (run_events m_step (EMI_new ver beyond monitor n) es))
      (concat (replicate (Suc n) [ME_timeout, ME_next]))))"
proof -
  let ?m = "fst (run_events m_step (EMI_new ver beyond monitor n) es)"
  have new: "timed (EMI_new ver beyond monitor n)" by (simp add: timed_def waiting_emi_def EMI_new_def)
  then have "timed ?m" by (rule emi.run_inv) (simp add: list_all_iff)
  moreover have "m_max_retries ?m = n" using run_max_retries [OF new] by (simp add: EMI_new_def)
  ultimately show ?thesis using rounds_end [of ?m n] assms by (simp add: timed_def del: replicate.simps)
qed

theorem emi_telegram_ends_witness:
  "ended (snd (run_events m_step
     (fst (run_events m_step (EMI_new vEMI1 [] False 1) [ME_send (L_Data_new\<lparr>l_data := [0, 0x81]\<rparr>)]))
     [ME_timeout, ME_next, ME_timeout, ME_next]))"
proof -
  have "waiting_emi (fst (run_events m_step (EMI_new vEMI1 [] False 1) [ME_send (L_Data_new\<lparr>l_data := [0, 0x81]\<rparr>)]))"
    by (simp add: waiting_emi_def EMI_new_def EMI_send_L_Data_def EMI_send_Data_def lData2EMI_def is_CEMI_def maxPacketLen_def)
  from emi_telegram_ends [OF this] show ?thesis by (simp add: numeral_eq_Suc del: m_step.simps run_events.simps)
qed

section \<open>Stopping\<close>

text \<open>
  Stopping an EMI1 or EMI2 driver while one of the commands that open it is still under way fails
  an assertion: \<open>stop\<close> sends the closing command at once, and \<open>send_Local\<close> allows one command at a time.
\<close>

theorem emi_stop_while_opening_aborts:
  "M_abort \<in> set (snd (run_events m_step (EMI_new vEMI1 beyond monitor n) [ME_start, ME_started, ME_stop])) \<and>
   M_abort \<in> set (snd (run_events m_step (EMI_new vEMI2 beyond monitor n) [ME_start, ME_started, ME_next, ME_stop]))"
  by (simp add: EMI_new_def EMI_start_def EMI_started_def EMI_Common_started_def cmdOpen_def cmdEnterMonitor_def
      EMI_stop_def cmdClose_def cmdLeaveMonitor_def send_Local_def EMI_send_Next_def EMI_do_send_Next_def is_CEMI_def)

lemma send_Local_no_stop: "M_iface_stop \<notin> set (snd (send_Local d m))"
  by (simp add: send_Local_def)

lemma started_no_stop: "M_iface_stop \<notin> set (snd (EMI_Common_started m))"
  by (simp add: EMI_Common_started_def cmdEnterMonitor_def cmdOpen_def send_Local_no_stop split: EMIVer.split)

lemma cemi_no_iface_stop:
  assumes "is_CEMI m"
  shows "M_iface_stop \<notin> set (snd (m_step m e)) \<and> is_CEMI (fst (m_step m e))"
proof -
  have ver: "m_version (fst (m_step m e)) = m_version m"
  proof (cases e)
    case (ME_recv c)
    then show ?thesis by (simp add: EMI_recv_Data_def Let_def)
  qed (auto simp: EMI_start_def EMI_started_def EMI_stop_def EMI_Common_started_def cmdOpen_def cmdEnterMonitor_def
      cmdClose_def cmdLeaveMonitor_def send_Local_def sendLocal_done_cb_def local_timeout_cb_def reset_timer_cb_def
      EMI_send_L_Data_def EMI_send_Data_def EMI_send_Next_def EMI_do_send_Next_def EMI_Common_do_send_Next_def EMI_timeout_cb_def Let_def
      split: EMIVer.split done_next.split E_state.split option.split)
  have finish: "M_iface_stop \<notin> set (snd (sendLocal_done_cb b m'))" if "is_CEMI m'" for b m'
    using that started_no_stop by (auto simp: sendLocal_done_cb_def send_Local_no_stop split: done_next.split EMIVer.split)
  have "M_iface_stop \<notin> set (snd (m_step m e))"
  proof (cases e)
    case (ME_recv c)
    then show ?thesis by (cases "EMI2lData m c") (simp_all add: EMI_recv_Data_def Let_def)
  next
    case ME_next
    then show ?thesis
      using assms finish [of "m\<lparr>m_local_timeout := False, m_is_local := False\<rparr>" True] started_no_stop
      by (auto simp: EMI_send_Next_def EMI_do_send_Next_def EMI_Common_do_send_Next_def is_CEMI_def)
  next
    case ME_local_timeout
    then show ?thesis
      using assms finish [of "m\<lparr>m_local_timeout := False, m_is_local := False\<rparr>" False]
      by (simp add: local_timeout_cb_def is_CEMI_def)
  qed (use assms started_no_stop in \<open>auto simp: EMI_start_def EMI_started_def EMI_stop_def cmdClose_def cmdLeaveMonitor_def
      reset_timer_cb_def EMI_send_L_Data_def EMI_send_Data_def EMI_timeout_cb_def Let_def
      split: E_state.split option.split\<close>)
  with ver assms show ?thesis by (simp add: is_CEMI_def)
qed

definition line_open :: "x_call list \<Rightarrow> bool" where
  "line_open cs \<longleftrightarrow> X_close \<notin> set cs"

lemma emi_calls_line_open:
  "M_iface_stop \<notin> set cs \<Longrightarrow> line_open (snd (emi_calls cs s))"
proof (induction cs arbitrary: s)
  case (Cons c cs)
  have loc: "set (snd (FT12_do_send_Local raw s l)) \<subseteq> {F_abort}" for raw l
    by (simp add: FT12_do_send_Local_def Let_def)
  have "X_close \<notin> set (collect line_call (snd (f_step s e)))" if "down_event c = Some e" for e
  proof -
    have "F_iface_stop \<notin> set (snd (f_step s e))"
      using that Cons.prems loc by (cases c) (fastforce simp: FT12_send_Data_def FT12_sendReset_def FT12_start_def)+
    moreover have "X_close \<in> set (line_call x) \<Longrightarrow> x = F_iface_stop" for x by (cases x) simp_all
    ultimately show ?thesis by (auto simp: collect_def)
  qed
  with Cons show ?case by (auto simp: line_open_def Let_def split: option.split simp del: f_step.simps)
qed (simp add: line_open_def)

lemma emi_event_line_open:
  "is_CEMI (fst w) \<Longrightarrow> is_CEMI (fst (fst (emi_event e w))) \<and> line_open (snd (emi_event e w))"
  using cemi_no_iface_stop [of "fst w" e] emi_calls_line_open by (simp add: emi_event_def Let_def)

lemma ft12_calls_line_open:
  "is_CEMI (fst w) \<Longrightarrow> F_iface_stop \<notin> set cs \<Longrightarrow> is_CEMI (fst (fst (ft12_calls cs w))) \<and> line_open (snd (ft12_calls cs w))"
proof (induction cs arbitrary: w)
  case (Cons c cs)
  let ?x = "case c of F_recv d \<Rightarrow> emi_event (ME_recv d) w | F_send_Next \<Rightarrow> emi_event ME_next w | _ \<Rightarrow> (w, line_call c)"
  have "is_CEMI (fst (fst ?x)) \<and> line_open (snd ?x)"
    using Cons.prems emi_event_line_open by (cases c) (simp_all add: line_open_def)
  with Cons.IH [of "fst ?x"] Cons.prems(2) show ?case by (simp add: line_open_def Let_def)
qed (simp add: line_open_def)

lemma read_loop_no_stop: "F_iface_stop \<notin> set (snd (read_loop b s))"
proof (induction b s rule: read_loop.induct)
  case (1 b s)
  have "F_iface_stop \<notin> set (snd (snd (read_one b s)))"
    by (auto simp: read_one_def read_fixed_def read_variable_def accept_frame_def FT12_do__send_Next_def Let_def)
  with 1 show ?case by (subst read_loop.simps) (auto simp: Let_def)
qed

lemma x_step_line_open:
  assumes "is_CEMI (fst w)" "from_outside e"
  shows "is_CEMI (fst (fst (x_step w e))) \<and> line_open (snd (x_step w e))"
proof (cases e)
  case (XE_ft12 a)
  have "F_iface_stop \<notin> set (snd (f_step (snd w) a))"
    using assms(2) XE_ft12 read_loop_no_stop
    by (cases a) (simp_all add: FT12_recv_Data_def FT12_timer_cb_def FT12_sendtimer_cb_def FT12_trigger_cb_def process_read_def Let_def)
  then show ?thesis using ft12_calls_line_open assms(1) XE_ft12 by (simp add: Let_def del: f_step.simps)
qed (use assms emi_event_line_open in simp)

text \<open>
  A cEMI driver on FT1.2 reports that it has stopped without stopping the layers below: whatever
  happens to it, it never closes the line.
\<close>

theorem cemi_never_closes_line:
  assumes "is_CEMI m" and "list_all from_outside es"
  shows "X_close \<notin> set (snd (run_events x_step (m, s) es)) \<and>
    X_up M_stopped \<in> set (snd (x_step (fst (run_events x_step (m, s) es)) (XE_emi ME_stop)))"
proof -
  have "is_CEMI (fst (fst (run_events x_step w es))) \<and> line_open (snd (run_events x_step w es))"
    if "is_CEMI (fst w)" "list_all from_outside es" for w
    using that
  proof (induction es arbitrary: w)
    case (Cons e es)
    have "is_CEMI (fst (fst (x_step w e))) \<and> line_open (snd (x_step w e))"
      using Cons.prems by (intro x_step_line_open) simp_all
    with Cons show ?case unfolding run_events_Cons by (simp add: line_open_def del: x_step.simps)
  qed (simp add: line_open_def)
  from this [of "(m, s)"] assms
  have "is_CEMI (fst (fst (run_events x_step (m, s) es)))" "line_open (snd (run_events x_step (m, s) es))" by simp_all
  then show ?thesis
    by (simp add: line_open_def emi_event_def EMI_stop_def cmdLeaveMonitor_def cmdClose_def Let_def)
qed

theorem cemi_never_closes_line_witness:
  "X_close \<notin> set (snd (run_events x_step (EMI_new vFT12CEMI [] False 3, FT12wrap_new)
     [XE_emi ME_start, XE_emi ME_started, XE_emi ME_stop, XE_emi ME_start]))"
  using cemi_never_closes_line [of "EMI_new vFT12CEMI [] False 3" "[XE_emi ME_start, XE_emi ME_started, XE_emi ME_stop, XE_emi ME_start]" FT12wrap_new]
  by (simp add: is_CEMI_def EMI_new_def del: x_step.simps run_events.simps)

end
