(* ===== verification/Tpuart.thy ===== *)
theory Tpuart
  imports Lpdu
begin

text \<open>
  The TPUART driver, class \<open>TPUARTwrap\<close> of \<^verbatim>\<open>src/src/backend/tpuart.cpp\<close>, and its variant for the NCN5120
  chip (\<^verbatim>\<open>ncn5120.cpp\<close>).  A handler returns the new state and the calls the code makes, in order: bytes for
  the chip, telegrams and reports for the link above.  Whether the router wants a destination address
  (\<open>checkSysAddress\<close>, \<open>checkSysGroupAddress\<close>) is an argument of the handler.
\<close>

section \<open>State\<close>

datatype TSTATE =
    T_new | T_error | T_start | T_in_reset | T_in_setaddr | T_in_getstate | T_is_online
  | T_wait | T_wait_more | T_wait_keepalive | T_busmonitor

text \<open>The values of the enumeration, for the comparisons.\<close>

fun tval :: "TSTATE \<Rightarrow> nat" where
  "tval T_new = 0"
| "tval T_error = 1"
| "tval T_start = 11"
| "tval T_in_reset = 12"
| "tval T_in_setaddr = 13"
| "tval T_in_getstate = 14"
| "tval T_is_online = 19"
| "tval T_wait = 20"
| "tval T_wait_more = 21"
| "tval T_wait_keepalive = 22"
| "tval T_busmonitor = 30"

text \<open>\<open>tu_ncn\<close> tells the subclass \<open>NCN5120wrap\<close>.\<close>

record TPUARTwrap =
  tu_ncn :: bool
  tu_state :: TSTATE
  tu_in :: carray
  tu_out :: carray
  tu_retry :: nat
  tu_send_retry :: nat
  tu_acked :: bool
  tu_recvecho :: bool
  tu_skip_char :: bool
  tu_monitor :: bool
  tu_my_addr :: eibaddr
  tu_ackallgroup :: bool
  tu_ackallindividual :: bool
  tu_next_free :: bool
  tu_send_wait :: bool
  tu_timer :: bool
  tu_sendtimer :: bool

definition TPUART_new :: "bool \<Rightarrow> bool \<Rightarrow> eibaddr \<Rightarrow> bool \<Rightarrow> bool \<Rightarrow> TPUARTwrap" where
  "TPUART_new ncn monitor my_addr ackallgroup ackallindividual =
     \<lparr>tu_ncn = ncn, tu_state = T_new, tu_in = [], tu_out = [], tu_retry = 0, tu_send_retry = 0, tu_acked = False,
      tu_recvecho = False, tu_skip_char = False, tu_monitor = monitor, tu_my_addr = my_addr,
      tu_ackallgroup = ackallgroup, tu_ackallindividual = ackallindividual, tu_next_free = True, tu_send_wait = False,
      tu_timer = False, tu_sendtimer = False\<rparr>"

text \<open>
  The last two calls are a failed assertion and the use of the first byte of an empty buffer.
\<close>

datatype tu_call =
    TU_write carray
  | TU_recv_L_Data l_data_pdu
  | TU_recv_L_Busmonitor carray
  | TU_started
  | TU_stopped
  | TU_errored
  | TU_send_Next
  | TU_iface_stop
  | TU_abort
  | TU_read_empty

type_synonym tu_result = "TPUARTwrap \<times> tu_call list"

text \<open>One call after the other.\<close>

definition tu_then :: "tu_result \<Rightarrow> (TPUARTwrap \<Rightarrow> tu_result) \<Rightarrow> tu_result" where
  "tu_then x f = (let y = f (fst x) in (fst y, snd x @ snd y))"

definition is_up :: "TPUARTwrap \<Rightarrow> bool" where
  "is_up s \<longleftrightarrow> tval T_is_online < tval (tu_state s) \<and> tval (tu_state s) < tval T_busmonitor"

section \<open>Sending\<close>

text \<open>Every byte of the frame is preceded by its position; the last one is marked.\<close>

definition position_byte :: "nat \<Rightarrow> nat \<Rightarrow> byte" where
  "position_byte z i =
     (if i = z - 1 then ((0x80 OR (of_nat i AND 0x3f)) AND 0x3f) OR 0x40 else 0x80 OR (of_nat i AND 0x3f))"

definition send_bytes :: "carray \<Rightarrow> carray" where
  "send_bytes out = concat (map (\<lambda>i. [position_byte (length out) i, out ! i]) [0..<length out])"

text \<open>After the first transmission the frame is kept without its repeat flag, for comparison with the echo.\<close>

definition clear_repeat :: "carray \<Rightarrow> carray" where
  "clear_repeat out =
     (if out ! 0 AND 0x20 \<noteq> 0
      then let o1 = out[0 := out ! 0 XOR 0x20] in o1[length o1 - 1 := o1 ! (length o1 - 1) XOR 0x20]
      else out)"

definition send_again :: "TPUARTwrap \<Rightarrow> tu_result" where
  "send_again s =
     (if tu_out s \<noteq> [] \<and> is_up s
      then if \<not> tu_next_free s then (s\<lparr>tu_send_wait := True\<rparr>, [])
           else (s\<lparr>tu_sendtimer := True, tu_out := clear_repeat (tu_out s)\<rparr>, [TU_write (send_bytes (tu_out s))])
      else (s, []))"

definition TPUART_send_L_Data :: "TPUARTwrap \<Rightarrow> l_data_pdu \<Rightarrow> tu_result" where
  "TPUART_send_L_Data s l =
     (if tu_out s \<noteq> [] then (s, [TU_abort])
      else case L_Data_ToPacket l of
             None \<Rightarrow> (s, [TU_abort])
           | Some p \<Rightarrow> send_again (s\<lparr>tu_out := p\<rparr>))"

definition TPUART_do_send_Next :: "TPUARTwrap \<Rightarrow> tu_result" where
  "TPUART_do_send_Next s =
     (let s1 = s\<lparr>tu_next_free := True\<rparr>
      in if tu_send_wait s1 then send_again (s1\<lparr>tu_send_wait := False\<rparr>) else (s1, []))"

definition do__send_Next :: "TPUARTwrap \<Rightarrow> tu_result" where
  "do__send_Next s = (s\<lparr>tu_out := [], tu_send_retry := 0, tu_sendtimer := False\<rparr>, [TU_send_Next])"

section \<open>States\<close>

definition addr_bytes :: "TPUARTwrap \<Rightarrow> carray" where
  "addr_bytes s = [ucast (drop_bit 8 (tu_my_addr s) AND 0xFF), ucast (tu_my_addr s AND 0xFF)]"

definition enter_getstate :: "TPUARTwrap \<Rightarrow> tu_result" where
  "enter_getstate s = (s\<lparr>tu_timer := True, tu_state := T_in_getstate\<rparr>, [TU_write [0x02]])"

definition enter_wait :: "TPUARTwrap \<Rightarrow> tu_result" where
  "enter_wait s = (s\<lparr>tu_timer := True, tu_acked := False, tu_recvecho := False, tu_state := T_wait\<rparr>, [])"

definition enter_reset :: "TPUARTwrap \<Rightarrow> tu_result" where
  "enter_reset s =
     (s\<lparr>tu_retry := (if tu_state s = T_in_reset then tu_retry s + 1 else 1), tu_timer := True, tu_state := T_in_reset\<rparr>,
      [TU_write [0x01]])"

text \<open>The \<open>switch\<close> of \<open>setstate\<close>.\<close>

fun enter_state :: "TSTATE \<Rightarrow> TPUARTwrap \<Rightarrow> tu_result" where
  "enter_state T_start s = enter_reset s"
| "enter_state T_in_reset s = enter_reset s"
| "enter_state T_in_setaddr s =
     tu_then (s, if tu_my_addr s \<noteq> 0 then [TU_write (0x28 # addr_bytes s)] else []) enter_getstate"
| "enter_state T_in_getstate s = enter_getstate s"
| "enter_state T_busmonitor s = (s\<lparr>tu_state := T_busmonitor\<rparr>, [TU_write [0x05]])"
| "enter_state T_is_online s = tu_then (do__send_Next s) enter_wait"
| "enter_state T_wait s = enter_wait s"
| "enter_state T_wait_more s = (s\<lparr>tu_timer := True, tu_state := T_wait_more\<rparr>, [])"
| "enter_state T_wait_keepalive s = (s\<lparr>tu_timer := True, tu_state := T_wait_keepalive\<rparr>, [TU_write [0x02]])"
| "enter_state T_error s = (s\<lparr>tu_timer := True, tu_state := T_error\<rparr>, [])"
| "enter_state T_new s = (s\<lparr>tu_state := T_new\<rparr>, [])"

definition TPUART_setstate :: "TSTATE \<Rightarrow> TPUARTwrap \<Rightarrow> tu_result" where
  "TPUART_setstate n s =
     (if tval (tu_state s) < tval T_is_online \<and> tval T_is_online \<le> tval n
      then if tu_monitor s then tu_then (s, [TU_started]) (enter_state T_busmonitor)
           else if tval n < tval T_busmonitor then tu_then (tu_then (s, [TU_started]) send_again) (enter_state n)
           else tu_then (s, [TU_started]) (enter_state n)
      else enter_state n s)"

definition setstate :: "TSTATE \<Rightarrow> TPUARTwrap \<Rightarrow> tu_result" where
  "setstate n s =
     (if tu_ncn s \<and> n = T_in_setaddr \<and> tu_my_addr s \<noteq> 0
      then tu_then (s, [TU_write (0xF1 # addr_bytes s @ [0x00])]) (TPUART_setstate T_in_getstate)
      else TPUART_setstate n s)"

definition TPUART_started :: "TPUARTwrap \<Rightarrow> tu_result" where
  "TPUART_started s = tu_then (setstate T_new s) (setstate T_start)"

definition TPUART_stopped :: "TPUARTwrap \<Rightarrow> tu_result" where
  "TPUART_stopped s = tu_then (setstate T_new s) (\<lambda>s. (s, [TU_stopped]))"

definition TPUART_sendtimer_cb :: "TPUARTwrap \<Rightarrow> tu_result" where
  "TPUART_sendtimer_cb s0 =
     (let s = s0\<lparr>tu_sendtimer := False, tu_send_retry := tu_send_retry s0 + 1\<rparr>
      in if tu_send_retry s0 > 3 then setstate T_error s else send_again s)"

definition TPUART_timer_cb :: "TPUARTwrap \<Rightarrow> tu_result" where
  "TPUART_timer_cb s0 =
     (let s = s0\<lparr>tu_timer := False\<rparr>
      in case tu_state s of
           T_error \<Rightarrow> (s, [TU_iface_stop])
         | T_in_reset \<Rightarrow> if tu_retry s < 3 then setstate T_in_reset s else setstate T_error s
         | T_in_getstate \<Rightarrow>
             if tu_retry s > 5 then tu_then (s, [TU_errored]) (setstate T_new) else setstate T_in_getstate s
         | T_in_setaddr \<Rightarrow> tu_then (s, [TU_write (addr_bytes s)]) (setstate T_in_getstate)
         | T_wait \<Rightarrow> setstate T_wait_keepalive s
         | T_wait_more \<Rightarrow> setstate T_wait (s\<lparr>tu_in := []\<rparr>)
         | T_wait_keepalive \<Rightarrow> if tu_retry s < 3 then setstate T_in_reset s else setstate T_wait_keepalive s
         | _ \<Rightarrow> (s, []))"

section \<open>Receiving\<close>

definition TPUART_RecvLPDU :: "carray \<Rightarrow> TPUARTwrap \<Rightarrow> tu_result" where
  "TPUART_RecvLPDU d s =
     (if tu_state s = T_busmonitor then (s, [TU_recv_L_Busmonitor d])
      else if tval T_start < tval (tu_state s)
      then (s, case LPDU_fromPacket d of
                 L_Data_PDU l \<Rightarrow> if l_valid_checksum l then [TU_recv_L_Data l] else []
               | _ \<Rightarrow> [])
      else (s, []))"

definition RecvLPDU :: "carray \<Rightarrow> TPUARTwrap \<Rightarrow> tu_result" where
  "RecvLPDU d s = TPUART_RecvLPDU d (if tu_ncn s then s\<lparr>tu_skip_char := True\<rparr> else s)"

text \<open>\<open>wants g a\<close>: some other link wants the address \<open>a\<close>, a group address when \<open>g\<close> holds.\<close>

definition ack_byte :: "(bool \<Rightarrow> eibaddr \<Rightarrow> bool) \<Rightarrow> TPUARTwrap \<Rightarrow> byte" where
  "ack_byte wants s =
     (let a = tu_in s; ext = (if a ! 0 AND 0x80 = 0 then 1 else 0); dest = be16 (a ! (3 + ext)) (a ! (4 + ext));
          grp = (a ! (if ext = 1 then 1 else 5) AND 0x80 \<noteq> 0)
      in if (if grp then tu_ackallgroup s else tu_ackallindividual s) \<or> wants grp dest then 0x11 else 0x10)"

definition is_echo :: "TPUARTwrap \<Rightarrow> bool" where
  "is_echo s \<longleftrightarrow>
     (let a = tu_in s; o1 = tu_out s; ext = (if a ! 0 AND 0x80 = 0 then 1 else 0)
      in length o1 \<ge> 6 + ext \<and> (a ! 0 XOR o1 ! 0) AND NOT 0x20 = 0 \<and> slice 1 (5 + ext) a = slice 1 (5 + ext) o1)"

definition in_check_ack :: "(bool \<Rightarrow> eibaddr \<Rightarrow> bool) \<Rightarrow> TPUARTwrap \<Rightarrow> tu_result" where
  "in_check_ack wants s =
     (if \<not> tu_acked s \<and> \<not> tu_recvecho s \<and> tu_my_addr s = 0 \<and>
         tval T_is_online \<le> tval (tu_state s) \<and> tval (tu_state s) < tval T_busmonitor
      then if is_echo s then (s\<lparr>tu_recvecho := True\<rparr>, [])
           else (s\<lparr>tu_acked := True\<rparr>, [TU_write [ack_byte wants s]])
      else (s, []))"

definition frame_length :: "carray \<Rightarrow> nat" where
  "frame_length a = (if a ! 0 AND 0x80 = 0 then unat (a ! 6) + 9 else unat (a ! 5 AND 0x0f) + 8)"

definition in_check_done :: "TPUARTwrap \<Rightarrow> tu_result" where
  "in_check_done s =
     (if frame_length (tu_in s) \<le> length (tu_in s)
      then tu_then (if tu_recvecho s then (s, []) else RecvLPDU (tu_in s) s) (\<lambda>s. (s\<lparr>tu_in := []\<rparr>, []))
      else (s, []))"

definition in_check :: "(bool \<Rightarrow> eibaddr \<Rightarrow> bool) \<Rightarrow> TPUARTwrap \<Rightarrow> tu_result" where
  "in_check wants s =
     tu_then (if length (tu_in s) \<ge> 6 + (if tu_in s ! 0 AND 0x80 = 0 then 1 else 0)
              then tu_then (in_check_ack wants s) in_check_done
              else (s, []))
       (\<lambda>s. if is_up s then (if tu_in s = [] then setstate T_wait s else setstate T_wait_more s) else (s, []))"

text \<open>A byte of its own: the answers and indications of the chip.\<close>

definition state_indication :: "TPUARTwrap \<Rightarrow> tu_result" where
  "state_indication s =
     (case tu_state s of
        T_wait_keepalive \<Rightarrow> setstate T_wait s
      | T_in_setaddr \<Rightarrow> setstate T_in_getstate s
      | T_in_getstate \<Rightarrow> setstate T_is_online s
      | _ \<Rightarrow> (s, []))"

definition confirmation :: "TPUARTwrap \<Rightarrow> tu_result" where
  "confirmation s =
     (if tu_out s = [] \<or> tval (tu_state s) < tval T_is_online then (s, []) else do__send_Next s)"

definition chip_byte :: "byte \<Rightarrow> TPUARTwrap \<Rightarrow> tu_result" where
  "chip_byte c s =
     (if c = 0x03 then (if tu_state s = T_in_reset then setstate T_in_setaddr s else (s, []))
      else if c = 0x8B then confirmation s
      else if c = 0xCB then (s, [])
      else if c = 0x0B then confirmation s
      else if c AND 0x17 = 0x13 then (s, [])
      else if c AND 0x07 = 0x07 then state_indication s
      else if c = 0xCC \<or> c = 0xC0 \<or> c = 0x0C then (if tu_ncn s then s\<lparr>tu_skip_char := True\<rparr> else s, [TU_read_empty])
      else if c AND 0x50 = 0x10 then (s\<lparr>tu_in := [c]\<rparr>, [])
      else (s\<lparr>tu_acked := False\<rparr>, []))"

definition recv_byte :: "(bool \<Rightarrow> eibaddr \<Rightarrow> bool) \<Rightarrow> byte \<Rightarrow> TPUARTwrap \<Rightarrow> tu_result" where
  "recv_byte wants c s =
     (if tu_in s \<noteq> [] then in_check wants (s\<lparr>tu_in := tu_in s @ [c]\<rparr>)
      else if tu_skip_char s then (s\<lparr>tu_skip_char := False\<rparr>, [])
      else chip_byte c s)"

fun recv_bytes :: "(bool \<Rightarrow> eibaddr \<Rightarrow> bool) \<Rightarrow> carray \<Rightarrow> TPUARTwrap \<Rightarrow> tu_result" where
  "recv_bytes wants [] s = (s, [])"
| "recv_bytes wants (c # cs) s = tu_then (recv_byte wants c s) (recv_bytes wants cs)"

definition TPUART_recv_Data :: "(bool \<Rightarrow> eibaddr \<Rightarrow> bool) \<Rightarrow> carray \<Rightarrow> TPUARTwrap \<Rightarrow> tu_result" where
  "TPUART_recv_Data wants c s =
     (if tval (tu_state s) < tval T_start then (s, []) else recv_bytes wants c s)"

section \<open>Events\<close>

datatype tu_event =
    TE_started
  | TE_stopped
  | TE_send l_data_pdu
  | TE_bytes "bool \<Rightarrow> eibaddr \<Rightarrow> bool" carray
  | TE_timer
  | TE_sendtimer
  | TE_next

fun tu_step :: "TPUARTwrap \<Rightarrow> tu_event \<Rightarrow> tu_result" where
  "tu_step s TE_started = TPUART_started s"
| "tu_step s TE_stopped = TPUART_stopped s"
| "tu_step s (TE_send l) = TPUART_send_L_Data s l"
| "tu_step s (TE_bytes wants c) = TPUART_recv_Data wants c s"
| "tu_step s TE_timer = (if tu_timer s then TPUART_timer_cb s else (s, []))"
| "tu_step s TE_sendtimer = (if tu_sendtimer s then TPUART_sendtimer_cb s else (s, []))"
| "tu_step s TE_next = TPUART_do_send_Next s"

end
