(* ===== verification/Tpuart_Props.thy ===== *)
theory Tpuart_Props
  imports Tpuart Lpdu_Props
begin

text \<open>
  The TPUART driver: what it makes of the frames on the bus, its own echo among them, the cycle of a
  telegram it sends, and its reaction to a chip that does not answer.
\<close>

unbundle bit_operations_syntax

section \<open>Frames on the bus\<close>

definition ext_frame :: "carray \<Rightarrow> bool" where
  "ext_frame p \<longleftrightarrow> p ! 0 AND 0x80 = 0"

definition header_length :: "carray \<Rightarrow> nat" where
  "header_length p = (if ext_frame p then 7 else 6)"

text \<open>A complete frame that carries the telegram \<open>l\<close>.\<close>

definition bus_frame :: "carray \<Rightarrow> l_data_pdu \<Rightarrow> bool" where
  "bus_frame p l \<longleftrightarrow> p ! 0 AND 0x53 = 0x10 \<and> frame_length p = length p \<and> header_length p < length p \<and>
     LPDU_fromPacket p = L_Data_PDU l \<and> l_valid_checksum l"

lemma L_Data_init_length:
  "L_Data_init p = Some l \<Longrightarrow> l_valid_length l \<Longrightarrow> frame_length p = length p \<and> header_length p < length p"
  by (auto simp: L_Data_init_def frame_length_def header_length_def ext_frame_def Let_def split: if_splits)

lemma ToPacket_bus_frame:
  assumes "wf_l_data l" "L_Data_ToPacket l = Some p"
  shows "bus_frame p (l\<lparr>l_prio := prio_swap (l_prio l)\<rparr>)"
proof -
  let ?l = "l\<lparr>l_prio := prio_swap (l_prio l)\<rparr>"
  have parsed: "LPDU_fromPacket p = L_Data_PDU ?l" using l_data_round_trip [OF assms(1)] assms(2) by auto
  then have init: "L_Data_init p = Some ?l" by (rule fromPacket_L_Data)
  have valid: "l_valid_checksum ?l" "l_valid_length ?l" using assms(1) by (simp_all add: wf_l_data_def)
  have "p ! 0 AND 0x53 = 0x10" using init by (auto simp: L_Data_init_def split: if_splits)
  moreover have "frame_length p = length p \<and> header_length p < length p"
    using L_Data_init_length [OF init valid(2)] .
  ultimately show ?thesis using parsed valid by (simp add: bus_frame_def)
qed

lemma control_byte:
  fixes c :: byte
  assumes "c AND 0x53 = 0x10"
  shows "c \<noteq> 0x03" "c \<noteq> 0x8B" "c \<noteq> 0xCB" "c \<noteq> 0x0B" "c AND 0x17 \<noteq> 0x13" "c AND 0x07 \<noteq> 0x07"
    "c \<noteq> 0xCC" "c \<noteq> 0xC0" "c \<noteq> 0x0C" "c AND 0x50 = 0x10"
  using assms by (auto simp: byte_bits)

text \<open>The parts of a frame that the checks on a prefix look at.\<close>

lemma prefix_checks:
  assumes "header_length p \<le> n" "n \<le> length p" "0 < n"
  shows "frame_length (take n p) = frame_length p" "take n p ! 0 = p ! 0"
    "ack_byte wants (s\<lparr>tu_in := take n p\<rparr>) = ack_byte wants (s\<lparr>tu_in := p\<rparr>)"
    "is_echo (s\<lparr>tu_in := take n p\<rparr>) = is_echo (s\<lparr>tu_in := p\<rparr>)"
proof -
  have 0: "take n p ! 0 = p ! 0" using assms(3) by simp
  show "take n p ! 0 = p ! 0" by (rule 0)
  show "frame_length (take n p) = frame_length p"
    using assms by (auto simp: frame_length_def header_length_def ext_frame_def split: if_splits)
  show "ack_byte wants (s\<lparr>tu_in := take n p\<rparr>) = ack_byte wants (s\<lparr>tu_in := p\<rparr>)"
    using assms by (auto simp: ack_byte_def header_length_def ext_frame_def Let_def split: if_splits)
  have "slice 1 5 (take n p) = slice 1 5 p" if "6 \<le> n" using that by (simp add: slice_def drop_take min_def)
  moreover have "slice 1 6 (take n p) = slice 1 6 p" if "7 \<le> n" using that by (simp add: slice_def drop_take min_def)
  ultimately show "is_echo (s\<lparr>tu_in := take n p\<rparr>) = is_echo (s\<lparr>tu_in := p\<rparr>)"
    using assms by (auto simp: is_echo_def header_length_def ext_frame_def Let_def split: if_splits)
qed

lemma ack_byte_cong:
  "tu_in s = tu_in s' \<Longrightarrow> tu_ackallgroup s = tu_ackallgroup s' \<Longrightarrow> tu_ackallindividual s = tu_ackallindividual s' \<Longrightarrow>
   ack_byte wants s = ack_byte wants s'"
  by (simp only: ack_byte_def)

section \<open>Receiving\<close>

text \<open>A driver that is up, does its own acknowledgements and is between two frames.\<close>

definition listening :: "TPUARTwrap \<Rightarrow> bool" where
  "listening s \<longleftrightarrow> is_up s \<and> tu_in s = [] \<and> \<not> tu_acked s \<and> \<not> tu_recvecho s \<and> \<not> tu_skip_char s \<and>
     \<not> tu_ncn s \<and> tu_my_addr s = 0"

text \<open>The same driver when it has read \<open>n\<close> bytes of the frame \<open>p\<close>.\<close>

definition reading :: "carray \<Rightarrow> nat \<Rightarrow> TPUARTwrap \<Rightarrow> TPUARTwrap" where
  "reading p n s =
     s\<lparr>tu_in := take n p, tu_state := T_wait_more, tu_timer := True,
       tu_acked := (header_length p \<le> n \<and> \<not> is_echo (s\<lparr>tu_in := p\<rparr>)),
       tu_recvecho := (header_length p \<le> n \<and> is_echo (s\<lparr>tu_in := p\<rparr>))\<rparr>"

definition after_frame :: "TPUARTwrap \<Rightarrow> TPUARTwrap" where
  "after_frame s = s\<lparr>tu_in := [], tu_timer := True, tu_acked := False, tu_recvecho := False, tu_state := T_wait\<rparr>"

text \<open>What the driver does about a frame: nothing about its own echo, else acknowledge and pass on.\<close>

definition frame_ack :: "(bool \<Rightarrow> eibaddr \<Rightarrow> bool) \<Rightarrow> carray \<Rightarrow> TPUARTwrap \<Rightarrow> tu_call list" where
  "frame_ack wants p s = (if is_echo (s\<lparr>tu_in := p\<rparr>) then [] else [TU_write [ack_byte wants (s\<lparr>tu_in := p\<rparr>)]])"

definition frame_up :: "carray \<Rightarrow> l_data_pdu \<Rightarrow> TPUARTwrap \<Rightarrow> tu_call list" where
  "frame_up p l s = (if is_echo (s\<lparr>tu_in := p\<rparr>) then [] else [TU_recv_L_Data l])"

lemma setstate_up:
  assumes "tu_state s = T_wait_more \<or> is_up s" "n \<in> {T_wait, T_wait_more}"
  shows "setstate n s = enter_state n s"
  using assms by (auto simp: setstate_def TPUART_setstate_def is_up_def)

lemma is_up_reading [simp]: "is_up (reading p n s)"
  by (simp add: reading_def is_up_def)

text \<open>One more byte, but not the last one; the state in which the byte before was read does not matter.\<close>

definition at_byte :: "carray \<Rightarrow> nat \<Rightarrow> TPUARTwrap \<Rightarrow> TPUARTwrap \<Rightarrow> bool" where
  "at_byte p n s s1 \<longleftrightarrow> is_up s1 \<and> (\<exists>st b. s1 = (reading p n s)\<lparr>tu_state := st, tu_timer := b\<rparr>)"

lemma recv_byte_reading:
  assumes "at_byte p n s s1" "listening s" "0 < n" "n < length p"
  shows "recv_byte wants (p ! n) s1 = in_check wants (s1\<lparr>tu_in := take (Suc n) p\<rparr>)"
proof -
  have "tu_in s1 = take n p" using assms(1) by (auto simp: at_byte_def reading_def)
  moreover have "take n p @ [p ! n] = take (Suc n) p" using assms(4) by (simp add: take_Suc_conv_app_nth)
  moreover have "take n p \<noteq> []" using assms(3,4) by auto
  ultimately show ?thesis by (simp add: recv_byte_def)
qed

lemma in_check_ack_reading:
  assumes "at_byte p n s s1" "listening s" "Suc n < length p \<or> header_length p \<le> n" "n < length p" "header_length p \<le> Suc n"
  shows "in_check_ack wants (s1\<lparr>tu_in := take (Suc n) p\<rparr>) =
    (s1\<lparr>tu_in := take (Suc n) p, tu_acked := (\<not> is_echo (s\<lparr>tu_in := p\<rparr>)), tu_recvecho := is_echo (s\<lparr>tu_in := p\<rparr>)\<rparr>,
     if Suc n = header_length p then frame_ack wants p s else [])"
proof -
  obtain st b where s1: "s1 = (reading p n s)\<lparr>tu_state := st, tu_timer := b\<rparr>" and up: "is_up s1"
    using assms(1) by (auto simp: at_byte_def)
  have st: "tval T_is_online \<le> tval st" "tval st < tval T_busmonitor" using up s1 by (simp_all add: is_up_def)
  have addr: "tu_my_addr s = 0" using assms(2) by (simp add: listening_def)
  have echo: "is_echo (s1\<lparr>tu_in := take (Suc n) p\<rparr>) = is_echo (s\<lparr>tu_in := p\<rparr>)"
    using prefix_checks(4) [of p "Suc n" s1] assms(4,5) by (simp add: is_echo_def s1 reading_def)
  have ack: "ack_byte wants (s1\<lparr>tu_in := take (Suc n) p\<rparr>) = ack_byte wants (s\<lparr>tu_in := p\<rparr>)"
  proof -
    have "ack_byte wants (s1\<lparr>tu_in := take (Suc n) p\<rparr>) = ack_byte wants (s1\<lparr>tu_in := p\<rparr>)"
      using prefix_checks(3) [of p "Suc n" wants s1] assms(4,5) by simp
    also have "\<dots> = ack_byte wants (s\<lparr>tu_in := p\<rparr>)" by (rule ack_byte_cong) (simp_all add: s1 reading_def)
    finally show ?thesis .
  qed
  show ?thesis
  proof (cases "Suc n = header_length p")
    case True
    then show ?thesis
      using st addr echo ack by (simp add: in_check_ack_def frame_ack_def s1 reading_def)
  next
    case False
    then have "header_length p \<le> n" using assms(5) by simp
    then show ?thesis using False st addr by (simp add: in_check_ack_def s1 reading_def)
  qed
qed

lemma recv_byte_more:
  assumes "at_byte p n s s1" "listening s" "bus_frame p l" "0 < n" "Suc n < length p"
  shows "recv_byte wants (p ! n) s1 = (reading p (Suc n) s, if Suc n = header_length p then frame_ack wants p s else [])"
proof -
  obtain st b where s1: "s1 = (reading p n s)\<lparr>tu_state := st, tu_timer := b\<rparr>" and up: "is_up s1"
    using assms(1) by (auto simp: at_byte_def)
  let ?a = "s1\<lparr>tu_in := take (Suc n) p\<rparr>"
  have recv: "recv_byte wants (p ! n) s1 = in_check wants ?a"
    using assms by (intro recv_byte_reading) simp_all
  have head: "take (Suc n) p ! 0 = p ! 0" "length (take (Suc n) p) = Suc n" "take (Suc n) p \<noteq> []" using assms(5) by auto
  have enough: "(6 + (if take (Suc n) p ! 0 AND 0x80 = 0 then 1 else 0) \<le> Suc n) = (header_length p \<le> Suc n)"
    unfolding head by (simp add: header_length_def ext_frame_def)
  show ?thesis
  proof (cases "header_length p \<le> Suc n")
    case False
    then have "in_check wants ?a = setstate T_wait_more ?a"
      using up head enough by (simp add: in_check_def tu_then_def is_up_def)
    also have "\<dots> = (reading p (Suc n) s, [])"
      using up False setstate_up [of ?a T_wait_more] s1 by (simp add: is_up_def reading_def)
    finally show ?thesis using recv False by simp
  next
    case True
    let ?b = "?a\<lparr>tu_acked := (\<not> is_echo (s\<lparr>tu_in := p\<rparr>)), tu_recvecho := is_echo (s\<lparr>tu_in := p\<rparr>)\<rparr>"
    have "frame_length (take (Suc n) p) = length p"
      using prefix_checks(1) [of p "Suc n"] True assms(3,5) by (simp add: bus_frame_def)
    then have not_yet: "in_check_done ?b = (?b, [])" using assms(5) head by (simp add: in_check_done_def)
    have "in_check wants ?a = tu_then (tu_then (in_check_ack wants ?a) in_check_done) (setstate T_wait_more)"
      using True up head enough in_check_ack_reading [OF assms(1,2) _ _ True, of wants] assms(5) not_yet
      by (simp add: in_check_def tu_then_def is_up_def)
    also have "\<dots> = (reading p (Suc n) s, if Suc n = header_length p then frame_ack wants p s else [])"
      using in_check_ack_reading [OF assms(1,2) _ _ True, of wants] assms(5) not_yet up True setstate_up [of ?b T_wait_more] s1
      by (simp add: tu_then_def is_up_def reading_def)
    finally show ?thesis using recv by simp
  qed
qed

lemma recv_byte_last:
  assumes "at_byte p n s s1" "listening s" "bus_frame p l" "0 < n" "Suc n = length p"
  shows "recv_byte wants (p ! n) s1 = (after_frame s, frame_up p l s)"
proof -
  obtain st b where s1: "s1 = (reading p n s)\<lparr>tu_state := st, tu_timer := b\<rparr>" and up: "is_up s1"
    using assms(1) by (auto simp: at_byte_def)
  have all: "take (Suc n) p = p" using assms(5) by simp
  have hl: "header_length p \<le> n" "frame_length p = length p" "LPDU_fromPacket p = L_Data_PDU l" "l_valid_checksum l" "p \<noteq> []"
    using assms(3,5) by (auto simp: bus_frame_def)
  let ?b = "s1\<lparr>tu_in := p, tu_acked := (\<not> is_echo (s\<lparr>tu_in := p\<rparr>)), tu_recvecho := is_echo (s\<lparr>tu_in := p\<rparr>)\<rparr>"
  have recv: "recv_byte wants (p ! n) s1 = in_check wants (s1\<lparr>tu_in := p\<rparr>)"
    using recv_byte_reading [OF assms(1,2)] assms(4,5) all by simp
  have enough: "6 + (if p ! 0 AND 0x80 = 0 then 1 else 0) \<le> length p"
    using hl(1) assms(5) by (simp add: header_length_def ext_frame_def split: if_splits)
  have ack: "in_check_ack wants (s1\<lparr>tu_in := p\<rparr>) = (?b, [])"
    using in_check_ack_reading [OF assms(1,2), of wants] hl(1) assms(5) all by simp
  have st: "tval T_start < tval st" "st \<noteq> T_busmonitor" using up s1 by (auto simp: is_up_def)
  have "in_check_done ?b = (?b\<lparr>tu_in := []\<rparr>, frame_up p l s)"
    using hl st assms(2)
    by (simp add: in_check_done_def RecvLPDU_def TPUART_RecvLPDU_def frame_up_def tu_then_def s1 reading_def listening_def)
  then have "in_check wants (s1\<lparr>tu_in := p\<rparr>) = tu_then (?b\<lparr>tu_in := []\<rparr>, frame_up p l s) (setstate T_wait)"
    using enough ack up by (simp add: in_check_def tu_then_def is_up_def)
  then show ?thesis
    using recv up s1 setstate_up [of "?b\<lparr>tu_in := []\<rparr>" T_wait] by (simp add: tu_then_def enter_wait_def after_frame_def is_up_def reading_def)
qed

lemma recv_bytes_rest:
  assumes "at_byte p n s s1" "listening s" "bus_frame p l" "0 < n" "n < length p"
  shows "recv_bytes wants (drop n p) s1 =
    (after_frame s, (if n < header_length p then frame_ack wants p s else []) @ frame_up p l s)"
  using assms
proof (induction "length p - n" arbitrary: n s1)
  case (Suc k)
  have d: "drop n p = p ! n # drop (Suc n) p" using Suc.prems(5) by (simp add: Cons_nth_drop_Suc)
  show ?case
  proof (cases "Suc n = length p")
    case True
    then have "header_length p \<le> n" using Suc.prems(3) by (simp add: bus_frame_def)
    with True recv_byte_last [OF Suc.prems(1-4), of wants] show ?thesis by (simp add: d tu_then_def)
  next
    case False
    then have n: "Suc n < length p" using Suc.prems(5) by simp
    have "at_byte p (Suc n) s (reading p (Suc n) s)"
      unfolding at_byte_def by (intro conjI exI [of _ T_wait_more] exI [of _ True]) (simp_all add: reading_def is_up_def)
    from Suc.hyps(1) [OF _ this Suc.prems(2,3)] n Suc.hyps(2)
    have "recv_bytes wants (drop (Suc n) p) (reading p (Suc n) s) =
        (after_frame s, (if Suc n < header_length p then frame_ack wants p s else []) @ frame_up p l s)" by simp
    with recv_byte_more [OF Suc.prems(1-4) n, of wants] show ?thesis
      by (auto simp: d tu_then_def)
  qed
qed simp

lemma recv_frame:
  assumes "listening s" "bus_frame p l"
  shows "recv_bytes wants p s = (after_frame s, frame_ack wants p s @ frame_up p l s)"
proof -
  have p: "p \<noteq> []" "1 < length p" "header_length p > 1" using assms(2) by (auto simp: bus_frame_def header_length_def split: if_splits)
  then have cons: "p = p ! 0 # drop 1 p" by (metis Cons_nth_drop_Suc One_nat_def drop0 length_greater_0_conv)
  have c: "p ! 0 AND 0x53 = 0x10" using assms(2) by (simp add: bus_frame_def)
  have "recv_byte wants (p ! 0) s = (s\<lparr>tu_in := [p ! 0]\<rparr>, [])"
    using assms(1) control_byte [OF c] by (simp add: recv_byte_def chip_byte_def listening_def)
  moreover have "at_byte p 1 s (s\<lparr>tu_in := [p ! 0]\<rparr>)"
    using assms(1) p unfolding at_byte_def
    by (intro conjI exI [of _ "tu_state s"] exI [of _ "tu_timer s"]) (simp_all add: reading_def listening_def is_up_def take_Suc hd_conv_nth)
  ultimately show ?thesis
    using recv_bytes_rest [of p 1 s "s\<lparr>tu_in := [p ! 0]\<rparr>" l wants] assms p
    by (subst cons) (simp add: tu_then_def)
qed

subsection \<open>Frames in pieces\<close>

lemma tu_then_simps:
  "fst (tu_then x f) = fst (f (fst x))" "snd (tu_then x f) = snd x @ snd (f (fst x))"
  by (simp_all add: tu_then_def Let_def)

lemma tu_then_assoc: "tu_then (tu_then x f) g = tu_then x (\<lambda>s. tu_then (f s) g)"
  by (simp add: tu_then_def Let_def)

lemma recv_bytes_append: "recv_bytes wants (xs @ ys) s = tu_then (recv_bytes wants xs s) (recv_bytes wants ys)"
proof (induction xs arbitrary: s)
  case Nil
  show ?case by (simp add: tu_then_def)
next
  case (Cons x xs)
  then have "recv_bytes wants (xs @ ys) = (\<lambda>s. tu_then (recv_bytes wants xs s) (recv_bytes wants ys))"
    by (simp add: fun_eq_iff)
  then show ?case by (simp add: tu_then_assoc)
qed

lemma enter_state_running: "tval T_start \<le> tval n \<Longrightarrow> tval T_start \<le> tval (tu_state (fst (enter_state n s)))"
  by (cases n) (simp_all add: enter_reset_def enter_getstate_def enter_wait_def tu_then_simps)

lemma setstate_running: "tval T_start \<le> tval n \<Longrightarrow> tval T_start \<le> tval (tu_state (fst (setstate n s)))"
  using enter_state_running by (auto simp: setstate_def TPUART_setstate_def tu_then_simps simp del: enter_state.simps)

lemma in_check_running:
  assumes "tval T_start \<le> tval (tu_state s)"
  shows "tval T_start \<le> tval (tu_state (fst (in_check wants s)))"
proof -
  have "tu_state (fst (tu_then (in_check_ack wants s) in_check_done)) = tu_state s"
    by (auto simp: in_check_ack_def in_check_done_def RecvLPDU_def TPUART_RecvLPDU_def tu_then_simps)
  then show ?thesis
    using assms setstate_running [of T_wait] setstate_running [of T_wait_more] by (simp add: in_check_def tu_then_simps)
qed

lemma recv_byte_running:
  assumes "tval T_start \<le> tval (tu_state s)"
  shows "tval T_start \<le> tval (tu_state (fst (recv_byte wants c s)))"
proof -
  have "tval T_start \<le> tval (tu_state (fst (state_indication s)))"
    using assms setstate_running by (cases "tu_state s") (simp_all add: state_indication_def)
  moreover have "tval T_start \<le> tval (tu_state (fst (confirmation s)))"
    using assms by (simp add: confirmation_def do__send_Next_def)
  ultimately have "tval T_start \<le> tval (tu_state (fst (chip_byte c s)))"
    using assms setstate_running [of T_in_setaddr s] by (simp add: chip_byte_def)
  then show ?thesis using assms in_check_running by (simp add: recv_byte_def)
qed

lemma recv_bytes_running:
  "tval T_start \<le> tval (tu_state s) \<Longrightarrow> tval T_start \<le> tval (tu_state (fst (recv_bytes wants cs s)))"
proof (induction cs arbitrary: s)
  case (Cons c cs)
  then show ?case using recv_byte_running [OF Cons.prems, of wants c] by (simp add: tu_then_simps)
qed simp

lemma run_bytes:
  assumes "tval T_start \<le> tval (tu_state s)"
  shows "run_events tu_step s (map (TE_bytes wants) cs) = recv_bytes wants (concat cs) s"
  using assms
proof (induction cs arbitrary: s)
  case (Cons c cs)
  have "tu_step s (TE_bytes wants c) = recv_bytes wants c s" using Cons.prems by (simp add: TPUART_recv_Data_def)
  then show ?case
    using Cons.IH [OF recv_bytes_running [OF Cons.prems, of wants c]]
    by (simp add: recv_bytes_append tu_then_def case_prod_beta Let_def del: tu_step.simps)
qed simp

lemma after_frame_same:
  assumes "listening s"
  shows "listening (after_frame s)" "tu_out (after_frame s) = tu_out s"
    "frame_ack wants p (after_frame s) = frame_ack wants p s" "frame_up p l (after_frame s) = frame_up p l s"
proof -
  show "listening (after_frame s)" "tu_out (after_frame s) = tu_out s"
    using assms by (simp_all add: listening_def after_frame_def is_up_def)
  have "is_echo ((after_frame s)\<lparr>tu_in := p\<rparr>) = is_echo (s\<lparr>tu_in := p\<rparr>)" by (simp add: is_echo_def after_frame_def)
  moreover have "ack_byte wants ((after_frame s)\<lparr>tu_in := p\<rparr>) = ack_byte wants (s\<lparr>tu_in := p\<rparr>)"
    by (rule ack_byte_cong) (simp_all add: after_frame_def)
  ultimately show "frame_ack wants p (after_frame s) = frame_ack wants p s" "frame_up p l (after_frame s) = frame_up p l s"
    by (simp_all add: frame_ack_def frame_up_def)
qed

text \<open>What the driver does about a sequence of frames.\<close>

definition frame_calls :: "(bool \<Rightarrow> eibaddr \<Rightarrow> bool) \<Rightarrow> TPUARTwrap \<Rightarrow> carray \<times> l_data_pdu \<Rightarrow> tu_call list" where
  "frame_calls wants s x = frame_ack wants (fst x) s @ frame_up (fst x) (snd x) s"

lemma recv_frames:
  assumes "listening s" "list_all (\<lambda>x. bus_frame (fst x) (snd x)) xs"
  shows "\<exists>s'. recv_bytes wants (concat (map fst xs)) s = (s', collect (frame_calls wants s) xs) \<and>
    listening s' \<and> tu_out s' = tu_out s"
  using assms
proof (induction xs arbitrary: s)
  case (Cons x xs)
  have first: "recv_bytes wants (fst x) s = (after_frame s, frame_calls wants s x)"
    using Cons.prems recv_frame by (simp add: frame_calls_def)
  note same = after_frame_same [OF Cons.prems(1)]
  have calls: "frame_calls wants (after_frame s) = frame_calls wants s"
    using same(3,4) by (simp add: frame_calls_def fun_eq_iff)
  obtain s' where "recv_bytes wants (concat (map fst xs)) (after_frame s) = (s', collect (frame_calls wants s) xs)"
    "listening s'" "tu_out s' = tu_out s"
    using Cons.IH [OF same(1)] Cons.prems(2) same(2) calls by auto
  with first show ?case by (simp add: recv_bytes_append tu_then_def)
qed simp

lemma listening_running: "listening s \<Longrightarrow> tval T_start \<le> tval (tu_state s)"
  by (simp add: listening_def is_up_def)

text \<open>The frame of a telegram as it is on the bus, and the telegram as it is received.\<close>

definition on_bus :: "l_data_pdu \<Rightarrow> carray \<times> l_data_pdu" where
  "on_bus l = (the (L_Data_ToPacket l), l\<lparr>l_prio := prio_swap (l_prio l)\<rparr>)"

lemma on_bus_frame: "wf_l_data l \<Longrightarrow> bus_frame (fst (on_bus l)) (snd (on_bus l))"
  using ToPacket_bus_frame l_data_round_trip by (fastforce simp: on_bus_def)


definition sample_up :: TPUARTwrap where
  "sample_up = (TPUART_new False False 0 False False)\<lparr>tu_state := T_wait\<rparr>"

definition sample_bus_telegram :: l_data_pdu where
  "sample_bus_telegram = L_Data_new\<lparr>l_dest := 0x0a03, l_AddrType := GroupAddress, l_data := [0x00, 0x81]\<rparr>"

lemma sample_listening: "listening sample_up"
  by (simp add: listening_def sample_up_def TPUART_new_def is_up_def)

lemma sample_wf: "wf_l_data sample_bus_telegram"
  by (simp add: wf_l_data_def sample_bus_telegram_def L_Data_new_def)


section \<open>Sending\<close>

lemma send_bytes_nth:
  assumes "i < length p"
  shows "send_bytes p ! (2 * i) = position_byte (length p) i \<and> send_bytes p ! (2 * i + 1) = p ! i"
proof -
  have "concat (map (\<lambda>i. [f i, g i]) [0..<n]) ! (2 * i) = f i \<and> concat (map (\<lambda>i. [f i, g i]) [0..<n]) ! (2 * i + 1) = g i \<and>
    length (concat (map (\<lambda>i. [f i, g i]) [0..<n])) = 2 * n" if "i < n" for f g :: "nat \<Rightarrow> byte" and n i
    using that
  proof (induction n)
    case (Suc n)
    have len: "length (concat (map (\<lambda>i. [f i, g i]) [0..<n])) = 2 * n" by (induction n) simp_all
    show ?case
    proof (cases "i < n")
      case True
      with Suc.IH len show ?thesis by (simp add: nth_append)
    next
      case False
      with Suc.prems have "i = n" by simp
      with len show ?thesis by (simp add: nth_append)
    qed
  qed simp
  with assms show ?thesis by (simp add: send_bytes_def)
qed

text \<open>The frame that is kept for comparison differs from the one sent in two bits only.\<close>

lemma clear_repeat_same:
  assumes "2 \<le> length p" "0 < i" "i < length p - 1"
  shows "clear_repeat p ! i = p ! i"
  using assms by (simp add: clear_repeat_def Let_def nth_list_update)

lemma clear_repeat_first:
  assumes "2 \<le> length p"
  shows "(p ! 0 XOR clear_repeat p ! 0) AND NOT 0x20 = 0" "length (clear_repeat p) = length p"
proof -
  show "length (clear_repeat p) = length p" by (simp add: clear_repeat_def Let_def)
  have "clear_repeat p ! 0 = (if p ! 0 AND 0x20 \<noteq> 0 then p ! 0 XOR 0x20 else p ! 0)"
    using assms by (cases p) (auto simp: clear_repeat_def Let_def split: nat.split)
  then show "(p ! 0 XOR clear_repeat p ! 0) AND NOT 0x20 = 0" by (auto simp: byte_bits)
qed

lemma own_echo:
  assumes "bus_frame p l" "tu_out s = clear_repeat p"
  shows "is_echo (s\<lparr>tu_in := p\<rparr>)"
proof -
  have len: "header_length p < length p" using assms(1) by (simp add: bus_frame_def)
  then have two: "2 \<le> length p" by (simp add: header_length_def split: if_splits)
  have "slice 1 k p = slice 1 k (clear_repeat p)" if "k + 1 < length p" for k
    using that two clear_repeat_first(2) [OF two] clear_repeat_same [OF two]
    by (intro nth_equalityI) (simp_all add: slice_def)
  then show ?thesis
    using len assms(2) clear_repeat_first [OF two]
    by (auto simp: is_echo_def header_length_def ext_frame_def Let_def split: if_splits)
qed



section \<open>A chip that does not answer\<close>

definition few_resets :: "TPUARTwrap \<Rightarrow> bool" where
  "few_resets s \<longleftrightarrow> tu_retry s \<le> 3"

definition resets_ok :: "tu_result \<Rightarrow> bool" where
  "resets_ok x \<longleftrightarrow> few_resets (fst x) \<and> TU_errored \<notin> set (snd x)"

lemma resets_then: "resets_ok x \<Longrightarrow> (few_resets (fst x) \<Longrightarrow> resets_ok (f (fst x))) \<Longrightarrow> resets_ok (tu_then x f)"
  by (simp add: resets_ok_def tu_then_simps)

lemma enter_state_resets:
  assumes "few_resets s" "tu_state s = T_in_reset \<longrightarrow> tu_retry s < 3"
  shows "resets_ok (enter_state n s)"
  using assms
  by (cases n) (auto simp: resets_ok_def few_resets_def enter_reset_def enter_getstate_def enter_wait_def do__send_Next_def tu_then_simps)

lemma enter_other_resets:
  assumes "few_resets s" "n \<noteq> T_start" "n \<noteq> T_in_reset"
  shows "resets_ok (enter_state n s)"
  using assms
  by (cases n) (simp_all add: resets_ok_def few_resets_def enter_getstate_def enter_wait_def do__send_Next_def tu_then_simps)

lemma send_again_resets: "few_resets s \<Longrightarrow> resets_ok (send_again s) \<and> tu_state (fst (send_again s)) = tu_state s"
  by (simp add: send_again_def resets_ok_def few_resets_def)

lemma resets_call: "few_resets s \<Longrightarrow> c \<noteq> TU_errored \<Longrightarrow> resets_ok (s, [c])"
  by (simp add: resets_ok_def)

lemma setstate_resets:
  assumes "few_resets s" "tu_state s = T_in_reset \<and> n \<in> {T_start, T_in_reset} \<longrightarrow> tu_retry s < 3"
  shows "resets_ok (setstate n s)"
proof -
  have tp: "resets_ok (TPUART_setstate n s)" if "tu_state s = T_in_reset \<and> n \<in> {T_start, T_in_reset} \<longrightarrow> tu_retry s < 3" for n
  proof (cases "tval (tu_state s) < tval T_is_online \<and> tval T_is_online \<le> tval n")
    case True
    then have n: "n \<noteq> T_start" "n \<noteq> T_in_reset" by auto
    have up: "resets_ok (s, [TU_started])" using assms(1) by (simp add: resets_call)
    have "resets_ok (tu_then (s, [TU_started]) send_again)"
      using up send_again_resets by (intro resets_then) simp_all
    with n up show ?thesis
      using True by (auto simp: TPUART_setstate_def intro!: resets_then enter_other_resets)
  next
    case False
    then show ?thesis
      using that assms(1) enter_state_resets [of s n] enter_other_resets [of s n] by (auto simp: TPUART_setstate_def)
  qed
  show ?thesis
  proof (cases "tu_ncn s \<and> n = T_in_setaddr \<and> tu_my_addr s \<noteq> 0")
    case True
    then show ?thesis
      using tp [of T_in_getstate] assms(1) unfolding setstate_def by (auto intro!: resets_then resets_call)
  next
    case False
    then show ?thesis using tp [OF assms(2)] unfolding setstate_def by (simp only: if_False)
  qed
qed

lemma in_check_resets:
  assumes "few_resets s"
  shows "resets_ok (in_check wants s)"
proof -
  have lpdu: "resets_ok (RecvLPDU d s)" if "few_resets s" for d s
    using that by (auto simp: RecvLPDU_def TPUART_RecvLPDU_def resets_ok_def few_resets_def split: lpdu.split)
  have "resets_ok (in_check_done s)" if "few_resets s" for s
    using that lpdu unfolding in_check_done_def
    by (auto simp: resets_ok_def few_resets_def tu_then_simps)
  moreover have "resets_ok (in_check_ack wants s)" using assms by (simp add: in_check_ack_def resets_ok_def few_resets_def)
  ultimately have check: "resets_ok (tu_then (in_check_ack wants s) in_check_done)" by (intro resets_then)
  have fin: "resets_ok (if is_up s then (if tu_in s = [] then setstate T_wait s else setstate T_wait_more s) else (s, []))"
    if "few_resets s" for s
    using that setstate_resets by (simp add: resets_ok_def)
  show ?thesis
    unfolding in_check_def using check assms fin by (intro resets_then) (simp_all add: resets_ok_def)
qed

lemma recv_byte_resets:
  assumes "few_resets s"
  shows "resets_ok (recv_byte wants c s)"
proof -
  have "resets_ok (state_indication s)"
    using assms setstate_resets by (cases "tu_state s") (simp_all add: state_indication_def resets_ok_def)
  moreover have "resets_ok (confirmation s)"
    using assms by (simp add: confirmation_def do__send_Next_def resets_ok_def few_resets_def)
  ultimately have "resets_ok (chip_byte c s)"
    using assms setstate_resets [of s T_in_setaddr]
    by (auto simp: chip_byte_def resets_ok_def few_resets_def)
  then show ?thesis
    using assms in_check_resets by (auto simp: recv_byte_def resets_ok_def few_resets_def)
qed

lemma recv_bytes_resets: "few_resets s \<Longrightarrow> resets_ok (recv_bytes wants cs s)"
proof (induction cs arbitrary: s)
  case (Cons c cs)
  then show ?case using recv_byte_resets by (auto intro: resets_then)
qed (simp add: resets_ok_def)

lemma timer_resets:
  assumes "few_resets s"
  shows "resets_ok (TPUART_timer_cb s)"
proof -
  let ?s = "s\<lparr>tu_timer := False\<rparr>"
  have s: "few_resets ?s" "few_resets (?s\<lparr>tu_in := []\<rparr>)" using assms by (simp_all add: few_resets_def)
  have addr: "resets_ok (tu_then (?s, [TU_write (addr_bytes ?s)]) (setstate T_in_getstate))"
    using s setstate_resets by (intro resets_then) (simp_all add: resets_ok_def)
  show ?thesis
    using assms s addr setstate_resets
    by (cases "tu_state s") (simp_all add: TPUART_timer_cb_def Let_def resets_ok_def few_resets_def)
qed

lemma tu_step_resets:
  assumes "few_resets s"
  shows "resets_ok (tu_step s e)"
proof (cases e)
  case TE_started
  have "resets_ok (setstate T_new s) \<and> tu_state (fst (setstate T_new s)) = T_new"
    using assms setstate_resets [of s T_new] by (simp add: setstate_def TPUART_setstate_def)
  then have "resets_ok (TPUART_started s)"
    unfolding TPUART_started_def using setstate_resets by (intro resets_then) (simp_all add: resets_ok_def)
  with TE_started show ?thesis by simp
next
  case TE_stopped
  have "resets_ok (TPUART_stopped s)"
    unfolding TPUART_stopped_def using assms setstate_resets [of s T_new] by (intro resets_then) (simp_all add: resets_ok_def)
  with TE_stopped show ?thesis by simp
next
  case (TE_send l)
  have "few_resets (s\<lparr>tu_out := p\<rparr>)" for p using assms by (simp add: few_resets_def)
  then show ?thesis
    using TE_send assms send_again_resets by (simp add: TPUART_send_L_Data_def resets_ok_def split: option.split)
next
  case (TE_bytes wants c)
  then show ?thesis using assms recv_bytes_resets by (simp add: TPUART_recv_Data_def resets_ok_def)
next
  case TE_timer
  then show ?thesis using assms timer_resets by (simp add: resets_ok_def)
next
  case TE_sendtimer
  have "few_resets (s\<lparr>tu_sendtimer := False, tu_send_retry := tu_send_retry s + 1\<rparr>)" using assms by (simp add: few_resets_def)
  then show ?thesis
    using TE_sendtimer assms send_again_resets setstate_resets by (simp add: TPUART_sendtimer_cb_def Let_def resets_ok_def)
next
  case TE_next
  have "few_resets (s\<lparr>tu_next_free := True\<rparr>)" "few_resets (s\<lparr>tu_next_free := True, tu_send_wait := False\<rparr>)"
    using assms by (simp_all add: few_resets_def)
  then show ?thesis
    using TE_next send_again_resets by (simp add: TPUART_do_send_Next_def Let_def resets_ok_def)
qed

interpretation tpuart: event_machine tu_step "\<lambda>_. True" few_resets "\<lambda>c. c \<noteq> TU_errored"
  using tu_step_resets by unfold_locales (auto simp: resets_ok_def)

text \<open>
  The counter that is to limit the requests for the chip's state counts resets only, and never
  exceeds 3.  The branch that gives up after five requests is never taken: a chip that answers the reset
  but not the request for its state is polled for ever, and the driver never reports an error, whatever
  happens.
\<close>

theorem tpuart_never_reports_error:
  "TU_errored \<notin> set (snd (run_events tu_step (TPUART_new ncn monitor my_addr g i) es)) \<and>
   tu_retry (fst (run_events tu_step (TPUART_new ncn monitor my_addr g i) es)) \<le> 3"
proof -
  have new: "few_resets (TPUART_new ncn monitor my_addr g i)" by (simp add: few_resets_def TPUART_new_def)
  have all: "list_all (\<lambda>_. True) es" by (simp add: list_all_iff)
  show ?thesis
    using tpuart.run_inv [OF new all] tpuart.run_out [OF new all] by (auto simp: few_resets_def)
qed

text \<open>
  An acknowledgement on the bus, seen between two frames, makes the driver pass on one byte from
  its empty receive buffer instead of the byte it has read.
\<close>

theorem tpuart_ack_reads_empty_buffer:
  assumes "tval T_start \<le> tval (tu_state s)" and "tu_in s = []" and "\<not> tu_skip_char s"
    and "c \<in> {0xCC, 0xC0, 0x0C}"
  shows "snd (tu_step s (TE_bytes wants [c])) = [TU_read_empty]"
  using assms by (auto simp: TPUART_recv_Data_def recv_byte_def chip_byte_def tu_then_def)

theorem tpuart_ack_reads_empty_buffer_witness:
  "snd (tu_step sample_up (TE_bytes (\<lambda>g a. True) [0xCC])) = [TU_read_empty]"
  using tpuart_ack_reads_empty_buffer [of sample_up "0xCC" "\<lambda>g a. True"]
  by (simp add: sample_up_def TPUART_new_def)

text \<open>
  A telegram that waits for its confirmation when the chip stops answering is lost: after the
  reset that follows, the driver empties its send buffer and asks for the next telegram, without having
  sent the old one again.
\<close>

theorem tpuart_reset_drops_telegram:
  assumes "listening s" and "tu_state s = T_wait" and "tu_timer s" and "tu_retry s < 3" and "\<not> tu_monitor s"
  shows "let x = run_events tu_step s [TE_timer, TE_timer, TE_bytes wants [0x03], TE_bytes wants [0x07]]
    in tu_out (fst x) = [] \<and> tu_state (fst x) = T_wait \<and>
       snd x = [TU_write [0x02], TU_write [0x01], TU_write [0x02], TU_started, TU_send_Next]"
  using assms
  by (simp add: listening_def TPUART_timer_cb_def setstate_def TPUART_setstate_def enter_reset_def enter_getstate_def
      enter_wait_def TPUART_recv_Data_def recv_byte_def chip_byte_def state_indication_def do__send_Next_def send_again_def
      is_up_def tu_then_def Let_def)

theorem tpuart_reset_drops_telegram_witness:
  "let x = run_events tu_step (sample_up\<lparr>tu_timer := True, tu_out := [0xBC, 0x11]\<rparr>)
     [TE_timer, TE_timer, TE_bytes (\<lambda>g a. True) [0x03], TE_bytes (\<lambda>g a. True) [0x07]]
   in tu_out (fst x) = [] \<and> snd x = [TU_write [0x02], TU_write [0x01], TU_write [0x02], TU_started, TU_send_Next]"
proof -
  let ?s = "sample_up\<lparr>tu_timer := True, tu_out := [0xBC, 0x11]\<rparr>"
  have "listening ?s" "tu_state ?s = T_wait" "tu_timer ?s" "tu_retry ?s < 3" "\<not> tu_monitor ?s"
    by (simp_all add: listening_def sample_up_def TPUART_new_def is_up_def)
  from tpuart_reset_drops_telegram [OF this, where wants = "\<lambda>g a. True"] show ?thesis unfolding Let_def by (simp del: run_events.simps tu_step.simps)
qed

end
