(* ===== verification/Containers.thy ===== *)
theory Containers
  imports Prelude
begin

text \<open>
  Byte arrays and stream buffers: \<open>CArray\<close> of \<^verbatim>\<open>src/src/common/types.h\<close>, whose element-wise loops are
  compared with the list operations the other theories use for them, and the send and receive buffers of
  \<^verbatim>\<open>src/src/common/iobuf.cpp\<close>.
\<close>

section \<open>Byte arrays\<close>

text \<open>\<open>std::vector::resize\<close>, and the loops that write consecutive elements through an iterator.\<close>

definition vec_resize :: "nat \<Rightarrow> carray \<Rightarrow> carray" where
  "vec_resize n xs = take n xs @ replicate (n - length xs) 0"

fun copy_loop :: "nat \<Rightarrow> carray \<Rightarrow> carray \<Rightarrow> carray" where
  "copy_loop i [] xs = xs"
| "copy_loop i (e # es) xs = copy_loop (i + 1) es (xs[i := e])"

text \<open>Lengths and positions are \<open>unsigned\<close>.\<close>

definition uadd :: "nat \<Rightarrow> nat \<Rightarrow> nat" where
  "uadd a b = (a + b) mod 2 ^ 32"

definition sub_clamped :: "nat \<Rightarrow> nat \<Rightarrow> nat" where
  "sub_clamped a b = (if a > b then a - b else 0)"

text \<open>
  The constructors.  The copying ones take the part of \<open>str\<close> that begins at \<open>pos\<close>; their length is
  \<open>_sub (pos, str.size ())\<close>, and \<open>None\<close> is a copy from behind the end.
\<close>

definition CArray_from :: "carray \<Rightarrow> nat \<Rightarrow> carray option" where
  "CArray_from str pos =
     (let n = sub_clamped pos (length str)
      in if n = 0 \<or> pos + n \<le> length str then Some (copy_loop 0 (slice pos n str) (vec_resize n [])) else None)"

definition CArray_part :: "carray \<Rightarrow> nat \<Rightarrow> nat \<Rightarrow> carray option" where
  "CArray_part str pos cnt =
     (let n = min cnt (sub_clamped pos (length str))
      in if n = 0 \<or> pos + n \<le> length str then Some (copy_loop 0 (slice pos n str) (vec_resize n [])) else None)"

definition CArray_bytes :: "carray \<Rightarrow> carray" where
  "CArray_bytes elem = copy_loop 0 elem (vec_resize (length elem) [])"

definition CArray_set :: "carray \<Rightarrow> carray \<Rightarrow> carray" where
  "CArray_set elem xs = copy_loop 0 elem (vec_resize (length elem) xs)"

definition CArray_setpart :: "carray \<Rightarrow> nat \<Rightarrow> carray \<Rightarrow> carray" where
  "CArray_setpart elem start xs =
     (let ys = (if uadd (length elem) start > length xs then vec_resize (uadd (length elem) start) xs else xs)
      in copy_loop start elem ys)"

definition CArray_append :: "carray \<Rightarrow> carray \<Rightarrow> carray" where
  "CArray_append xs a = copy_loop (length xs) a (vec_resize (length xs + length a) xs)"

definition CArray_deletepart :: "nat \<Rightarrow> nat \<Rightarrow> carray \<Rightarrow> carray" where
  "CArray_deletepart start cnt0 xs =
     (if start \<ge> length xs then xs
      else let cnt = (if uadd start cnt0 \<ge> length xs then length xs - start else cnt0)
           in if cnt = 0 then xs else take start xs @ drop (start + cnt) xs)"

lemma length_copy_loop [simp]: "length (copy_loop i es xs) = length xs"
  by (induction i es xs rule: copy_loop.induct) simp_all

lemma length_vec_resize [simp]: "length (vec_resize n xs) = n"
  by (simp add: vec_resize_def)

lemma copy_loop_list:
  "i + length es \<le> length xs \<Longrightarrow> copy_loop i es xs = take i xs @ es @ drop (i + length es) xs"
proof (induction i es xs rule: copy_loop.induct)
  case (2 i e es xs)
  then have "i < length xs" by simp
  moreover have "copy_loop (i + 1) es (xs[i := e]) = take (i + 1) (xs[i := e]) @ es @ drop (i + 1 + length es) (xs[i := e])"
    using 2 by simp
  ultimately show ?case by (simp add: take_Suc_conv_app_nth)
qed simp

lemma copy_all: "copy_loop 0 es (vec_resize (length es) xs) = es"
  by (simp add: copy_loop_list)

text \<open>
  The loops of \<open>CArray\<close> are the list operations: construction and \<open>set\<close> give the elements,
  \<open>+=\<close> appends, \<open>setpart\<close> overwrites, padding with zeros and growing as needed, and \<open>deletepart\<close> cuts a
  part out and ignores what lies beyond the end, as long as positions do not exceed the range of
  \<open>unsigned\<close>.
\<close>

theorem carray_list_operations:
  assumes "start + length elem < 2 ^ 32" and "start + cnt < 2 ^ 32"
  shows "CArray_bytes elem = elem \<and> CArray_set elem xs = elem \<and> CArray_append xs elem = xs @ elem \<and>
    CArray_setpart elem start xs =
      (if elem = [] \<and> start \<le> length xs then xs
       else take start xs @ replicate (start - length xs) 0 @ elem @ drop (start + length elem) xs) \<and>
    CArray_deletepart start cnt xs = take start xs @ drop (start + cnt) xs"
proof -
  have set: "CArray_bytes elem = elem" "CArray_set elem xs = elem"
    by (simp_all add: CArray_bytes_def CArray_set_def copy_all)
  have app: "CArray_append xs elem = xs @ elem"
    by (simp add: CArray_append_def copy_loop_list) (simp add: vec_resize_def)
  have u: "uadd (length elem) start = start + length elem" "uadd start cnt = start + cnt"
    using assms by (simp_all add: uadd_def)
  have part: "CArray_setpart elem start xs =
      (if elem = [] \<and> start \<le> length xs then xs
       else take start xs @ replicate (start - length xs) 0 @ elem @ drop (start + length elem) xs)"
  proof (cases "start + length elem > length xs")
    case True
    then have "CArray_setpart elem start xs = copy_loop start elem (vec_resize (start + length elem) xs)"
      by (simp add: CArray_setpart_def u Let_def)
    also have "\<dots> = take start (vec_resize (start + length elem) xs) @ elem"
      by (simp add: copy_loop_list)
    also have "take start (vec_resize (start + length elem) xs) = take start xs @ replicate (start - length xs) 0"
      using True by (simp add: vec_resize_def min_def)
    finally show ?thesis using True by auto
  next
    case False
    then show ?thesis by (auto simp: CArray_setpart_def u Let_def copy_loop_list)
  qed
  have del: "CArray_deletepart start cnt xs = take start xs @ drop (start + cnt) xs"
    by (auto simp: CArray_deletepart_def u Let_def)
  from set app part del show ?thesis by blast
qed

theorem carray_list_operations_witness:
  "CArray_setpart [7, 8] 4 [1, 2] = [1, 2, 0, 0, 7, 8] \<and> CArray_deletepart 1 5 [1, 2] = [1]"
proof -
  have le: "(4::nat) + length [7, 8 :: byte] < 2 ^ 32" "(4::nat) + 0 < 2 ^ 32" "(1::nat) + length ([] :: byte list) < 2 ^ 32" "(1::nat) + 5 < 2 ^ 32"
    by simp_all
  note part = carray_list_operations [OF le(1,2), of "[1, 2]"] and del = carray_list_operations [OF le(3,4), of "[1, 2]"]
  have "take (4::nat) [1, 2 :: byte] @ replicate (4 - length [1, 2 :: byte]) 0 @ [7, 8] @ drop (4 + length [7, 8 :: byte]) [1, 2] = [1, 2, 0, 0, 7, 8]"
    "take (1::nat) [1, 2 :: byte] @ drop (1 + 5) [1, 2] = [1]"
    by (simp_all add: numeral_eq_Suc)
  with part del show ?thesis by (metis list.distinct(1))
qed

text \<open>
  The copying constructors pass the arguments of \<open>_sub\<close> in the wrong order.  For every position inside
  the array the result is empty, where the rest of the array from that position is meant; behind
  its end they read past it.
\<close>

theorem carray_part_is_empty:
  "CArray_from str pos = (if pos \<le> length str then Some [] else None) \<and>
   CArray_part str pos cnt = (if pos \<le> length str \<or> cnt = 0 then Some [] else None)"
  by (auto simp: CArray_from_def CArray_part_def sub_clamped_def Let_def vec_resize_def slice_def)

section \<open>The send buffer\<close>

text \<open>The result of a system call: a count, a temporary condition, or an error.\<close>

datatype io_result = IO_count nat | IO_again | IO_error

record SendBuf =
  sb_sendbuf :: "carray option"
  sb_sendpos :: nat
  sb_sendqueue :: "carray list"
  sb_ready :: bool
  sb_io :: bool

datatype sb_call = SB_out carray | SB_next | SB_error

type_synonym sb_result = "SendBuf \<times> sb_call list"

definition SendBuf_new :: SendBuf where
  "SendBuf_new = \<lparr>sb_sendbuf = None, sb_sendpos = 0, sb_sendqueue = [], sb_ready = False, sb_io = False\<rparr>"

text \<open>\<open>res\<close> is the result of the call of \<open>::write\<close>, which never writes more than it is given.\<close>

definition SendBuf_write :: "carray \<Rightarrow> io_result \<Rightarrow> SendBuf \<Rightarrow> sb_result" where
  "SendBuf_write data res s =
     (if sb_ready s then (s\<lparr>sb_sendqueue := sb_sendqueue s @ [data]\<rparr>, [])
      else let len = (case res of IO_count n \<Rightarrow> min n (length data) | _ \<Rightarrow> 0);
               full = (case res of IO_count n \<Rightarrow> length data \<le> n | _ \<Rightarrow> False);
               out = (if len = 0 then [] else [SB_out (take len data)])
           in if full then (s, out)
              else (s\<lparr>sb_sendbuf := Some data, sb_sendpos := len, sb_ready := True, sb_io := True\<rparr>, out))"

text \<open>
  The loop of \<open>io_cb\<close>; \<open>rs\<close> are the results of the writes it makes, and when they are used up the next
  write would block.
\<close>

function send_loop :: "io_result list \<Rightarrow> SendBuf \<Rightarrow> sb_result" where
  "send_loop rs s =
     (case sb_sendbuf s of
        None \<Rightarrow>
          (case sb_sendqueue s of
             [] \<Rightarrow> (s\<lparr>sb_ready := False, sb_io := False\<rparr>, [SB_next])
           | c # cs \<Rightarrow> send_loop rs (s\<lparr>sb_sendbuf := Some c, sb_sendpos := 0, sb_sendqueue := cs\<rparr>))
      | Some c \<Rightarrow>
          (case rs of
             [] \<Rightarrow> (s, [])
           | IO_again # _ \<Rightarrow> (s, [])
           | IO_error # _ \<Rightarrow> (s\<lparr>sb_io := False\<rparr>, [SB_error])
           | IO_count n # rs' \<Rightarrow>
               let i = min n (length c - sb_sendpos s)
               in if i = 0 then (s\<lparr>sb_io := False\<rparr>, [SB_error])
                  else if sb_sendpos s + i < length c
                  then (s\<lparr>sb_sendpos := sb_sendpos s + i\<rparr>, [SB_out (slice (sb_sendpos s) i c)])
                  else let x = send_loop rs' (s\<lparr>sb_sendbuf := None\<rparr>)
                       in (fst x, SB_out (slice (sb_sendpos s) i c) # snd x)))"
  by pat_completeness auto
termination
  by (relation "measures [\<lambda>(rs, s). length rs, \<lambda>(rs, s). length (sb_sendqueue s)]") auto

declare send_loop.simps [simp del]

definition SendBuf_io_cb :: "io_result list \<Rightarrow> SendBuf \<Rightarrow> sb_result" where
  "SendBuf_io_cb rs s = send_loop rs s"

definition SendBuf_start :: "SendBuf \<Rightarrow> sb_result" where
  "SendBuf_start s = (s\<lparr>sb_io := True\<rparr>, [])"

definition SendBuf_stop :: "SendBuf \<Rightarrow> sb_result" where
  "SendBuf_stop s = (s\<lparr>sb_io := False\<rparr>, [])"

datatype sb_event = SBE_write carray io_result | SBE_io "io_result list" | SBE_start | SBE_stop

fun sb_step :: "SendBuf \<Rightarrow> sb_event \<Rightarrow> sb_result" where
  "sb_step s (SBE_write data res) = SendBuf_write data res s"
| "sb_step s (SBE_io rs) = (if sb_io s then SendBuf_io_cb rs s else (s, []))"
| "sb_step s SBE_start = SendBuf_start s"
| "sb_step s SBE_stop = SendBuf_stop s"

subsection \<open>Order\<close>

definition sb_inv :: "SendBuf \<Rightarrow> bool" where
  "sb_inv s \<longleftrightarrow> (\<forall>c. sb_sendbuf s = Some c \<longrightarrow> sb_sendpos s \<le> length c) \<and>
     (\<not> sb_ready s \<longrightarrow> sb_sendbuf s = None \<and> sb_sendqueue s = [])"

definition sb_pending :: "SendBuf \<Rightarrow> carray" where
  "sb_pending s = (case sb_sendbuf s of None \<Rightarrow> [] | Some c \<Rightarrow> drop (sb_sendpos s) c) @ concat (sb_sendqueue s)"

fun sb_submits :: "sb_event \<Rightarrow> carray" where
  "sb_submits (SBE_write data res) = data"
| "sb_submits _ = []"

fun sb_releases :: "sb_call \<Rightarrow> carray" where
  "sb_releases (SB_out c) = c"
| "sb_releases _ = []"

lemma slice_drop: "slice a n xs @ drop (a + n) xs = drop a xs"
  using append_take_drop_id [of n "drop a xs"] by (simp add: slice_def add.commute)

text \<open>The cases of the loop.\<close>

lemma send_loop_done: "sb_sendbuf s = None \<Longrightarrow> sb_sendqueue s = [] \<Longrightarrow> send_loop rs s = (s\<lparr>sb_ready := False, sb_io := False\<rparr>, [SB_next])"
  by (subst send_loop.simps) simp

lemma send_loop_fetch:
  "sb_sendbuf s = None \<Longrightarrow> sb_sendqueue s = c # cs \<Longrightarrow>
   send_loop rs s = send_loop rs (s\<lparr>sb_sendbuf := Some c, sb_sendpos := 0, sb_sendqueue := cs\<rparr>)"
  by (subst send_loop.simps) simp

lemma send_loop_blocked:
  assumes "sb_sendbuf s = Some c" "\<forall>n rs'. rs = IO_count n # rs' \<longrightarrow> min n (length c - sb_sendpos s) = 0"
  shows "send_loop rs s = (s, []) \<or> send_loop rs s = (s\<lparr>sb_io := False\<rparr>, [SB_error])"
proof (cases rs)
  case Nil
  then show ?thesis using assms(1) send_loop.simps [of "[]" s] by simp
next
  case (Cons r rs')
  show ?thesis
  proof (cases r)
    case (IO_count n)
    have "min n (length c - sb_sendpos s) = 0" using assms(2) Cons IO_count by blast
    then show ?thesis using send_loop.simps [of rs s] assms(1) unfolding Cons IO_count by (simp only: option.case list.case io_result.case Let_def if_True) simp
  next
    case IO_again
    then show ?thesis using assms(1) send_loop.simps [of "IO_again # rs'" s] Cons by simp
  next
    case IO_error
    then show ?thesis using assms(1) send_loop.simps [of "IO_error # rs'" s] Cons by simp
  qed
qed

lemma send_loop_some:
  assumes "sb_sendbuf s = Some c" "k = min n (length c - sb_sendpos s)" "k \<noteq> 0" "sb_sendpos s + k < length c"
  shows "send_loop (IO_count n # rs) s = (s\<lparr>sb_sendpos := sb_sendpos s + k\<rparr>, [SB_out (slice (sb_sendpos s) k c)])"
  by (subst send_loop.simps) (simp only: assms(1) option.case list.case io_result.case Let_def assms(2) [symmetric] assms(3,4) if_True if_False)

lemma send_loop_all:
  assumes "sb_sendbuf s = Some c" "k = min n (length c - sb_sendpos s)" "k \<noteq> 0" "\<not> sb_sendpos s + k < length c"
  shows "send_loop (IO_count n # rs) s =
    (fst (send_loop rs (s\<lparr>sb_sendbuf := None\<rparr>)), SB_out (slice (sb_sendpos s) k c) # snd (send_loop rs (s\<lparr>sb_sendbuf := None\<rparr>)))"
  by (subst send_loop.simps) (simp only: assms(1) option.case list.case io_result.case Let_def assms(2) [symmetric] assms(3,4) if_True if_False)

definition sends_ok :: "SendBuf \<Rightarrow> sb_result \<Rightarrow> bool" where
  "sends_ok s x \<longleftrightarrow> sb_inv (fst x) \<and> sb_pending s = collect sb_releases (snd x) @ sb_pending (fst x)"

lemma send_loop_fifo: "sb_inv s \<Longrightarrow> sb_ready s \<Longrightarrow> sends_ok s (send_loop rs s)"
proof (induction rs s rule: send_loop.induct)
  case (1 rs s)
  show ?case
  proof (cases "sb_sendbuf s")
    case None
    show ?thesis
    proof (cases "sb_sendqueue s")
      case Nil
      show ?thesis unfolding send_loop_done [OF None Nil] using None Nil by (simp add: sends_ok_def sb_inv_def sb_pending_def)
    next
      case (Cons c cs)
      let ?s = "s\<lparr>sb_sendbuf := Some c, sb_sendpos := 0, sb_sendqueue := cs\<rparr>"
      have s: "sb_inv ?s" "sb_ready ?s" "sb_pending ?s = sb_pending s"
        using 1(3,4) None Cons by (simp_all add: sb_inv_def sb_pending_def)
      from 1(1) [OF None Cons s(1,2)] s(3) show ?thesis unfolding send_loop_fetch [OF None Cons] by (simp add: sends_ok_def)
    qed
  next
    case (Some c)
    show ?thesis
    proof (cases "\<forall>n rs'. rs = IO_count n # rs' \<longrightarrow> min n (length c - sb_sendpos s) = 0")
      case True
      have "sends_ok s (s, [])" "sends_ok s (s\<lparr>sb_io := False\<rparr>, [SB_error])"
        using 1(3) Some by (simp_all add: sends_ok_def sb_inv_def sb_pending_def)
      with send_loop_blocked [OF Some True] show ?thesis by auto
    next
      case False
      then obtain n rs' where rs: "rs = IO_count n # rs'" and i: "min n (length c - sb_sendpos s) \<noteq> 0" by blast
      define k where "k = min n (length c - sb_sendpos s)"
      have k: "k \<noteq> 0" using i by (simp only: k_def not_False_eq_True)
      note parts = slice_drop [of "sb_sendpos s" k c]
      show ?thesis
      proof (cases "sb_sendpos s + k < length c")
        case True
        show ?thesis
          unfolding rs send_loop_some [OF Some k_def k True]
          using 1(3) Some True parts by (simp add: sends_ok_def sb_inv_def sb_pending_def flip: append_assoc)
      next
        case all: False
        let ?s = "s\<lparr>sb_sendbuf := None\<rparr>"
        have s: "sb_inv ?s" "sb_ready ?s" using 1(3,4) by (simp_all add: sb_inv_def)
        have "sends_ok ?s (send_loop rs' ?s)" using 1(2) [OF Some rs refl k_def k all s] .
        moreover have "sb_pending s = slice (sb_sendpos s) k c @ sb_pending ?s"
          using Some parts all by (simp add: sb_pending_def)
        ultimately show ?thesis unfolding rs send_loop_all [OF Some k_def k all] by (simp add: sends_ok_def)
      qed
    qed
  qed
qed


lemma SendBuf_io_cb_fifo: "sb_inv s \<Longrightarrow> sends_ok s (SendBuf_io_cb rs s)"
proof (cases "sb_ready s")
  case False
  assume "sb_inv s"
  with False have "sb_sendbuf s = None" "sb_sendqueue s = []" by (simp_all add: sb_inv_def)
  then show ?thesis
    unfolding SendBuf_io_cb_def send_loop_done [OF \<open>sb_sendbuf s = None\<close> \<open>sb_sendqueue s = []\<close>]
    by (simp add: sends_ok_def sb_inv_def sb_pending_def)
qed (simp add: SendBuf_io_cb_def send_loop_fifo)

lemma SendBuf_write_fifo:
  assumes "sb_inv s"
  shows "sb_inv (fst (SendBuf_write data res s)) \<and>
    sb_pending s @ data = collect sb_releases (snd (SendBuf_write data res s)) @ sb_pending (fst (SendBuf_write data res s))"
proof (cases "sb_ready s")
  case True
  with assms show ?thesis by (simp add: SendBuf_write_def sb_inv_def sb_pending_def cong: option.case_cong)
next
  case False
  with assms have e: "sb_sendbuf s = None" "sb_sendqueue s = []" by (simp_all add: sb_inv_def)
  show ?thesis
    using False e by (cases res) (simp_all add: SendBuf_write_def Let_def sb_inv_def sb_pending_def min_def)
qed

interpretation sendbuf: fifo_machine sb_step "\<lambda>_. True" sb_inv "\<lambda>_. True" sb_pending sb_submits sb_releases
proof
  fix s e
  assume i: "sb_inv s"
  have "sb_inv (fst (sb_step s e)) \<and> sb_pending s @ sb_submits e = collect sb_releases (snd (sb_step s e)) @ sb_pending (fst (sb_step s e))"
  proof (cases e)
    case (SBE_write data res)
    then show ?thesis using SendBuf_write_fifo [OF i] by simp
  next
    case (SBE_io rs)
    then show ?thesis using SendBuf_io_cb_fifo [OF i, of rs] i by (simp add: sends_ok_def)
  next
    case SBE_start
    then show ?thesis using i by (simp add: SendBuf_start_def sb_inv_def sb_pending_def cong: option.case_cong)
  next
    case SBE_stop
    then show ?thesis using i by (simp add: SendBuf_stop_def sb_inv_def sb_pending_def cong: option.case_cong)
  qed
  then show "sb_inv (fst (sb_step s e))"
    and "sb_pending s @ sb_submits e = collect sb_releases (snd (sb_step s e)) @ sb_pending (fst (sb_step s e))"
    by blast+
qed simp_all

text \<open>
  \<^bold>\<open>C32\<close>: a send buffer never loses, duplicates or reorders a byte.  Whatever the counts and errors the
  operating system returns for the writes, and however writes and callbacks are interleaved, the
  bytes handed to it are those it has given to the file descriptor, followed by those it still holds.
\<close>

theorem sendbuf_fifo:
  "collect sb_submits es =
     collect sb_releases (snd (run_events sb_step SendBuf_new es)) @ sb_pending (fst (run_events sb_step SendBuf_new es))"
proof -
  have "sb_inv SendBuf_new" "sb_pending SendBuf_new = []" by (simp_all add: SendBuf_new_def sb_inv_def sb_pending_def)
  then show ?thesis using sendbuf.run_fifo [of SendBuf_new es] by (simp add: list_all_iff)
qed


section \<open>The receive buffer\<close>

text \<open>
  \<open>recvbuf\<close> holds the first \<open>recvpos\<close> bytes of an array of 1024.  The callback \<open>on_read\<close> is given these
  bytes and says how many it has used; it may stop the buffer, and \<open>on_error\<close> works on the state \<open>'c\<close> of
  its owner only.  A callback that claims to have used more than it was given makes \<open>recvpos\<close> wrap
  around: \<open>None\<close>.
\<close>

record RecvBuf =
  rb_running :: bool
  rb_io :: bool
  rb_quick :: bool
  rb_recvbuf :: carray

definition RecvBuf_new :: RecvBuf where
  "RecvBuf_new = \<lparr>rb_running = False, rb_io = False, rb_quick = False, rb_recvbuf = []\<rparr>"

definition low_latency :: "RecvBuf \<Rightarrow> RecvBuf" where
  "low_latency r = r\<lparr>rb_quick := True\<rparr>"

definition RecvBuf_stop :: "RecvBuf \<Rightarrow> RecvBuf" where
  "RecvBuf_stop r = (let r1 = (if \<not> rb_running r then r\<lparr>rb_running := False\<rparr> else r) in r1\<lparr>rb_io := False\<rparr>)"

lemma RecvBuf_stop_eq [simp]: "RecvBuf_stop r = r\<lparr>rb_io := False\<rparr>"
  by (cases r) (simp add: RecvBuf_stop_def)

type_synonym 'c on_read = "carray \<Rightarrow> 'c \<Rightarrow> nat \<times> bool \<times> 'c"

function feed_out :: "'c on_read \<Rightarrow> ('c \<Rightarrow> 'c) \<Rightarrow> RecvBuf \<Rightarrow> 'c \<Rightarrow> (RecvBuf \<times> 'c) option" where
  "feed_out on_read on_error r c =
     (if rb_running r \<and> rb_recvbuf r \<noteq> [] then
        (let (i, stopped, c1) = on_read (rb_recvbuf r) c;
             r1 = (if stopped then RecvBuf_stop r else r)
         in if i = 0 then
              (if length (rb_recvbuf r) = 1024 then Some (r1\<lparr>rb_io := False\<rparr>, on_error c1) else Some (r1, c1))
            else if i = length (rb_recvbuf r) then feed_out on_read on_error (r1\<lparr>rb_recvbuf := []\<rparr>) c1
            else if i > length (rb_recvbuf r) then None
            else feed_out on_read on_error (r1\<lparr>rb_recvbuf := drop i (rb_recvbuf r)\<rparr>) c1)
      else Some (r, c))"
  by pat_completeness auto
termination
  by (relation "measure (\<lambda>(f, g, r, c). length (rb_recvbuf r))") auto

declare feed_out.simps [simp del]

text \<open>
  The loop of \<open>io_cb\<close>.  \<open>avail\<close> are the bytes the kernel holds, and \<open>fin\<close> is what \<open>read\<close> returns when there
  are none.  The last component of the result says whether \<open>on_error\<close> is called.
\<close>

function read_input :: "io_result \<Rightarrow> bool \<Rightarrow> carray \<Rightarrow> RecvBuf \<Rightarrow> RecvBuf \<times> carray \<times> bool" where
  "read_input fin some avail r =
     (if 1024 > length (rb_recvbuf r) then
        (let n = (if rb_quick r then 1 else 1024 - length (rb_recvbuf r)); d = take n avail
         in if d = [] then
              (if some \<or> fin = IO_again then (r, avail, False) else (r\<lparr>rb_io := False\<rparr>, avail, True))
            else let r1 = r\<lparr>rb_recvbuf := rb_recvbuf r @ d\<rparr>
                 in if \<not> rb_quick r then (r1, drop n avail, False) else read_input fin True (drop n avail) r1)
      else (r, avail, False))"
  by pat_completeness auto
termination
  by (relation "measure (\<lambda>(f, m, a, r). length a)") auto

declare read_input.simps [simp del]

definition RecvBuf_io_cb :: "'c on_read \<Rightarrow> ('c \<Rightarrow> 'c) \<Rightarrow> io_result \<Rightarrow> carray \<Rightarrow> RecvBuf \<Rightarrow> 'c \<Rightarrow> ((RecvBuf \<times> 'c) \<times> carray) option" where
  "RecvBuf_io_cb on_read on_error fin avail r c =
     (let (r1, rest, err) = read_input fin False avail r; c1 = (if err then on_error c else c)
      in map_option (\<lambda>x. (x, rest)) (feed_out on_read on_error r1 c1))"

definition RecvBuf_start :: "'c on_read \<Rightarrow> ('c \<Rightarrow> 'c) \<Rightarrow> RecvBuf \<Rightarrow> 'c \<Rightarrow> (RecvBuf \<times> 'c) option" where
  "RecvBuf_start on_read on_error r c =
     (if rb_running r then Some (r, c)
      else feed_out on_read on_error (r\<lparr>rb_running := True, rb_io := True\<rparr>) c)"


text \<open>
  A buffer, its owner and the bytes the kernel holds for the file descriptor.  The event loop calls
  \<open>io_cb\<close> only while the watcher is active.
\<close>

datatype rb_event = RBE_arrive carray | RBE_io io_result | RBE_start | RBE_stop

fun rb_step :: "'c on_read \<Rightarrow> ('c \<Rightarrow> 'c) \<Rightarrow> RecvBuf \<times> 'c \<times> carray \<Rightarrow> rb_event \<Rightarrow> (RecvBuf \<times> 'c \<times> carray) option" where
  "rb_step on_read on_error (r, c, avail) (RBE_arrive d) = Some (r, c, avail @ d)"
| "rb_step on_read on_error (r, c, avail) (RBE_io fin) =
     (if rb_io r then map_option (\<lambda>((r1, c1), rest). (r1, c1, rest)) (RecvBuf_io_cb on_read on_error fin avail r c)
      else Some (r, c, avail))"
| "rb_step on_read on_error (r, c, avail) RBE_start =
     map_option (\<lambda>(r1, c1). (r1, c1, avail)) (RecvBuf_start on_read on_error r c)"
| "rb_step on_read on_error (r, c, avail) RBE_stop = Some (RecvBuf_stop r, c, avail)"

primrec rb_run :: "'c on_read \<Rightarrow> ('c \<Rightarrow> 'c) \<Rightarrow> RecvBuf \<times> 'c \<times> carray \<Rightarrow> rb_event list \<Rightarrow> (RecvBuf \<times> 'c \<times> carray) option" where
  "rb_run on_read on_error x [] = Some x"
| "rb_run on_read on_error x (e # es) = Option.bind (rb_step on_read on_error x e) (\<lambda>y. rb_run on_read on_error y es)"

fun rb_arrives :: "rb_event \<Rightarrow> carray" where
  "rb_arrives (RBE_arrive d) = d"
| "rb_arrives _ = []"

text \<open>The callbacks of \<open>FDdriver\<close>; its state is the list of what it has passed to \<open>recv_Data\<close> and reported.\<close>

datatype fd_call = FD_recv_Data carray | FD_errored

definition FD_read_cb :: "fd_call list on_read" where
  "FD_read_cb buf c = (length buf, False, c @ [FD_recv_Data buf])"

definition FD_error_cb :: "fd_call list \<Rightarrow> fd_call list" where
  "FD_error_cb c = c @ [FD_errored]"

fun fd_bytes :: "fd_call \<Rightarrow> carray" where
  "fd_bytes (FD_recv_Data buf) = buf"
| "fd_bytes FD_errored = []"

definition reads_ok :: "carray \<Rightarrow> RecvBuf \<Rightarrow> RecvBuf \<times> carray \<times> bool \<Rightarrow> bool" where
  "reads_ok avail r x \<longleftrightarrow> rb_recvbuf (fst x) @ fst (snd x) = rb_recvbuf r @ avail \<and>
     rb_running (fst x) = rb_running r \<and> rb_quick (fst x) = rb_quick r \<and> (\<not> snd (snd x) \<longrightarrow> rb_io (fst x) = rb_io r)"

lemma read_input_ok: "reads_ok avail r (read_input fin some avail r)"
proof (induction fin some avail r rule: read_input.induct)
  case (1 fin some avail r)
  let ?n = "if rb_quick r then 1 else 1024 - length (rb_recvbuf r)"
  show ?case
  proof (cases "1024 > length (rb_recvbuf r) \<and> take ?n avail \<noteq> [] \<and> rb_quick r")
    case True
    let ?r = "r\<lparr>rb_recvbuf := rb_recvbuf r @ take ?n avail\<rparr>"
    have e: "read_input fin some avail r = read_input fin True (drop ?n avail) ?r"
      using True by (subst read_input.simps) (simp add: Let_def)
    have "reads_ok (drop ?n avail) ?r (read_input fin True (drop ?n avail) ?r)"
      by (rule 1) (use True in simp_all)
    then show ?thesis unfolding e by (simp add: reads_ok_def)
  next
    case False
    then show ?thesis by (cases "rb_quick r") (simp_all add: reads_ok_def read_input.simps [of fin some avail r] Let_def)
  qed
qed

lemma feed_out_empty: "rb_recvbuf r = [] \<or> \<not> rb_running r \<Longrightarrow> feed_out f g r c = Some (r, c)"
  by (subst feed_out.simps) auto

lemma feed_out_FD:
  assumes "rb_running r"
  shows "feed_out FD_read_cb FD_error_cb r c =
    Some (r\<lparr>rb_recvbuf := []\<rparr>, c @ (if rb_recvbuf r = [] then [] else [FD_recv_Data (rb_recvbuf r)]))"
  using assms by (cases "rb_recvbuf r = []") (simp_all add: feed_out_empty, subst feed_out.simps, simp add: FD_read_cb_def feed_out_empty)


text \<open>What the owner has been given, in order, and what is still to be read, is what has arrived.\<close>

definition fd_ok :: "carray \<Rightarrow> RecvBuf \<times> fd_call list \<times> carray \<Rightarrow> bool" where
  "fd_ok stream x \<longleftrightarrow> rb_recvbuf (fst x) = [] \<and> (rb_io (fst x) \<longrightarrow> rb_running (fst x)) \<and>
     collect fd_bytes (fst (snd x)) @ snd (snd x) = stream"

lemma rb_step_FD:
  assumes "fd_ok stream x"
  shows "\<exists>y. rb_step FD_read_cb FD_error_cb x e = Some y \<and> fd_ok (stream @ rb_arrives e) y"
proof -
  obtain r c avail where x: "x = (r, c, avail)" by (cases x)
  show ?thesis
  proof (cases e)
    case (RBE_arrive d)
    then show ?thesis using assms by (auto simp: x fd_ok_def)
  next
    case (RBE_io fin)
    obtain r1 rest err where i: "read_input fin False avail r = (r1, rest, err)" by (cases "read_input fin False avail r")
    have ok: "reads_ok avail r (r1, rest, err)" using read_input_ok [of avail r fin False] i by simp
    show ?thesis
    proof (cases "rb_io r")
      case True
      then have run: "rb_running r1" using assms ok by (simp add: x fd_ok_def reads_ok_def)
      then show ?thesis using assms ok True RBE_io
        by (auto simp: x fd_ok_def reads_ok_def RecvBuf_io_cb_def i feed_out_FD FD_error_cb_def)
    next
      case False
      then show ?thesis using assms RBE_io by (simp add: x)
    qed
  next
    case RBE_start
    then show ?thesis using assms by (auto simp: x fd_ok_def RecvBuf_start_def feed_out_FD)
  next
    case RBE_stop
    then show ?thesis using assms by (auto simp: x fd_ok_def)
  qed
qed

lemma rb_run_FD:
  "fd_ok stream x \<Longrightarrow> \<exists>y. rb_run FD_read_cb FD_error_cb x es = Some y \<and> fd_ok (stream @ collect rb_arrives es) y"
proof (induction es arbitrary: x stream)
  case (Cons e es)
  obtain y where "rb_step FD_read_cb FD_error_cb x e = Some y" "fd_ok (stream @ rb_arrives e) y"
    using rb_step_FD [OF Cons.prems] by blast
  then show ?case using Cons.IH [of "stream @ rb_arrives e" y] by simp
qed simp

text \<open>
  \<^bold>\<open>C33\<close>: the receive buffer hands on what arrives, in order.  Whatever the sequence of arrivals, callbacks,
  starts and stops, reading never goes wrong, and the bytes given to \<open>recv_Data\<close> of an \<open>FDdriver\<close>
  followed by those the kernel still holds are the bytes that have arrived.
\<close>

theorem recvbuf_stream:
  "\<exists>r c avail. rb_run FD_read_cb FD_error_cb (low_latency RecvBuf_new, [], []) es = Some (r, c, avail) \<and>
     collect fd_bytes c @ avail = collect rb_arrives es"
proof -
  have "fd_ok [] (low_latency RecvBuf_new, [], [])" by (simp add: fd_ok_def low_latency_def RecvBuf_new_def)
  from rb_run_FD [OF this, of es] show ?thesis by (auto simp: fd_ok_def)
qed

lemma rb_run_deaf:
  assumes "rb_running r" "\<not> rb_io r"
  shows "rb_run f g (r, c, avail) es = Some (r, c, avail @ collect rb_arrives es)"
  using assms
proof (induction es arbitrary: avail)
  case (Cons e es)
  have r: "r\<lparr>rb_io := False\<rparr> = r" using Cons.prems by (cases r) simp
  show ?case using Cons.IH Cons.prems by (cases e) (simp_all add: RecvBuf_start_def r)
qed simp

text \<open>
  A receive buffer that was stopped stays deaf.  \<open>stop\<close> clears \<open>running\<close> only if it is already
  clear, so that a later \<open>start\<close> returns at once and the watcher is never armed again: no callback is
  called any more, whatever arrives.
\<close>

theorem recvbuf_restart_deaf:
  "rb_run on_read on_error (RecvBuf_new, c, []) (RBE_start # RBE_stop # RBE_start # es) =
     Some (RecvBuf_new\<lparr>rb_running := True\<rparr>, c, collect rb_arrives es)"
proof -
  have "feed_out on_read on_error (RecvBuf_new\<lparr>rb_running := True, rb_io := True\<rparr>) c =
      Some (RecvBuf_new\<lparr>rb_running := True, rb_io := True\<rparr>, c)"
    by (rule feed_out_empty) (simp add: RecvBuf_new_def)
  then show ?thesis
    using rb_run_deaf [of "RecvBuf_new\<lparr>rb_running := True\<rparr>" on_read on_error c "[]" es]
    by (simp add: RecvBuf_start_def RecvBuf_new_def)
qed

end
