(* ===== verification/Client.thy ===== *)
theory Client
  imports Layer4 Groupcache Router Containers
begin

text \<open>
  The connections of local clients: \<open>ClientConnection\<close> (\<^verbatim>\<open>src/src/libserver/client.cpp\<close>) with the sessions
  it opens (\<^verbatim>\<open>connection.cpp\<close>, \<^verbatim>\<open>busmonitor.cpp\<close>) on the endpoints of the transport layer, and the
  server that accepts them (\<^verbatim>\<open>server.cpp\<close>).  A handler returns the new state and the calls it makes, in
  order.
\<close>

section \<open>State\<close>

text \<open>The classes of sessions: \<open>A_Busmonitor virt ts\<close> and \<open>A_Text_Busmonitor virt\<close>.\<close>

datatype A_class =
    A_Broadcast
  | A_Group
  | A_TPDU
  | A_Individual
  | A_Connection
  | A_GroupSocket
  | A_Busmonitor bool bool
  | A_Text_Busmonitor bool

text \<open>The endpoint of the transport layer that \<open>setup\<close> creates, together with its link, with its arguments.\<close>

datatype l4_endpoint =
    EP_Broadcast bool
  | EP_Group eibaddr bool
  | EP_TPDU eibaddr
  | EP_Individual eibaddr bool
  | EP_Connection T_Connection
  | EP_GroupSocket bool

record A_conn =
  a_class :: A_class
  a_c :: "l4_endpoint option"
  a_running :: bool

definition A_new :: "A_class \<Rightarrow> A_conn" where
  "A_new cls = \<lparr>a_class = cls, a_c = None, a_running = False\<rparr>"

text \<open>\<open>cl_fd\<close>: the descriptor is open.\<close>

record ClientConnection =
  cl_fd :: bool
  cl_running :: bool
  cl_addr :: eibaddr
  cl_conn :: "A_conn option"

definition ClientConnection_new :: "eibaddr \<Rightarrow> ClientConnection" where
  "ClientConnection_new a = \<lparr>cl_fd = True, cl_running = False, cl_addr = a, cl_conn = None\<rparr>"

text \<open>
  The calls; \<open>CO_registerLink\<close> with its result.  \<open>CO_link_stopped\<close> is the call of \<open>LinkBase::stopped\<close> by an endpoint that is stopped; the last
  two are a failed assertion and a call on a null pointer.
\<close>

datatype cl_call =
    CO_write carray
  | CO_ToL3 l_data_pdu
  | CO_send_Next
  | CO_registerLink bool
  | CO_unregisterLink
  | CO_link_stopped
  | CO_registerBusmonitor bool
  | CO_deregisterBusmonitor bool
  | CO_cache carray
  | CO_release_client_addr eibaddr
  | CO_deregister
  | CO_close
  | CO_abort
  | CO_null

type_synonym cl_result = "ClientConnection \<times> cl_call list"

text \<open>
  What a request finds: whether the router has a cache, whether the link of the new session can be set up
  and registered, the time stamp of \<open>gettimeofday\<close>, the uninitialised counter of a new \<open>T_Connection\<close>,
  and the bytes of the receive buffer behind the message.
\<close>

record cl_env =
  e_cache :: bool
  e_link_setup :: bool
  e_registerLink :: bool
  e_time :: u32
  e_garbage :: nat
  e_stale :: "byte \<times> byte"

section \<open>Messages\<close>

definition EIBTYPE :: "carray \<Rightarrow> u16" where
  "EIBTYPE buf = be16 (buf ! 0) (buf ! 1)"

definition EIBSETTYPE :: "u16 \<Rightarrow> carray" where
  "EIBSETTYPE ty = [hi8 ty, lo8 ty]"

definition sendmessage :: "carray \<Rightarrow> cl_call list" where
  "sendmessage msg =
     (if length msg < 2 then [CO_abort]
      else [CO_write [hi8 (of_nat (length msg)), lo8 (of_nat (length msg))], CO_write msg])"

definition client_sendreject :: "u16 \<Rightarrow> cl_call list" where
  "client_sendreject ty = sendmessage (EIBSETTYPE ty)"

section \<open>From the bus to the client\<close>

definition A_Broadcast_send :: "BroadcastComm \<Rightarrow> cl_call list" where
  "A_Broadcast_send e = sendmessage (EIBSETTYPE 0x0025 @ [hi8 (bc_src e), lo8 (bc_src e)] @ bc_data e)"

definition A_Group_send :: "GroupComm \<Rightarrow> cl_call list" where
  "A_Group_send e = sendmessage (EIBSETTYPE 0x0025 @ [hi8 (gc_src e), lo8 (gc_src e)] @ gc_data e)"

definition A_TPDU_send :: "TpduComm \<Rightarrow> cl_call list" where
  "A_TPDU_send e = sendmessage (EIBSETTYPE 0x0025 @ [hi8 (tc_addr e), lo8 (tc_addr e)] @ tc_data e)"

definition A_Individual_send :: "carray \<Rightarrow> cl_call list" where
  "A_Individual_send e = sendmessage (EIBSETTYPE 0x0025 @ e)"

definition A_Connection_send :: "carray \<Rightarrow> cl_call list" where
  "A_Connection_send e = sendmessage (EIBSETTYPE 0x0025 @ e)"

definition A_GroupSocket_send :: "GroupAPDU \<Rightarrow> cl_call list" where
  "A_GroupSocket_send e =
     sendmessage (EIBSETTYPE 0x0027 @ [hi8 (ga_src e), lo8 (ga_src e), hi8 (ga_dst e), lo8 (ga_dst e)] @ ga_data e)"

text \<open>The calls of an endpoint: on its application, on the link.\<close>

fun l4_call :: "('c \<Rightarrow> cl_call list) \<Rightarrow> 'c l4_out \<Rightarrow> cl_call list" where
  "l4_call send (ToL3 l) = [CO_ToL3 l]"
| "l4_call send (ToApp c) = send c"
| "l4_call send SendNext = [CO_send_Next]"
| "l4_call send Abort = [CO_abort]"

fun endpoint_send_L_Data :: "l4_endpoint \<Rightarrow> l_data_pdu \<Rightarrow> l4_endpoint \<times> cl_call list" where
  "endpoint_send_L_Data (EP_Broadcast w) l =
     (EP_Broadcast w, collect (l4_call A_Broadcast_send) (T_Broadcast_send_L_Data l))"
| "endpoint_send_L_Data (EP_Group g w) l = (EP_Group g w, collect (l4_call A_Group_send) (T_Group_send_L_Data l))"
| "endpoint_send_L_Data (EP_TPDU src) l = (EP_TPDU src, collect (l4_call A_TPDU_send) (T_TPDU_send_L_Data l))"
| "endpoint_send_L_Data (EP_Individual d w) l =
     (EP_Individual d w, collect (l4_call A_Individual_send) (T_Individual_send_L_Data l))"
| "endpoint_send_L_Data (EP_Connection t) l =
     (let x = T_Connection_send_L_Data t l in (EP_Connection (fst x), collect (l4_call A_Connection_send) (snd x)))"
| "endpoint_send_L_Data (EP_GroupSocket w) l =
     (EP_GroupSocket w, collect (l4_call A_GroupSocket_send) (GroupSocket_send_L_Data l))"

definition endpoint_timer :: "l4_endpoint \<Rightarrow> l4_endpoint \<times> cl_call list" where
  "endpoint_timer ep =
     (case ep of
        EP_Connection t \<Rightarrow>
          if timer_on t
          then let x = timer_cb (t\<lparr>timer_on := False\<rparr>) in (EP_Connection (fst x), collect (l4_call A_Connection_send) (snd x))
          else (ep, [])
      | _ \<Rightarrow> (ep, []))"

text \<open>The destructors stop the endpoint.\<close>

definition endpoint_stop :: "l4_endpoint \<Rightarrow> cl_call list" where
  "endpoint_stop ep =
     (case ep of
        EP_Connection t \<Rightarrow> collect (l4_call A_Connection_send) (snd (T_Connection_stop t))
      | _ \<Rightarrow> [CO_link_stopped])"

definition u32_bytes :: "u32 \<Rightarrow> carray" where
  "u32_bytes x = [byte_at 24 x, byte_at 16 x, byte_at 8 x, byte_at 0 x]"

definition A_Busmonitor_send :: "bool \<Rightarrow> l_busmonitor_pdu \<Rightarrow> cl_call list" where
  "A_Busmonitor_send ts p =
     sendmessage ((if ts then EIBSETTYPE 0x0015 @ [b_status p] @ u32_bytes (b_timestamp p) else EIBSETTYPE 0x0014) @ b_pdu p)"

section \<open>Closing a session\<close>

definition A_Busmonitor_stop :: "bool \<Rightarrow> A_conn \<Rightarrow> A_conn \<times> cl_call list" where
  "A_Busmonitor_stop v a =
     (if \<not> a_running a then (a, []) else (a\<lparr>a_running := False\<rparr>, [CO_deregisterBusmonitor v]))"

definition A_stop :: "A_conn \<Rightarrow> A_conn \<times> cl_call list" where
  "A_stop a =
     (case a_class a of
        A_Busmonitor v ts \<Rightarrow> A_Busmonitor_stop v a
      | A_Text_Busmonitor v \<Rightarrow> A_Busmonitor_stop v a
      | _ \<Rightarrow> (a, []))"

definition A_delete :: "A_conn \<Rightarrow> cl_call list" where
  "A_delete a = snd (A_stop a) @ (case a_c a of None \<Rightarrow> [] | Some ep \<Rightarrow> endpoint_stop ep)"

definition exit_conn :: "ClientConnection \<Rightarrow> cl_result" where
  "exit_conn c =
     (case cl_conn c of
        None \<Rightarrow> (c, [])
      | Some a \<Rightarrow>
          let x = A_stop a
          in (c\<lparr>cl_conn := None\<rparr>,
              snd x @ (if a_c a \<noteq> None then [CO_unregisterLink] else []) @ A_delete (fst x)))"

definition ClientConnection_stop :: "ClientConnection \<Rightarrow> cl_result" where
  "ClientConnection_stop c =
     (let o1 = (if cl_addr c \<noteq> 0 then [CO_release_client_addr (cl_addr c)] else []);
          x = exit_conn (c\<lparr>cl_addr := 0\<rparr>)
      in if \<not> cl_fd c then (fst x, o1 @ snd x @ [CO_deregister])
         else ((fst x)\<lparr>cl_fd := False, cl_running := False\<rparr>, o1 @ snd x @ [CO_deregister, CO_close]))"

section \<open>Opening a session\<close>

text \<open>Each \<open>setup\<close> says whether it succeeded.  The first helper is the part the six of them share.\<close>

definition open_link :: "cl_env \<Rightarrow> carray \<Rightarrow> l4_endpoint \<Rightarrow> A_conn \<Rightarrow> bool \<times> A_conn \<times> cl_call list" where
  "open_link v buf ep a =
     (let a1 = a\<lparr>a_c := Some ep\<rparr>
      in if \<not> e_link_setup v then (False, a1, []) else (True, a1, sendmessage (take 2 buf)))"

definition A_Broadcast_setup :: "cl_env \<Rightarrow> carray \<Rightarrow> A_conn \<Rightarrow> bool \<times> A_conn \<times> cl_call list" where
  "A_Broadcast_setup v buf a =
     (if length buf \<noteq> 5 then (False, a, []) else open_link v buf (EP_Broadcast (buf ! 4 \<noteq> 0)) a)"

definition A_Group_setup :: "cl_env \<Rightarrow> carray \<Rightarrow> A_conn \<Rightarrow> bool \<times> A_conn \<times> cl_call list" where
  "A_Group_setup v buf a =
     (if length buf \<noteq> 5 then (False, a, [])
      else open_link v buf (EP_Group (be16 (buf ! 2) (buf ! 3)) (buf ! 4 \<noteq> 0)) a)"

definition A_TPDU_setup :: "cl_env \<Rightarrow> carray \<Rightarrow> A_conn \<Rightarrow> bool \<times> A_conn \<times> cl_call list" where
  "A_TPDU_setup v buf a =
     (if length buf \<noteq> 5 then (False, a, []) else open_link v buf (EP_TPDU (be16 (buf ! 2) (buf ! 3))) a)"

definition A_Individual_setup :: "cl_env \<Rightarrow> carray \<Rightarrow> A_conn \<Rightarrow> bool \<times> A_conn \<times> cl_call list" where
  "A_Individual_setup v buf a =
     (if length buf \<noteq> 5 then (False, a, [])
      else open_link v buf (EP_Individual (be16 (buf ! 2) (buf ! 3)) (buf ! 4 \<noteq> 0)) a)"

definition A_Connection_setup :: "cl_env \<Rightarrow> carray \<Rightarrow> A_conn \<Rightarrow> bool \<times> A_conn \<times> cl_call list" where
  "A_Connection_setup v buf a =
     (if length buf \<noteq> 5 then (False, a, [])
      else open_link v buf (EP_Connection (T_Connection_new (e_garbage v) (be16 (buf ! 2) (buf ! 3)))) a)"

definition A_GroupSocket_setup :: "cl_env \<Rightarrow> carray \<Rightarrow> A_conn \<Rightarrow> bool \<times> A_conn \<times> cl_call list" where
  "A_GroupSocket_setup v buf a =
     (if length buf \<noteq> 5 then (False, a, []) else open_link v buf (EP_GroupSocket (buf ! 4 \<noteq> 0)) a)"

definition A_Busmonitor_setup :: "bool \<Rightarrow> cl_env \<Rightarrow> carray \<Rightarrow> A_conn \<Rightarrow> bool \<times> A_conn \<times> cl_call list" where
  "A_Busmonitor_setup ts v buf a =
     (if length buf \<noteq> 2 then (False, a, client_sendreject 0x0000)
      else (True, a, sendmessage (buf @ (if ts then u32_bytes (e_time v) else []))))"

definition A_setup :: "cl_env \<Rightarrow> carray \<Rightarrow> A_conn \<Rightarrow> bool \<times> A_conn \<times> cl_call list" where
  "A_setup v buf a =
     (case a_class a of
        A_Broadcast \<Rightarrow> A_Broadcast_setup v buf a
      | A_Group \<Rightarrow> A_Group_setup v buf a
      | A_TPDU \<Rightarrow> A_TPDU_setup v buf a
      | A_Individual \<Rightarrow> A_Individual_setup v buf a
      | A_Connection \<Rightarrow> A_Connection_setup v buf a
      | A_GroupSocket \<Rightarrow> A_GroupSocket_setup v buf a
      | A_Busmonitor virt ts \<Rightarrow> A_Busmonitor_setup ts v buf a
      | A_Text_Busmonitor virt \<Rightarrow> A_Busmonitor_setup False v buf a)"

definition A_Busmonitor_start :: "bool \<Rightarrow> A_conn \<Rightarrow> A_conn \<times> cl_call list" where
  "A_Busmonitor_start virt a =
     (if a_running a then (a, []) else (a\<lparr>a_running := True\<rparr>, [CO_registerBusmonitor virt]))"

definition A_start :: "A_conn \<Rightarrow> A_conn \<times> cl_call list" where
  "A_start a =
     (case a_class a of
        A_Busmonitor virt ts \<Rightarrow> A_Busmonitor_start virt a
      | A_Text_Busmonitor virt \<Rightarrow> A_Busmonitor_start virt a
      | _ \<Rightarrow> (a, []))"

text \<open>The label \<open>new_a_conn\<close>.\<close>

definition new_a_conn :: "cl_env \<Rightarrow> carray \<Rightarrow> A_class \<Rightarrow> ClientConnection \<Rightarrow> cl_result" where
  "new_a_conn v buf cls c =
     (case A_setup v buf (A_new cls) of
        (ok, a, o1) \<Rightarrow>
          let failed = (let x = exit_conn (c\<lparr>cl_conn := Some a\<rparr>) in (fst x, snd x @ client_sendreject 0x0000));
              reg = (if a_c a \<noteq> None then [CO_registerLink (e_registerLink v)] else [])
          in if \<not> ok then (fst failed, o1 @ snd failed)
             else if a_c a \<noteq> None \<and> \<not> e_registerLink v then (fst failed, o1 @ reg @ snd failed)
             else let y = A_start a in (c\<lparr>cl_conn := Some (fst y)\<rparr>, o1 @ reg @ snd y))"

section \<open>From the client to the bus\<close>

text \<open>
  The second component of the result is \<open>None\<close> when \<open>on_error\<close> is called.
\<close>

definition A_Broadcast_recv_Data :: "carray \<Rightarrow> cl_call list option" where
  "A_Broadcast_recv_Data buf =
     (if length buf < 2 \<or> EIBTYPE buf \<noteq> 0x0025 then None
      else Some (collect (l4_call A_Broadcast_send) (T_Broadcast_recv_Data (drop 2 buf))))"

definition A_Group_recv_Data :: "eibaddr \<Rightarrow> carray \<Rightarrow> cl_call list option" where
  "A_Group_recv_Data g buf =
     (if length buf < 2 \<or> EIBTYPE buf \<noteq> 0x0025 then None
      else Some (collect (l4_call A_Group_send) (T_Group_recv_Data g (drop 2 buf))))"

definition A_TPDU_recv_Data :: "eibaddr \<Rightarrow> carray \<Rightarrow> cl_call list option" where
  "A_TPDU_recv_Data src buf =
     (if length buf < 4 \<or> EIBTYPE buf \<noteq> 0x0025 then None
      else Some (collect (l4_call A_TPDU_send)
             (T_TPDU_recv_Data src \<lparr>tc_data = drop 4 buf, tc_addr = be16 (buf ! 2) (buf ! 3)\<rparr>)))"

definition A_Individual_recv_Data :: "eibaddr \<Rightarrow> carray \<Rightarrow> cl_call list option" where
  "A_Individual_recv_Data d buf =
     (if length buf < 2 \<or> EIBTYPE buf \<noteq> 0x0025 then None
      else Some (collect (l4_call A_Individual_send) (T_Individual_recv_Data d (drop 2 buf))))"

definition A_Connection_recv_Data :: "T_Connection \<Rightarrow> carray \<Rightarrow> (T_Connection \<times> cl_call list) option" where
  "A_Connection_recv_Data t buf =
     (if length buf < 2 \<or> EIBTYPE buf \<noteq> 0x0025 then None
      else let x = T_Connection_recv_Data t (drop 2 buf) in Some (fst x, collect (l4_call A_Connection_send) (snd x)))"

definition A_GroupSocket_recv_Data :: "carray \<Rightarrow> cl_call list option" where
  "A_GroupSocket_recv_Data buf =
     (if length buf < 4 \<or> EIBTYPE buf \<noteq> 0x0027 then None
      else Some (collect (l4_call A_GroupSocket_send)
             (GroupSocket_recv_Data \<lparr>ga_data = drop 4 buf, ga_src = 0, ga_dst = be16 (buf ! 2) (buf ! 3)\<rparr>)))"

fun endpoint_recv_Data :: "l4_endpoint \<Rightarrow> carray \<Rightarrow> (l4_endpoint \<times> cl_call list) option" where
  "endpoint_recv_Data (EP_Broadcast w) buf = map_option (Pair (EP_Broadcast w)) (A_Broadcast_recv_Data buf)"
| "endpoint_recv_Data (EP_Group g w) buf = map_option (Pair (EP_Group g w)) (A_Group_recv_Data g buf)"
| "endpoint_recv_Data (EP_TPDU src) buf = map_option (Pair (EP_TPDU src)) (A_TPDU_recv_Data src buf)"
| "endpoint_recv_Data (EP_Individual d w) buf = map_option (Pair (EP_Individual d w)) (A_Individual_recv_Data d buf)"
| "endpoint_recv_Data (EP_Connection t) buf = map_option (apfst EP_Connection) (A_Connection_recv_Data t buf)"
| "endpoint_recv_Data (EP_GroupSocket w) buf = map_option (Pair (EP_GroupSocket w)) (A_GroupSocket_recv_Data buf)"

definition A_recv_Data :: "carray \<Rightarrow> A_conn \<Rightarrow> ClientConnection \<Rightarrow> cl_result" where
  "A_recv_Data buf a c =
     (case a_class a of
        A_Busmonitor virt ts \<Rightarrow> (c, [])
      | A_Text_Busmonitor virt \<Rightarrow> (c, [])
      | _ \<Rightarrow>
          (case a_c a of
             None \<Rightarrow> (c, [CO_null])
           | Some ep \<Rightarrow>
               (case endpoint_recv_Data ep buf of
                  None \<Rightarrow> exit_conn c
                | Some (ep', os) \<Rightarrow> (c\<lparr>cl_conn := Some (a\<lparr>a_c := Some ep'\<rparr>)\<rparr>, os))))"

section \<open>Requests\<close>

text \<open>The sessions by the type of the request that opens them.\<close>

definition session_class :: "u16 \<Rightarrow> A_class option" where
  "session_class ty =
     (if ty = 0x0010 then Some (A_Busmonitor False False)
      else if ty = 0x0011 then Some (A_Text_Busmonitor False)
      else if ty = 0x0016 then Some (A_Busmonitor False True)
      else if ty = 0x0012 then Some (A_Busmonitor True False)
      else if ty = 0x0013 then Some (A_Text_Busmonitor True)
      else if ty = 0x0017 then Some (A_Busmonitor True True)
      else if ty = 0x0023 then Some A_Broadcast
      else if ty = 0x0022 then Some A_Group
      else if ty = 0x0021 then Some A_Individual
      else if ty = 0x0024 then Some A_TPDU
      else if ty = 0x0020 then Some A_Connection
      else if ty = 0x0026 then Some A_GroupSocket
      else None)"

text \<open>
  \<open>buf\<close> is the message without its length.  Its type is read from the two bytes behind the length even
  when the message is shorter.  A request for the cache goes to \<open>GroupCacheRequest\<close>; for a message of less
  than two bytes every branch of it depends on the type only, which is all that is passed on.
\<close>

definition message_type :: "byte \<times> byte \<Rightarrow> carray \<Rightarrow> carray" where
  "message_type stale buf =
     [if length buf > 0 then buf ! 0 else fst stale, if length buf > 1 then buf ! 1 else snd stale]"

definition handle_message :: "cl_env \<Rightarrow> carray \<Rightarrow> ClientConnection \<Rightarrow> cl_result" where
  "handle_message v buf c =
     (let msg = EIBTYPE (message_type (e_stale v) buf)
      in case cl_conn c of
           Some a \<Rightarrow>
             if msg = 0x0004 then let x = exit_conn c in (fst x, snd x @ client_sendreject 0x0004)
             else A_recv_Data buf a c
         | None \<Rightarrow>
             (case session_class msg of
                Some cls \<Rightarrow> new_a_conn v buf cls c
              | None \<Rightarrow>
                  if 0x0070 \<le> msg \<and> msg \<le> 0x0077
                  then (c, if e_cache v then [CO_cache (if length buf < 2 then message_type (e_stale v) buf else buf)]
                           else client_sendreject 0x0000)
                  else if msg = 0x0004 then (c, client_sendreject 0x0004)
                  else (c, client_sendreject 0x0000)))"

section \<open>The connection\<close>

text \<open>
  The callbacks on the receive buffer.  They work on the connection and the calls made so far.
\<close>

definition client_read_cb :: "cl_env \<Rightarrow> (ClientConnection \<times> cl_call list) on_read" where
  "client_read_cb v buf x =
     (if length buf < 2 then (0, False, x)
      else let xlen = unat (be16 (buf ! 0) (buf ! 1))
           in if length buf < xlen + 2 then (0, False, x)
              else let stale = (if length buf > 2 then buf ! 2 else fst (e_stale v),
                                if length buf > 3 then buf ! 3 else snd (e_stale v));
                       y = handle_message (v\<lparr>e_stale := stale\<rparr>) (slice 2 xlen buf) (fst x)
                   in (xlen + 2, False, (fst y, snd x @ snd y)))"

definition client_error_cb :: "ClientConnection \<times> cl_call list \<Rightarrow> ClientConnection \<times> cl_call list" where
  "client_error_cb x = (let y = ClientConnection_stop (fst x) in (fst y, snd x @ snd y))"

text \<open>
  A connection with its receive buffer and the bytes the kernel holds for it.  The text that a text bus
  monitor prints for a telegram is an argument of the event.
\<close>

type_synonym client = "RecvBuf \<times> ClientConnection \<times> carray"

datatype cl_event =
    CE_start cl_env
  | CE_arrive carray
  | CE_io cl_env io_result
  | CE_telegram l_data_pdu
  | CE_timer
  | CE_monitor l_busmonitor_pdu carray
  | CE_reply carray
  | CE_send_error
  | CE_stop

text \<open>\<open>CO_null\<close> stands for a receive buffer that has lost count.\<close>

definition client_start :: "cl_env \<Rightarrow> client \<Rightarrow> client \<times> cl_call list" where
  "client_start v w =
     (case w of
        (r, c, avail) \<Rightarrow>
          if cl_running c \<or> \<not> cl_fd c then (w, [])
          else case RecvBuf_start (client_read_cb v) client_error_cb r (c, []) of
                 None \<Rightarrow> (w, [CO_null])
               | Some (r1, c1, o1) \<Rightarrow>
                   if cl_addr c1 = 0
                   then let x = ClientConnection_stop c1
                        in ((RecvBuf_stop r1, fst x, avail), o1 @ client_sendreject 0x0004 @ snd x)
                   else ((r1, c1\<lparr>cl_running := True\<rparr>, avail), o1))"

definition client_stop :: "client \<Rightarrow> client \<times> cl_call list" where
  "client_stop w =
     (case w of
        (r, c, avail) \<Rightarrow>
          let x = ClientConnection_stop c in ((if cl_fd c then RecvBuf_stop r else r, fst x, avail), snd x))"

definition client_io :: "cl_env \<Rightarrow> io_result \<Rightarrow> client \<Rightarrow> client \<times> cl_call list" where
  "client_io v fin w =
     (case w of
        (r, c, avail) \<Rightarrow>
          if \<not> rb_io r then (w, [])
          else case RecvBuf_io_cb (client_read_cb v) client_error_cb fin avail r (c, []) of
                 None \<Rightarrow> (w, [CO_null])
               | Some ((r1, c1, o1), rest) \<Rightarrow> ((r1, c1, rest), o1))"

definition on_endpoint :: "(l4_endpoint \<Rightarrow> l4_endpoint \<times> cl_call list) \<Rightarrow> client \<Rightarrow> client \<times> cl_call list" where
  "on_endpoint f w =
     (case w of
        (r, c, avail) \<Rightarrow>
          (case cl_conn c of
             None \<Rightarrow> (w, [])
           | Some a \<Rightarrow>
               (case a_c a of
                  None \<Rightarrow> (w, [])
                | Some ep \<Rightarrow> let x = f ep in ((r, c\<lparr>cl_conn := Some (a\<lparr>a_c := Some (fst x)\<rparr>)\<rparr>, avail), snd x))))"

definition A_Text_Busmonitor_send :: "carray \<Rightarrow> cl_call list" where
  "A_Text_Busmonitor_send text = sendmessage (EIBSETTYPE 0x0014 @ text @ [0])"

definition client_monitor :: "l_busmonitor_pdu \<Rightarrow> carray \<Rightarrow> client \<Rightarrow> client \<times> cl_call list" where
  "client_monitor p text w =
     (w, case cl_conn (fst (snd w)) of
           None \<Rightarrow> []
         | Some a \<Rightarrow>
             if \<not> a_running a then []
             else (case a_class a of
                     A_Busmonitor virt ts \<Rightarrow> A_Busmonitor_send ts p
                   | A_Text_Busmonitor virt \<Rightarrow> A_Text_Busmonitor_send text
                   | _ \<Rightarrow> []))"

fun cl_step :: "client \<Rightarrow> cl_event \<Rightarrow> client \<times> cl_call list" where
  "cl_step w (CE_start v) = client_start v w"
| "cl_step (r, c, avail) (CE_arrive d) = ((r, c, avail @ d), [])"
| "cl_step w (CE_io v fin) = client_io v fin w"
| "cl_step w (CE_telegram l) = on_endpoint (\<lambda>ep. endpoint_send_L_Data ep l) w"
| "cl_step w CE_timer = on_endpoint endpoint_timer w"
| "cl_step w (CE_monitor p text) = client_monitor p text w"
| "cl_step w (CE_reply msg) = (w, sendmessage msg)"
| "cl_step w CE_send_error = client_stop w"
| "cl_step w CE_stop = client_stop w"

section \<open>The server\<close>

text \<open>
  The connections by the order in which they were accepted, those still to be removed, and the router
  whose client addresses they use.
\<close>

record NetServer =
  ns_fd :: bool
  ns_next :: nat
  ns_connections :: "(nat \<times> client) list"
  ns_cleanup_q :: "nat list"

definition NetServer_new :: NetServer where
  "NetServer_new = \<lparr>ns_fd = True, ns_next = 0, ns_connections = [], ns_cleanup_q = []\<rparr>"

definition deregister :: "nat \<Rightarrow> NetServer \<Rightarrow> NetServer" where
  "deregister i n = n\<lparr>ns_cleanup_q := ns_cleanup_q n @ [i]\<rparr>"

text \<open>The calls of connection \<open>i\<close> on the server and on the pool of addresses.\<close>

fun ns_calls :: "nat \<Rightarrow> cl_call list \<Rightarrow> NetServer \<times> Router \<Rightarrow> NetServer \<times> Router" where
  "ns_calls i [] w = w"
| "ns_calls i (c # cs) w =
     ns_calls i cs
       (case c of
          CO_release_client_addr a \<Rightarrow> (fst w, release_client_addr a (snd w))
        | CO_deregister \<Rightarrow> (deregister i (fst w), snd w)
        | _ \<Rightarrow> w)"

definition NetServer_io_cb :: "cl_env \<Rightarrow> NetServer \<times> Router \<Rightarrow> NetServer \<times> Router" where
  "NetServer_io_cb v w =
     (let (a, r) = get_client_addr (snd w); i = ns_next (fst w);
          x = client_start v (RecvBuf_new, ClientConnection_new a, []);
          n = (fst w)\<lparr>ns_next := i + 1\<rparr>;
          y = ns_calls i (snd x) (n, r)
      in if cl_running (fst (snd (fst x)))
         then ((fst y)\<lparr>ns_connections := ns_connections (fst y) @ [(i, fst x)]\<rparr>, snd y)
         else y)"

definition on_client :: "nat \<Rightarrow> cl_event \<Rightarrow> NetServer \<times> Router \<Rightarrow> NetServer \<times> Router" where
  "on_client i e w =
     (case map_of (ns_connections (fst w)) i of
        None \<Rightarrow> w
      | Some c \<Rightarrow>
          let x = cl_step c e;
              n = (fst w)\<lparr>ns_connections := map (\<lambda>(j, d). if j = i then (j, fst x) else (j, d)) (ns_connections (fst w))\<rparr>
          in ns_calls i (snd x) (n, snd w))"

definition cleanup_cb :: "NetServer \<Rightarrow> NetServer" where
  "cleanup_cb n =
     n\<lparr>ns_connections := filter (\<lambda>(i, c). i \<notin> set (ns_cleanup_q n)) (ns_connections n), ns_cleanup_q := []\<rparr>"

fun stop_clients :: "(nat \<times> client) list \<Rightarrow> NetServer \<times> Router \<Rightarrow> NetServer \<times> Router" where
  "stop_clients [] w = w"
| "stop_clients ((i, c) # cs) w = stop_clients cs (ns_calls i (snd (client_stop c)) w)"

definition NetServer_stop :: "NetServer \<times> Router \<Rightarrow> NetServer \<times> Router" where
  "NetServer_stop w =
     (let y = stop_clients (ns_connections (fst w)) ((fst w)\<lparr>ns_cleanup_q := []\<rparr>, snd w)
      in ((fst y)\<lparr>ns_connections := [], ns_fd := False\<rparr>, snd y))"

datatype ns_event = NS_accept cl_env | NS_client nat cl_event | NS_cleanup | NS_stop

fun ns_step :: "NetServer \<times> Router \<Rightarrow> ns_event \<Rightarrow> NetServer \<times> Router" where
  "ns_step w (NS_accept v) = (if ns_fd (fst w) then NetServer_io_cb v w else w)"
| "ns_step w (NS_client i e) = on_client i e w"
| "ns_step w NS_cleanup = (cleanup_cb (fst w), snd w)"
| "ns_step w NS_stop = NetServer_stop w"

end
