(* ===== verification/Client_Props.thy ===== *)
theory Client_Props
  imports Client
begin

text \<open>
  Properties of the client connections: the byte stream of a client is handled as the sequence of its
  messages, sessions are well typed, and the client addresses are given back.
\<close>

section \<open>The receive buffer\<close>

text \<open>What the callbacks preserve holds after the buffer has been fed out.\<close>

lemma feed_out_inv:
  assumes read: "\<And>buf c. I c \<Longrightarrow> I (snd (snd (on_read buf c)))" and err: "\<And>c. I c \<Longrightarrow> I (on_error c)"
  shows "I c \<Longrightarrow> feed_out on_read on_error r c = Some (r', c') \<Longrightarrow> I c'"
proof (induction "length (rb_recvbuf r)" arbitrary: r c rule: less_induct)
  case less
  obtain i st c1 where x: "on_read (rb_recvbuf r) c = (i, st, c1)" by (cases "on_read (rb_recvbuf r) c")
  have c1: "I c1" using read [OF less.prems(1), of "rb_recvbuf r"] x by simp
  show ?case
  proof (cases "rb_running r \<and> rb_recvbuf r \<noteq> [] \<and> i \<noteq> 0 \<and> i \<le> length (rb_recvbuf r)")
    case True
    let ?r = "(if st then RecvBuf_stop r else r)\<lparr>rb_recvbuf := drop i (rb_recvbuf r)\<rparr>"
    have "feed_out on_read on_error ?r c1 = Some (r', c')"
      using less.prems(2) True x feed_out.simps [of on_read on_error r c]
      by (cases "i = length (rb_recvbuf r)") (simp_all add: Let_def)
    moreover have "length (rb_recvbuf ?r) < length (rb_recvbuf r)" using True by simp
    ultimately show ?thesis using less.hyps c1 by blast
  next
    case False
    then show ?thesis
      using less.prems x c1 err feed_out.simps [of on_read on_error r c] by (auto simp: Let_def split: if_splits)
  qed
qed

section \<open>Framing\<close>

definition frame :: "carray \<Rightarrow> carray" where
  "frame m = [hi8 (of_nat (length m)), lo8 (of_nat (length m))] @ m"

lemma length_frame [simp]: "length (frame m) = length m + 2"
  by (simp add: frame_def)

lemma unat_length: "length m < 65536 \<Longrightarrow> unat (of_nat (length m) :: u16) = length m"
  by (simp only: unat_of_nat) simp

text \<open>The messages of a stream, one after the other, each with what it finds.\<close>

definition handle_all :: "(cl_env \<times> carray) list \<Rightarrow> ClientConnection \<Rightarrow> cl_result" where
  "handle_all vms c = run_events (\<lambda>c vm. handle_message (fst vm) (snd vm) c) c vms"

lemma setup_stale: "A_setup (v\<lparr>e_stale := x\<rparr>) m a = A_setup v m a"
  by (simp add: A_setup_def A_Broadcast_setup_def A_Group_setup_def A_TPDU_setup_def A_Individual_setup_def
      A_Connection_setup_def A_GroupSocket_setup_def A_Busmonitor_setup_def open_link_def split: A_class.split)

lemma handle_stale:
  assumes "2 \<le> length m"
  shows "handle_message (v\<lparr>e_stale := x\<rparr>) m c = handle_message v m c"
proof -
  have mt: "message_type y m = [m ! 0, m ! 1]" for y using assms by (auto simp: message_type_def)
  have ec: "e_cache (v\<lparr>e_stale := x\<rparr>) = e_cache v" by simp
  have na: "new_a_conn (v\<lparr>e_stale := x\<rparr>) m cls c = new_a_conn v m cls c" for cls
    by (auto simp: new_a_conn_def setup_stale Let_def split: prod.split)
  show ?thesis unfolding handle_message_def mt ec na ..
qed

lemma read_cb_frame:
  assumes "2 \<le> length m" "length m < 65536"
  shows "client_read_cb v (frame m @ buf) (c, out) =
    (length m + 2, False, (fst (handle_message v m c), out @ snd (handle_message v m c)))"
proof -
  have "unat (be16 ((frame m @ buf) ! 0) ((frame m @ buf) ! 1)) = length m"
    using assms by (simp add: frame_def unat_length)
  moreover have "slice 2 (length m) (frame m @ buf) = m" by (simp add: frame_def slice_def)
  ultimately show ?thesis using assms by (simp add: client_read_cb_def handle_stale Let_def)
qed

lemma read_cb_partial:
  assumes "length m < 65536" "buf @ t = frame m @ u" "length buf < length m + 2"
  shows "client_read_cb v buf x = (0, False, x)"
proof (cases "length buf < 2")
  case False
  have "buf ! i = frame m ! i" if "i < 2" for i
    using arg_cong [OF assms(2), of "\<lambda>xs. xs ! i"] that False by (simp add: nth_append)
  from this [of 0] this [of 1] have "buf ! 0 = frame m ! 0" "buf ! 1 = frame m ! 1" by simp_all
  then show ?thesis using assms False by (simp add: client_read_cb_def frame_def unat_length Let_def)
qed (simp add: client_read_cb_def)

text \<open>
  Feeding out a buffer that holds the beginning of a stream of messages: the complete ones are handled,
  in order, and the rest is not a complete message.
\<close>

definition sizes_ok :: "carray \<Rightarrow> bool" where
  "sizes_ok m \<longleftrightarrow> 2 \<le> length m \<and> length m \<le> 1022"

definition begins :: "carray \<Rightarrow> carray list \<Rightarrow> bool" where
  "begins buf ms \<longleftrightarrow> (\<exists>t. buf @ t = concat (map frame ms)) \<and> (case ms of [] \<Rightarrow> True | m # _ \<Rightarrow> length buf < length m + 2)"

lemma feed_out_step:
  assumes "rb_running r" "sizes_ok m" "rb_recvbuf r = frame m @ buf"
  shows "feed_out (client_read_cb v) err r (c, out) =
    feed_out (client_read_cb v) err (r\<lparr>rb_recvbuf := buf\<rparr>) (fst (handle_message v m c), out @ snd (handle_message v m c))"
proof -
  have "2 \<le> length m" "length m < 65536" using assms(2) by (simp_all add: sizes_ok_def)
  note cb = read_cb_frame [OF this, of v buf c out]
  have ne: "frame m @ buf \<noteq> []" by (simp add: frame_def)
  have drop: "drop (length m + 2) (frame m @ buf) = buf" by (simp add: frame_def)
  show ?thesis
  proof (cases "buf = []")
    case True
    then show ?thesis using assms ne cb feed_out.simps [of "client_read_cb v" err r "(c, out)"] by (simp add: Let_def)
  next
    case False
    then have "length m + 2 \<noteq> length (frame m @ buf)" "\<not> length m + 2 > length (frame m @ buf)" by simp_all
    then show ?thesis
      using assms ne cb drop feed_out.simps [of "client_read_cb v" err r "(c, out)"] by (simp add: Let_def)
  qed
qed

lemma feed_out_stop:
  assumes "rb_running r" "list_all sizes_ok ms" "begins (rb_recvbuf r) ms"
  shows "feed_out (client_read_cb v) err r x = Some (r, x)"
proof (cases ms)
  case Nil
  then have "rb_recvbuf r = []" using assms by (simp add: begins_def)
  then show ?thesis by (simp add: feed_out_empty)
next
  case (Cons m ms')
  obtain t where t: "rb_recvbuf r @ t = frame m @ concat (map frame ms')" using assms(3) Cons by (auto simp: begins_def)
  have l: "length (rb_recvbuf r) < length m + 2" "length m < 65536" "length m + 2 \<le> 1024"
    using assms Cons by (simp_all add: begins_def sizes_ok_def)
  have "client_read_cb v (rb_recvbuf r) x = (0, False, x)" by (rule read_cb_partial [OF l(2) t l(1)])
  then show ?thesis using l(1,3) feed_out.simps [of "client_read_cb v" err r x] by (simp add: Let_def)
qed

lemma handle_all_append:
  "handle_all (xs @ ys) c = (fst (handle_all ys (fst (handle_all xs c))), snd (handle_all xs c) @ snd (handle_all ys (fst (handle_all xs c))))"
  by (simp add: handle_all_def run_events_append case_prod_beta)

lemma feed_out_messages:
  assumes "rb_running r" "list_all sizes_ok ms" "rb_recvbuf r @ t = concat (map frame ms)"
  shows "\<exists>k buf. k \<le> length ms \<and> begins buf (drop k ms) \<and> buf @ t = concat (map frame (drop k ms)) \<and>
    feed_out (client_read_cb v) err r (c, out) =
      Some (r\<lparr>rb_recvbuf := buf\<rparr>, (fst (handle_all (map (Pair v) (take k ms)) c), out @ snd (handle_all (map (Pair v) (take k ms)) c)))"
  using assms
proof (induction ms arbitrary: r c out)
  case Nil
  then have "begins (rb_recvbuf r) []" "rb_recvbuf r = []" "t = []" by (simp_all add: begins_def)
  then show ?case using feed_out_empty [of r "client_read_cb v" err "(c, out)"] by (simp add: handle_all_def)
next
  case (Cons m ms)
  show ?case
  proof (cases "length (rb_recvbuf r) < length m + 2")
    case True
    then have "begins (rb_recvbuf r) (m # ms)" using Cons.prems(3) by (auto simp: begins_def)
    moreover from this have "feed_out (client_read_cb v) err r (c, out) = Some (r, (c, out))"
      using feed_out_stop Cons.prems(1,2) by blast
    ultimately show ?thesis using Cons.prems(3)
      by (intro exI [of _ 0] exI [of _ "rb_recvbuf r"]) (simp add: handle_all_def)
  next
    case False
    have "rb_recvbuf r @ t = frame m @ concat (map frame ms)" using Cons.prems(3) by simp
    then obtain us where us: "rb_recvbuf r = frame m @ us \<and> us @ t = concat (map frame ms) \<or>
        rb_recvbuf r @ us = frame m \<and> t = us @ concat (map frame ms)"
      unfolding append_eq_append_conv2 by blast
    have "us = []" if "rb_recvbuf r @ us = frame m" using False arg_cong [OF that, of length] by (cases us) simp_all
    with us obtain buf where buf: "rb_recvbuf r = frame m @ buf" "buf @ t = concat (map frame ms)" by auto
    let ?x = "handle_message v m c"
    obtain k buf' where k: "k \<le> length ms" "begins buf' (drop k ms)" "buf' @ t = concat (map frame (drop k ms))"
      "feed_out (client_read_cb v) err (r\<lparr>rb_recvbuf := buf\<rparr>) (fst ?x, out @ snd ?x) =
        Some (r\<lparr>rb_recvbuf := buf'\<rparr>, (fst (handle_all (map (Pair v) (take k ms)) (fst ?x)),
          (out @ snd ?x) @ snd (handle_all (map (Pair v) (take k ms)) (fst ?x))))"
      using Cons.IH [of "r\<lparr>rb_recvbuf := buf\<rparr>" "fst ?x" "out @ snd ?x"] Cons.prems buf(2) by auto
    have "feed_out (client_read_cb v) err r (c, out) = feed_out (client_read_cb v) err (r\<lparr>rb_recvbuf := buf\<rparr>) (fst ?x, out @ snd ?x)"
      using feed_out_step [OF Cons.prems(1) _ buf(1)] Cons.prems(2) by simp
    then show ?thesis using k
      by (intro exI [of _ "Suc k"] exI [of _ buf']) (simp add: handle_all_def case_prod_beta)
  qed
qed

fun cl_arrives :: "cl_event \<Rightarrow> carray" where
  "cl_arrives (CE_arrive d) = d"
| "cl_arrives _ = []"

fun cl_finds :: "cl_event \<Rightarrow> cl_env list" where
  "cl_finds (CE_io v fin) = [v]"
| "cl_finds _ = []"

text \<open>Bytes arrive, in pieces of any size, and are read at any time; the connection does not break.\<close>

fun cl_input :: "cl_event \<Rightarrow> bool" where
  "cl_input (CE_arrive d) = True"
| "cl_input (CE_io v fin) = (fin = IO_again)"
| "cl_input _ = False"

lemma read_input_again: "\<not> snd (snd (read_input IO_again some avail r))"
proof (induction "IO_again" some avail r rule: read_input.induct)
  case (1 some avail r)
  then show ?case by (subst read_input.simps) (simp add: Let_def)
qed

lemma client_io_messages:
  assumes "rb_running r" "rb_io r" "list_all sizes_ok ms" "rb_recvbuf r @ avail @ t = concat (map frame ms)"
  shows "\<exists>k r' avail'. k \<le> length ms \<and> rb_running r' \<and> rb_io r' \<and> begins (rb_recvbuf r') (drop k ms) \<and>
    rb_recvbuf r' @ avail' @ t = concat (map frame (drop k ms)) \<and>
    client_io v IO_again (r, c, avail) =
      ((r', fst (handle_all (map (Pair v) (take k ms)) c), avail'), snd (handle_all (map (Pair v) (take k ms)) c))"
proof -
  obtain r1 rest err where i: "read_input IO_again False avail r = (r1, rest, err)"
    by (cases "read_input IO_again False avail r")
  have "reads_ok avail r (r1, rest, err)" "\<not> err"
    using read_input_ok [of avail r IO_again False] read_input_again [of False avail r] i by simp_all
  then have r1: "rb_running r1" "rb_io r1" "rb_recvbuf r1 @ rest = rb_recvbuf r @ avail"
    using assms(1,2) by (simp_all add: reads_ok_def)
  then have "rb_recvbuf r1 @ (rest @ t) = concat (map frame ms)" using assms(4) by (metis append_assoc)
  then obtain k buf where k: "k \<le> length ms" "begins buf (drop k ms)" "buf @ rest @ t = concat (map frame (drop k ms))"
    "feed_out (client_read_cb v) client_error_cb r1 (c, []) = Some (r1\<lparr>rb_recvbuf := buf\<rparr>,
       (fst (handle_all (map (Pair v) (take k ms)) c), [] @ snd (handle_all (map (Pair v) (take k ms)) c)))"
    using feed_out_messages [OF r1(1) assms(3)] by blast
  then have "client_io v IO_again (r, c, avail) = ((r1\<lparr>rb_recvbuf := buf\<rparr>, fst (handle_all (map (Pair v) (take k ms)) c), rest),
      snd (handle_all (map (Pair v) (take k ms)) c))"
    using assms(2) \<open>\<not> err\<close> by (simp add: client_io_def RecvBuf_io_cb_def i case_prod_beta)
  then show ?thesis using k(1-3) r1(1,2)
    by (intro exI [of _ k] exI [of _ "r1\<lparr>rb_recvbuf := buf\<rparr>"] exI [of _ rest]) simp
qed

text \<open>The state of a connection that has handled \<open>vms\<close> of the messages, and what is left.\<close>

definition stream_state :: "carray list \<Rightarrow> carray \<Rightarrow> ClientConnection \<Rightarrow> (cl_env \<times> carray) list \<Rightarrow> client \<Rightarrow> bool" where
  "stream_state ms t c vms w \<longleftrightarrow> map snd vms = take (length vms) ms \<and> length vms \<le> length ms \<and>
     rb_running (fst w) \<and> rb_io (fst w) \<and> fst (snd w) = fst (handle_all vms c) \<and>
     begins (rb_recvbuf (fst w)) (drop (length vms) ms) \<and>
     rb_recvbuf (fst w) @ snd (snd w) @ t = concat (map frame (drop (length vms) ms))"

lemma stream_step:
  assumes "list_all sizes_ok ms" "cl_input e" "stream_state ms (cl_arrives e @ t) c vms w"
  shows "\<exists>new. stream_state ms t c (vms @ new) (fst (cl_step w e)) \<and> set (map fst new) \<subseteq> set (cl_finds e) \<and>
    snd (cl_step w e) = snd (handle_all new (fst (handle_all vms c)))"
proof -
  obtain r c1 avail where w: "w = (r, c1, avail)" by (cases w)
  show ?thesis
  proof (cases e)
    case (CE_arrive d)
    then show ?thesis using assms(3) by (intro exI [of _ "[]"]) (simp add: w stream_state_def handle_all_def)
  next
    case (CE_io v fin)
    let ?ms = "drop (length vms) ms"
    have again: "fin = IO_again" using assms(2) CE_io by simp
    have "list_all sizes_ok ?ms" using assms(1) by (metis append_take_drop_id list_all_append)
    then obtain k r' avail' where k: "k \<le> length ?ms" "rb_running r'" "rb_io r'" "begins (rb_recvbuf r') (drop k ?ms)"
      "rb_recvbuf r' @ avail' @ t = concat (map frame (drop k ?ms))"
      "client_io v IO_again (r, c1, avail) = ((r', fst (handle_all (map (Pair v) (take k ?ms)) c1), avail'),
         snd (handle_all (map (Pair v) (take k ?ms)) c1))"
      using client_io_messages [of r ?ms avail t v c1] assms(3) CE_io by (auto simp: w stream_state_def)
    let ?new = "map (Pair v) (take k ?ms)"
    have c1: "c1 = fst (handle_all vms c)" using assms(3) by (simp add: w stream_state_def)
    have "map snd (vms @ ?new) = take (length (vms @ ?new)) ms"
      using assms(3) k(1) by (simp add: w stream_state_def take_add comp_def)
    moreover have len: "length (vms @ ?new) = length vms + k" "length (vms @ ?new) \<le> length ms"
      using k(1) assms(3) by (auto simp: stream_state_def)
    ultimately have "stream_state ms t c (vms @ ?new) (r', fst (handle_all ?new c1), avail')"
      using k(2-5) c1 unfolding stream_state_def len(1) by (simp add: handle_all_append drop_drop add.commute)
    then show ?thesis using k(6) c1 CE_io again by (intro exI [of _ ?new]) (auto simp: w)
  qed (use assms(2) in simp_all)
qed

lemma stream_run:
  assumes "list_all sizes_ok ms"
  shows "list_all cl_input es \<Longrightarrow> stream_state ms (collect cl_arrives es @ t) c vms w \<Longrightarrow>
    \<exists>new. stream_state ms t c (vms @ new) (fst (run_events cl_step w es)) \<and>
      set (map fst new) \<subseteq> set (collect cl_finds es) \<and>
      snd (run_events cl_step w es) = snd (handle_all new (fst (handle_all vms c)))"
proof (induction es arbitrary: vms w)
  case Nil
  then show ?case by (intro exI [of _ "[]"]) (simp add: handle_all_def)
next
  case (Cons e es)
  obtain n1 where n1: "stream_state ms (collect cl_arrives es @ t) c (vms @ n1) (fst (cl_step w e))"
    "set (map fst n1) \<subseteq> set (cl_finds e)" "snd (cl_step w e) = snd (handle_all n1 (fst (handle_all vms c)))"
    using stream_step [OF assms, of e "collect cl_arrives es @ t" c vms w] Cons.prems by auto
  obtain n2 where n2: "stream_state ms t c ((vms @ n1) @ n2) (fst (run_events cl_step (fst (cl_step w e)) es))"
    "set (map fst n2) \<subseteq> set (collect cl_finds es)"
    "snd (run_events cl_step (fst (cl_step w e)) es) = snd (handle_all n2 (fst (handle_all (vms @ n1) c)))"
    using Cons.IH [OF _ n1(1)] Cons.prems(1) by auto
  have "snd (run_events cl_step w (e # es)) = snd (handle_all (n1 @ n2) (fst (handle_all vms c)))"
    unfolding run_events_Cons using n1(3) n2(3) by (simp add: handle_all_append)
  moreover have "fst (run_events cl_step w (e # es)) = fst (run_events cl_step (fst (cl_step w e)) es)"
    unfolding run_events_Cons by simp
  ultimately show ?case using n1(2) n2(1,2) by (intro exI [of _ "n1 @ n2"]) auto
qed


abbreviation open_group :: carray where
  "open_group \<equiv> [0x00, 0x22, 0x09, 0x01, 0x00]"

abbreviation group_write :: carray where
  "group_write \<equiv> [0x00, 0x25, 0x00, 0x81]"

definition sample_finds :: cl_env where
  "sample_finds = \<lparr>e_cache = False, e_link_setup = True, e_registerLink = True, e_time = 0, e_garbage = 0, e_stale = (0, 0)\<rparr>"


section \<open>Sessions\<close>

text \<open>
  A session of a class has an endpoint of that class; a bus monitor has none, and only a bus monitor is
  registered as such.
\<close>

fun ep_typed :: "A_class \<Rightarrow> l4_endpoint option \<Rightarrow> bool" where
  "ep_typed A_Broadcast (Some (EP_Broadcast w)) = True"
| "ep_typed A_Group (Some (EP_Group g w)) = True"
| "ep_typed A_TPDU (Some (EP_TPDU src)) = True"
| "ep_typed A_Individual (Some (EP_Individual d w)) = True"
| "ep_typed A_Connection (Some (EP_Connection t)) = True"
| "ep_typed A_GroupSocket (Some (EP_GroupSocket w)) = True"
| "ep_typed (A_Busmonitor virt ts) None = True"
| "ep_typed (A_Text_Busmonitor virt) None = True"
| "ep_typed _ _ = False"

fun monitor_virt :: "A_class \<Rightarrow> bool option" where
  "monitor_virt (A_Busmonitor virt ts) = Some virt"
| "monitor_virt (A_Text_Busmonitor virt) = Some virt"
| "monitor_virt _ = None"

definition session_typed :: "A_conn \<Rightarrow> bool" where
  "session_typed a \<longleftrightarrow> ep_typed (a_class a) (a_c a) \<and> (a_running a \<longleftrightarrow> monitor_virt (a_class a) \<noteq> None)"

definition client_typed :: "ClientConnection \<Rightarrow> bool" where
  "client_typed c \<longleftrightarrow> (case cl_conn c of None \<Rightarrow> True | Some a \<Rightarrow> session_typed a)"

text \<open>What the router holds of a client: a link, and a bus monitor; and how the calls change it.\<close>

fun registered :: "cl_call \<Rightarrow> bool \<times> bool option \<Rightarrow> bool \<times> bool option" where
  "registered (CO_registerLink ok) (l, m) = (l \<or> ok, m)"
| "registered CO_unregisterLink (l, m) = (False, m)"
| "registered (CO_registerBusmonitor virt) (l, m) = (l, Some virt)"
| "registered (CO_deregisterBusmonitor virt) (l, m) = (l, if m = Some virt then None else m)"
| "registered _ x = x"

definition session_holds :: "A_conn \<Rightarrow> bool \<times> bool option" where
  "session_holds a = (a_c a \<noteq> None, if a_running a then monitor_virt (a_class a) else None)"

definition client_holds :: "ClientConnection \<Rightarrow> bool \<times> bool option" where
  "client_holds c = (case cl_conn c of None \<Rightarrow> (False, None) | Some a \<Rightarrow> session_holds a)"

definition sound :: "bool \<times> bool option \<Rightarrow> cl_result \<Rightarrow> bool" where
  "sound h x \<longleftrightarrow> client_typed (fst x) \<and> CO_null \<notin> set (snd x) \<and> fold registered (snd x) h = client_holds (fst x)"

fun plain :: "cl_call \<Rightarrow> bool" where
  "plain (CO_write d) = True"
| "plain (CO_ToL3 l) = True"
| "plain CO_send_Next = True"
| "plain CO_link_stopped = True"
| "plain (CO_cache d) = True"
| "plain CO_close = True"
| "plain CO_abort = True"
| "plain _ = False"

lemma plain_registered: "list_all plain os \<Longrightarrow> fold registered os h = h \<and> CO_null \<notin> set os"
proof (induction os)
  case (Cons x os)
  then show ?case by (cases h; cases x) auto
qed simp

lemma plain_sendmessage [simp]: "list_all plain (sendmessage m)"
  by (simp add: sendmessage_def)

lemma plain_sendreject [simp]: "list_all plain (client_sendreject ty)"
  by (simp add: client_sendreject_def)

lemma plain_l4: "(\<And>c. list_all plain (send c)) \<Longrightarrow> list_all plain (collect (l4_call send) xs)"
proof (induction xs)
  case (Cons x xs)
  then show ?case by (cases x) simp_all
qed simp

lemmas send_defs = A_Broadcast_send_def A_Group_send_def A_TPDU_send_def A_Individual_send_def A_Connection_send_def
  A_GroupSocket_send_def

lemma plain_endpoint:
  "list_all plain (snd (endpoint_send_L_Data ep l))" "list_all plain (snd (endpoint_timer ep))"
  "list_all plain (endpoint_stop ep)" "endpoint_recv_Data ep buf = Some (ep', os) \<Longrightarrow> list_all plain os"
  by (cases ep; auto simp: endpoint_timer_def endpoint_stop_def A_Broadcast_recv_Data_def A_Group_recv_Data_def
      A_TPDU_recv_Data_def A_Individual_recv_Data_def A_Connection_recv_Data_def A_GroupSocket_recv_Data_def send_defs Let_def
      intro!: plain_l4 split: if_splits)+

lemma endpoint_keeps_type:
  "ep_typed cls (Some (fst (endpoint_send_L_Data ep l))) = ep_typed cls (Some ep)"
  "ep_typed cls (Some (fst (endpoint_timer ep))) = ep_typed cls (Some ep)"
  "endpoint_recv_Data ep buf = Some (ep', os) \<Longrightarrow> ep_typed cls (Some ep') = ep_typed cls (Some ep)"
  by (cases ep; cases cls; auto simp: endpoint_timer_def Let_def split: if_splits)+

lemma A_stop_again: "snd (A_stop (fst (A_stop a))) = []" "a_c (fst (A_stop a)) = a_c a"
  by (simp_all add: A_stop_def A_Busmonitor_stop_def split: A_class.split)

lemma exit_conn_registered:
  assumes "cl_conn c = Some a" "a_running a \<longrightarrow> monitor_virt (a_class a) \<noteq> None"
    and "h = session_holds a \<or> h = (False, None) \<and> \<not> a_running a"
  shows "cl_conn (fst (exit_conn c)) = None" "CO_null \<notin> set (snd (exit_conn c))"
    "fold registered (snd (exit_conn c)) h = (False, None)"
proof -
  let ?u = "if a_c a \<noteq> None then [CO_unregisterLink] else []"
  let ?d = "case a_c a of None \<Rightarrow> [] | Some ep \<Rightarrow> endpoint_stop ep"
  have e: "exit_conn c = (c\<lparr>cl_conn := None\<rparr>, snd (A_stop a) @ ?u @ ?d)"
    using assms(1) by (simp add: exit_conn_def A_delete_def A_stop_again Let_def)
  have d: "fold registered ?d x = x" "CO_null \<notin> set ?d" for x
    using plain_registered [OF plain_endpoint(3)] by (auto split: option.split)
  have "fold registered (snd (A_stop a) @ ?u) h = (False, None)"
    using assms(2,3) by (cases "a_class a") (auto simp: A_stop_def A_Busmonitor_stop_def session_holds_def)
  moreover have "CO_null \<notin> set (snd (A_stop a) @ ?u)"
    by (cases "a_class a") (auto simp: A_stop_def A_Busmonitor_stop_def)
  ultimately show "cl_conn (fst (exit_conn c)) = None" "CO_null \<notin> set (snd (exit_conn c))"
    "fold registered (snd (exit_conn c)) h = (False, None)"
    unfolding e using d by (simp_all add: fold_append)
qed

lemma exit_conn_sound: "client_typed c \<Longrightarrow> sound (client_holds c) (exit_conn c)"
proof (cases "cl_conn c")
  case None
  then show ?thesis by (simp add: exit_conn_def sound_def client_typed_def)
next
  case (Some a)
  assume "client_typed c"
  then have "a_running a \<longrightarrow> monitor_virt (a_class a) \<noteq> None" using Some by (simp add: client_typed_def session_typed_def)
  from exit_conn_registered [OF Some this, of "client_holds c"] Some show ?thesis
    by (simp add: sound_def client_typed_def client_holds_def)
qed

lemma sound_append:
  assumes "sound h x" "sound (client_holds (fst x)) y"
  shows "sound h (fst y, snd x @ snd y)"
  using assms by (simp add: sound_def)

lemma sound_plain:
  assumes "client_typed c" "list_all plain os"
  shows "sound (client_holds c) (c, os)"
  using assms plain_registered by (simp add: sound_def)

lemma sound_plain_append:
  assumes "sound h x" "list_all plain os"
  shows "sound h (fst x, snd x @ os)"
  using sound_append [OF assms(1) sound_plain [OF _ assms(2)]] assms(1) by (simp add: sound_def)

lemma sound_plain_prefix:
  assumes "list_all plain os" "sound h x"
  shows "sound h (fst x, os @ snd x)"
  using assms plain_registered [OF assms(1)] by (simp add: sound_def)

lemma A_setup_result:
  assumes "A_setup v buf (A_new cls) = (ok, a, os)"
  shows "list_all plain os" "\<not> a_running a" "a_class a = cls" "ok \<Longrightarrow> ep_typed cls (a_c a)"
    "ok \<Longrightarrow> a_c a = None \<longleftrightarrow> monitor_virt cls \<noteq> None"
  using assms
  by (cases cls; auto simp: A_setup_def A_Broadcast_setup_def A_Group_setup_def A_TPDU_setup_def A_Individual_setup_def
      A_Connection_setup_def A_GroupSocket_setup_def A_Busmonitor_setup_def open_link_def A_new_def Let_def split: if_splits)+

lemma new_a_conn_sound:
  assumes "cl_conn c = None"
  shows "sound (False, None) (new_a_conn v buf cls c)"
proof -
  obtain ok a os where x: "A_setup v buf (A_new cls) = (ok, a, os)" by (cases "A_setup v buf (A_new cls)")
  note a = A_setup_result [OF x]
  let ?c = "c\<lparr>cl_conn := Some a\<rparr>"
  let ?f = "(fst (exit_conn ?c), snd (exit_conn ?c) @ client_sendreject 0x0000)"
  have "sound (False, None) (exit_conn ?c)"
    using exit_conn_registered [of ?c a "(False, None)"] a(2) by (simp add: sound_def client_typed_def client_holds_def)
  then have f: "sound (False, None) ?f" using sound_plain_append [of "(False, None)" "exit_conn ?c"] by simp
  show ?thesis
  proof (cases "ok \<and> (a_c a \<noteq> None \<longrightarrow> e_registerLink v)")
    case True
    let ?reg = "if a_c a \<noteq> None then [CO_registerLink (e_registerLink v)] else []"
    have n: "new_a_conn v buf cls c = (c\<lparr>cl_conn := Some (fst (A_start a))\<rparr>, os @ ?reg @ snd (A_start a))"
      using True by (auto simp: new_a_conn_def x Let_def)
    have "sound (False, None) (c\<lparr>cl_conn := Some (fst (A_start a))\<rparr>, ?reg @ snd (A_start a))"
      using a(2-5) True
      by (cases cls) (auto simp: sound_def client_typed_def client_holds_def session_typed_def session_holds_def A_start_def
          A_Busmonitor_start_def)
    from sound_plain_prefix [OF a(1) this] show ?thesis unfolding n by simp
  next
    case False
    have "new_a_conn v buf cls c = (fst ?f, os @ (if ok then [CO_registerLink False] else []) @ snd ?f)"
      using False by (auto simp: new_a_conn_def x Let_def)
    moreover have "sound (False, None) (fst ?f, [CO_registerLink False] @ snd ?f)"
      using f by (simp add: sound_def)
    ultimately show ?thesis using sound_plain_prefix [OF a(1), of "(False, None)"] f by (cases ok) fastforce+
  qed
qed

lemma A_recv_Data_sound:
  assumes "client_typed c" "cl_conn c = Some a"
  shows "sound (client_holds c) (A_recv_Data buf a c)"
proof (cases "monitor_virt (a_class a)")
  case (Some virt)
  then have "A_recv_Data buf a c = (c, [])" by (cases "a_class a") (simp_all add: A_recv_Data_def)
  then show ?thesis using sound_plain [OF assms(1), of "[]"] by simp
next
  case None
  have typed: "ep_typed (a_class a) (a_c a)" "\<not> a_running a"
    using assms None by (simp_all add: client_typed_def session_typed_def)
  then obtain ep where ep: "a_c a = Some ep" using None by (cases "a_class a"; cases "a_c a") simp_all
  have r: "A_recv_Data buf a c =
      (case endpoint_recv_Data ep buf of
         None \<Rightarrow> exit_conn c
       | Some (ep', os) \<Rightarrow> (c\<lparr>cl_conn := Some (a\<lparr>a_c := Some ep'\<rparr>)\<rparr>, os))"
    using None ep by (cases "a_class a") (simp_all add: A_recv_Data_def)
  show ?thesis
  proof (cases "endpoint_recv_Data ep buf")
    case None
    then show ?thesis unfolding r using exit_conn_sound [OF assms(1)] by simp
  next
    case (Some y)
    obtain ep' os where y: "y = (ep', os)" by (cases y)
    let ?c = "c\<lparr>cl_conn := Some (a\<lparr>a_c := Some ep'\<rparr>)\<rparr>"
    have "client_typed ?c" "client_holds ?c = client_holds c"
      using typed ep assms(2) endpoint_keeps_type(3) [OF Some [unfolded y], of "a_class a"] \<open>monitor_virt (a_class a) = None\<close>
      by (simp_all add: client_typed_def session_typed_def client_holds_def session_holds_def)
    then show ?thesis
      unfolding r using sound_plain [of ?c os] plain_endpoint(4) [OF Some [unfolded y]] by (simp add: Some y)
  qed
qed

lemma handle_message_sound:
  assumes "client_typed c"
  shows "sound (client_holds c) (handle_message v buf c)"
proof (cases "cl_conn c")
  case None
  then have h: "client_holds c = (False, None)" by (simp add: client_holds_def)
  have p: "list_all plain os \<Longrightarrow> sound (False, None) (c, os)" for os using sound_plain [OF assms] h by metis
  show ?thesis
    unfolding h using new_a_conn_sound [OF None] p by (auto simp: handle_message_def None Let_def split: option.split)
next
  case (Some a)
  then show ?thesis
    using A_recv_Data_sound [OF assms Some] sound_plain_append [OF exit_conn_sound [OF assms]]
    by (simp add: handle_message_def Let_def)
qed

lemma ClientConnection_stop_sound:
  assumes "client_typed c"
  shows "sound (client_holds c) (ClientConnection_stop c)"
proof -
  let ?c = "c\<lparr>cl_addr := 0\<rparr>"
  have "client_typed ?c" "client_holds ?c = client_holds c" using assms by (simp_all add: client_typed_def client_holds_def)
  then have "sound (client_holds c) (exit_conn ?c)" using exit_conn_sound [of ?c] by simp
  then show ?thesis by (auto simp: ClientConnection_stop_def Let_def sound_def client_typed_def client_holds_def)
qed

text \<open>The receive buffer never loses count.\<close>

lemma feed_out_total:
  assumes "\<And>buf c. fst (on_read buf c) \<le> length buf"
  shows "feed_out on_read on_error r c \<noteq> None"
proof (induction "length (rb_recvbuf r)" arbitrary: r c rule: less_induct)
  case less
  obtain i st c1 where x: "on_read (rb_recvbuf r) c = (i, st, c1)" by (cases "on_read (rb_recvbuf r) c")
  have i: "i \<le> length (rb_recvbuf r)" using assms [of "rb_recvbuf r" c] x by simp
  let ?r = "(if st then RecvBuf_stop r else r)\<lparr>rb_recvbuf := drop i (rb_recvbuf r)\<rparr>"
  have "feed_out on_read on_error ?r c1 \<noteq> None" if "rb_recvbuf r \<noteq> []" "i \<noteq> 0"
    using less.hyps [of ?r c1] that by simp
  then show ?case
    using x i feed_out.simps [of on_read on_error r c] by (cases "i = length (rb_recvbuf r)") (auto simp: Let_def)
qed

lemma client_read_cb_le: "fst (client_read_cb v buf x) \<le> length buf"
  by (simp add: client_read_cb_def Let_def)

lemma client_cb_sound:
  assumes "sound h x"
  shows "sound h (snd (snd (client_read_cb v buf x)))" "sound h (client_error_cb x)"
proof -
  have t: "client_typed (fst x)" using assms by (simp add: sound_def)
  show "sound h (snd (snd (client_read_cb v buf x)))"
    using assms sound_append [OF assms handle_message_sound [OF t]] by (auto simp: client_read_cb_def Let_def)
  show "sound h (client_error_cb x)"
    using sound_append [OF assms ClientConnection_stop_sound [OF t]] by (simp add: client_error_cb_def Let_def)
qed

lemma client_feed_out:
  assumes "sound h (c, os)"
  shows "\<exists>r' x. feed_out (client_read_cb v) client_error_cb r (c, os) = Some (r', x) \<and> sound h x"
proof -
  obtain r' x where f: "feed_out (client_read_cb v) client_error_cb r (c, os) = Some (r', x)"
    using feed_out_total [of "client_read_cb v" client_error_cb r "(c, os)"] client_read_cb_le by fastforce
  have "sound h x"
    by (rule feed_out_inv [where I = "sound h", OF _ _ assms f]) (auto intro: client_cb_sound)
  with f show ?thesis by blast
qed

abbreviation connection :: "client \<Rightarrow> ClientConnection" where
  "connection w \<equiv> fst (snd w)"

definition step_sound :: "client \<Rightarrow> client \<times> cl_call list \<Rightarrow> bool" where
  "step_sound w x \<longleftrightarrow> sound (client_holds (connection w)) (connection (fst x), snd x)"

lemma client_stop_sound: "client_typed (connection w) \<Longrightarrow> step_sound w (client_stop w)"
  using ClientConnection_stop_sound [of "connection w"]
  by (simp add: step_sound_def client_stop_def Let_def case_prod_beta)

lemma on_endpoint_sound:
  assumes "client_typed (connection w)" "\<And>ep. list_all plain (snd (f ep))"
    and "\<And>ep cls. ep_typed cls (Some (fst (f ep))) = ep_typed cls (Some ep)"
  shows "step_sound w (on_endpoint f w)"
proof -
  obtain r c avail where w: "w = (r, c, avail)" by (cases w)
  have same: "sound (client_holds c) (c, [])" using sound_plain [of c "[]"] assms(1) w by simp
  show ?thesis
  proof (cases "cl_conn c")
    case None
    then show ?thesis using same by (simp add: step_sound_def on_endpoint_def w)
  next
    case a: (Some a)
    show ?thesis
    proof (cases "a_c a")
      case None
      then show ?thesis using a same by (simp add: step_sound_def on_endpoint_def w)
    next
      case (Some ep)
      let ?c = "c\<lparr>cl_conn := Some (a\<lparr>a_c := Some (fst (f ep))\<rparr>)\<rparr>"
      have "client_typed ?c" "client_holds ?c = client_holds c"
        using assms(1,3) a Some by (simp_all add: w client_typed_def session_typed_def client_holds_def session_holds_def)
      then show ?thesis
        using sound_plain [of ?c "snd (f ep)"] assms(2) a Some by (simp add: step_sound_def on_endpoint_def w Let_def)
    qed
  qed
qed

lemma client_io_sound:
  assumes "client_typed (connection w)"
  shows "step_sound w (client_io v fin w)"
proof -
  obtain r c avail where w: "w = (r, c, avail)" by (cases w)
  obtain r1 rest err where i: "read_input fin False avail r = (r1, rest, err)" by (cases "read_input fin False avail r")
  let ?x = "if err then client_error_cb (c, []) else (c, [])"
  have s0: "sound (client_holds c) (c, [])" using sound_plain [of c "[]"] assms w by simp
  then have "sound (client_holds c) (fst ?x, snd ?x)" using client_cb_sound(2) [OF s0] by simp
  then obtain r' y where "feed_out (client_read_cb v) client_error_cb r1 ?x = Some (r', y)" "sound (client_holds c) y"
    using client_feed_out by (metis prod.collapse)
  then show ?thesis using s0 by (cases y) (simp add: step_sound_def client_io_def w RecvBuf_io_cb_def i Let_def)
qed

lemma client_start_sound:
  assumes "client_typed (connection w)"
  shows "step_sound w (client_start v w)"
proof -
  obtain r c avail where w: "w = (r, c, avail)" by (cases w)
  have s0: "sound (client_holds c) (c, [])" using sound_plain [of c "[]"] assms w by simp
  show ?thesis
  proof (cases "cl_running c \<or> \<not> cl_fd c")
    case True
    then show ?thesis using s0 by (simp add: step_sound_def client_start_def w)
  next
    case False
    obtain r1 c1 o1 where f: "RecvBuf_start (client_read_cb v) client_error_cb r (c, []) = Some (r1, c1, o1)"
      "sound (client_holds c) (c1, o1)"
      using client_feed_out [OF s0] s0 by (cases "rb_running r") (auto simp: RecvBuf_start_def, metis prod.collapse)
    have t: "client_typed c1" using f(2) by (simp add: sound_def)
    have "sound (client_holds c) (fst (ClientConnection_stop c1), (o1 @ client_sendreject 4) @ snd (ClientConnection_stop c1))"
      using sound_append [OF sound_plain_append [OF f(2) plain_sendreject]] ClientConnection_stop_sound [OF t] by fastforce
    moreover have "sound (client_holds c) (c1\<lparr>cl_running := True\<rparr>, o1)"
      using f(2) by (simp add: sound_def client_typed_def client_holds_def)
    ultimately show ?thesis using False f by (simp add: step_sound_def client_start_def w Let_def)
  qed
qed

lemma cl_step_sound:
  assumes "client_typed (connection w)"
  shows "step_sound w (cl_step w e)"
proof (cases e)
  case (CE_monitor p str)
  have "list_all plain (snd (client_monitor p str w))"
    by (auto simp: client_monitor_def A_Busmonitor_send_def A_Text_Busmonitor_send_def split: option.split A_class.split)
  then show ?thesis using CE_monitor sound_plain [OF assms] by (simp add: step_sound_def client_monitor_def)
next
  case (CE_arrive d)
  then show ?thesis using assms sound_plain [OF assms, of "[]"] by (cases w) (simp add: step_sound_def)
next
  case (CE_reply m)
  then show ?thesis using sound_plain [OF assms plain_sendmessage] by (simp add: step_sound_def)
qed (use assms in \<open>auto simp: endpoint_keeps_type plain_endpoint
      intro!: client_start_sound client_io_sound client_stop_sound on_endpoint_sound\<close>)

lemma cl_run_sound:
  "client_typed (connection w) \<Longrightarrow>
   sound (client_holds (connection w)) (connection (fst (run_events cl_step w es)), snd (run_events cl_step w es))"
proof (induction es arbitrary: w)
  case Nil
  then show ?case using sound_plain [of "connection w" "[]"] by simp
next
  case (Cons e es)
  let ?x = "cl_step w e"
  have 1: "sound (client_holds (connection w)) (connection (fst ?x), snd ?x)"
    using cl_step_sound [OF Cons.prems] by (simp add: step_sound_def)
  then have "client_typed (connection (fst ?x))" by (simp add: sound_def)
  from sound_append [OF 1, simplified, OF Cons.IH [OF this]] show ?case unfolding run_events_Cons by simp
qed

text \<open>
  \<^bold>\<open>C15\<close>: the sessions of a client are sound.  In every history of a connection, whatever the client sends
  and whatever comes from the bus, the open session has an endpoint of its own class, and none if it is a
  bus monitor; no call goes through a null pointer and the receive buffer never loses count; and the
  calls leave registered with the router exactly the link and the bus monitor of the session that is
  open, so that no closed session is ever called.
\<close>

theorem client_sessions_sound:
  "let w = run_events cl_step (RecvBuf_new, ClientConnection_new a, []) es
   in client_typed (connection (fst w)) \<and> CO_null \<notin> set (snd w) \<and>
      fold registered (snd w) (False, None) = client_holds (connection (fst w))"
proof -
  have "client_typed (ClientConnection_new a)" "client_holds (ClientConnection_new a) = (False, None)"
    by (simp_all add: client_typed_def client_holds_def ClientConnection_new_def)
  then show ?thesis using cl_run_sound [of "(RecvBuf_new, ClientConnection_new a, [])" es] by (simp add: sound_def Let_def)
qed

section \<open>Requests that go wrong\<close>

text \<open>Reading and handling two messages that arrive together.\<close>

lemma client_two_messages:
  assumes "a \<noteq> 0" "sizes_ok m1" "sizes_ok m2" "length m1 + length m2 < 1000"
  shows "snd (run_events cl_step (RecvBuf_new, ClientConnection_new a, [])
      [CE_start v, CE_arrive (frame m1 @ frame m2), CE_io v IO_again]) =
    snd (handle_all [(v, m1), (v, m2)] ((ClientConnection_new a)\<lparr>cl_running := True\<rparr>))"
proof -
  let ?c = "(ClientConnection_new a)\<lparr>cl_running := True\<rparr>"
  let ?r = "RecvBuf_new\<lparr>rb_running := True, rb_io := True\<rparr>" and ?d = "frame m1 @ frame m2"
  let ?r1 = "?r\<lparr>rb_recvbuf := ?d\<rparr>" and ?r2 = "?r\<lparr>rb_recvbuf := frame m2\<rparr>"
  have start: "client_start v (RecvBuf_new, ClientConnection_new a, []) = ((?r, ?c, []), [])"
    using assms(1) feed_out_empty [of ?r "client_read_cb v" client_error_cb "(ClientConnection_new a, [])"]
    by (simp add: client_start_def ClientConnection_new_def RecvBuf_start_def RecvBuf_new_def)
  have i: "read_input IO_again False ?d ?r = (?r1, [], False)"
    using assms(4) read_input.simps [of IO_again False ?d ?r] by (simp add: RecvBuf_new_def frame_def Let_def)
  have f1: "feed_out (client_read_cb v) client_error_cb ?r1 (?c, []) =
      feed_out (client_read_cb v) client_error_cb ?r2 (fst (handle_message v m1 ?c), snd (handle_message v m1 ?c))"
    using feed_out_step [of ?r1 m1 "frame m2" v client_error_cb ?c "[]"] assms(2) by simp
  have f2: "feed_out (client_read_cb v) client_error_cb ?r2 x =
      Some (?r\<lparr>rb_recvbuf := []\<rparr>, (fst (handle_message v m2 (fst x)), snd x @ snd (handle_message v m2 (fst x))))" for x
    using feed_out_step [of ?r2 m2 "[]" v client_error_cb "fst x" "snd x"] assms(3) by (simp add: feed_out_empty)
  have "client_io v IO_again (?r, ?c, ?d) = ((?r\<lparr>rb_recvbuf := []\<rparr>, fst (handle_message v m2 (fst (handle_message v m1 ?c))), []),
      snd (handle_message v m1 ?c) @ snd (handle_message v m2 (fst (handle_message v m1 ?c))))"
    by (simp add: client_io_def RecvBuf_io_cb_def i f1 f2)
  then show ?thesis unfolding run_events_Cons by (simp add: start handle_all_def case_prod_beta)
qed

text \<open>
  \<^bold>\<open>C39\<close>: a local client can abort the daemon.  An application packet without data is passed on to the
  endpoint, and the assertion that there is a first byte to put the header in fails: opening a group and
  sending such a packet is enough.
\<close>

theorem client_empty_apdu_aborts:
  assumes "a \<noteq> 0" and "e_link_setup v" and "e_registerLink v"
  shows "CO_abort \<in> set (snd (run_events cl_step (RecvBuf_new, ClientConnection_new a, [])
    [CE_start v, CE_arrive (frame [0x00, 0x22, g1, g2, w] @ frame [0x00, 0x25]), CE_io v IO_again]))"
proof -
  let ?c = "(ClientConnection_new a)\<lparr>cl_running := True\<rparr>" and ?m = "[0x00, 0x22, g1, g2, w]"
  let ?a = "\<lparr>a_class = A_Group, a_c = Some (EP_Group (be16 g1 g2) (w \<noteq> 0)), a_running = False\<rparr>"
  have ty: "be16 0 0x22 = 0x0022" "be16 0 0x25 = 0x0025" by (simp_all add: be16_def)
  have 1: "fst (handle_message v ?m ?c) = ?c\<lparr>cl_conn := Some ?a\<rparr>"
    using assms(2,3) by (simp add: handle_message_def message_type_def EIBTYPE_def ty session_class_def new_a_conn_def A_setup_def
        A_Group_setup_def open_link_def A_new_def A_start_def ClientConnection_new_def)
  have 2: "CO_abort \<in> set (snd (handle_message v [0x00, 0x25] (?c\<lparr>cl_conn := Some ?a\<rparr>)))"
    by (simp add: handle_message_def message_type_def EIBTYPE_def ty A_recv_Data_def A_Group_recv_Data_def T_Group_recv_Data_def
        emit_def T_DATA_XXX_REQ_ToPacket_def)
  show ?thesis
    using client_two_messages [of a ?m "[0x00, 0x25]" v] assms(1) 1 2 by (simp add: sizes_ok_def handle_all_def case_prod_beta)
qed

theorem client_empty_apdu_aborts_witness:
  "CO_abort \<in> set (snd (run_events cl_step (RecvBuf_new, ClientConnection_new 0x11F0, [])
    [CE_start sample_finds, CE_arrive (frame open_group @ frame [0x00, 0x25]), CE_io sample_finds IO_again]))"
  using client_empty_apdu_aborts [of "0x11F0" sample_finds "0x09" "0x01" "0x00"] by (simp add: sample_finds_def)

text \<open>
  A request for a bus monitor that is too long is rejected twice: once by the session and once more by
  the connection.
\<close>

theorem client_busmonitor_rejected_twice:
  assumes "cl_conn c = None" and "length rest > 0"
  shows "handle_message v ([0x00, 0x10] @ rest) c = (c, client_sendreject 0x0000 @ client_sendreject 0x0000)"
proof -
  have "be16 0 0x10 = 0x0010" by (simp add: be16_def)
  moreover have "c\<lparr>cl_conn := None\<rparr> = c" using assms(1) by (cases c) simp
  ultimately show ?thesis
    using assms by (simp add: handle_message_def message_type_def EIBTYPE_def session_class_def new_a_conn_def A_setup_def
        A_Busmonitor_setup_def A_new_def exit_conn_def A_stop_def A_Busmonitor_stop_def A_delete_def Let_def)
qed

end
