(* ===== verification/Client_Server.thy ===== *)
theory Client_Server
  imports Client_Props
begin

text \<open>
  The server for local clients and the pool of client addresses of the router: every address that a
  connection takes is its own while it is open, and is given back when it is closed.
\<close>

section \<open>The pool\<close>

definition pool_safe :: "Router \<Rightarrow> bool" where
  "pool_safe r \<longleftrightarrow> length (r_client_addrs r) = r_client_len r \<and> 0 < unat (r_client_start r) \<and>
     unat (r_client_start r) + r_client_len r \<le> 65536"

definition addr_at :: "Router \<Rightarrow> nat \<Rightarrow> eibaddr" where
  "addr_at r pos = r_client_start r + of_nat pos"

lemma unat_addr_at:
  assumes "pool_safe r" "pos < r_client_len r"
  shows "unat (addr_at r pos) = unat (r_client_start r) + pos"
proof -
  have "pos < 65536" using assms by (simp add: pool_safe_def)
  then have u: "unat (of_nat pos :: eibaddr) = pos" by (simp only: unat_of_nat) simp
  have "unat (r_client_start r + of_nat pos) = (unat (r_client_start r) + unat (of_nat pos :: eibaddr)) mod 2 ^ LENGTH(16)"
    by (rule unat_word_ariths(1))
  then show ?thesis using assms u by (simp add: addr_at_def pool_safe_def)
qed

lemma addr_at_inject:
  assumes "pool_safe r" "p < r_client_len r" "q < r_client_len r"
  shows "addr_at r p = addr_at r q \<longleftrightarrow> p = q" "addr_at r p \<noteq> 0"
proof -
  note p = unat_addr_at [OF assms(1,2)] and q = unat_addr_at [OF assms(1,3)]
  show "addr_at r p = addr_at r q \<longleftrightarrow> p = q" using p q by (metis add_left_cancel)
  have "unat (addr_at r p) \<noteq> 0" using p assms(1) by (simp add: pool_safe_def)
  then show "addr_at r p \<noteq> 0" by (metis unat_0)
qed

text \<open>
  The pool of \<open>r\<close> is that of \<open>r0\<close> with the addresses \<open>L\<close> taken in addition.
\<close>

definition pool_rel :: "Router \<Rightarrow> eibaddr list \<Rightarrow> Router \<Rightarrow> bool" where
  "pool_rel r0 L r \<longleftrightarrow> pool_safe r0 \<and> r_client_start r = r_client_start r0 \<and> r_client_len r = r_client_len r0 \<and>
     length (r_client_addrs r) = r_client_len r0 \<and> distinct L \<and>
     (\<forall>a\<in>set L. \<exists>pos<r_client_len r0. a = addr_at r0 pos \<and> \<not> r_client_addrs r0 ! pos) \<and>
     (\<forall>pos<r_client_len r0. r_client_addrs r ! pos \<longleftrightarrow> r_client_addrs r0 ! pos \<or> addr_at r0 pos \<in> set L)"

lemma find_member: "find P xs = Some x \<Longrightarrow> P x \<and> x \<in> set xs"
  by (induction xs) (auto split: if_splits)

lemma pool_rel_take:
  assumes "pool_rel r0 L r" "get_client_addr r = (a, r')"
  shows "a = 0 \<and> pool_rel r0 L r' \<or> a \<noteq> 0 \<and> pool_rel r0 (L @ [a]) r'"
proof (cases "find (client_free r) (map (\<lambda>i. (r_client_pos r + i) mod r_client_len r) [1..<r_client_len r + 1])")
  case None
  then show ?thesis using assms by (simp add: get_client_addr_def)
next
  case (Some pos)
  have s: "pool_safe r0" and eq: "r_client_start r = r_client_start r0" "r_client_len r = r_client_len r0"
    "length (r_client_addrs r) = r_client_len r0" using assms(1) by (simp_all add: pool_rel_def)
  have ar: "a = addr_at r0 pos" "r' = r\<lparr>r_client_pos := pos, r_client_addrs := (r_client_addrs r)[pos := True]\<rparr>"
    using assms(2) Some eq by (simp_all add: get_client_addr_def addr_at_def)
  from find_member [OF Some] have free: "client_free r pos"
    and "pos \<in> set (map (\<lambda>i. (r_client_pos r + i) mod r_client_len r) [1..<r_client_len r + 1])" by blast+
  then have pos: "pos < r_client_len r0" using eq(2) by (cases "r_client_len r = 0") auto
  have new: "\<not> r_client_addrs r ! pos" using free by (simp add: client_free_def)
  then have out: "\<not> r_client_addrs r0 ! pos" "a \<notin> set L" using assms(1) pos ar(1) by (auto simp: pool_rel_def)
  have "\<forall>p<r_client_len r0. (r_client_addrs r)[pos := True] ! p \<longleftrightarrow> r_client_addrs r0 ! p \<or> addr_at r0 p \<in> set (L @ [a])"
  proof (intro allI impI)
    fix p
    assume p: "p < r_client_len r0"
    have "r_client_addrs r ! p \<longleftrightarrow> r_client_addrs r0 ! p \<or> addr_at r0 p \<in> set L" using assms(1) p by (simp add: pool_rel_def)
    then show "(r_client_addrs r)[pos := True] ! p \<longleftrightarrow> r_client_addrs r0 ! p \<or> addr_at r0 p \<in> set (L @ [a])"
      using p pos ar(1) addr_at_inject(1) [OF s p pos] eq(3) by (cases "p = pos") simp_all
  qed
  moreover have "\<forall>x\<in>set (L @ [a]). \<exists>p<r_client_len r0. x = addr_at r0 p \<and> \<not> r_client_addrs r0 ! p"
    using assms(1) pos ar(1) out(1) by (auto simp: pool_rel_def)
  moreover have "distinct (L @ [a])" using assms(1) out(2) by (simp add: pool_rel_def)
  ultimately have "pool_rel r0 (L @ [a]) r'" using eq s by (simp add: pool_rel_def ar(2))
  then show ?thesis using addr_at_inject(2) [OF s pos pos] ar(1) by simp
qed

lemma pool_rel_release:
  assumes "pool_rel r0 (L1 @ a # L2) r"
  shows "pool_rel r0 (L1 @ L2) (release_client_addr a r)"
proof -
  have s: "pool_safe r0" and eq: "r_client_start r = r_client_start r0" "r_client_len r = r_client_len r0"
    "length (r_client_addrs r) = r_client_len r0" using assms by (simp_all add: pool_rel_def)
  obtain pos where pos: "pos < r_client_len r0" "a = addr_at r0 pos" "\<not> r_client_addrs r0 ! pos"
    using assms by (auto simp: pool_rel_def)
  have u: "unat a = unat (r_client_start r) + pos" using unat_addr_at [OF s pos(1)] pos(2) eq(1) by simp
  then have "\<not> a < r_client_start r" by (simp add: word_less_nat_alt)
  moreover have "r_client_addrs r ! pos" using assms pos(1,2) by (simp add: pool_rel_def)
  ultimately have rel: "release_client_addr a r = r\<lparr>r_client_addrs := (r_client_addrs r)[pos := False]\<rparr>"
    using u pos(1) eq(2) by (simp add: release_client_addr_def)
  have "\<forall>p<r_client_len r0. (r_client_addrs r)[pos := False] ! p \<longleftrightarrow> r_client_addrs r0 ! p \<or> addr_at r0 p \<in> set (L1 @ L2)"
  proof (intro allI impI)
    fix p
    assume p: "p < r_client_len r0"
    have "a \<notin> set (L1 @ L2)" using assms by (simp add: pool_rel_def)
    moreover have "r_client_addrs r ! p \<longleftrightarrow> r_client_addrs r0 ! p \<or> addr_at r0 p \<in> set (L1 @ a # L2)"
      using assms p by (simp only: pool_rel_def)
    ultimately show "(r_client_addrs r)[pos := False] ! p \<longleftrightarrow> r_client_addrs r0 ! p \<or> addr_at r0 p \<in> set (L1 @ L2)"
      using p pos addr_at_inject(1) [OF s p pos(1)] eq(3) by (cases "p = pos") simp_all
  qed
  with assms show ?thesis unfolding rel by (auto simp: pool_rel_def)
qed

section \<open>One connection\<close>

fun addr_releases :: "cl_call \<Rightarrow> eibaddr list" where
  "addr_releases (CO_release_client_addr a) = [a]"
| "addr_releases _ = []"

definition addr_silent :: "cl_call \<Rightarrow> bool" where
  "addr_silent c \<longleftrightarrow> addr_releases c = [] \<and> c \<noteq> CO_deregister"

lemma plain_quiet: "list_all plain os \<Longrightarrow> list_all addr_silent os"
proof (induction os)
  case (Cons c os)
  then show ?case by (cases c) (simp_all add: addr_silent_def)
qed simp

lemma exit_conn_quiet: "list_all addr_silent (snd (exit_conn c))" "cl_addr (fst (exit_conn c)) = cl_addr c"
proof -
  have q: "list_all addr_silent (snd (A_stop a))" for a
    by (cases "a_class a") (simp_all add: A_stop_def A_Busmonitor_stop_def addr_silent_def)
  have "list_all addr_silent (A_delete a)" for a
    using q plain_quiet [OF plain_endpoint(3)] by (simp add: A_delete_def split: option.split)
  with q show "list_all addr_silent (snd (exit_conn c))"
    by (simp add: exit_conn_def Let_def addr_silent_def split: option.split)
  show "cl_addr (fst (exit_conn c)) = cl_addr c" by (simp add: exit_conn_def Let_def split: option.split)
qed

lemma new_a_conn_quiet: "list_all addr_silent (snd (new_a_conn v buf cls c))" "cl_addr (fst (new_a_conn v buf cls c)) = cl_addr c"
proof -
  obtain ok a os where x: "A_setup v buf (A_new cls) = (ok, a, os)" by (cases "A_setup v buf (A_new cls)")
  have s: "list_all addr_silent os" "list_all addr_silent (client_sendreject 0x0000)"
    using plain_quiet [OF A_setup_result(1) [OF x]] plain_quiet [OF plain_sendreject] by simp_all
  have "list_all addr_silent (snd (A_start a))"
    by (cases "a_class a") (simp_all add: A_start_def A_Busmonitor_start_def addr_silent_def)
  with s exit_conn_quiet show "list_all addr_silent (snd (new_a_conn v buf cls c))"
    by (simp add: new_a_conn_def x Let_def addr_silent_def)
  show "cl_addr (fst (new_a_conn v buf cls c)) = cl_addr c"
    by (simp add: new_a_conn_def x Let_def exit_conn_quiet)
qed

lemma A_recv_Data_quiet: "list_all addr_silent (snd (A_recv_Data buf a c))" "cl_addr (fst (A_recv_Data buf a c)) = cl_addr c"
  using exit_conn_quiet plain_quiet [OF plain_endpoint(4)]
  by (auto simp: A_recv_Data_def addr_silent_def split: A_class.split option.split)

lemma handle_message_quiet: "list_all addr_silent (snd (handle_message v buf c))" "cl_addr (fst (handle_message v buf c)) = cl_addr c"
  using new_a_conn_quiet A_recv_Data_quiet exit_conn_quiet plain_quiet [OF plain_sendreject]
  by (auto simp: handle_message_def Let_def addr_silent_def split: option.split)

text \<open>
  A connection with address \<open>a\<close> either keeps it, or has given it back once; it leaves the list of
  connections only then.
\<close>

definition addr_ok :: "eibaddr \<Rightarrow> cl_result \<Rightarrow> bool" where
  "addr_ok a x \<longleftrightarrow>
     (cl_addr (fst x) = a \<and> collect addr_releases (snd x) = [] \<or>
      cl_addr (fst x) = 0 \<and> a \<noteq> 0 \<and> collect addr_releases (snd x) = [a]) \<and>
     (CO_deregister \<in> set (snd x) \<longrightarrow> cl_addr (fst x) = 0)"

lemma quiet_collect: "list_all addr_silent os \<Longrightarrow> collect addr_releases os = [] \<and> CO_deregister \<notin> set os"
  by (induction os) (auto simp: addr_silent_def)

lemma addr_ok_quiet:
  assumes "addr_ok a x" "list_all addr_silent os" "cl_addr c = cl_addr (fst x)"
  shows "addr_ok a (c, snd x @ os)"
  using assms quiet_collect [OF assms(2)] by (simp add: addr_ok_def)

lemma addr_ok_stop:
  assumes "addr_ok a x"
  shows "addr_ok a (fst (ClientConnection_stop (fst x)), snd x @ snd (ClientConnection_stop (fst x)))"
proof -
  let ?c = "(fst x)\<lparr>cl_addr := 0\<rparr>"
  note q = quiet_collect [OF exit_conn_quiet(1) [of ?c]] and z = exit_conn_quiet(2) [of ?c]
  show ?thesis using assms q z by (auto simp: addr_ok_def ClientConnection_stop_def Let_def)
qed

lemma client_cb_addr:
  assumes "addr_ok a x"
  shows "addr_ok a (snd (snd (client_read_cb v buf x)))" "addr_ok a (client_error_cb x)"
  using assms addr_ok_quiet [OF assms handle_message_quiet(1) handle_message_quiet(2)] addr_ok_stop [OF assms]
  by (simp_all add: client_read_cb_def client_error_cb_def Let_def)

lemma client_feed_addr:
  assumes "addr_ok a x" "feed_out (client_read_cb v) client_error_cb r x = Some (r', y)"
  shows "addr_ok a y"
  by (rule feed_out_inv [where I = "addr_ok a", OF _ _ assms]) (auto intro: client_cb_addr)

abbreviation held :: "client \<Rightarrow> eibaddr" where
  "held w \<equiv> cl_addr (connection w)"

definition step_addr :: "client \<Rightarrow> client \<times> cl_call list \<Rightarrow> bool" where
  "step_addr w x \<longleftrightarrow> addr_ok (held w) (connection (fst x), snd x)"

lemma addr_ok_same: "addr_ok (cl_addr c) (c, [])"
  by (simp add: addr_ok_def)

lemma client_stop_addr: "step_addr w (client_stop w)"
  using addr_ok_stop [OF addr_ok_same [of "connection w"]]
  by (simp add: step_addr_def client_stop_def Let_def case_prod_beta)

lemma client_io_addr: "step_addr w (client_io v fin w)"
proof -
  obtain r c avail where w: "w = (r, c, avail)" by (cases w)
  obtain r1 rest err where i: "read_input fin False avail r = (r1, rest, err)" by (cases "read_input fin False avail r")
  let ?x = "if err then client_error_cb (c, []) else (c, [])"
  have s0: "addr_ok (cl_addr c) ?x" using addr_ok_same client_cb_addr(2) [OF addr_ok_same] by simp
  have n: "addr_ok (cl_addr c) (c, [CO_null])" by (simp add: addr_ok_def)
  show ?thesis
  proof (cases "feed_out (client_read_cb v) client_error_cb r1 ?x")
    case None
    then show ?thesis using n addr_ok_same by (simp add: step_addr_def client_io_def w RecvBuf_io_cb_def i Let_def)
  next
    case (Some z)
    obtain r' c' os where z: "z = (r', c', os)" by (cases z)
    have "addr_ok (cl_addr c) (c', os)" by (rule client_feed_addr [OF s0 Some [unfolded z]])
    then show ?thesis using Some z addr_ok_same by (simp add: step_addr_def client_io_def w RecvBuf_io_cb_def i Let_def)
  qed
qed

lemma client_start_addr: "step_addr w (client_start v w)"
proof -
  obtain r c avail where w: "w = (r, c, avail)" by (cases w)
  have n: "addr_ok (cl_addr c) (c, [CO_null])" by (simp add: addr_ok_def)
  show ?thesis
  proof (cases "cl_running c \<or> \<not> cl_fd c \<or> RecvBuf_start (client_read_cb v) client_error_cb r (c, []) = None")
    case True
    then show ?thesis using n addr_ok_same by (auto simp: step_addr_def client_start_def w)
  next
    case False
    then obtain r1 c1 o1 where f: "RecvBuf_start (client_read_cb v) client_error_cb r (c, []) = Some (r1, c1, o1)" by fastforce
    have ok: "addr_ok (cl_addr c) (c1, o1)"
      using f client_feed_addr [OF addr_ok_same] addr_ok_same by (auto simp: RecvBuf_start_def split: if_splits)
    have "addr_ok (cl_addr c) (c1, o1 @ client_sendreject 4)"
      using addr_ok_quiet [OF ok plain_quiet [OF plain_sendreject]] by simp
    from addr_ok_stop [OF this] ok show ?thesis
      using False f by (auto simp: step_addr_def client_start_def w Let_def addr_ok_def)
  qed
qed

lemma on_endpoint_addr: "(\<And>ep. list_all plain (snd (f ep))) \<Longrightarrow> step_addr w (on_endpoint f w)"
  using quiet_collect [OF plain_quiet]
  by (cases w) (auto simp: step_addr_def on_endpoint_def addr_ok_def Let_def split: option.split)

lemma cl_step_addr: "step_addr w (cl_step w e)"
proof (cases e)
  case (CE_monitor p str)
  have "list_all plain (snd (client_monitor p str w))"
    by (auto simp: client_monitor_def A_Busmonitor_send_def A_Text_Busmonitor_send_def split: option.split A_class.split)
  note q = quiet_collect [OF plain_quiet [OF this]]
  have "fst (client_monitor p str w) = w" by (simp add: client_monitor_def)
  with q show ?thesis using CE_monitor by (simp add: step_addr_def addr_ok_def)
next
  case (CE_arrive d)
  then show ?thesis using addr_ok_same by (cases w) (simp add: step_addr_def)
next
  case (CE_reply m)
  then show ?thesis using quiet_collect [OF plain_quiet [OF plain_sendmessage]] by (simp add: step_addr_def addr_ok_def)
qed (auto simp: plain_endpoint intro!: client_start_addr client_io_addr client_stop_addr on_endpoint_addr)

section \<open>The server\<close>

lemma ns_calls_eq:
  "snd (ns_calls i os w) = fold release_client_addr (collect addr_releases os) (snd w)"
  "ns_connections (fst (ns_calls i os w)) = ns_connections (fst w)" "ns_next (fst (ns_calls i os w)) = ns_next (fst w)"
  "set (ns_cleanup_q (fst (ns_calls i os w))) =
     set (ns_cleanup_q (fst w)) \<union> (if CO_deregister \<in> set os then {i} else {})"
proof (induction os arbitrary: w)
  case (Cons c os)
  { case 1 show ?case using Cons.IH(1) by (cases c) (simp_all add: deregister_def) }
  { case 2 show ?case using Cons.IH(2) by (cases c) (simp_all add: deregister_def) }
  { case 3 show ?case using Cons.IH(3) by (cases c) (simp_all add: deregister_def) }
  { case 4 show ?case using Cons.IH(4) by (cases c) (auto simp: deregister_def) }
qed simp_all

definition live :: "(nat \<times> client) list \<Rightarrow> eibaddr list" where
  "live cs = filter (\<lambda>a. a \<noteq> 0) (map (held \<circ> snd) cs)"

definition ns_inv :: "Router \<Rightarrow> NetServer \<times> Router \<Rightarrow> bool" where
  "ns_inv r0 w \<longleftrightarrow> pool_rel r0 (live (ns_connections (fst w))) (snd w) \<and> distinct (map fst (ns_connections (fst w))) \<and>
     (\<forall>(i, c)\<in>set (ns_connections (fst w)). i < ns_next (fst w) \<and> (i \<in> set (ns_cleanup_q (fst w)) \<longrightarrow> held c = 0)) \<and>
     (\<forall>i\<in>set (ns_cleanup_q (fst w)). i < ns_next (fst w))"

lemma live_simps [simp]: "live [] = []" "live ((i, c) # cs) = (if held c \<noteq> 0 then held c # live cs else live cs)"
  "live (xs @ ys) = live xs @ live ys"
  by (simp_all add: live_def)

lemma pool_rel_calls:
  assumes "pool_rel r0 (live (xs @ (i, c) # ys)) r" "addr_ok (held c) (connection c', os)"
  shows "pool_rel r0 (live (xs @ (i, c') # ys)) (fold release_client_addr (collect addr_releases os) r)"
proof (cases "held c' = held c \<and> collect addr_releases os = []")
  case True
  then show ?thesis using assms(1) by auto
next
  case False
  then have "held c' = 0" "held c \<noteq> 0" "collect addr_releases os = [held c]" using assms(2) by (auto simp: addr_ok_def)
  then show ?thesis using pool_rel_release [of r0 "live xs" "held c" "live ys" r] assms(1) by simp
qed

lemma map_of_split:
  assumes "map_of cs i = Some c" "distinct (map fst cs)"
  shows "\<exists>xs ys. cs = xs @ (i, c) # ys \<and>
    map (\<lambda>(j, d). if j = i then (j, c') else (j, d)) cs = xs @ (i, c') # ys"
proof -
  have "(i, c) \<in> set cs" using assms(1) by (rule map_of_SomeD)
  then obtain xs ys where cs: "cs = xs @ (i, c) # ys" by (meson split_list)
  then have "i \<notin> fst ` set xs" "i \<notin> fst ` set ys" using assms(2) by simp_all
  then have "map (\<lambda>(j, d). if j = i then (j, c') else (j, d)) xs = xs" "map (\<lambda>(j, d). if j = i then (j, c') else (j, d)) ys = ys"
    by (force intro!: map_idI)+
  then show ?thesis using cs by auto
qed

lemma on_client_inv:
  assumes "ns_inv r0 w"
  shows "ns_inv r0 (on_client i e w)"
proof (cases "map_of (ns_connections (fst w)) i")
  case None
  then show ?thesis using assms by (simp add: on_client_def)
next
  case (Some c)
  let ?x = "cl_step c e"
  obtain xs ys where cs: "ns_connections (fst w) = xs @ (i, c) # ys"
    "map (\<lambda>(j, d). if j = i then (j, fst ?x) else (j, d)) (ns_connections (fst w)) = xs @ (i, fst ?x) # ys"
    using map_of_split [OF Some, of "fst ?x"] assms unfolding ns_inv_def by blast
  let ?n = "(fst w)\<lparr>ns_connections := xs @ (i, fst ?x) # ys\<rparr>"
  have o: "on_client i e w = ns_calls i (snd ?x) (?n, snd w)" using Some cs(2) by (simp add: on_client_def Let_def)
  have ok: "addr_ok (held c) (connection (fst ?x), snd ?x)" using cl_step_addr [of c e] by (simp add: step_addr_def)
  have p: "pool_rel r0 (live (xs @ (i, fst ?x) # ys)) (snd (on_client i e w))"
    unfolding o ns_calls_eq snd_conv by (rule pool_rel_calls [OF _ ok]) (use assms cs in \<open>simp add: ns_inv_def\<close>)
  have z: "held (fst ?x) = 0" if "held c = 0 \<or> CO_deregister \<in> set (snd ?x)" using ok that by (auto simp: addr_ok_def)
  have ids: "j < ns_next (fst w) \<and> (j \<in> set (ns_cleanup_q (fst (on_client i e w))) \<longrightarrow> held d = 0)"
    if "(j, d) \<in> set (xs @ (i, fst ?x) # ys)" for j d
  proof (cases "j = i")
    case True
    have "i \<notin> fst ` set xs" "i \<notin> fst ` set ys" using assms cs(1) by (simp_all add: ns_inv_def)
    then have "d = fst ?x" using that True by force
    moreover have "i < ns_next (fst w)" "i \<in> set (ns_cleanup_q (fst w)) \<longrightarrow> held c = 0" using assms cs(1) by (simp_all add: ns_inv_def)
    ultimately show ?thesis using True z by (auto simp: o ns_calls_eq split: if_splits)
  next
    case False
    then have "(j, d) \<in> set (ns_connections (fst w))" using that cs(1) by auto
    then have "j < ns_next (fst w)" "j \<in> set (ns_cleanup_q (fst w)) \<longrightarrow> held d = 0" using assms unfolding ns_inv_def by blast+
    then show ?thesis using False by (auto simp: o ns_calls_eq split: if_splits)
  qed
  have q: "\<forall>j\<in>set (ns_cleanup_q (fst (on_client i e w))). j < ns_next (fst w)"
    using assms cs(1) by (auto simp: ns_inv_def o ns_calls_eq split: if_splits)
  have d: "distinct (map fst (xs @ (i, fst ?x) # ys))" using assms cs(1) by (simp add: ns_inv_def)
  have n: "ns_connections (fst (on_client i e w)) = xs @ (i, fst ?x) # ys" "ns_next (fst (on_client i e w)) = ns_next (fst w)"
    by (simp_all add: o ns_calls_eq)
  from p d q ids show ?thesis unfolding ns_inv_def n by blast
qed

lemma cleanup_inv:
  assumes "ns_inv r0 (n, r)"
  shows "ns_inv r0 (cleanup_cb n, r)"
proof -
  have "live (filter (\<lambda>(i, c). i \<notin> set (ns_cleanup_q n)) cs) = live cs"
    if "\<forall>(i, c)\<in>set cs. i \<in> set (ns_cleanup_q n) \<longrightarrow> held c = 0" for cs
    using that by (induction cs) auto
  moreover have "\<forall>(i, c)\<in>set (ns_connections n). i \<in> set (ns_cleanup_q n) \<longrightarrow> held c = 0"
    using assms by (auto simp: ns_inv_def)
  ultimately show ?thesis
    using assms by (auto simp: ns_inv_def cleanup_cb_def distinct_map_filter)
qed

lemma accept_inv:
  assumes "ns_inv r0 w"
  shows "ns_inv r0 (NetServer_io_cb v w)"
proof -
  obtain a r where g: "get_client_addr (snd w) = (a, r)" by (cases "get_client_addr (snd w)")
  let ?i = "ns_next (fst w)" and ?x = "client_start v (RecvBuf_new, ClientConnection_new a, [])"
  let ?y = "ns_calls ?i (snd ?x) ((fst w)\<lparr>ns_next := ?i + 1\<rparr>, r)"
  have ok: "addr_ok a (connection (fst ?x), snd ?x)"
    using client_start_addr [of "(RecvBuf_new, ClientConnection_new a, [])" v] by (simp add: step_addr_def ClientConnection_new_def)
  have fresh: "\<forall>(i, c)\<in>set (ns_connections (fst w)). i < ?i" "\<forall>i\<in>set (ns_cleanup_q (fst w)). i < ?i"
    using assms by (auto simp: ns_inv_def)
  show ?thesis
  proof (cases "a = 0")
    case True
    have "pool_rel r0 (live (ns_connections (fst w))) r" using pool_rel_take [OF _ g] assms True by (auto simp: ns_inv_def)
    moreover have "collect addr_releases (snd ?x) = []" using ok True by (auto simp: addr_ok_def)
    moreover have "\<not> cl_running (connection (fst ?x))"
    proof -
      let ?r = "RecvBuf_new\<lparr>rb_running := True, rb_io := True\<rparr>"
      have "feed_out (client_read_cb v) client_error_cb ?r (ClientConnection_new a, []) = Some (?r, (ClientConnection_new a, []))"
        by (rule feed_out_empty) (simp add: RecvBuf_new_def)
      then show ?thesis using True
        by (simp add: client_start_def RecvBuf_start_def ClientConnection_new_def ClientConnection_stop_def exit_conn_def RecvBuf_new_def Let_def)
    qed
    ultimately show ?thesis
      using assms fresh by (auto simp: NetServer_io_cb_def g Let_def ns_inv_def ns_calls_eq less_Suc_eq split: if_splits)
  next
    case False
    have p: "pool_rel r0 (live (ns_connections (fst w)) @ [a]) r" using pool_rel_take [OF _ g] assms False by (auto simp: ns_inv_def)
    let ?r = "RecvBuf_new\<lparr>rb_running := True, rb_io := True\<rparr>"
    have "feed_out (client_read_cb v) client_error_cb ?r (ClientConnection_new a, []) = Some (?r, (ClientConnection_new a, []))"
      by (rule feed_out_empty) (simp add: RecvBuf_new_def)
    then have x: "?x = ((?r, (ClientConnection_new a)\<lparr>cl_running := True\<rparr>, []), [])"
      using False by (simp add: client_start_def RecvBuf_start_def ClientConnection_new_def RecvBuf_new_def)
    show ?thesis
      using assms fresh p False unfolding NetServer_io_cb_def g Let_def case_prod_conv x
      by (auto simp: ns_inv_def ClientConnection_new_def less_Suc_eq)
  qed
qed

lemma stop_clients_pool:
  "pool_rel r0 (live cs) (snd w) \<Longrightarrow> pool_rel r0 [] (snd (stop_clients cs w))"
proof (induction cs arbitrary: w)
  case (Cons ic cs)
  obtain i c where ic: "ic = (i, c)" by (cases ic)
  let ?x = "client_stop c"
  have ok: "addr_ok (held c) (connection (fst ?x), snd ?x)" using client_stop_addr [of c] by (simp add: step_addr_def)
  have z: "held (fst ?x) = 0" by (simp add: client_stop_def ClientConnection_stop_def Let_def exit_conn_quiet case_prod_beta)
  have "pool_rel r0 (live cs) (snd (ns_calls i (snd ?x) w))"
    using pool_rel_calls [of r0 "[]" i c cs "snd w", OF _ ok] Cons.prems z by (simp add: ic ns_calls_eq)
  then show ?case using Cons.IH by (simp add: ic)
qed simp

lemma stop_clients_ids:
  assumes "\<forall>(i, c)\<in>set cs. i < N" "\<forall>i\<in>set (ns_cleanup_q (fst w)). i < N" "ns_next (fst w) = N"
  shows "ns_next (fst (stop_clients cs w)) = N \<and> (\<forall>i\<in>set (ns_cleanup_q (fst (stop_clients cs w))). i < N)"
  using assms
proof (induction cs arbitrary: w)
  case (Cons ic cs)
  obtain i c where ic: "ic = (i, c)" by (cases ic)
  show ?case unfolding ic stop_clients.simps by (rule Cons.IH) (use Cons.prems ic in \<open>auto simp: ns_calls_eq split: if_splits\<close>)
qed simp

lemma stop_inv:
  assumes "ns_inv r0 w"
  shows "ns_inv r0 (NetServer_stop w)" "pool_rel r0 [] (snd (NetServer_stop w))"
proof -
  let ?n = "(fst w)\<lparr>ns_cleanup_q := []\<rparr>"
  have p: "pool_rel r0 [] (snd (stop_clients (ns_connections (fst w)) (?n, snd w)))"
    by (rule stop_clients_pool) (use assms in \<open>simp add: ns_inv_def\<close>)
  then show "pool_rel r0 [] (snd (NetServer_stop w))" by (simp add: NetServer_stop_def Let_def)
  have "ns_next (fst (stop_clients (ns_connections (fst w)) (?n, snd w))) = ns_next (fst w) \<and>
      (\<forall>i\<in>set (ns_cleanup_q (fst (stop_clients (ns_connections (fst w)) (?n, snd w)))). i < ns_next (fst w))"
    by (rule stop_clients_ids) (use assms in \<open>auto simp: ns_inv_def\<close>)
  with p show "ns_inv r0 (NetServer_stop w)" by (simp add: ns_inv_def NetServer_stop_def Let_def)
qed

lemma ns_step_inv: "ns_inv r0 w \<Longrightarrow> ns_inv r0 (ns_step w e)"
  using on_client_inv accept_inv stop_inv(1) cleanup_inv [of r0 "fst w" "snd w"] by (cases e) simp_all

abbreviation ns_run :: "Router \<Rightarrow> ns_event list \<Rightarrow> NetServer \<times> Router" where
  "ns_run r0 es \<equiv> foldl ns_step (NetServer_new, r0) es"

lemma ns_run_inv:
  assumes "pool_safe r0"
  shows "ns_inv r0 (ns_run r0 es)"
proof (induction es rule: rev_induct)
  case Nil
  show ?case using assms by (simp add: ns_inv_def pool_rel_def NetServer_new_def pool_safe_def)
qed (simp add: ns_step_inv)

text \<open>
  \<^bold>\<open>C14\<close>: client addresses are conserved.  In every history of the server, whatever its clients do and
  however their connections end, two open connections never have the same address, an address is in use
  exactly if it was in use before or belongs to an open connection, and stopping the server leaves the
  pool as it was before the first client came.
\<close>

theorem netserver_addresses_conserved:
  assumes "pool_safe r0"
  shows "distinct (live (ns_connections (fst (ns_run r0 es)))) \<and>
    (\<forall>pos<r_client_len r0. r_client_addrs (snd (ns_run r0 es)) ! pos \<longleftrightarrow>
       r_client_addrs r0 ! pos \<or> addr_at r0 pos \<in> set (live (ns_connections (fst (ns_run r0 es))))) \<and>
    r_client_addrs (snd (ns_run r0 (es @ [NS_stop]))) = r_client_addrs r0"
proof -
  note inv = ns_run_inv [OF assms, of es]
  have p: "pool_rel r0 (live (ns_connections (fst (ns_run r0 es)))) (snd (ns_run r0 es))" using inv by (simp add: ns_inv_def)
  have "pool_rel r0 [] (snd (ns_run r0 (es @ [NS_stop])))" using stop_inv(2) [OF inv] by simp
  then have "r_client_addrs (snd (ns_run r0 (es @ [NS_stop]))) = r_client_addrs r0"
    using assms by (intro nth_equalityI) (auto simp: pool_rel_def pool_safe_def)
  with p show ?thesis by (simp add: pool_rel_def)
qed

theorem netserver_addresses_conserved_witness:
  "r_client_addrs (snd (ns_run (Router_new 0x1101 0x11F0 2 False 0)
     [NS_accept sample_finds, NS_accept sample_finds, NS_client 0 CE_stop, NS_cleanup, NS_accept sample_finds, NS_stop])) =
   r_client_addrs (Router_new 0x1101 0x11F0 2 False 0)"
proof -
  have "pool_safe (Router_new 0x1101 0x11F0 2 False 0)" by (simp add: pool_safe_def Router_new_def)
  from netserver_addresses_conserved [OF this, of "[NS_accept sample_finds, NS_accept sample_finds, NS_client 0 CE_stop,
      NS_cleanup, NS_accept sample_finds]"]
  show ?thesis by (simp del: ns_step.simps)
qed

end
