(* ===== verification/Inifile.thy ===== *)
theory Inifile
  imports Prelude "HOL-Library.Char_ord" "HOL-Library.List_Lexorder"
begin

text \<open>
  The configuration file: the line parser \<^verbatim>\<open>src/src/common/inih.c\<close> with the settings of \<^verbatim>\<open>inih.h\<close> (line
  length 300, continuation lines, inline comments after white space, names without a value), and the
  tables of sections and values of \<^verbatim>\<open>inifile.cpp\<close>.  The parser works on its line buffer in place; here
  every pointer into it is the string that begins there.
\<close>

section \<open>Strings\<close>

abbreviation newline :: char where
  "newline \<equiv> CHR 0x0A"

definition isspace :: "char \<Rightarrow> bool" where
  "isspace c \<longleftrightarrow> c \<in> {CHR '' '', CHR 0x09, CHR 0x0A, CHR 0x0B, CHR 0x0C, CHR 0x0D}"

definition rstrip :: "string \<Rightarrow> string" where
  "rstrip s = rev (dropWhile isspace (rev s))"

definition lskip :: "string \<Rightarrow> string" where
  "lskip s = dropWhile isspace s"

text \<open>What is before the character found, and what begins with it.  \<open>None\<close> is the null pointer.\<close>

fun find_loop :: "bool \<Rightarrow> string option \<Rightarrow> string \<Rightarrow> string \<times> string" where
  "find_loop was_space chars [] = ([], [])"
| "find_loop was_space chars (c # s) =
     (if (case chars of None \<Rightarrow> False | Some cs \<Rightarrow> c \<in> set cs) \<or> was_space \<and> c \<in> set ''#;'' then ([], c # s)
      else apfst (Cons c) (find_loop (isspace c) chars s))"

definition find_chars_or_comment :: "string option \<Rightarrow> string \<Rightarrow> string \<times> string" where
  "find_chars_or_comment chars s = find_loop False chars s"

text \<open>\<open>strncpy0\<close> into an array of 50 characters.\<close>

definition strncpy0 :: "string \<Rightarrow> string" where
  "strncpy0 s = take 49 s"

section \<open>Sections and values\<close>

text \<open>
  \<open>std::map\<close>: a list of keys and values in the order of the keys.  \<open>emplace\<close> does nothing when the key
  is there.
\<close>

definition emplace :: "string \<Rightarrow> 'v \<Rightarrow> (string \<times> 'v) list \<Rightarrow> bool \<times> (string \<times> 'v) list" where
  "emplace k v m = (if k \<in> set (map fst m) then (False, m) else (True, insort_key fst (k, v) m))"

definition set_value :: "string \<Rightarrow> 'v \<Rightarrow> (string \<times> 'v) list \<Rightarrow> (string \<times> 'v) list" where
  "set_value k v m = map (\<lambda>(j, w). if j = k then (j, v) else (j, w)) m"

text \<open>A value and a section come with a flag: it has been asked for.\<close>

type_synonym IniSection = "(string \<times> string \<times> bool) list"

record IniData =
  ini_sections :: "(string \<times> IniSection \<times> bool) list"
  ini_read_only :: bool

definition IniData_new :: IniData where
  "IniData_new = \<lparr>ini_sections = [], ini_read_only = False\<rparr>"

definition IniSection_add :: "string \<Rightarrow> string option \<Rightarrow> IniSection \<Rightarrow> bool \<times> IniSection" where
  "IniSection_add name val s = emplace name (case val of None \<Rightarrow> ''TRUE'' | Some v \<Rightarrow> v, False) s"

definition IniData_add :: "string \<Rightarrow> (string \<times> string option) option \<Rightarrow> IniData \<Rightarrow> bool \<times> IniData" where
  "IniData_add sec nv d =
     (let (isnew, m) = emplace sec ([], False) (ini_sections d); d1 = d\<lparr>ini_sections := m\<rparr>
      in case nv of
           None \<Rightarrow> (isnew, d1)
         | Some (name, val) \<Rightarrow>
             (case map_of m sec of
                None \<Rightarrow> (False, d1)
              | Some (s, seen) \<Rightarrow>
                  let (ok, s1) = IniSection_add name val s
                  in (ok, d1\<lparr>ini_sections := set_value sec (s1, seen) m\<rparr>)))"

section \<open>Parsing\<close>

record ini_state =
  i_section :: string
  i_prev_name :: string
  i_lineno :: nat
  i_error :: nat
  i_data :: IniData

definition ini_fail :: "ini_state \<Rightarrow> ini_state" where
  "ini_fail s = (if i_error s = 0 then s\<lparr>i_error := i_lineno s\<rparr> else s)"

definition handler :: "(string \<times> string option) option \<Rightarrow> ini_state \<Rightarrow> ini_state" where
  "handler nv s =
     (let (ok, d) = IniData_add (i_section s) nv (i_data s); s1 = s\<lparr>i_data := d\<rparr> in if ok then s1 else ini_fail s1)"

definition skip_BOM :: "nat \<Rightarrow> string \<Rightarrow> string" where
  "skip_BOM lineno l =
     (if lineno = 1 \<and> take 3 l = [CHR 0xEF, CHR 0xBB, CHR 0xBF] then drop 3 l else l)"

definition section_line :: "string \<Rightarrow> ini_state \<Rightarrow> ini_state" where
  "section_line start s =
     (let (before, found) = find_chars_or_comment (Some '']'') (tl start)
      in if found \<noteq> [] \<and> hd found = CHR '']''
         then handler None (s\<lparr>i_section := strncpy0 before, i_prev_name := []\<rparr>)
         else ini_fail s)"

definition name_line :: "string \<Rightarrow> ini_state \<Rightarrow> ini_state" where
  "name_line start s =
     (let (before, found) = find_chars_or_comment (Some ''=:'') start
      in if found \<noteq> [] \<and> hd found \<in> set ''=:''
         then let name = rstrip before; val = rstrip (lskip (fst (find_chars_or_comment None (tl found))))
              in handler (Some (name, Some val)) (s\<lparr>i_prev_name := strncpy0 name\<rparr>)
         else let name = rstrip (fst (find_chars_or_comment None start))
              in if name \<noteq> [] \<and> set name \<inter> {CHR 0x09, CHR '' ''} = {}
                 then handler (Some (name, None)) (s\<lparr>i_prev_name := strncpy0 name\<rparr>)
                 else ini_fail s)"

text \<open>
  One line; it ends at a null character.  The line is continued if something was skipped at its
  beginning.
\<close>

definition ini_line :: "ini_state \<Rightarrow> string \<Rightarrow> ini_state" where
  "ini_line s0 str =
     (let s = s0\<lparr>i_lineno := i_lineno s0 + 1\<rparr>;
          line = takeWhile (\<lambda>c. c \<noteq> CHR 0x00) str;
          stripped = rstrip (skip_BOM (i_lineno s) line);
          start = lskip stripped;
          moved = (length start < length stripped \<or> length (skip_BOM (i_lineno s) line) < length line)
      in if start \<noteq> [] \<and> hd start \<in> set '';#'' then s
         else if i_prev_name s \<noteq> [] \<and> start \<noteq> [] \<and> moved then handler (Some (i_prev_name s, Some start)) s
         else if start \<noteq> [] \<and> hd start = CHR ''['' then section_line start s
         else if start \<noteq> [] then name_line start s
         else s)"

text \<open>
  The lines that \<open>inidata_reader\<close> gets from \<open>istream::getline\<close> with room for 300 characters: a line that
  does not fit sets \<open>failbit\<close>, and there are no more lines.
\<close>

function ini_lines :: "string \<Rightarrow> string list" where
  "ini_lines file =
     (if file = [] then []
      else let l = takeWhile (\<lambda>c. c \<noteq> newline) file; r = dropWhile (\<lambda>c. c \<noteq> newline) file
           in if length l > 299 then [] else if r = [] then [l] else l # ini_lines (tl r))"
  by pat_completeness auto
termination
proof (relation "measure length")
  show "wf (measure (length :: string \<Rightarrow> nat))" by simp
  fix f0 l r
  assume f: "f0 \<noteq> []" and r: "r = dropWhile (\<lambda>c. c \<noteq> newline) f0" "r \<noteq> []"
  have "length r \<le> length f0" unfolding r(1) by (rule length_dropWhile_le)
  then show "(tl r, f0) \<in> measure length" using r(2) by (cases r) auto
qed

declare ini_lines.simps [simp del]

definition ini_parse_stream :: "string \<Rightarrow> IniData \<Rightarrow> ini_state" where
  "ini_parse_stream file d =
     foldl ini_line \<lparr>i_section = [], i_prev_name = [], i_lineno = 0, i_error = 0, i_data = d\<rparr> (ini_lines file)"

definition IniData_parse :: "string \<Rightarrow> IniData \<Rightarrow> nat \<times> IniData" where
  "IniData_parse file d =
     (let s = ini_parse_stream file d in (i_error s, (i_data s)\<lparr>ini_read_only := True\<rparr>))"

section \<open>Writing\<close>

definition IniSection_write :: "IniSection \<Rightarrow> string list" where
  "IniSection_write s = map (\<lambda>(k, v, seen). k @ '' = '' @ v) s"

definition IniData_write :: "IniData \<Rightarrow> string list" where
  "IniData_write d = concat (map (\<lambda>(k, s, seen). (''['' @ k @ '']'') # IniSection_write s) (ini_sections d))"

definition ini_file :: "string list \<Rightarrow> string" where
  "ini_file ls = concat (map (\<lambda>l. l @ [newline]) ls)"

section \<open>Asking for a value\<close>

text \<open>\<open>operator[]\<close>: a section that does not exist is made.\<close>

definition IniData_index :: "string \<Rightarrow> IniData \<Rightarrow> IniSection \<times> IniData" where
  "IniData_index name d =
     (let m = snd (emplace name ([], False) (ini_sections d));
          s = (case map_of m name of None \<Rightarrow> [] | Some (s, seen) \<Rightarrow> s)
      in (s, d\<lparr>ini_sections := set_value name (s, True) m\<rparr>))"

text \<open>
  \<open>value\<close> follows the entries called \<open>use\<close>.  The fuel bounds the length of the chain: \<open>None\<close> is a chain that is
  longer.  A value that is found is marked as seen in the section \<open>sec\<close> that has it.
\<close>

fun IniSection_value :: "nat \<Rightarrow> string \<Rightarrow> string \<Rightarrow> string \<Rightarrow> IniData \<Rightarrow> (string \<times> IniData) option" where
  "IniSection_value 0 sec name def0 d = None"
| "IniSection_value (Suc n) sec name def0 d =
     (case map_of (ini_sections d) sec of
        None \<Rightarrow> Some (def0, d)
      | Some (s, seen) \<Rightarrow>
          (case map_of s name of
             Some (v, _) \<Rightarrow> Some (v, d\<lparr>ini_sections := set_value sec (set_value name (v, True) s, seen) (ini_sections d)\<rparr>)
           | None \<Rightarrow>
               (case map_of s ''use'' of
                  None \<Rightarrow> Some (def0, d)
                | Some (u, _) \<Rightarrow> IniSection_value n u name def0 (snd (IniData_index u d)))))"

definition IniSection_value_bool :: "nat \<Rightarrow> string \<Rightarrow> string \<Rightarrow> bool \<Rightarrow> IniData \<Rightarrow> (bool \<times> IniData) option" where
  "IniSection_value_bool n sec name def0 d =
     (case IniSection_value n sec name [] d of
        None \<Rightarrow> None
      | Some (v, d1) \<Rightarrow>
          Some (if v \<in> {''Y'', ''y'', ''1'', ''true'', ''True'', ''TRUE''} then True
                else if v \<in> {''N'', ''n'', ''0'', ''false'', ''False'', ''FALSE''} then False
                else def0, d1))"

text \<open>\<open>sub\<close>: the name of the section that an entry points to.\<close>

definition IniSection_sub :: "nat \<Rightarrow> string \<Rightarrow> string \<Rightarrow> bool \<Rightarrow> IniData \<Rightarrow> (string \<times> IniData) option" where
  "IniSection_sub n sec name force d =
     (case IniSection_value n sec name [] d of
        None \<Rightarrow> None
      | Some (v, d1) \<Rightarrow> if force \<and> v = [] then Some (sec, d1) else Some (v, snd (IniData_index v d1)))"

definition IniSection_list_unseen :: "IniSection \<Rightarrow> (string \<times> string) list" where
  "IniSection_list_unseen s = map (\<lambda>(k, v, seen). (k, v)) (filter (\<lambda>(k, v, seen). \<not> seen) s)"

definition IniData_list_unseen :: "IniData \<Rightarrow> (string \<times> string \<times> string) list" where
  "IniData_list_unseen d =
     concat (map (\<lambda>(k, s, seen). map (Pair k) (IniSection_list_unseen s)) (filter (\<lambda>(k, s, seen). seen) (ini_sections d)))"

end
