(* ===== verification/Inifile_Props.thy ===== *)
theory Inifile_Props
  imports Inifile
begin

text \<open>
  What the configuration parser does: it reads back every file that \<open>IniData::write\<close> can write, a line
  that is too long ends the file without an error, a continuation line is always an error, and when the
  look-up of a value returns.
\<close>

section \<open>Tables that can be written\<close>

definition one_line :: "string \<Rightarrow> bool" where
  "one_line s \<longleftrightarrow> newline \<notin> set s \<and> CHR 0x00 \<notin> set s"

text \<open>No comment begins in the string; \<open>b\<close>: there is white space before it.\<close>

fun no_comment :: "bool \<Rightarrow> string \<Rightarrow> bool" where
  "no_comment b [] = True"
| "no_comment b (c # s) = (\<not> (b \<and> c \<in> set ''#;'') \<and> no_comment (isspace c) s)"

definition trimmed :: "string \<Rightarrow> bool" where
  "trimmed s \<longleftrightarrow> s = [] \<or> \<not> isspace (hd s) \<and> \<not> isspace (last s)"

definition section_name :: "string \<Rightarrow> bool" where
  "section_name k \<longleftrightarrow> one_line k \<and> no_comment False k \<and> CHR '']'' \<notin> set k \<and> length k \<le> 49"

definition value_entry :: "string \<Rightarrow> string \<Rightarrow> bool" where
  "value_entry k v \<longleftrightarrow>
     one_line k \<and> no_comment False k \<and> trimmed k \<and> k \<noteq> [] \<and> hd k \<notin> set '';#['' \<and> set k \<inter> set ''=:'' = {} \<and>
     one_line v \<and> no_comment True v \<and> trimmed v \<and> length k + length v \<le> 296"

definition wf_section :: "IniSection \<Rightarrow> bool" where
  "wf_section s \<longleftrightarrow> sorted_wrt (<) (map fst s) \<and> list_all (\<lambda>(k, v, seen). value_entry k v \<and> \<not> seen) s"

definition wf_ini :: "IniData \<Rightarrow> bool" where
  "wf_ini d \<longleftrightarrow>
     sorted_wrt (<) (map fst (ini_sections d)) \<and>
     list_all (\<lambda>(k, s, seen). section_name k \<and> wf_section s \<and> \<not> seen) (ini_sections d)"

section \<open>Strings\<close>

lemma rstrip_last [simp]: "\<not> isspace (last s) \<Longrightarrow> rstrip s = s"
  unfolding rstrip_def by (cases s rule: rev_cases) auto

lemma rstrip_snoc_space [simp]: "isspace c \<Longrightarrow> rstrip (s @ [c]) = rstrip s"
  unfolding rstrip_def by simp

lemma rstrip_Nil [simp]: "rstrip [] = []"
  unfolding rstrip_def by simp

lemma lskip_Nil [simp]: "lskip [] = []"
  unfolding lskip_def by simp

lemma lskip_nonspace [simp]: "\<not> isspace c \<Longrightarrow> lskip (c # s) = c # s"
  unfolding lskip_def by simp

lemma lskip_space [simp]: "isspace c \<Longrightarrow> lskip (c # s) = lskip s"
  unfolding lskip_def by simp

lemma space_isspace [simp]: "isspace (CHR '' '')"
  unfolding isspace_def by simp

lemma trimmed_strip:
  assumes "trimmed s"
  shows "rstrip s = s" "lskip s = s"
  using assms unfolding trimmed_def by (cases s; auto)+

lemma find_loop_stop:
  "no_comment b s \<Longrightarrow> set s \<inter> set cs = {} \<Longrightarrow> x \<in> set cs \<Longrightarrow> find_loop b (Some cs) (s @ x # t) = (s, x # t)"
  by (induction b s rule: no_comment.induct) auto

lemma find_loop_none: "no_comment b s \<Longrightarrow> find_loop b None s = (s, [])"
  by (induction b s rule: no_comment.induct) auto

lemma no_comment_snoc_space: "no_comment b s \<Longrightarrow> no_comment b (s @ '' '')"
  by (induction b s rule: no_comment.induct) auto

lemma one_line_append [simp]: "one_line (s @ t) \<longleftrightarrow> one_line s \<and> one_line t"
  unfolding one_line_def by auto

lemma one_line_Cons [simp]: "one_line (c # s) \<longleftrightarrow> c \<noteq> newline \<and> c \<noteq> CHR 0x00 \<and> one_line s"
  unfolding one_line_def by auto

lemma one_line_Nil [simp]: "one_line []"
  unfolding one_line_def by simp

lemma one_line_cstring: "one_line s \<Longrightarrow> takeWhile (\<lambda>c. c \<noteq> CHR 0x00) s = s"
  unfolding one_line_def by (auto simp: takeWhile_eq_all_conv)

section \<open>Lines of the file\<close>

definition fits :: "string \<Rightarrow> bool" where
  "fits l \<longleftrightarrow> newline \<notin> set l \<and> length l \<le> 299"

lemma ini_file_Cons [simp]: "ini_file (l # ls) = l @ newline # ini_file ls"
  unfolding ini_file_def by simp

lemma takeWhile_past: "x \<notin> set l \<Longrightarrow> takeWhile (\<lambda>c. c \<noteq> x) (l @ r) = l @ takeWhile (\<lambda>c. c \<noteq> x) r"
  by (induction l) auto

lemma dropWhile_past: "x \<notin> set l \<Longrightarrow> dropWhile (\<lambda>c. c \<noteq> x) (l @ r) = dropWhile (\<lambda>c. c \<noteq> x) r"
  by (induction l) auto

lemma ini_lines_Cons:
  assumes "fits l"
  shows "ini_lines (l @ newline # r) = l # ini_lines r"
proof -
  have t: "takeWhile (\<lambda>c. c \<noteq> newline) (l @ newline # r) = l" "dropWhile (\<lambda>c. c \<noteq> newline) (l @ newline # r) = newline # r"
    using assms unfolding fits_def by (simp_all add: takeWhile_past dropWhile_past)
  show ?thesis using assms unfolding ini_lines.simps [of "l @ newline # r"] t Let_def fits_def by simp
qed

lemma ini_lines_append: "list_all fits ls \<Longrightarrow> ini_lines (ini_file ls @ r) = ls @ ini_lines r"
  by (induction ls) (simp_all add: ini_lines_Cons, simp add: ini_file_def)

lemma ini_lines_Nil [simp]: "ini_lines [] = []"
  by (simp add: ini_lines.simps)

lemma ini_lines_too_long:
  assumes "newline \<notin> set l" "length l \<ge> 300"
  shows "ini_lines (l @ r) = []"
proof -
  have "takeWhile (\<lambda>c. c \<noteq> newline) (l @ r) = l @ takeWhile (\<lambda>c. c \<noteq> newline) r"
    using assms(1) by (rule takeWhile_past)
  then show ?thesis using assms(2) by (subst ini_lines.simps) simp
qed

section \<open>Sorted tables\<close>

lemma insort_key_last: "\<forall>y \<in> set m. f y < f x \<Longrightarrow> insort_key f x m = m @ [x]"
  by (induction m) (auto simp: not_le)

lemma emplace_last:
  assumes "sorted_wrt (<) (map fst m @ [k])"
  shows "emplace k v m = (True, m @ [(k, v)])"
proof -
  have "\<forall>y \<in> set m. fst y < k" using assms by (auto simp: sorted_wrt_append)
  then show ?thesis unfolding emplace_def by (auto simp: insort_key_last)
qed

lemma set_value_last: "k \<notin> fst ` set m \<Longrightarrow> set_value k v (m @ [(k, w)]) = m @ [(k, v)]"
  unfolding set_value_def by (force intro!: map_idI)

lemma map_of_last: "k \<notin> fst ` set m \<Longrightarrow> map_of (m @ [(k, w)]) k = Some w"
  by (auto simp: map_add_def map_of_eq_None_iff [THEN iffD2] split: option.splits)

lemma sorted_last_notin: "sorted_wrt (<) (map fst m @ [k :: string]) \<Longrightarrow> k \<notin> fst ` set m"
  by (auto simp: sorted_wrt_append)

section \<open>One written line\<close>

lemma rstrip_entry:
  assumes "trimmed v"
  shows "rstrip (k @ '' = '' @ v) = k @ '' ='' @ (if v = [] then [] else CHR '' '' # v)"
proof (cases "v = []")
  case True
  have "rstrip ((k @ '' ='') @ '' '') = rstrip (k @ '' ='')" by (rule rstrip_snoc_space) simp
  also have "\<dots> = k @ '' =''" by (rule rstrip_last) (simp add: isspace_def)
  finally show ?thesis using True by simp
next
  case False
  then have "\<not> isspace (last (k @ '' = '' @ v))" using assms unfolding trimmed_def by simp
  then show ?thesis using False by simp
qed

lemma name_line_entry:
  assumes kv: "value_entry k v"
  shows "name_line (k @ '' ='' @ (if v = [] then [] else CHR '' '' # v)) s =
         handler (Some (k, Some v)) (s\<lparr>i_prev_name := strncpy0 k\<rparr>)"
proof -
  let ?t = "if v = [] then [] else CHR '' '' # v"
  have k: "no_comment False k" "trimmed k" "k \<noteq> []" "set k \<inter> set ''=:'' = {}" and v: "no_comment True v" "trimmed v"
    using kv unfolding value_entry_def by auto
  have f: "find_chars_or_comment (Some ''=:'') (k @ '' ='' @ ?t) = (k @ '' '', CHR ''='' # ?t)"
    unfolding find_chars_or_comment_def
    using find_loop_stop [of False "k @ '' ''" "''=:''" "CHR ''=''" ?t] no_comment_snoc_space [OF k(1)] k(4) by auto
  have n: "rstrip (k @ '' '') = k" using k by (simp add: trimmed_strip)
  have "no_comment False ?t" using v(1) by simp
  then have "fst (find_chars_or_comment None ?t) = ?t" unfolding find_chars_or_comment_def by (simp only: find_loop_none fst_conv)
  moreover have "rstrip (lskip ?t) = v" using v(2) by (simp add: trimmed_strip)
  ultimately show ?thesis unfolding name_line_def f by (simp add: n Let_def)
qed

lemma skip_BOM_later [simp]: "n \<noteq> Suc 0 \<Longrightarrow> skip_BOM n l = l"
  unfolding skip_BOM_def by simp

lemma ini_line_entry:
  assumes kv: "value_entry k v" and n: "i_lineno s \<noteq> 0"
  shows "ini_line s (k @ '' = '' @ v) =
         handler (Some (k, Some v)) (s\<lparr>i_lineno := i_lineno s + 1, i_prev_name := strncpy0 k\<rparr>)"
proof -
  let ?l = "k @ '' ='' @ (if v = [] then [] else CHR '' '' # v)"
  have p: "takeWhile (\<lambda>c. c \<noteq> CHR 0x00) (k @ '' = '' @ v) = k @ '' = '' @ v"
    using kv unfolding value_entry_def by (intro one_line_cstring) auto
  obtain c t where k: "k = c # t" "\<not> isspace c" "c \<notin> set '';#[''"
    using kv unfolding value_entry_def trimmed_def by (cases k) auto
  have v: "trimmed v" using kv unfolding value_entry_def by simp
  have l: "lskip ?l = ?l" "?l \<noteq> []" "hd ?l \<notin> set '';#''" "hd ?l \<noteq> CHR ''[''" using k by auto
  have b: "skip_BOM (i_lineno (s\<lparr>i_lineno := i_lineno s + 1\<rparr>)) x = x" for x using n by simp
  show ?thesis
    unfolding ini_line_def Let_def p b rstrip_entry [OF v] l(1) name_line_entry [OF kv]
    by (simp only: l(2-4) less_irrefl simp_thms if_False if_True not_False_eq_True)
qed

lemma ini_line_section:
  assumes k: "section_name k"
  shows "ini_line s (''['' @ k @ '']'') =
         handler None (s\<lparr>i_lineno := i_lineno s + 1, i_section := k, i_prev_name := []\<rparr>)"
proof -
  let ?l = "''['' @ k @ '']''"
  have p: "takeWhile (\<lambda>c. c \<noteq> CHR 0x00) ?l = ?l" using k unfolding section_name_def by (intro one_line_cstring) auto
  have b: "skip_BOM n ?l = ?l" for n unfolding skip_BOM_def by simp
  have r: "rstrip ?l = ?l" by (rule rstrip_last) (simp add: isspace_def)
  have l: "lskip ?l = ?l" by (simp add: isspace_def)
  have f: "find_chars_or_comment (Some '']'') (tl ?l) = (k, '']'')"
    unfolding find_chars_or_comment_def using find_loop_stop [of False k "'']''" "CHR '']''" "[]"] k
    unfolding section_name_def by auto
  have c: "strncpy0 k = k" using k unfolding strncpy0_def section_name_def by simp
  show ?thesis unfolding ini_line_def Let_def p b r l section_line_def f by (simp add: c)
qed

section \<open>A written file\<close>

text \<open>The parser is in the section \<open>k\<close>, the last one, has seen no error, and this is what it has stored.\<close>

definition parsed_to :: "(string \<times> IniSection \<times> bool) list \<Rightarrow> string \<Rightarrow> IniSection \<Rightarrow> ini_state \<Rightarrow> bool" where
  "parsed_to pre k s st \<longleftrightarrow>
     i_section st = k \<and> i_error st = 0 \<and> i_lineno st \<noteq> 0 \<and>
     i_data st = \<lparr>ini_sections = pre @ [(k, s, False)], ini_read_only = False\<rparr>"

lemma parsed_entry:
  assumes st: "parsed_to pre k s st" and k: "k \<notin> fst ` set pre"
    and n: "sorted_wrt (<) (map fst s @ [name])" and kv: "value_entry name v"
  shows "parsed_to pre k (s @ [(name, v, False)]) (ini_line st (name @ '' = '' @ v))"
proof -
  have e: "emplace k ([], False) (pre @ [(k, s, False)]) = (False, pre @ [(k, s, False)])"
    unfolding emplace_def by simp
  have a: "IniData_add k (Some (name, Some v)) \<lparr>ini_sections = pre @ [(k, s, False)], ini_read_only = False\<rparr> =
           (True, \<lparr>ini_sections = pre @ [(k, s @ [(name, v, False)], False)], ini_read_only = False\<rparr>)"
    unfolding IniData_add_def IniSection_add_def
    by (simp add: e map_of_last [OF k] set_value_last [OF k] emplace_last [OF n] del: map_of_append)
  have n0: "i_lineno st \<noteq> 0" using st unfolding parsed_to_def by simp
  show ?thesis using st a unfolding parsed_to_def ini_line_entry [OF kv n0] by (simp add: handler_def)
qed

lemma parsed_section:
  assumes st: "parsed_to pre k s st" and kv: "k \<notin> fst ` set pre" and w: "wf_section (s @ vs)"
  shows "parsed_to pre k (s @ vs) (foldl ini_line st (IniSection_write vs))"
  using st w
proof (induction vs arbitrary: s st)
  case Nil
  then show ?case by (simp add: IniSection_write_def)
next
  case (Cons x vs)
  obtain n v b where x: "x = (n, v, b)" by (cases x)
  have b: "\<not> b" "value_entry n v" "sorted_wrt (<) (map fst s @ [n])"
    using Cons.prems(2) unfolding wf_section_def x by (auto simp: sorted_wrt_append)
  have "parsed_to pre k (s @ [x]) (ini_line st (n @ '' = '' @ v))"
    using parsed_entry [OF Cons.prems(1) kv b(3,2)] b(1) unfolding x by simp
  from Cons.IH [OF this] Cons.prems(2) show ?case by (simp add: IniSection_write_def x)
qed

lemma parsed_sections:
  assumes "wf_ini \<lparr>ini_sections = pre @ ss, ini_read_only = False\<rparr>" "i_error st = 0"
    "i_data st = \<lparr>ini_sections = pre, ini_read_only = False\<rparr>"
  shows "i_error (foldl ini_line st (IniData_write \<lparr>ini_sections = ss, ini_read_only = r\<rparr>)) = 0 \<and>
         i_data (foldl ini_line st (IniData_write \<lparr>ini_sections = ss, ini_read_only = r\<rparr>)) =
           \<lparr>ini_sections = pre @ ss, ini_read_only = False\<rparr>"
  using assms
proof (induction ss arbitrary: pre st)
  case Nil
  then show ?case by (simp add: IniData_write_def)
next
  case (Cons x ss)
  obtain k s b where x: "x = (k, s, b)" by (cases x)
  have w: "section_name k" "wf_section s" "\<not> b" "sorted_wrt (<) (map fst pre @ [k])"
    using Cons.prems(1) unfolding wf_ini_def x by (auto simp: sorted_wrt_append)
  have k: "k \<notin> fst ` set pre" by (rule sorted_last_notin [OF w(4)])
  let ?st = "ini_line st (''['' @ k @ '']'')"
  have "parsed_to pre k [] ?st"
    using Cons.prems(2,3) emplace_last [OF w(4)]
    unfolding parsed_to_def ini_line_section [OF w(1)] by (simp add: handler_def IniData_add_def)
  from parsed_section [OF this k, of s] have p: "parsed_to pre k s (foldl ini_line ?st (IniSection_write s))"
    using w(2) by simp
  have "wf_ini \<lparr>ini_sections = (pre @ [x]) @ ss, ini_read_only = False\<rparr>" using Cons.prems(1) by simp
  from Cons.IH [OF this, of "foldl ini_line ?st (IniSection_write s)"] p w(3)
  show ?case unfolding parsed_to_def by (simp add: IniData_write_def x)
qed

lemma written_lines_fit:
  assumes "wf_ini d"
  shows "list_all fits (IniData_write d)"
proof -
  have "fits l" if x: "(k, s, b) \<in> set (ini_sections d)" and l: "l \<in> set ((''['' @ k @ '']'') # IniSection_write s)" for k s b l
  proof -
    have w: "section_name k" "wf_section s" using assms x unfolding wf_ini_def by (auto simp: list_all_iff)
    then have f: "fits (n @ '' = '' @ v)" if "(n, v, c) \<in> set s" for n v c
      using that unfolding fits_def wf_section_def value_entry_def one_line_def by (auto simp: list_all_iff)
    have "fits (''['' @ k @ '']'')" using w(1) unfolding fits_def section_name_def one_line_def by simp
    then show ?thesis using l f unfolding IniSection_write_def by auto
  qed
  then show ?thesis unfolding IniData_write_def list_all_iff by fastforce
qed

text \<open>
  \<^bold>\<open>C19\<close>: what \<open>IniData::write\<close> writes, the parser reads back: for every table with names and values that
  fit the format (no comment in them, no white space at their ends, no line longer than the buffer of
  the parser), parsing the file that is written gives no error and the same sections with the same
  values in the same order.
\<close>

theorem ini_write_parse:
  assumes "wf_ini d"
  shows "IniData_parse (ini_file (IniData_write d)) IniData_new = (0, d\<lparr>ini_read_only := True\<rparr>)"
proof -
  obtain ss r where d: "d = \<lparr>ini_sections = ss, ini_read_only = r\<rparr>" by (cases d)
  have l: "ini_lines (ini_file (IniData_write d)) = IniData_write d"
    using ini_lines_append [OF written_lines_fit [OF assms], of "[]"] by simp
  have w: "wf_ini \<lparr>ini_sections = [] @ ss, ini_read_only = False\<rparr>" using assms unfolding d wf_ini_def by simp
  let ?st = "\<lparr>i_section = [], i_prev_name = [], i_lineno = 0, i_error = 0, i_data = IniData_new\<rparr>"
  have "i_error (foldl ini_line ?st (IniData_write d)) = 0 \<and>
        i_data (foldl ini_line ?st (IniData_write d)) = \<lparr>ini_sections = ss, ini_read_only = False\<rparr>"
    using parsed_sections [OF w, of ?st r] unfolding d IniData_new_def by simp
  then show ?thesis unfolding IniData_parse_def ini_parse_stream_def l Let_def by (simp add: d)
qed

definition sample_ini :: IniData where
  "sample_ini =
     \<lparr>ini_sections =
        [(''A.tcp'', [(''server'', ''knxd_tcp'', False), (''use'', ''main'', False)], False),
         (''main'', [(''addr'', ''0.0.1'', False), (''connections'', ''A.tcp'', False)], False)],
      ini_read_only = False\<rparr>"

lemma sample_ini_wf: "wf_ini sample_ini"
  by code_simp

theorem ini_write_parse_witness:
  "wf_ini sample_ini \<and>
   IniData_parse (ini_file (IniData_write sample_ini)) IniData_new = (0, sample_ini\<lparr>ini_read_only := True\<rparr>)"
  using sample_ini_wf ini_write_parse [of sample_ini] by simp

text \<open>
  A line of 300 characters or more ends the configuration without an error: after any lines
  that fit, it and everything after it have no effect at all, so the daemon starts with the part of the
  file before it.
\<close>

theorem ini_long_line_ends_file:
  assumes "list_all fits ls" "newline \<notin> set l" "length l \<ge> 300"
  shows "IniData_parse (ini_file ls @ l @ r) d = IniData_parse (ini_file ls) d"
  using assms ini_lines_append [of ls "l @ r"] ini_lines_append [of ls "[]"] ini_lines_too_long [of l r]
  unfolding IniData_parse_def ini_parse_stream_def by simp

theorem ini_long_line_ends_file_witness:
  "IniData_parse (ini_file [''[main]'', ''addr=0.0.1''] @ replicate 300 (CHR ''x'') @ newline # ''['') IniData_new =
   IniData_parse (ini_file [''[main]'', ''addr=0.0.1'']) IniData_new"
  by (rule ini_long_line_ends_file) (auto simp: fits_def)

section \<open>Continuation lines\<close>

lemma ini_fail_error [simp]: "i_lineno s \<noteq> 0 \<Longrightarrow> i_error (ini_fail s) \<noteq> 0" "i_error s \<noteq> 0 \<Longrightarrow> ini_fail s = s"
  unfolding ini_fail_def by auto

lemma handler_keeps_error [simp]: "i_error s \<noteq> 0 \<Longrightarrow> i_error (handler nv s) = i_error s"
  unfolding handler_def by (auto simp: Let_def split: prod.splits)

lemma ini_line_keeps_error: "i_error s \<noteq> 0 \<Longrightarrow> i_error (ini_line s l) = i_error s"
  unfolding ini_line_def section_line_def name_line_def by (simp add: Let_def split: prod.split)

lemma ini_lines_keep_error: "i_error s \<noteq> 0 \<Longrightarrow> i_error (foldl ini_line s ls) \<noteq> 0"
  by (induction ls arbitrary: s) (simp_all add: ini_line_keeps_error)

lemma handler_lineno [simp]: "i_lineno (handler nv s) = i_lineno s"
  unfolding handler_def ini_fail_def by (simp add: Let_def split: prod.split)

lemma ini_fail_lineno [simp]: "i_lineno (ini_fail s) = i_lineno s"
  unfolding ini_fail_def by simp

lemma ini_line_lineno [simp]: "i_lineno (ini_line s l) = i_lineno s + 1"
  unfolding ini_line_def section_line_def name_line_def by (simp add: Let_def split: prod.split)

lemma ini_lines_lineno: "i_lineno (foldl ini_line s ls) = i_lineno s + length ls"
  by (induction ls arbitrary: s) simp_all

lemma map_of_set_value: "map_of (set_value k v m) j = (if j = k \<and> k \<in> fst ` set m then Some v else map_of m j)"
  unfolding set_value_def
proof (induction m)
  case (Cons x m)
  then show ?case by (cases x; cases "j = k") auto
qed simp

lemma keys_insort [simp]: "fst ` set (insort_key fst x m) = insert (fst x) (fst ` set m)"
  by (induction m) auto

lemma emplace_has: "k \<in> fst ` set (snd (emplace k v m))"
  unfolding emplace_def by simp

text \<open>An entry is there after it was added, and cannot be added again.\<close>

definition has_entry :: "string \<Rightarrow> string \<Rightarrow> IniData \<Rightarrow> bool" where
  "has_entry sec n d \<longleftrightarrow> (\<exists>s b. map_of (ini_sections d) sec = Some (s, b) \<and> n \<in> fst ` set s)"

lemma IniData_add_has: "has_entry sec n (snd (IniData_add sec (Some (n, v)) d))"
proof -
  obtain isnew m where e: "emplace sec ([], False) (ini_sections d) = (isnew, m)" by fastforce
  have k: "sec \<in> fst ` set m" using emplace_has [of sec "([], False)" "ini_sections d"] e by simp
  then obtain s b where m: "map_of m sec = Some (s, b)" by (cases "map_of m sec") (auto simp: map_of_eq_None_iff)
  obtain ok s1 where a: "IniSection_add n v s = (ok, s1)" by fastforce
  have "n \<in> fst ` set s1" using a unfolding IniSection_add_def emplace_def by (auto split: if_splits)
  then show ?thesis unfolding has_entry_def IniData_add_def e by (simp add: m a map_of_set_value k)
qed

lemma IniData_add_twice: "has_entry sec n d \<Longrightarrow> \<not> fst (IniData_add sec (Some (n, v)) d)"
  unfolding has_entry_def IniData_add_def IniSection_add_def emplace_def
  by (auto simp: rev_image_eqI dest: map_of_SomeD split: option.splits)

lemma ini_line_continued:
  assumes sp: "sp \<noteq> []" "list_all isspace sp" and w: "w \<noteq> []" "trimmed w" "one_line (sp @ w)" "hd w \<notin> set '';#''"
    and s: "i_lineno s \<noteq> 0" "i_prev_name s \<noteq> []" "has_entry (i_section s) (i_prev_name s) (i_data s)"
  shows "i_error (ini_line s (sp @ w)) \<noteq> 0"
proof -
  have t: "\<not> isspace (last w)" "\<not> isspace (hd w)" using w(1,2) unfolding trimmed_def by auto
  have r: "rstrip (sp @ w) = sp @ w" by (rule rstrip_last) (use t w(1) in simp)
  have l: "lskip (sp @ w) = w"
    using sp(2) t(2) w(1) unfolding lskip_def by (induction sp) (auto simp: neq_Nil_conv)
  have b: "skip_BOM (i_lineno (s\<lparr>i_lineno := i_lineno s + 1\<rparr>)) x = x" for x using s(1) by simp
  have "ini_line s (sp @ w) = handler (Some (i_prev_name s, Some w)) (s\<lparr>i_lineno := i_lineno s + 1\<rparr>)"
    unfolding ini_line_def Let_def one_line_cstring [OF w(3)] b r l using w(1,4) sp(1) s(2) by simp
  then show ?thesis
    using IniData_add_twice [OF s(3), of "Some w"] by (auto simp: handler_def ini_fail_def Let_def split: prod.splits)
qed

lemma handler_fields [simp]: "i_section (handler nv s) = i_section s" "i_prev_name (handler nv s) = i_prev_name s"
  "i_data (handler nv s) = snd (IniData_add (i_section s) nv (i_data s))"
  unfolding handler_def ini_fail_def by (simp_all add: Let_def split: prod.split)

text \<open>
  Continuation lines cannot be used: whatever the file has before and after, a value followed
  by a line that begins with white space (how a value is continued, and the parser is built with
  support for it) makes the whole parse fail, because the table refuses a second value for the name.
\<close>

theorem ini_continuation_is_error:
  assumes ls: "list_all fits ls" "ls \<noteq> []" and k: "value_entry k v" "length k \<le> 49"
    and sp: "sp \<noteq> []" "list_all isspace sp" and w: "w \<noteq> []" "trimmed w" "one_line (sp @ w)" "hd w \<notin> set '';#''"
    and l: "length (sp @ w) \<le> 299"
  shows "fst (IniData_parse (ini_file (ls @ [k @ '' = '' @ v, sp @ w]) @ r) d) \<noteq> 0"
proof -
  have f: "list_all fits (ls @ [k @ '' = '' @ v, sp @ w])"
    using ls(1) k w(3) l unfolding fits_def value_entry_def one_line_def by auto
  let ?s0 = "foldl ini_line \<lparr>i_section = [], i_prev_name = [], i_lineno = 0, i_error = 0, i_data = d\<rparr> ls"
  let ?s1 = "ini_line ?s0 (k @ '' = '' @ v)"
  have n: "i_lineno ?s0 \<noteq> 0" using ls(2) by (simp add: ini_lines_lineno)
  have k': "strncpy0 k = k" "k \<noteq> []" using k unfolding strncpy0_def value_entry_def by auto
  have "i_error (ini_line ?s1 (sp @ w)) \<noteq> 0"
    by (rule ini_line_continued [OF sp w]) (simp_all add: ini_line_entry [OF k(1) n, simplified] k' IniData_add_has)
  from ini_lines_keep_error [OF this] show ?thesis
    unfolding IniData_parse_def ini_parse_stream_def Let_def ini_lines_append [OF f] by simp
qed

lemma sample_continuation:
  "list_all fits [''[main]'']" "value_entry ''connections'' ''tcp,''" "list_all isspace ''  ''" "trimmed ''usb''"
  "one_line (''  '' @ ''usb'')"
  by code_simp+

theorem ini_continuation_is_error_witness:
  "fst (IniData_parse (ini_file ([''[main]''] @ [''connections'' @ '' = '' @ ''tcp,'', ''  '' @ ''usb'']) @ []) IniData_new) \<noteq> 0"
  by (rule ini_continuation_is_error [OF sample_continuation(1) _ sample_continuation(2) _ _ sample_continuation(3) _
      sample_continuation(4,5)]) simp_all

section \<open>Looking up a value\<close>

text \<open>Where the look-up of \<open>name\<close> goes from a section.\<close>

definition uses :: "IniData \<Rightarrow> string \<Rightarrow> string \<Rightarrow> string option" where
  "uses d name sec =
     (case map_of (ini_sections d) sec of
        None \<Rightarrow> None
      | Some (s, seen) \<Rightarrow> (case map_of s name of Some _ \<Rightarrow> None | None \<Rightarrow> map_option fst (map_of s ''use'')))"

fun chain_ends :: "(string \<Rightarrow> string option) \<Rightarrow> nat \<Rightarrow> string \<Rightarrow> bool" where
  "chain_ends u 0 s = False"
| "chain_ends u (Suc n) s = (case u s of None \<Rightarrow> True | Some t \<Rightarrow> chain_ends u n t)"

lemma map_of_insort:
  "k \<notin> fst ` set m \<Longrightarrow> map_of (insort_key fst (k, v) m) j = (if j = k then Some v else map_of m j)"
  by (induction m) auto

lemma map_of_emplace:
  "map_of (snd (emplace k v m)) j = (if j = k \<and> k \<notin> fst ` set m then Some v else map_of m j)"
  unfolding emplace_def by (auto simp: map_of_insort)

lemma uses_index: "uses (snd (IniData_index t d)) name = uses d name"
proof
  fix s
  show "uses (snd (IniData_index t d)) name s = uses d name s"
    unfolding uses_def IniData_index_def Let_def
    using emplace_has [of t "([], False)" "ini_sections d"]
    by (auto simp: map_of_set_value map_of_emplace map_of_eq_None_iff [THEN iffD2] split: option.split)
qed

lemma value_chain: "IniSection_value n sec name def0 d \<noteq> None \<longleftrightarrow> chain_ends (uses d name) n sec"
proof (induction n arbitrary: sec d)
  case 0
  show ?case by simp
next
  case (Suc n)
  show ?case using Suc [of _ "snd (IniData_index _ d)"] unfolding uses_index
    by (auto simp: uses_def split: option.split)
qed

lemma chain_ends_mono: "chain_ends u n s \<Longrightarrow> n \<le> m \<Longrightarrow> chain_ends u m s"
proof (induction u n s arbitrary: m rule: chain_ends.induct)
  case (2 u n s)
  then show ?case by (cases m) (auto split: option.splits)
qed simp

text \<open>Every step of a chain that ends is from another section.\<close>

lemma chain_visits:
  assumes "finite (dom u)"
  shows "chain_ends u (Suc n) s \<Longrightarrow> \<not> chain_ends u n s \<Longrightarrow> n \<le> card {x \<in> dom u. chain_ends u (Suc n) x}"
proof (induction n arbitrary: s)
  case (Suc n)
  from Suc.prems obtain t where t: "u s = Some t" "chain_ends u (Suc n) t" "\<not> chain_ends u n t"
    by (auto split: option.splits)
  let ?A = "\<lambda>k. {x \<in> dom u. chain_ends u k x}"
  have "?A (Suc n) \<subseteq> ?A (Suc (Suc n))"
  proof (intro subsetI CollectI conjI; elim CollectE conjE)
    fix x
    show "chain_ends u (Suc (Suc n)) x" if "chain_ends u (Suc n) x" using that by (rule chain_ends_mono) simp
  qed assumption
  moreover have "s \<in> ?A (Suc (Suc n))" "s \<notin> ?A (Suc n)" using Suc.prems t(1) by (simp_all del: chain_ends.simps add: domI)
  ultimately have "?A (Suc n) \<subset> ?A (Suc (Suc n))" by blast
  then have "card (?A (Suc n)) < card (?A (Suc (Suc n)))"
    by (rule psubset_card_mono [rotated]) (use assms in auto)
  with Suc.IH [OF t(2,3)] show ?case by linarith
qed simp

lemma chain_bound:
  assumes f: "finite (dom u)" and e: "chain_ends u n s"
  shows "chain_ends u (Suc (card (dom u))) s"
proof -
  define k where "k = (LEAST k. chain_ends u k s)"
  have k: "chain_ends u k s" unfolding k_def by (rule LeastI) (rule e)
  then obtain j where j: "k = Suc j" by (cases k) auto
  have "\<not> chain_ends u j s" using not_less_Least [of j "\<lambda>k. chain_ends u k s"] j unfolding k_def by simp
  then have "j \<le> card {x \<in> dom u. chain_ends u k x}" using chain_visits [OF f, of j s] k unfolding j by blast
  also have "\<dots> \<le> card (dom u)" by (rule card_mono) (use f in auto)
  finally have "k \<le> Suc (card (dom u))" using j by simp
  then show ?thesis by (rule chain_ends_mono [OF k])
qed

lemma dom_uses: "dom (uses d name) \<subseteq> fst ` set (ini_sections d)"
  unfolding uses_def by (force split: option.splits dest: map_of_SomeD)


lemma chain_cycle: "u s = Some s \<Longrightarrow> \<not> chain_ends u n s"
  by (induction n) simp_all

lemma ini_use_cycle: "uses d name sec = Some sec \<Longrightarrow> IniSection_value n sec name def0 d = None"
  using chain_cycle [of "uses d name"] value_chain [of n sec name def0 d] by blast

end
