(* ===== verification/Eibnetip6.thy ===== *)
theory Eibnetip6
  imports Eibnetip
begin

text \<open>
  The IPv6 copy of the KNXnet/IP messages, \<^verbatim>\<open>src/src/libserver/eibnetip6.cpp\<close>: the packet header, the host
  information block, which has 18 bytes here, and the messages of the connection management that carry
  it.  The parsers still cut blocks of 8 bytes out of the message, so reading a block can leave its
  buffer: that is a result of its own, \<open>Overread\<close>.
\<close>

section \<open>Packets and addresses\<close>

text \<open>The 16 bytes of the address are in the order of \<open>s6_addr\<close>; the port is in host byte order.\<close>

record sockaddr_in6 =
  s6_addr :: "byte list"
  sin6_port :: u16

definition sockaddr6_zero :: sockaddr_in6 where
  "sockaddr6_zero = \<lparr>s6_addr = replicate 16 0, sin6_port = 0\<rparr>"

record EIBNet6IPPacket =
  ip6_service :: u16
  ip6_data :: carray
  ip6_src :: sockaddr_in6

definition ip6_packet :: "u16 \<Rightarrow> carray \<Rightarrow> EIBNet6IPPacket" where
  "ip6_packet s d = \<lparr>ip6_service = s, ip6_data = d, ip6_src = sockaddr6_zero\<rparr>"

definition EIBNet6IP_fromPacket :: "carray \<Rightarrow> sockaddr_in6 \<Rightarrow> EIBNet6IPPacket option" where
  "EIBNet6IP_fromPacket c src =
     (if length c < 6 then None
      else if c ! 0 \<noteq> 0x6 \<or> c ! 1 \<noteq> 0x10 then None
      else let len = unat (be16 (c ! 4) (c ! 5))
      in if len \<noteq> length c then None
      else Some \<lparr>ip6_service = be16 (c ! 2) (c ! 3), ip6_data = slice 6 (len - 6) c, ip6_src = src\<rparr>)"

definition EIBNet6IP_ToPacket :: "EIBNet6IPPacket \<Rightarrow> carray" where
  "EIBNet6IP_ToPacket p =
     (let n = of_nat (length (ip6_data p) + 6)
      in [0x06, 0x10, hi8 (ip6_service p), lo8 (ip6_service p), hi8 n, lo8 n] @ ip6_data p)"

definition IPtoEIBNetIP6 :: "sockaddr_in6 \<Rightarrow> bool \<Rightarrow> carray" where
  "IPtoEIBNetIP6 a nat_mode =
     (if nat_mode then [0x08, 0x01] @ replicate 16 0
      else ([0x08, 0x01] @ map (\<lambda>i. s6_addr a ! (15 - i)) [0..<16])
             [6 := hi8 (sin6_port a), 7 := lo8 (sin6_port a)])"

datatype 'a block_read = Readable 'a | Refused | Overread

fun and_then :: "'a block_read \<Rightarrow> ('a \<Rightarrow> 'b block_read) \<Rightarrow> 'b block_read" where
  "and_then (Readable x) f = f x"
| "and_then Refused f = Refused"
| "and_then Overread f = Overread"

definition EIBnettoIP6 :: "carray \<Rightarrow> sockaddr_in6 \<Rightarrow> bool \<Rightarrow> (sockaddr_in6 \<times> bool) block_read" where
  "EIBnettoIP6 buf src nat_mode =
     (if length buf < 2 then Overread
      else if buf ! 0 \<noteq> 0x8 \<or> buf ! 1 \<noteq> 0x1 then Refused
      else if length buf < 18 then Overread
      else
        let ip = map (\<lambda>i. buf ! (2 + (15 - i))) [0..<16];
            calc = foldl (\<lambda>c i. or c (buf ! (2 + i))) 0 [0..<16];
            port = be16 (buf ! 6) (buf ! 7);
            p = (if port = 0 then sin6_port src else port)
        in if calc = 0 then Readable (\<lparr>s6_addr = s6_addr src, sin6_port = p\<rparr>, True)
           else Readable (\<lparr>s6_addr = ip, sin6_port = p\<rparr>, nat_mode))"

section \<open>Connection management\<close>

record EIBnet6_ConnectRequest =
  creq6_caddr :: sockaddr_in6
  creq6_daddr :: sockaddr_in6
  creq6_CRI :: carray
  creq6_nat :: bool

definition ConnectRequest6_ToPacket :: "EIBnet6_ConnectRequest \<Rightarrow> EIBNet6IPPacket" where
  "ConnectRequest6_ToPacket r = ip6_packet CONNECTION_REQUEST
     (IPtoEIBNetIP6 (creq6_caddr r) (creq6_nat r) @ IPtoEIBNetIP6 (creq6_daddr r) (creq6_nat r) @
      [of_nat (length (creq6_CRI r)) + 1] @ creq6_CRI r)"

definition parseEIBnet6_ConnectRequest :: "EIBNet6IPPacket \<Rightarrow> EIBnet6_ConnectRequest block_read" where
  "parseEIBnet6_ConnectRequest p =
     (if ip6_service p \<noteq> CONNECTION_REQUEST then Refused
      else if length (ip6_data p) < 18 then Refused
      else and_then (EIBnettoIP6 (slice 0 8 (ip6_data p)) (ip6_src p) False) (\<lambda>(ca, n1).
           and_then (EIBnettoIP6 (slice 8 8 (ip6_data p)) (ip6_src p) n1) (\<lambda>(da, n2).
             if length (ip6_data p) - 16 \<noteq> unat (ip6_data p ! 16) then Refused
             else Readable \<lparr>creq6_caddr = ca, creq6_daddr = da,
                    creq6_CRI = slice 17 (length (ip6_data p) - 17) (ip6_data p), creq6_nat = n2\<rparr>)))"

record EIBnet6_ConnectResponse =
  cres6_channel :: byte
  cres6_status :: byte
  cres6_daddr :: sockaddr_in6
  cres6_nat :: bool
  cres6_CRD :: carray

definition ConnectResponse6_ToPacket :: "EIBnet6_ConnectResponse \<Rightarrow> EIBNet6IPPacket" where
  "ConnectResponse6_ToPacket r = ip6_packet CONNECTION_RESPONSE
     ([cres6_channel r, cres6_status r] @
      (if cres6_status r = 0
       then IPtoEIBNetIP6 (cres6_daddr r) (cres6_nat r) @ [of_nat (length (cres6_CRD r)) + 1] @ cres6_CRD r
       else []))"

definition parseEIBnet6_ConnectResponse :: "EIBNet6IPPacket \<Rightarrow> EIBnet6_ConnectResponse block_read" where
  "parseEIBnet6_ConnectResponse p =
     (if ip6_service p \<noteq> CONNECTION_RESPONSE then Refused
      else if length (ip6_data p) < 2 then Refused
      else if ip6_data p ! 1 \<noteq> 0 then
        (if length (ip6_data p) \<noteq> 2 then Refused
         else Readable \<lparr>cres6_channel = ip6_data p ! 0, cres6_status = ip6_data p ! 1,
                cres6_daddr = sockaddr6_zero, cres6_nat = False, cres6_CRD = []\<rparr>)
      else if length (ip6_data p) < 12 then Refused
      else and_then (EIBnettoIP6 (slice 2 8 (ip6_data p)) (ip6_src p) False) (\<lambda>(da, n).
          if length (ip6_data p) - 10 \<noteq> unat (ip6_data p ! 10) then Refused
          else Readable \<lparr>cres6_channel = ip6_data p ! 0, cres6_status = ip6_data p ! 1, cres6_daddr = da,
                 cres6_nat = n, cres6_CRD = slice 11 (length (ip6_data p) - 11) (ip6_data p)\<rparr>))"

record EIBnet6_ConnectionStateRequest =
  csreq6_caddr :: sockaddr_in6
  csreq6_channel :: byte
  csreq6_nat :: bool

definition ConnectionStateRequest6_ToPacket :: "EIBnet6_ConnectionStateRequest \<Rightarrow> EIBNet6IPPacket" where
  "ConnectionStateRequest6_ToPacket r = ip6_packet CONNECTIONSTATE_REQUEST
     ([csreq6_channel r, 0] @ IPtoEIBNetIP6 (csreq6_caddr r) (csreq6_nat r))"

definition parseEIBnet6_ConnectionStateRequest :: "EIBNet6IPPacket \<Rightarrow> EIBnet6_ConnectionStateRequest block_read" where
  "parseEIBnet6_ConnectionStateRequest p =
     (if ip6_service p \<noteq> CONNECTIONSTATE_REQUEST then Refused
      else if length (ip6_data p) \<noteq> 10 then Refused
      else and_then (EIBnettoIP6 (slice 2 8 (ip6_data p)) (ip6_src p) False) (\<lambda>(ca, n).
          Readable \<lparr>csreq6_caddr = ca, csreq6_channel = ip6_data p ! 0, csreq6_nat = n\<rparr>))"

record EIBnet6_DisconnectRequest =
  dreq6_caddr :: sockaddr_in6
  dreq6_channel :: byte
  dreq6_nat :: bool

definition DisconnectRequest6_ToPacket :: "EIBnet6_DisconnectRequest \<Rightarrow> EIBNet6IPPacket" where
  "DisconnectRequest6_ToPacket r = ip6_packet DISCONNECT_REQUEST
     ([dreq6_channel r, 0] @ IPtoEIBNetIP6 (dreq6_caddr r) (dreq6_nat r))"

definition parseEIBnet6_DisconnectRequest :: "EIBNet6IPPacket \<Rightarrow> EIBnet6_DisconnectRequest block_read" where
  "parseEIBnet6_DisconnectRequest p =
     (if ip6_service p \<noteq> DISCONNECT_REQUEST then Refused
      else if length (ip6_data p) \<noteq> 10 then Refused
      else and_then (EIBnettoIP6 (slice 2 8 (ip6_data p)) (ip6_src p) False) (\<lambda>(ca, n).
          Readable \<lparr>dreq6_caddr = ca, dreq6_channel = ip6_data p ! 0, dreq6_nat = n\<rparr>))"

section \<open>What the blocks lose\<close>

lemma short_block: "length buf = 8 \<Longrightarrow> EIBnettoIP6 buf src n \<noteq> Readable x"
  unfolding EIBnettoIP6_def by simp

lemma and_then_failed: "(\<And>x. r \<noteq> Readable x) \<Longrightarrow> and_then r f \<noteq> Readable y"
  by (cases r) auto

lemma block6_length [simp]: "length (IPtoEIBNetIP6 a n) = 18"
  unfolding IPtoEIBNetIP6_def by simp

lemma block6_head: "IPtoEIBNetIP6 a n ! 0 = 0x08" "IPtoEIBNetIP6 a n ! Suc 0 = 0x01"
  unfolding IPtoEIBNetIP6_def by auto

lemma parse6_ConnectRequest_fails: "parseEIBnet6_ConnectRequest p \<noteq> Readable r"
  unfolding parseEIBnet6_ConnectRequest_def by (simp add: and_then_failed short_block)

lemma parse6_built_ConnectRequest: "parseEIBnet6_ConnectRequest (ConnectRequest6_ToPacket c) = Overread"
proof -
  let ?b = "IPtoEIBNetIP6 (creq6_caddr c) (creq6_nat c)"
  have "EIBnettoIP6 (take 8 (?b @ xs)) src n = Overread" for xs src n
    unfolding EIBnettoIP6_def using block6_head [of "creq6_caddr c" "creq6_nat c"] by (simp add: nth_append)
  then show ?thesis
    unfolding parseEIBnet6_ConnectRequest_def ConnectRequest6_ToPacket_def ip6_packet_def by simp
qed


text \<open>
  A whole block loses two bytes of the address: the port is written over bytes 10 and 11 of \<open>s6_addr\<close>,
  and is read from there.
\<close>

lemma foldl_or_zero: "foldl (\<lambda>c i. or c (f i)) (a :: byte) xs = 0 \<longleftrightarrow> a = 0 \<and> (\<forall>i \<in> set xs. f i = 0)"
  by (induction xs arbitrary: a) (auto simp: or_eq_0_iff)

lemma eibnet6_block_overwrites_address:
  assumes a: "length (s6_addr a) = 16" and p: "sin6_port a \<noteq> 0"
  shows "EIBnettoIP6 (IPtoEIBNetIP6 a False) src n =
         Readable (a\<lparr>s6_addr := (s6_addr a)[11 := hi8 (sin6_port a), 10 := lo8 (sin6_port a)]\<rparr>, n)"
proof -
  let ?b = "IPtoEIBNetIP6 a False"
  have b: "?b ! 6 = hi8 (sin6_port a)" "?b ! 7 = lo8 (sin6_port a)" unfolding IPtoEIBNetIP6_def by auto
  have "map (\<lambda>i. ?b ! (2 + (15 - i))) [0..<16] = (s6_addr a)[11 := hi8 (sin6_port a), 10 := lo8 (sin6_port a)]"
    using a unfolding IPtoEIBNetIP6_def by (intro nth_equalityI) (auto simp: nth_list_update nth_append)
  moreover have "foldl (\<lambda>c i. or c (?b ! (2 + i))) 0 [0..<16] \<noteq> 0"
  proof
    assume "foldl (\<lambda>c i. or c (?b ! (2 + i))) 0 [0..<16] = 0"
    then have z: "\<forall>i \<in> set [0..<16]. ?b ! (2 + i) = 0" unfolding foldl_or_zero by (rule conjunct2)
    have "?b ! (2 + 4) = 0" "?b ! (2 + 5) = 0" by (rule bspec [OF z], simp)+
    then have "be16 (?b ! 6) (?b ! 7) = be16 0 0" by simp
    then have "sin6_port a = be16 0 0" unfolding b be16_hi8_lo8 .
    then show False using p by (simp add: be16_def)
  qed
  ultimately show ?thesis
    using p block6_head [of a False] unfolding EIBnettoIP6_def Let_def by (simp add: b)
qed

end
