(* ===== verification/Usb.thy ===== *)
theory Usb
  imports Prelude
begin

text \<open>
  USB interfaces: \<open>USBDriver\<close>, which finds out the protocol version of the device, and
  \<open>USBConverterInterface\<close>, which packs EMI frames into HID reports (\<^verbatim>\<open>src/src/libserver/eibusb.cpp\<close>), and
  \<open>USBLowLevelDriver\<close>, which finds the device and transfers the reports (\<^verbatim>\<open>usblowlevel.cpp\<close>).  What libusb
  knows about the devices, and the results of its calls, are arguments.
\<close>

unbundle bit_operations_syntax

section \<open>HID reports\<close>

text \<open>The enumeration \<open>EMIVer\<close> of \<^verbatim>\<open>emi_common.h\<close> with its numbers.\<close>

datatype EMIVersion = V_ERROR | V_EMI1 | V_EMI2 | V_CEMI | V_Raw | V_Unknown | V_Discovery | V_TIMEOUT

fun ver_no :: "EMIVersion \<Rightarrow> nat" where
  "ver_no V_ERROR = 0"
| "ver_no V_EMI1 = 1"
| "ver_no V_EMI2 = 2"
| "ver_no V_CEMI = 3"
| "ver_no V_Raw = 4"
| "ver_no V_Unknown = 5"
| "ver_no V_Discovery = 6"
| "ver_no V_TIMEOUT = 7"

text \<open>What \<open>USBConverterInterface::send_Data\<close> gives to the driver below.\<close>

definition USBConverter_send_Data :: "EMIVersion \<Rightarrow> carray \<Rightarrow> carray list" where
  "USBConverter_send_Data version l =
     (if version = V_Raw then [l]
      else if ver_no version < 1 \<or> ver_no version > 3 then []
      else
        let l1 = (if length l + 11 > 64 then 64 - 11 else length l)
        in [[1, 0x13, of_nat (l1 + 8), 0x0, 0x08, 0x00, of_nat l1, 0x01, of_nat (ver_no version), 0, 0] @
            take l1 l @ replicate (64 - 11 - l1) 0])"

text \<open>What \<open>USBConverterInterface::recv_Data\<close> passes up.\<close>

definition USBConverter_recv_Data :: "EMIVersion \<Rightarrow> carray \<Rightarrow> carray list" where
  "USBConverter_recv_Data version res =
     (if version = V_Raw then [res]
      else if length res \<noteq> 64 \<or> res ! 0 \<noteq> 0x01 \<or> res ! 1 AND 0x0f \<noteq> 3 \<or> unat (res ! 2) > 64 - 8 \<or> res ! 3 \<noteq> 0 \<or>
              res ! 4 \<noteq> 8 \<or> res ! 5 \<noteq> 0 \<or> unat (res ! 6) + 11 > 64 \<or> res ! 7 \<noteq> 1 then []
      else if (version = V_EMI1 \<and> res ! 8 = 1) \<or> (version = V_EMI2 \<and> res ! 8 = 2) \<or> (version = V_CEMI \<and> res ! 8 = 3)
      then [slice 11 (unat (res ! 6)) res]
      else [])"

section \<open>Discovery of the protocol version\<close>

text \<open>
  \<open>ud_emi\<close> is the EMI driver that \<open>make_EMI\<close> has put between this driver and the converter.  A timer flag
  is set while the timer runs; \<open>ud_is_local\<close> is set while the inquiry has not been sent completely.
\<close>

record USBDriver =
  ud_version :: EMIVersion
  ud_cnt :: nat
  ud_timeout :: bool
  ud_wait_make :: bool
  ud_is_local :: bool
  ud_emi :: "EMIVersion option"

definition USBDriver_new :: "EMIVersion \<Rightarrow> USBDriver" where
  "USBDriver_new version =
     \<lparr>ud_version = version, ud_cnt = 0, ud_timeout = False, ud_wait_make = False, ud_is_local = False, ud_emi = None\<rparr>"

text \<open>
  The calls: the inquiry, a report to the converter; \<open>send_Init\<close> on the converter after it was told the
  version; \<open>started\<close> on the driver below; and those on the link.
\<close>

datatype ud_call =
    UD_send_Data carray
  | UD_send_Init EMIVersion
  | UD_iface_started
  | UD_started
  | UD_stopped
  | UD_errored
  | UD_send_Next
  | UD_abort

type_synonym ud_result = "USBDriver \<times> ud_call list"

definition usb_ask :: carray where
  "usb_ask = [0x01, 0x13, 0x09, 0x00, 0x08, 0x00, 0x01, 0x0f, 0x01, 0x00, 0x00, 0x01] @ replicate 52 0"

definition usb_init :: "EMIVersion \<Rightarrow> carray" where
  "usb_init version =
     [0x01, 0x13, 0x0a, 0x00, 0x08, 0x00, 0x02, 0x0f, 0x03, 0x00, 0x00, 0x05, of_nat (ver_no version)] @ replicate 51 0"

definition USBDriver_xmit :: "USBDriver \<Rightarrow> ud_result" where
  "USBDriver_xmit s =
     (if ud_is_local s then (s\<lparr>ud_timeout := True\<rparr>, [UD_abort])
      else (s\<lparr>ud_timeout := True, ud_is_local := True\<rparr>, [UD_send_Data usb_ask]))"

definition USBDriver_started :: "USBDriver \<Rightarrow> ud_result" where
  "USBDriver_started s =
     (if ud_version s = V_Unknown then USBDriver_xmit (s\<lparr>ud_version := V_Discovery\<rparr>) else (s, [UD_started]))"

definition USBDriver_timeout_cb :: "USBDriver \<Rightarrow> ud_result" where
  "USBDriver_timeout_cb s0 =
     (let s = s0\<lparr>ud_cnt := ud_cnt s0 + 1\<rparr>
      in if ud_cnt s < 5 then USBDriver_xmit s else (s\<lparr>ud_version := V_TIMEOUT\<rparr>, [UD_errored]))"

definition USBDriver_stopped :: "USBDriver \<Rightarrow> ud_result" where
  "USBDriver_stopped s = (if ud_version s = V_Discovery then s\<lparr>ud_timeout := False\<rparr> else s, [UD_stopped])"

definition USBDriver_do_send_Next :: "USBDriver \<Rightarrow> ud_result" where
  "USBDriver_do_send_Next s =
     (s, if ver_no (ud_version s) \<ge> 1 \<and> ver_no (ud_version s) \<le> 3 then [UD_send_Next] else [])"

text \<open>\<open>make_EMI\<close>; \<open>ok\<close> is the result of \<open>setup\<close> of the EMI driver.\<close>

definition USBDriver_make_EMI :: "bool \<Rightarrow> USBDriver \<Rightarrow> bool \<times> ud_result" where
  "USBDriver_make_EMI ok s =
     (let o1 = (if ud_version s \<noteq> V_Unknown then [UD_send_Init (ud_version s)] else [])
      in if ud_version s \<in> {V_EMI1, V_EMI2, V_CEMI} then (ok, s\<lparr>ud_emi := Some (ud_version s)\<rparr>, o1)
         else (ud_version s \<in> {V_Raw, V_Unknown}, s, o1))"

definition make_or_error :: "bool \<Rightarrow> USBDriver \<Rightarrow> ud_result" where
  "make_or_error ok s =
     (case USBDriver_make_EMI ok s of (True, r) \<Rightarrow> r | (False, s1, os) \<Rightarrow> (s1, os @ [UD_errored]))"

definition USBDriver_sendLocal_done_cb :: "bool \<Rightarrow> bool \<Rightarrow> USBDriver \<Rightarrow> ud_result" where
  "USBDriver_sendLocal_done_cb ok success s =
     (if \<not> success then (s\<lparr>ud_timeout := False\<rparr>, [UD_errored])
      else if ud_wait_make s then make_or_error ok (s\<lparr>ud_wait_make := False\<rparr>)
      else if ver_no (ud_version s) > 0 \<and> ver_no (ud_version s) < 4 then (s, [UD_iface_started])
      else (s, []))"

text \<open>The reply to the inquiry, and the version it stands for.\<close>

definition usb_reply :: "carray \<Rightarrow> bool" where
  "usb_reply c \<longleftrightarrow>
     length c = 64 \<and> c ! 0 = 0x01 \<and> c ! 1 AND 0x0f = 0x03 \<and> c ! 2 = 0x0b \<and> c ! 3 = 0x00 \<and> c ! 4 = 0x08 \<and>
     c ! 5 = 0x00 \<and> c ! 6 = 0x03 \<and> c ! 7 = 0x0F \<and> c ! 8 = 0x02 \<and> c ! 11 = 0x01"

definition usb_version :: "byte \<Rightarrow> EMIVersion" where
  "usb_version b =
     (if b AND 0x2 \<noteq> 0 then V_EMI2 else if b AND 0x1 \<noteq> 0 then V_EMI1 else if b AND 0x4 \<noteq> 0 then V_CEMI else V_ERROR)"

definition USBDriver_recv_Data :: "bool \<Rightarrow> carray \<Rightarrow> USBDriver \<Rightarrow> ud_result" where
  "USBDriver_recv_Data ok c s =
     (if ud_version s \<noteq> V_Discovery then (s, [])
      else if \<not> usb_reply c then (s, [])
      else
        let s1 = s\<lparr>ud_version := usb_version (c ! 13), ud_timeout := False\<rparr>
        in if ud_version s1 = V_ERROR then (s1, [UD_errored])
           else if ud_is_local s then (s1\<lparr>ud_wait_make := True\<rparr>, [])
           else make_or_error ok s1)"

text \<open>\<open>send_Next\<close> and \<open>local_timeout_cb\<close> of \<open>LowLevelIface\<close>.\<close>

definition USBDriver_send_Next :: "bool \<Rightarrow> USBDriver \<Rightarrow> ud_result" where
  "USBDriver_send_Next ok s =
     (if ud_is_local s then USBDriver_sendLocal_done_cb ok True (s\<lparr>ud_is_local := False\<rparr>)
      else USBDriver_do_send_Next s)"

definition USBDriver_local_timeout_cb :: "USBDriver \<Rightarrow> ud_result" where
  "USBDriver_local_timeout_cb s = USBDriver_sendLocal_done_cb True False (s\<lparr>ud_is_local := False\<rparr>)"

text \<open>A timer fires only while it runs, and only once.\<close>

datatype ud_event = UDE_started | UDE_stopped | UDE_send_Next bool | UDE_recv bool carray | UDE_timeout | UDE_local_timeout

fun ud_step :: "USBDriver \<Rightarrow> ud_event \<Rightarrow> ud_result" where
  "ud_step s UDE_started = USBDriver_started s"
| "ud_step s UDE_stopped = USBDriver_stopped s"
| "ud_step s (UDE_send_Next ok) = USBDriver_send_Next ok s"
| "ud_step s (UDE_recv ok c) = USBDriver_recv_Data ok c s"
| "ud_step s UDE_timeout = (if ud_timeout s then USBDriver_timeout_cb (s\<lparr>ud_timeout := False\<rparr>) else (s, []))"
| "ud_step s UDE_local_timeout = (if ud_is_local s then USBDriver_local_timeout_cb s else (s, []))"

section \<open>Finding the device\<close>

text \<open>
  The descriptors libusb has of a device; \<open>None\<close> is a configuration whose descriptor cannot be read.
  \<open>dv_opens\<close>: the device can be opened.
\<close>

record usb_endpoint =
  ep_wMaxPacketSize :: nat
  ep_bEndpointAddress :: byte
  ep_bmAttributes :: byte

record usb_altsetting =
  as_bInterfaceClass :: byte
  as_bAlternateSetting :: int
  as_bInterfaceNumber :: int
  as_endpoints :: "usb_endpoint list"

record usb_config =
  cf_bConfigurationValue :: int
  cf_interface :: "usb_altsetting list list"

record usb_device =
  dv_bus :: int
  dv_address :: int
  dv_has_descriptor :: bool
  dv_configs :: "usb_config option list"
  dv_opens :: bool

record USBEndpoint =
  ue_bus :: int
  ue_device :: int
  ue_config :: int
  ue_altsetting :: int
  ue_interface :: int

record USBDevice =
  us_config :: int
  us_altsetting :: int
  us_interface :: int
  us_sendep :: byte
  us_recvep :: byte

text \<open>The loop over the endpoints: the last interrupt endpoint of each direction with packets of 64 bytes.\<close>

fun find_endpoints :: "usb_endpoint list \<Rightarrow> byte \<times> byte \<Rightarrow> byte \<times> byte" where
  "find_endpoints [] io = io"
| "find_endpoints (ep # eps) (inp, outp) =
     find_endpoints eps
       (if ep_wMaxPacketSize ep = 64 \<and> ep_bmAttributes ep AND 0x03 = 0x03
        then if ep_bEndpointAddress ep AND 0x80 \<noteq> 0 then (ep_bEndpointAddress ep, outp) else (inp, ep_bEndpointAddress ep)
        else (inp, outp))"

definition check_altsetting :: "usb_device \<Rightarrow> USBEndpoint \<Rightarrow> usb_config \<Rightarrow> usb_altsetting \<Rightarrow> USBDevice option" where
  "check_altsetting dev e cfg alts =
     (if as_bInterfaceClass alts \<noteq> 3 then None
      else if as_bAlternateSetting alts \<noteq> ue_altsetting e \<and> ue_altsetting e \<noteq> -1 then None
      else if as_bInterfaceNumber alts \<noteq> ue_interface e \<and> ue_interface e \<noteq> -1 then None
      else
        let (inp, outp) = find_endpoints (as_endpoints alts) (0, 0)
        in if inp = 0 \<or> outp = 0 then None
           else if dv_opens dev
           then Some \<lparr>us_config = cf_bConfigurationValue cfg, us_altsetting = as_bAlternateSetting alts,
                      us_interface = as_bInterfaceNumber alts, us_sendep = outp, us_recvep = inp\<rparr>
           else None)"

text \<open>The first result of a loop that ends with it.\<close>

fun first_some :: "('a \<Rightarrow> 'b option) \<Rightarrow> 'a list \<Rightarrow> 'b option" where
  "first_some f [] = None"
| "first_some f (x # xs) = (case f x of Some y \<Rightarrow> Some y | None \<Rightarrow> first_some f xs)"

definition check_config :: "usb_device \<Rightarrow> USBEndpoint \<Rightarrow> usb_config option \<Rightarrow> USBDevice option" where
  "check_config dev e c =
     (case c of
        None \<Rightarrow> None
      | Some cfg \<Rightarrow>
          if cf_bConfigurationValue cfg \<noteq> ue_config e \<and> ue_config e \<noteq> -1 then None
          else first_some (first_some (check_altsetting dev e cfg)) (cf_interface cfg))"

definition check_device :: "usb_device \<Rightarrow> USBEndpoint \<Rightarrow> USBDevice option" where
  "check_device dev e =
     (if dv_bus dev \<noteq> ue_bus e \<and> ue_bus e \<noteq> -1 then None
      else if dv_address dev \<noteq> ue_device e \<and> ue_device e \<noteq> -1 then None
      else if \<not> dv_has_descriptor dev then None
      else first_some (check_config dev e) (dv_configs dev))"

definition detectUSBEndpoint :: "usb_device list \<Rightarrow> USBEndpoint \<Rightarrow> USBDevice option" where
  "detectUSBEndpoint devs e = first_some (\<lambda>d. check_device d e) devs"

section \<open>Transfers\<close>

datatype UState = sNone | sStarted | sClaimed | sRunning | sConnected

fun state_no :: "UState \<Rightarrow> nat" where
  "state_no sNone = 0"
| "state_no sStarted = 1"
| "state_no sClaimed = 2"
| "state_no sRunning = 3"
| "state_no sConnected = 4"

text \<open>
  \<open>sendh\<close> and \<open>recvh\<close>: the pointer is not null; the flags that follow say whether libusb works on the
  transfer.  \<open>ul_loop\<close>: \<open>setup\<close> has created the event loop of libusb, and \<open>stop_\<close> has not deleted it.
\<close>

record USBLowLevelDriver =
  ul_state :: UState
  ul_stopping :: bool
  ul_loop :: bool
  ul_out :: carray
  ul_send_retry :: nat
  ul_sendh :: bool
  ul_send_active :: bool
  ul_recvh :: bool
  ul_recv_active :: bool

datatype ul_call =
    UL_submit carray
  | UL_recv_Data carray
  | UL_send_Next
  | UL_started
  | UL_stopped
  | UL_errored

type_synonym ul_result = "USBLowLevelDriver \<times> ul_call list"

definition ul_new :: USBLowLevelDriver where
  "ul_new =
     \<lparr>ul_state = sNone, ul_stopping = False, ul_loop = True, ul_out = [], ul_send_retry = 0, ul_sendh = False,
      ul_send_active = False, ul_recvh = False, ul_recv_active = False\<rparr>"

text \<open>The results of the calls of libusb.\<close>

record usb_env =
  v_open :: bool
  v_configure :: bool
  v_claim :: bool
  v_altsetting :: bool
  v_alloc :: bool
  v_submit :: bool

datatype usb_status = COMPLETED | TIMED_OUT | CANCELLED

definition report64 :: "carray \<Rightarrow> carray" where
  "report64 d = take 64 d @ replicate (64 - length d) 0"

definition USB_do_send :: "usb_env \<Rightarrow> USBLowLevelDriver \<Rightarrow> ul_result" where
  "USB_do_send v s =
     (if ul_sendh s \<or> state_no (ul_state s) < 2 \<or> ul_out s = [] then (s, [])
      else if \<not> v_alloc v then (s, [])
      else if \<not> v_submit v then (s\<lparr>ul_sendh := True\<rparr>, [])
      else (s\<lparr>ul_sendh := True, ul_send_active := True\<rparr>, [UL_submit (report64 (ul_out s))]))"

definition USB_send_Data :: "usb_env \<Rightarrow> carray \<Rightarrow> USBLowLevelDriver \<Rightarrow> ul_result" where
  "USB_send_Data v l s = (if ul_sendh s then (s, [UL_errored]) else USB_do_send v (s\<lparr>ul_out := l\<rparr>))"

text \<open>\<open>send_Next\<close> reaches \<open>do_send_Next\<close>, which clears \<open>out\<close>: this driver has no local commands of its own.\<close>

definition USB_write_trigger_cb :: "usb_env \<Rightarrow> usb_status \<Rightarrow> USBLowLevelDriver \<Rightarrow> ul_result" where
  "USB_write_trigger_cb v st s =
     (if \<not> ul_sendh s then (s, [])
      else if st = COMPLETED then (s\<lparr>ul_send_retry := 0, ul_sendh := False, ul_out := []\<rparr>, [UL_send_Next])
      else if st = TIMED_OUT
      then let s1 = s\<lparr>ul_send_retry := ul_send_retry s + 1, ul_sendh := False\<rparr>
           in if ul_send_retry s1 < 3 then USB_do_send v s1 else (s1, [UL_errored])
      else (s\<lparr>ul_sendh := False\<rparr>, [UL_errored]))"

definition StartUsbRecvTransfer :: "usb_env \<Rightarrow> USBLowLevelDriver \<Rightarrow> ul_result" where
  "StartUsbRecvTransfer v s = (if v_submit v then (s\<lparr>ul_recv_active := True\<rparr>, []) else (s, [UL_errored]))"

definition is_connection_state :: "carray \<Rightarrow> bool" where
  "is_connection_state buf \<longleftrightarrow> take 12 buf = [0x01, 0x13, 0x0A, 0x00, 0x08, 0x00, 0x02, 0x0F, 0x04, 0x00, 0x00, 0x03]"

definition get_connection_state :: "carray \<Rightarrow> bool" where
  "get_connection_state buf \<longleftrightarrow> buf ! 12 AND 0x1 \<noteq> 0"

text \<open>
  The handlers from here on may wait in \<open>stop_\<close> until both transfers have ended, and \<open>None\<close> means that they
  do not return.  \<open>stop\<close> is an argument of the handlers that call it; while \<open>stopping\<close> is set they do not.
\<close>

definition HandleReceiveUsb :: "(USBLowLevelDriver \<Rightarrow> ul_result option) \<Rightarrow> carray \<Rightarrow> USBLowLevelDriver \<Rightarrow> ul_result option" where
  "HandleReceiveUsb stop buf s =
     (if ul_stopping s \<or> \<not> is_connection_state buf then Some (s, [UL_recv_Data buf])
      else if get_connection_state buf
      then Some (if ul_state s = sRunning then (s\<lparr>ul_state := sConnected\<rparr>, [UL_recv_Data buf, UL_started])
                 else (s, [UL_recv_Data buf]))
      else if ul_state s = sConnected
      then map_option (apsnd (Cons (UL_recv_Data buf))) (stop (s\<lparr>ul_state := sRunning\<rparr>))
      else Some (s, [UL_recv_Data buf]))"

definition USB_read_trigger_cb ::
    "(USBLowLevelDriver \<Rightarrow> ul_result option) \<Rightarrow> usb_env \<Rightarrow> usb_status \<Rightarrow> carray \<Rightarrow> USBLowLevelDriver \<Rightarrow> ul_result option" where
  "USB_read_trigger_cb stop v st buf s =
     (if \<not> ul_recvh s then Some (s, [])
      else if st \<noteq> COMPLETED then Some (s\<lparr>ul_recvh := False\<rparr>, [UL_errored])
      else case HandleReceiveUsb stop buf s of
             None \<Rightarrow> None
           | Some (s1, o1) \<Rightarrow>
               if ul_state s1 \<noteq> sNone \<and> \<not> ul_stopping s1
               then let x = StartUsbRecvTransfer v s1 in Some (fst x, o1 @ snd x)
               else Some (s1\<lparr>ul_recvh := False\<rparr>, o1))"

text \<open>A transfer ends only if libusb works on it.\<close>

datatype usb_end = Sent usb_env usb_status | Received usb_env usb_status carray

fun usb_ended ::
    "(USBLowLevelDriver \<Rightarrow> ul_result option) \<Rightarrow> usb_end \<Rightarrow> USBLowLevelDriver \<Rightarrow> ul_result option" where
  "usb_ended stop (Sent v st) s =
     (if ul_send_active s then Some (USB_write_trigger_cb v st (s\<lparr>ul_send_active := False\<rparr>)) else Some (s, []))"
| "usb_ended stop (Received v st buf) s =
     (if ul_recv_active s then USB_read_trigger_cb stop v st buf (s\<lparr>ul_recv_active := False\<rparr>) else Some (s, []))"

text \<open>The loop of \<open>stop_\<close>: it runs the event loop while a transfer is left.\<close>

fun usb_wait :: "usb_end list \<Rightarrow> USBLowLevelDriver \<Rightarrow> ul_result option" where
  "usb_wait [] s = (if ul_sendh s \<or> ul_recvh s then None else Some (s, []))"
| "usb_wait (e # es) s =
     (if ul_sendh s \<or> ul_recvh s
      then case usb_ended (\<lambda>s. None) e s of
             None \<Rightarrow> None
           | Some (s1, o1) \<Rightarrow> map_option (apsnd (append o1)) (usb_wait es s1)
      else Some (s, []))"

definition USB_close :: "usb_end list \<Rightarrow> USBLowLevelDriver \<Rightarrow> ul_result option" where
  "USB_close es s =
     (let s1 = s\<lparr>ul_stopping := True, ul_state := (if state_no (ul_state s) > 2 then sClaimed else ul_state s)\<rparr>
      in map_option (apfst (\<lambda>s. s\<lparr>ul_loop := False, ul_state := sNone\<rparr>)) (usb_wait es s1))"

definition USB_stop :: "usb_end list \<Rightarrow> USBLowLevelDriver \<Rightarrow> ul_result option" where
  "USB_stop es s = map_option (apsnd (\<lambda>os. os @ [UL_stopped])) (USB_close es s)"

text \<open>\<open>start\<close>: every failure ends in \<open>stop\<close>.\<close>

definition USB_start :: "usb_env \<Rightarrow> usb_end list \<Rightarrow> USBLowLevelDriver \<Rightarrow> ul_result option" where
  "USB_start v es s0 =
     (let s = s0\<lparr>ul_stopping := False\<rparr>
      in if state_no (ul_state s) \<ge> 1 then Some (s, [])
         else if \<not> ul_loop s \<or> \<not> v_open v then USB_stop es s
         else if \<not> v_configure v \<or> \<not> v_claim v \<or> \<not> v_altsetting v then USB_stop es (s\<lparr>ul_state := sStarted\<rparr>)
         else if \<not> v_alloc v then USB_stop es (s\<lparr>ul_state := sClaimed, ul_recvh := False\<rparr>)
         else let x = StartUsbRecvTransfer v (s\<lparr>ul_state := sClaimed, ul_recvh := True\<rparr>)
              in Some ((fst x)\<lparr>ul_state := sRunning\<rparr>, snd x @ [UL_started]))"

text \<open>A transfer ends outside of \<open>stop_\<close>; \<open>es\<close> is what happens while a \<open>stop\<close> in it waits.\<close>

definition USB_ended :: "usb_end list \<Rightarrow> usb_end \<Rightarrow> USBLowLevelDriver \<Rightarrow> ul_result option" where
  "USB_ended es e s = usb_ended (USB_stop es) e s"

end
