(* ===== verification/Usb_Props.thy ===== *)
theory Usb_Props
  imports Usb
begin

text \<open>
  Properties of the USB driver: which EMI frames survive the way through a HID report, how often the
  device is asked for its version, which device is chosen, the cycle of a transfer, and the cases in which
  the driver cannot be stopped or started again.
\<close>

section \<open>Reports\<close>

lemma nth_after [simp]: "length xs = n \<Longrightarrow> (xs @ ys) ! n = ys ! 0"
  by (simp add: nth_append)

lemma usb_report_length: "ver_no v \<in> {1, 2, 3} \<Longrightarrow> r \<in> set (USBConverter_send_Data v l) \<Longrightarrow> length r = 64"
  unfolding USBConverter_send_Data_def by (auto simp: Let_def split: if_splits)

lemma of_nat_small: "n < 256 \<Longrightarrow> unat (of_nat n :: byte) = n"
  by (simp add: unsigned_of_nat take_bit_nat_eq_self)

text \<open>
  \<^bold>\<open>C29\<close>: what the converter of the daemon makes of an EMI frame, the converter on the other side takes
  out of the report unchanged, for all three protocols, if the frame has at most 48 bytes; a longer frame is
  dropped by the receiver, which allows 56 bytes for the body of a report where the sender fills up to 61.
\<close>

theorem usb_report_round_trip:
  assumes "v \<in> {V_EMI1, V_EMI2, V_CEMI}"
  shows "collect (USBConverter_recv_Data v) (USBConverter_send_Data v l) = (if length l \<le> 48 then [l] else [])"
proof -
  define l1 where "l1 = (if length l + 11 > 64 then 53 else length l)"
  define h where "h = [1, 0x13, of_nat (l1 + 8), 0, 0x08, 0, of_nat l1, 0x01, of_nat (ver_no v), 0, 0 :: byte]"
  define r where "r = h @ take l1 l @ replicate (53 - l1) 0"
  have n: "l1 \<le> 53" "l1 \<le> length l" unfolding l1_def by auto
  have v: "ver_no v \<in> {1, 2, 3}" "v \<noteq> V_Raw" using assms by auto
  have s: "USBConverter_send_Data v l = [r]"
    using v unfolding USBConverter_send_Data_def r_def h_def l1_def by (auto simp: Let_def)
  have len: "length r = 64" unfolding r_def h_def using n by simp
  have c: "r ! 0 = 1" "r ! 1 = 0x13" "r ! 2 = of_nat (l1 + 8)" "r ! 3 = 0" "r ! 4 = 8" "r ! 5 = 0" "r ! 6 = of_nat l1"
    "r ! 7 = 1" "r ! 8 = of_nat (ver_no v)" unfolding r_def h_def by simp_all
  have u: "unat (r ! 2) = l1 + 8" "unat (r ! 6) = l1" unfolding c using n by (simp_all only: of_nat_small)
  have d: "slice 11 l1 r = take l1 l" unfolding r_def h_def slice_def using n by simp
  have "USBConverter_recv_Data v r = (if l1 \<le> 48 then [take l1 l] else [])"
    using assms len u c(1,2,4,5,6,8,9) d n unfolding USBConverter_recv_Data_def by auto
  then show ?thesis unfolding s l1_def by auto
qed

theorem usb_report_round_trip_witness:
  "collect (USBConverter_recv_Data V_CEMI) (USBConverter_send_Data V_CEMI [0x29, 0x00, 0xBC]) = [[0x29, 0x00, 0xBC]] \<and>
   collect (USBConverter_recv_Data V_EMI2) (USBConverter_send_Data V_EMI2 (replicate 50 0x11)) = []"
  using usb_report_round_trip [of V_CEMI "[0x29, 0x00, 0xBC]"] usb_report_round_trip [of V_EMI2 "replicate 50 0x11"] by simp

section \<open>Discovery\<close>

definition inquiries :: "ud_call list \<Rightarrow> nat" where
  "inquiries os = length (filter (\<lambda>c. c = UD_send_Data usb_ask) os)"

text \<open>How many inquiries the driver may still make.\<close>

definition inquiries_left :: "USBDriver \<Rightarrow> nat" where
  "inquiries_left s = (if ud_version s = V_Unknown then 5 else if ud_timeout s then 4 - ud_cnt s else 0)"

definition ud_inv :: "USBDriver \<Rightarrow> bool" where
  "ud_inv s \<longleftrightarrow> (ud_version s = V_Unknown \<longrightarrow> \<not> ud_timeout s \<and> ud_cnt s = 0)"

lemma inquiries_simps [simp]:
  "inquiries [] = 0"
  "inquiries (c # os) = (if c = UD_send_Data usb_ask then 1 else 0) + inquiries os"
  "inquiries (os @ os') = inquiries os + inquiries os'"
  unfolding inquiries_def by auto

lemma usb_version_known [simp]: "usb_version b \<noteq> V_Unknown" "usb_version b \<noteq> V_Discovery"
  unfolding usb_version_def by simp_all

lemmas ud_defs = USBDriver_xmit_def USBDriver_started_def USBDriver_timeout_cb_def USBDriver_stopped_def
  USBDriver_do_send_Next_def USBDriver_make_EMI_def make_or_error_def USBDriver_sendLocal_done_cb_def
  USBDriver_recv_Data_def USBDriver_send_Next_def USBDriver_local_timeout_cb_def

lemma ud_step_inv:
  assumes "ud_inv s"
  shows "ud_inv (fst (ud_step s e))"
  using assms unfolding ud_inv_def
  by (cases e) (auto simp: ud_defs Let_def split: if_splits prod.splits bool.splits)

lemma ud_step_inquiries:
  assumes "ud_inv s"
  shows "inquiries (snd (ud_step s e)) + inquiries_left (fst (ud_step s e)) \<le> inquiries_left s"
  using assms unfolding ud_inv_def inquiries_left_def
  by (cases e) (auto simp: ud_defs Let_def split: if_splits prod.splits bool.splits)

interpretation usb_discovery: event_machine ud_step "\<lambda>_. True" ud_inv "\<lambda>_. True"
  by unfold_locales (simp_all add: ud_step_inv)

lemma ud_run_inquiries:
  "ud_inv s \<Longrightarrow> inquiries (snd (run_events ud_step s es)) + inquiries_left (fst (run_events ud_step s es)) \<le> inquiries_left s"
proof (induction es rule: rev_induct)
  case (snoc e es)
  have "ud_inv (fst (run_events ud_step s es))" by (rule usb_discovery.run_inv) (simp_all add: snoc.prems list_all_iff)
  from ud_step_inquiries [OF this, of e] snoc show ?case by (simp add: run_events_append Let_def split_beta)
qed simp

text \<open>
  The device is asked for its version at most five times, whatever it answers, however often the
  driver is started and stopped and whenever its timers fire; and the driver that is put on top of the
  converter in the end is the one for the version in the answer.
\<close>

theorem usb_discovery_bounded:
  "inquiries (snd (run_events ud_step (USBDriver_new v) es)) \<le> 5 \<and>
   (usb_reply c \<longrightarrow> usb_version (c ! 13) \<noteq> V_ERROR \<longrightarrow>
      USBDriver_recv_Data True c ((USBDriver_new V_Discovery)\<lparr>ud_cnt := n, ud_timeout := True\<rparr>) =
        ((USBDriver_new (usb_version (c ! 13)))\<lparr>ud_cnt := n, ud_emi := Some (usb_version (c ! 13))\<rparr>,
         [UD_send_Init (usb_version (c ! 13))]))"
proof
  have "ud_inv (USBDriver_new v)" unfolding ud_inv_def USBDriver_new_def by simp
  from ud_run_inquiries [OF this, of es] show "inquiries (snd (run_events ud_step (USBDriver_new v) es)) \<le> 5"
    unfolding inquiries_left_def by (auto simp: USBDriver_new_def split: if_splits)
  show "usb_reply c \<longrightarrow> usb_version (c ! 13) \<noteq> V_ERROR \<longrightarrow>
      USBDriver_recv_Data True c ((USBDriver_new V_Discovery)\<lparr>ud_cnt := n, ud_timeout := True\<rparr>) =
        ((USBDriver_new (usb_version (c ! 13)))\<lparr>ud_cnt := n, ud_emi := Some (usb_version (c ! 13))\<rparr>,
         [UD_send_Init (usb_version (c ! 13))])"
    by (auto simp: USBDriver_recv_Data_def USBDriver_new_def make_or_error_def USBDriver_make_EMI_def Let_def
        usb_version_def split: if_splits)
qed

definition sample_reply :: carray where
  "sample_reply = [0x01, 0x13, 0x0b, 0, 0x08, 0, 0x03, 0x0F, 0x02, 0, 0, 0x01, 0, 0x04] @ replicate 50 0"

theorem usb_discovery_bounded_witness:
  "USBDriver_recv_Data True sample_reply ((USBDriver_new V_Discovery)\<lparr>ud_cnt := 2, ud_timeout := True\<rparr>) =
     ((USBDriver_new V_CEMI)\<lparr>ud_cnt := 2, ud_emi := Some V_CEMI\<rparr>, [UD_send_Init V_CEMI])"
proof -
  have "usb_reply sample_reply" "usb_version (sample_reply ! 13) = V_CEMI" by code_simp+
  then show ?thesis using usb_discovery_bounded [of V_Unknown "[]" sample_reply 2] by simp
qed

section \<open>Finding the device\<close>

lemma first_some_Some: "first_some f xs = Some y \<Longrightarrow> \<exists>x \<in> set xs. f x = Some y"
  by (induction xs) (auto split: option.splits)

lemma first_some_None: "first_some f xs = None \<longleftrightarrow> (\<forall>x \<in> set xs. f x = None)"
  by (induction xs) (auto split: option.splits)

text \<open>An interrupt endpoint with packets of 64 bytes; \<open>i\<close>: of direction in.\<close>

definition report_endpoint :: "bool \<Rightarrow> usb_endpoint \<Rightarrow> bool" where
  "report_endpoint i ep \<longleftrightarrow>
     ep_wMaxPacketSize ep = 64 \<and> and (ep_bmAttributes ep) 0x03 = 0x03 \<and> (and (ep_bEndpointAddress ep) 0x80 \<noteq> 0) = i"

definition last_address :: "bool \<Rightarrow> usb_endpoint list \<Rightarrow> byte \<Rightarrow> byte" where
  "last_address i eps a = foldl (\<lambda>a ep. if report_endpoint i ep then ep_bEndpointAddress ep else a) a eps"

lemma find_endpoints_last: "find_endpoints eps (a, b) = (last_address True eps a, last_address False eps b)"
  by (induction eps arbitrary: a b) (auto simp: last_address_def report_endpoint_def)

lemma last_address_in: "last_address i eps 0 \<noteq> 0 \<Longrightarrow> \<exists>ep \<in> set eps. report_endpoint i ep \<and> last_address i eps 0 = ep_bEndpointAddress ep"
proof (induction eps rule: rev_induct)
  case (snoc ep eps)
  then show ?case by (cases "report_endpoint i ep") (auto simp: last_address_def)
qed (simp add: last_address_def)

text \<open>A place in the descriptors of a device that fits the request and can be used.\<close>

definition fits_request :: "int \<Rightarrow> int \<Rightarrow> bool" where
  "fits_request x wanted \<longleftrightarrow> x = wanted \<or> wanted = -1"

definition usable :: "usb_device \<Rightarrow> USBEndpoint \<Rightarrow> usb_config \<Rightarrow> usb_altsetting \<Rightarrow> bool" where
  "usable dev e cfg alts \<longleftrightarrow>
     fits_request (dv_bus dev) (ue_bus e) \<and> fits_request (dv_address dev) (ue_device e) \<and> dv_has_descriptor dev \<and>
     Some cfg \<in> set (dv_configs dev) \<and> fits_request (cf_bConfigurationValue cfg) (ue_config e) \<and>
     alts \<in> \<Union> (set ` set (cf_interface cfg)) \<and> as_bInterfaceClass alts = 3 \<and>
     fits_request (as_bAlternateSetting alts) (ue_altsetting e) \<and> fits_request (as_bInterfaceNumber alts) (ue_interface e) \<and>
     last_address True (as_endpoints alts) 0 \<noteq> 0 \<and> last_address False (as_endpoints alts) 0 \<noteq> 0 \<and> dv_opens dev"

definition chosen :: "usb_config \<Rightarrow> usb_altsetting \<Rightarrow> USBDevice" where
  "chosen cfg alts =
     \<lparr>us_config = cf_bConfigurationValue cfg, us_altsetting = as_bAlternateSetting alts,
      us_interface = as_bInterfaceNumber alts, us_sendep = last_address False (as_endpoints alts) 0,
      us_recvep = last_address True (as_endpoints alts) 0\<rparr>"

lemma check_altsetting_usable:
  "check_altsetting dev e cfg alts =
     (if as_bInterfaceClass alts = 3 \<and> fits_request (as_bAlternateSetting alts) (ue_altsetting e) \<and>
         fits_request (as_bInterfaceNumber alts) (ue_interface e) \<and> last_address True (as_endpoints alts) 0 \<noteq> 0 \<and>
         last_address False (as_endpoints alts) 0 \<noteq> 0 \<and> dv_opens dev
      then Some (chosen cfg alts) else None)"
  unfolding check_altsetting_def chosen_def fits_request_def by (auto simp: find_endpoints_last)

lemma check_config_fits:
  "check_config dev e (Some cfg) =
     (if fits_request (cf_bConfigurationValue cfg) (ue_config e)
      then first_some (first_some (check_altsetting dev e cfg)) (cf_interface cfg) else None)"
  unfolding check_config_def fits_request_def by simp

lemma check_device_fits:
  "check_device dev e =
     (if fits_request (dv_bus dev) (ue_bus e) \<and> fits_request (dv_address dev) (ue_device e) \<and> dv_has_descriptor dev
      then first_some (check_config dev e) (dv_configs dev) else None)"
  unfolding check_device_def fits_request_def by simp

lemma check_device_Some:
  assumes "check_device dev e = Some u"
  shows "\<exists>cfg alts. usable dev e cfg alts \<and> u = chosen cfg alts"
proof -
  have r: "fits_request (dv_bus dev) (ue_bus e)" "fits_request (dv_address dev) (ue_device e)" "dv_has_descriptor dev"
    and f: "first_some (check_config dev e) (dv_configs dev) = Some u"
    using assms unfolding check_device_fits by (simp_all split: if_splits)
  obtain c where c: "c \<in> set (dv_configs dev)" "check_config dev e c = Some u" using first_some_Some [OF f] by blast
  obtain cfg where cfg: "c = Some cfg" using c(2) by (cases c) (simp_all add: check_config_def)
  have q: "fits_request (cf_bConfigurationValue cfg) (ue_config e)"
    and g: "first_some (first_some (check_altsetting dev e cfg)) (cf_interface cfg) = Some u"
    using c(2) unfolding cfg check_config_fits by (simp_all split: if_splits)
  obtain intf where i: "intf \<in> set (cf_interface cfg)" "first_some (check_altsetting dev e cfg) intf = Some u"
    using first_some_Some [OF g] by blast
  obtain alts where a: "alts \<in> set intf" "check_altsetting dev e cfg alts = Some u" using first_some_Some [OF i(2)] by blast
  have in_cfg: "alts \<in> \<Union> (set ` set (cf_interface cfg))" using i(1) a(1) by blast
  have "usable dev e cfg alts" "u = chosen cfg alts"
    using r c(1) q in_cfg a(2) unfolding cfg usable_def check_altsetting_usable by (simp_all split: if_splits)
  then show ?thesis by blast
qed

lemma check_device_None:
  assumes n: "check_device dev e = None"
  shows "\<not> usable dev e cfg alts"
proof
  assume u: "usable dev e cfg alts"
  have "first_some (check_config dev e) (dv_configs dev) = None"
    using n u unfolding check_device_fits usable_def by simp
  then have "check_config dev e (Some cfg) = None" using u unfolding first_some_None usable_def by blast
  then have "first_some (first_some (check_altsetting dev e cfg)) (cf_interface cfg) = None"
    using u unfolding check_config_fits usable_def by simp
  then have "check_altsetting dev e cfg alts = None" using u unfolding first_some_None usable_def by blast
  then show False using u unfolding usable_def check_altsetting_usable by simp
qed

text \<open>
  \<^bold>\<open>C28\<close>: the search for the USB interface is sound and complete: it finds a device exactly if one of
  those connected has an HID interface that fits what the configuration asks for, with interrupt endpoints
  for reports of 64 bytes in both directions, and can be opened; and what it returns is such a place, with
  the numbers of its endpoints.
\<close>

theorem usb_device_choice:
  "(detectUSBEndpoint devs e \<noteq> None) = (\<exists>dev cfg alts. dev \<in> set devs \<and> usable dev e cfg alts) \<and>
   set_option (detectUSBEndpoint devs e) \<subseteq> {chosen cfg alts | dev cfg alts. dev \<in> set devs \<and> usable dev e cfg alts}"
proof (cases "detectUSBEndpoint devs e")
  case None
  then have "\<forall>dev \<in> set devs. check_device dev e = None" unfolding detectUSBEndpoint_def first_some_None by blast
  then show ?thesis using None check_device_None by auto
next
  case (Some u)
  then obtain dev where "dev \<in> set devs" "check_device dev e = Some u"
    using first_some_Some [of "\<lambda>d. check_device d e" devs u] unfolding detectUSBEndpoint_def by blast
  moreover then obtain cfg alts where "usable dev e cfg alts" "u = chosen cfg alts" using check_device_Some by blast
  ultimately show ?thesis using Some by auto
qed

section \<open>Transfers\<close>

text \<open>A driver that is up and idle.\<close>

definition usb_idle :: "USBLowLevelDriver \<Rightarrow> bool" where
  "usb_idle s \<longleftrightarrow> state_no (ul_state s) \<ge> 3 \<and> \<not> ul_sendh s \<and> \<not> ul_send_active s \<and> ul_send_retry s = 0"

definition good_env :: usb_env where
  "good_env = \<lparr>v_open = True, v_configure = True, v_claim = True, v_altsetting = True, v_alloc = True, v_submit = True\<rparr>"

fun run_ended :: "usb_end list \<Rightarrow> USBLowLevelDriver \<Rightarrow> ul_result option" where
  "run_ended [] s = Some (s, [])"
| "run_ended (e # es) s =
     (case USB_ended [] e s of None \<Rightarrow> None | Some (s1, o1) \<Rightarrow> map_option (apsnd (append o1)) (run_ended es s1))"

text \<open>The state while a report is under way for the \<open>n\<close>th time.\<close>

definition usb_sending :: "USBLowLevelDriver \<Rightarrow> carray \<Rightarrow> nat \<Rightarrow> USBLowLevelDriver" where
  "usb_sending s l n = s\<lparr>ul_out := l, ul_sendh := True, ul_send_active := True, ul_send_retry := n\<rparr>"

lemma usb_send_first:
  "usb_idle s \<Longrightarrow> l \<noteq> [] \<Longrightarrow> USB_send_Data good_env l s = (usb_sending s l 0, [UL_submit (report64 l)])"
  unfolding USB_send_Data_def USB_do_send_def usb_idle_def usb_sending_def good_env_def by simp

lemma usb_sent:
  "USB_ended es (Sent v COMPLETED) (usb_sending s l n) =
     Some (s\<lparr>ul_out := [], ul_sendh := False, ul_send_active := False, ul_send_retry := 0\<rparr>, [UL_send_Next])"
  unfolding USB_ended_def usb_sending_def by (simp add: USB_write_trigger_cb_def)

lemma usb_sent_timeout:
  assumes "usb_idle s" "l \<noteq> []"
  shows "USB_ended es (Sent good_env TIMED_OUT) (usb_sending s l n) =
     (if n < 2 then Some (usb_sending s l (Suc n), [UL_submit (report64 l)])
      else Some (s\<lparr>ul_out := l, ul_sendh := False, ul_send_active := False, ul_send_retry := Suc n\<rparr>, [UL_errored]))"
  using assms unfolding USB_ended_def usb_sending_def usb_idle_def good_env_def
  by (simp add: USB_write_trigger_cb_def USB_do_send_def)

lemma usb_timeouts:
  assumes "usb_idle s" "l \<noteq> []"
  shows "n + j \<le> 2 \<Longrightarrow> run_ended (replicate j (Sent good_env TIMED_OUT) @ es) (usb_sending s l n) =
    map_option (apsnd (append (replicate j (UL_submit (report64 l))))) (run_ended es (usb_sending s l (n + j)))"
proof (induction j arbitrary: n)
  case 0
  show ?case by (cases "run_ended es (usb_sending s l n)") auto
next
  case (Suc j)
  then have "n < 2" "Suc n + j \<le> 2" by auto
  then show ?case
    using Suc.IH [of "Suc n"] by (cases "run_ended es (usb_sending s l (Suc n + j))") (auto simp: usb_sent_timeout [OF assms])
qed



section \<open>Stopping\<close>

text \<open>
  A receive transfer that libusb does not work on any more never ends, and the loop of \<open>stop_\<close> waits for it
  whatever else happens.
\<close>

lemma usb_wait_forever: "ul_recvh s \<Longrightarrow> \<not> ul_recv_active s \<Longrightarrow> usb_wait es s = None"
proof (induction es arbitrary: s)
  case (Cons e es)
  have "\<exists>s1 o1. usb_ended (\<lambda>s. None) e s = Some (s1, o1) \<and> ul_recvh s1 \<and> \<not> ul_recv_active s1"
    using Cons.prems by (cases e) (auto simp: USB_write_trigger_cb_def USB_do_send_def Let_def)
  then show ?case using Cons.IH Cons.prems by auto
qed simp

text \<open>
  When the device reports that it has lost its connection, the driver stops itself from the handler of the
  very transfer it then waits for: the handler never returns.
\<close>

theorem usb_disconnect_hangs:
  assumes "ul_state s = sConnected" "\<not> ul_stopping s" "ul_recvh s" "ul_recv_active s"
    "is_connection_state buf" "\<not> get_connection_state buf"
  shows "USB_ended es (Received v COMPLETED buf) s = None"
  using assms usb_wait_forever [of "s\<lparr>ul_recv_active := False, ul_stopping := True, ul_state := sClaimed\<rparr>" es]
  unfolding USB_ended_def
  by (simp add: USB_read_trigger_cb_def HandleReceiveUsb_def USB_stop_def USB_close_def)

lemma usb_wait_done: "usb_wait es s = Some (s1, os) \<Longrightarrow> \<not> ul_sendh s1 \<and> \<not> ul_recvh s1"
  by (induction es arbitrary: s os) (auto split: if_splits option.splits)

lemma usb_wait_idle: "\<not> ul_sendh s \<Longrightarrow> \<not> ul_recvh s \<Longrightarrow> usb_wait es s = Some (s, [])"
  by (cases es) simp_all

text \<open>
  A driver that was stopped cannot be started again: \<open>stop_\<close> deletes the event loop of libusb, which only
  \<open>setup\<close> creates, and a link that is restarted does not call \<open>setup\<close>.
\<close>

theorem usb_restart_fails:
  assumes "USB_stop es s = Some (s1, os)"
  shows "map_option snd (USB_start v es' s1) = Some [UL_stopped]"
proof -
  obtain s2 where w: "usb_wait es (s\<lparr>ul_stopping := True, ul_state := (if state_no (ul_state s) > 2 then sClaimed else ul_state s)\<rparr>) = Some s2"
    and s1: "s1 = (fst s2)\<lparr>ul_loop := False, ul_state := sNone\<rparr>"
    using assms unfolding USB_stop_def USB_close_def Let_def by auto
  have h: "\<not> ul_sendh (fst s2)" "\<not> ul_recvh (fst s2)"
    using usb_wait_done [of es _ "fst s2" "snd s2"] w by simp_all
  show ?thesis
    unfolding s1 USB_start_def USB_stop_def USB_close_def Let_def by (simp add: usb_wait_idle h)
qed

end
